(* ===== verification/Prelude.thy ===== *)
theory Prelude
  imports Main "HOL-Library.Word"
begin

text \<open>
  Shared vocabulary of the development: bytes and byte strings, the little-endian and
  big-endian codecs of Go's \<^verbatim>\<open>encoding/binary\<close>, Go slices, hexadecimal formatting as done by
  \<^verbatim>\<open>fmt.Sprintf\<close>, and the collections of lemmas the component theories rely on.

  \<^item> \<open>wire\<close> collects the round-trip and length lemmas of the byte codecs;
  \<^item> \<open>model_defs\<close> collects the definitions that a concrete evaluation unfolds.
\<close>

unbundle bit_operations_syntax

named_theorems wire \<open>length and round-trip lemmas of byte codecs\<close>
named_theorems model_defs \<open>definitions unfolded when a concrete input is evaluated\<close>

type_synonym byte = "8 word"
type_synonym bytes = "8 word list"
type_synonym u16 = "16 word"
type_synonym u32 = "32 word"
type_synonym u64 = "64 word"

section \<open>Slices and list lemmas\<close>

text \<open>The Go slice expression \<^verbatim>\<open>xs[i:j]\<close>; the bounds check is the caller's.\<close>

definition slice :: "nat \<Rightarrow> nat \<Rightarrow> 'a list \<Rightarrow> 'a list" where
  "slice i j xs = take (j - i) (drop i xs)"

lemma length_slice [simp]: "j \<le> length xs \<Longrightarrow> length (slice i j xs) = j - i"
  by (auto simp: slice_def)

lemma slice_append_middle [simp]:
  "length a = i \<Longrightarrow> length a + length b = j \<Longrightarrow> slice i j (a @ b @ c) = b"
  by (auto simp: slice_def)

lemma slice_append_end [simp]:
  "length a = i \<Longrightarrow> length a + length b = j \<Longrightarrow> slice i j (a @ b) = b"
  by (auto simp: slice_def)

lemma take_drop_le: "length xs = n + m \<Longrightarrow> length (drop n xs) = m"
  by simp

lemma list_all_concat: "list_all P (concat xss) = list_all (list_all P) xss"
  by (induction xss) auto

section \<open>Little-endian and big-endian integers\<close>

text \<open>
  \<open>le_get\<close> is \<^verbatim>\<open>uintN(b[0]) | uintN(b[1])<<8 | ...\<close> and \<open>le_put n w\<close> writes the \<open>n\<close> low
  bytes of a word, \<^verbatim>\<open>byte(w), byte(w>>8), ...\<close>, which is what \<^verbatim>\<open>binary.LittleEndian\<close> does for
  2, 4 and 8 bytes and what the source spells out by hand for 3, 5 and 6.
\<close>

primrec le_get :: "bytes \<Rightarrow> 'a::len word" where
  "le_get [] = 0"
| "le_get (b # bs) = ucast b OR push_bit 8 (le_get bs)"

primrec le_put :: "nat \<Rightarrow> 'a::len word \<Rightarrow> bytes" where
  "le_put 0 w = []"
| "le_put (Suc n) w = ucast w # le_put n (drop_bit 8 w)"

definition be_get :: "bytes \<Rightarrow> 'a::len word" where
  "be_get bs = le_get (rev bs)"

lemma length_le_put [simp, wire]: "length (le_put n w) = n"
  by (induction n arbitrary: w) auto

lemma bit_le_get:
  "bit (le_get bs :: 'a::len word) k \<longleftrightarrow>
     k < LENGTH('a) \<and> k < 8 * length bs \<and> bit (bs ! (k div 8)) (k mod 8)"
proof (induction bs arbitrary: k)
  case Nil
  then show ?case by simp
next
  case (Cons b bs)
  show ?case
  proof (cases "k < 8")
    case True
    then show ?thesis by (auto simp: bit_simps)
  next
    case False
    then obtain j where k: "k = j + 8"
      by (metis add.commute le_add_diff_inverse not_less)
    have "\<not> bit b k" using False by (auto dest: bit_imp_le_length)
    then show ?thesis by (auto simp: bit_simps k Cons.IH div_add_self2)
  qed
qed

lemma nth_le_put: "i < n \<Longrightarrow> le_put n w ! i = ucast (drop_bit (8 * i) w)"
proof (induction n arbitrary: w i)
  case 0
  then show ?case by simp
next
  case (Suc n)
  then show ?case by (cases i) (auto simp: drop_bit_drop_bit add.commute)
qed

lemma le_get_put [wire]:
  assumes "LENGTH('a) \<le> 8 * n"
  shows "le_get (le_put n (w :: 'a::len word)) = w"
proof (rule bit_eqI)
  fix k assume "possible_bit TYPE('a word) k"
  then have k: "k < LENGTH('a)" by simp
  with assms have "k div 8 < n" by (simp add: less_mult_imp_div_less mult.commute)
  moreover have "8 * (k div 8) + k mod 8 = k" by simp
  ultimately show "bit (le_get (le_put n w) :: 'a word) k \<longleftrightarrow> bit w k"
    using k assms by (simp add: bit_le_get nth_le_put bit_simps)
qed

text \<open>Reading back fewer bytes than the word is wide gives its low part.\<close>

lemma le_get_put_take:
  "(le_get (le_put n (w :: 'a::len word)) :: 'a word) = take_bit (8 * n) w"
proof (rule bit_eqI)
  fix k assume "possible_bit TYPE('a word) k"
  then have k: "k < LENGTH('a)" by simp
  have "8 * (k div 8) + k mod 8 = k" by simp
  then show "bit (le_get (le_put n w) :: 'a word) k \<longleftrightarrow> bit (take_bit (8 * n) w) k"
    using k by (auto simp: bit_le_get nth_le_put bit_simps less_mult_imp_div_less mult.commute)
qed

lemma le_put_get [wire]:
  assumes "length bs = n" and "8 * n \<le> LENGTH('a)"
  shows "le_put n (le_get bs :: 'a::len word) = bs"
proof (rule nth_equalityI)
  show "length (le_put n (le_get bs :: 'a word)) = length bs" using assms by simp
next
  fix i assume "i < length (le_put n (le_get bs :: 'a word))"
  then have i: "i < n" by simp
  show "le_put n (le_get bs :: 'a word) ! i = bs ! i"
  proof (rule bit_eqI)
    fix k assume "possible_bit TYPE(8 word) k"
    then have k: "k < 8" by simp
    then have "8 * i + k < 8 * n" using i by simp
    with assms i k show "bit (le_put n (le_get bs :: 'a word) ! i) k \<longleftrightarrow> bit (bs ! i) k"
      by (simp add: nth_le_put bit_simps bit_le_get div_mult_self4)
  qed
qed

lemma le_get_inj:
  assumes "length xs = n" "length ys = n" "8 * n \<le> LENGTH('a)"
    and "(le_get xs :: 'a::len word) = le_get ys"
  shows "xs = ys"
  using assms le_put_get[where 'a='a] by metis

text \<open>A 16-bit integer read from the two bytes at an offset.\<close>

abbreviation le16 :: "byte \<Rightarrow> byte \<Rightarrow> u16" where
  "le16 a b \<equiv> le_get [a, b]"

lemma le_put2: "le_put 2 w = [ucast w, ucast (drop_bit 8 w)]"
  by (simp add: numeral_2_eq_2)

lemma le16_put [simp, wire]: "le16 (ucast w) (ucast (drop_bit 8 w)) = (w :: u16)"
  using le_get_put[of 2 w] by (simp add: le_put2)

lemma le16_put_bits [simp]:
  "ucast (ucast w :: byte) OR push_bit 8 (ucast (ucast (drop_bit 8 w) :: byte)) = (w :: u16)"
  using le16_put[of w] by (simp del: le16_put)

lemma unat_le_get_bound: "unat (le_get bs :: 'a::len word) < 2 ^ (8 * length bs)"
proof -
  have "(le_get bs :: 'a word) = take_bit (8 * length bs) (le_get bs)"
    by (rule bit_eqI) (auto simp: bit_simps bit_le_get)
  then show ?thesis
    by (metis take_bit_nat_less_exp unsigned_take_bit_eq)
qed

lemma le16_eq: "le16 a b = w \<longleftrightarrow> a = ucast w \<and> b = ucast (drop_bit 8 w)"
proof
  assume "le16 a b = w"
  then have "[a, b] = [ucast w, ucast (drop_bit 8 w)]"
    by (intro le_get_inj[of "[a, b]" 2 _, where 'a=16]) (simp_all del: le_get.simps)
  then show "a = ucast w \<and> b = ucast (drop_bit 8 w)" by simp
qed (simp del: le_get.simps)

lemma if_neq: "x \<noteq> z \<Longrightarrow> y \<noteq> z \<Longrightarrow> (if c then x else y) \<noteq> z"
  by simp

lemma if_neqI:
  "x \<noteq> z \<Longrightarrow> (y = z \<longleftrightarrow> q) \<Longrightarrow> (if c then x else y) = z \<longleftrightarrow> \<not> c \<and> q"
  "y \<noteq> z \<Longrightarrow> (if c then z else y) = z \<longleftrightarrow> c"
  by simp_all

section \<open>Conversions between widths\<close>

lemma le_get_put_ucast:
  "(le_get (le_put n (w :: 'a::len word)) :: 'b::len word) = ucast (take_bit (8 * n) w)"
proof (rule bit_eqI)
  fix k assume "possible_bit TYPE('b word) k"
  then have k: "k < LENGTH('b)" by simp
  have "8 * (k div 8) + k mod 8 = k" by simp
  moreover have "bit w k \<Longrightarrow> k < LENGTH('a)" by (rule bit_imp_le_length)
  ultimately show "bit (le_get (le_put n w) :: 'b word) k \<longleftrightarrow>
      bit (ucast (take_bit (8 * n) w) :: 'b word) k"
    using k by (auto simp: bit_le_get nth_le_put bit_simps less_mult_imp_div_less mult.commute)
qed


lemma signed_take_bit_cong:
  assumes "take_bit (Suc n) (a::int) = take_bit (Suc n) b"
  shows "signed_take_bit n a = signed_take_bit n b"
  using assms by (simp add: signed_take_bit_eq_iff_take_bit_eq)

lemma sint_ucast_small: 
  assumes "- (2 ^ (LENGTH('b) - 1)) \<le> sint (w :: 'a::len word)" "sint w < 2 ^ (LENGTH('b) - 1)"
    "LENGTH('b) \<le> LENGTH('a)"
  shows "sint (ucast w :: 'b::len word) = sint w"
proof -
  have "take_bit LENGTH('b) (uint w) = take_bit LENGTH('b) (sint w)"
    using assms(3) by (simp add: uint_sint min_absorb1)
  then have "signed_take_bit (LENGTH('b) - 1) (take_bit LENGTH('b) (uint w))
      = signed_take_bit (LENGTH('b) - 1) (sint w)"
    by (intro signed_take_bit_cong) simp
  also have "\<dots> = sint w" using assms(1,2) by (rule signed_take_bit_int_eq_self)
  finally show ?thesis
    by (simp only: sint_uint[of "ucast w :: 'b word"] unsigned_ucast_eq One_nat_def)
qed

lemma uint_nonneg_sint:
  assumes "\<not> w <s 0" shows "uint w = sint (w :: 'a::len word)"
proof -
  have "0 \<le> sint w" using assms by (simp add: word_sless_alt)
  moreover have "sint w < 2 ^ LENGTH('a)"
    by (rule order_less_le_trans [OF sint_lt]) simp
  ultimately show ?thesis
    unfolding uint_sint by (simp add: take_bit_int_eq_self)
qed

lemma sint_uint_small:
  assumes "uint (w :: 'a::len word) < 2 ^ (LENGTH('a) - 1)" shows "sint w = uint w"
  unfolding sint_uint by (rule signed_take_bit_int_eq_self) (use assms in \<open>auto simp: order.trans[OF _ unsigned_greater_eq]\<close>)

lemma sint_ucast_up:
  assumes "LENGTH('a) < LENGTH('b)"
  shows "sint (ucast (w::'a::len word) :: 'b::len word) = uint w"
proof -
  have u: "uint (ucast w :: 'b word) = uint w" 
    using assms order_less_le_trans[OF uint_bounded[of w], of "2 ^ LENGTH('b)"]
    by (simp add: unsigned_ucast_eq take_bit_int_eq_self)
  have "uint w < 2 ^ (LENGTH('b) - 1)"
    by (rule order_less_le_trans [OF uint_bounded]) (use assms in simp)
  with u sint_uint_small[of "ucast w :: 'b word"] show ?thesis by simp
qed

lemma sint_scast_up:
  "LENGTH('a) \<le> LENGTH('b) \<Longrightarrow> sint (scast (w::'a::len word) :: 'b::len word) = sint w"
  by (rule sint_up_scast) (simp add: is_up)

lemma uint_ucast_small:
  assumes "uint (w :: 'a::len word) < 2 ^ LENGTH('b)"
  shows "uint (ucast w :: 'b::len word) = uint w"
  using assms by (simp add: unsigned_ucast_eq take_bit_int_eq_self)

lemma take_bit_word_small:
  assumes "uint (w :: 'a::len word) < 2 ^ n" shows "take_bit n w = w"
  by (rule unsigned_word_eqI[where 'a=int]) (use assms in \<open>simp add: unsigned_take_bit_eq take_bit_int_eq_self\<close>)
lemma xor_cancel_right [simp]: "(a :: 'a::len word) XOR c = b XOR c \<longleftrightarrow> a = b"
  by (metis xor.assoc xor.right_neutral xor_self_eq)

lemma xor_cancel_left [simp]: "c XOR (a :: 'a::len word) = c XOR b \<longleftrightarrow> a = b"
  by (metis xor.commute xor_cancel_right)

lemma xor_eq_0: "(a :: 'a::len word) XOR b = 0 \<longleftrightarrow> a = b"
  by (metis xor_cancel_right xor_self_eq)

lemma ucast_up_inj:
  assumes "LENGTH('a) \<le> LENGTH('b)"
  shows "(ucast a :: 'b::len word) = ucast b \<longleftrightarrow> a = (b :: 'a::len word)"
proof
  assume e: "(ucast a :: 'b word) = ucast b"
  show "a = b"
  proof (rule bit_eqI)
    fix n assume "possible_bit TYPE('a word) n"
    then have "n < LENGTH('b)" using assms by simp
    with e show "bit a n \<longleftrightarrow> bit b n" by (metis bit_ucast_iff possible_bit_word)
  qed
qed simp

text \<open>A 16-bit size plus 2, with the wrap-around.\<close>

lemma unat_add_2_u16: "unat (2 + s :: u16) = (unat s + 2) mod 65536"
proof -
  have "unat (2 + s) = (unat (2::u16) + unat s) mod 2 ^ LENGTH(16)" by (rule unat_word_ariths(1))
  moreover have "unat (2::u16) = 2" by simp
  moreover have "(2::nat) ^ LENGTH(16) = 65536" by simp
  ultimately show ?thesis by (metis add.commute)
qed
lemma unat_u16_less: "unat (s :: u16) < 65536"
proof -
  have "unat s < 2 ^ LENGTH(16)" by (rule unsigned_less)
  moreover have "(2::nat) ^ LENGTH(16) = 65536" by simp
  ultimately show ?thesis by metis
qed
lemma unat_add_2_less_7: "unat (2 + s :: u16) < 7 \<longleftrightarrow> unat s < 5 \<or> 65534 \<le> unat s"
proof -
  obtain n where n: "unat s = n" "n < 65536" using unat_u16_less[of s] by blast
  show ?thesis
  proof (cases "n < 65534")
    case True
    then have "(n + 2) mod 65536 = n + 2" by simp
    with True show ?thesis unfolding unat_add_2_u16 n by simp
  next
    case False
    with n have "n = 65534 \<or> n = 65535" by linarith
    then show ?thesis unfolding unat_add_2_u16 n by (elim disjE) simp_all
  qed
qed
lemma unat_word16_small: "n < 65536 \<Longrightarrow> unat (word_of_nat n :: u16) = n"
  by (simp add: unat_of_nat)

section \<open>Byte strings\<close>

text \<open>A Go string is a sequence of bytes: a \<^typ>\<open>string\<close> whose characters are bytes.\<close>

definition string_of :: "bytes \<Rightarrow> string" where
  "string_of bs = map (\<lambda>b. char_of (unat b)) bs"

definition bytes_of :: "string \<Rightarrow> bytes" where
  "bytes_of s = map (\<lambda>c. word_of_nat (of_char c)) s"

lemma of_char_less: "(of_char c :: nat) < 256"
  using of_char_mod_256[of c, where ?'a=nat] by (metis mod_less_divisor zero_less_numeral)

lemma string_of_bytes_of [simp, wire]: "string_of (bytes_of s) = s"
proof -
  have "unat (word_of_nat (of_char c) :: byte) = of_char c" for c
    using of_char_less[of c] by (simp add: unat_of_nat)
  then show ?thesis by (simp add: string_of_def bytes_of_def o_def)
qed

lemma bytes_of_string_of [simp, wire]: "bytes_of (string_of bs) = bs"
proof -
  have "of_char (char_of (unat b) :: char) = unat b" for b :: byte
    using unsigned_less[of b, where ?'a=nat] by simp
  then show ?thesis by (simp add: string_of_def bytes_of_def o_def)
qed

lemma length_string_of [simp]: "length (string_of bs) = length bs"
  by (simp add: string_of_def)

lemma length_bytes_of [simp]: "length (bytes_of s) = length s"
  by (simp add: bytes_of_def)

section \<open>Number formatting\<close>

text \<open>\<^verbatim>\<open>%d\<close> of a natural number, \<^verbatim>\<open>%02X\<close> of a byte, \<^verbatim>\<open>%X\<close> of a byte slice and \<^verbatim>\<open>%04X\<close> of a uint16.\<close>

fun dec_nat :: "nat \<Rightarrow> string" where
  "dec_nat n = (if n < 10 then [char_of (48 + n)] else dec_nat (n div 10) @ [char_of (48 + n mod 10)])"

declare dec_nat.simps [simp del]

definition hex_digit :: "nat \<Rightarrow> char" where
  "hex_digit n = (if n < 10 then char_of (48 + n) else char_of (55 + n))"

definition hex2 :: "byte \<Rightarrow> string" where
  "hex2 b = [hex_digit (unat b div 16), hex_digit (unat b mod 16)]"

definition hexstr :: "bytes \<Rightarrow> string" where
  "hexstr bs = concat (map hex2 bs)"

definition hex4 :: "u16 \<Rightarrow> string" where
  "hex4 w = hex2 (ucast (drop_bit 8 w)) @ hex2 (ucast w)"

lemma length_hexstr [simp]: "length (hexstr bs) = 2 * length bs"
  by (induction bs) (simp_all add: hexstr_def hex2_def)

section \<open>Streams of records\<close>

text \<open>
  The contract of a parser that reads records one after the other: at the head of the input a
  well-formed record is read and the parser goes on behind it. The attribute reports, the read
  responses, the Tuya data points and the Xiaomi TLVs are instances.
\<close>

locale record_stream =
  fixes parse :: "bytes \<Rightarrow> 'r list"
    and wire :: "'r \<Rightarrow> bytes"
    and ok :: "'r \<Rightarrow> bool"
  assumes parse_step: "ok r \<Longrightarrow> parse (wire r @ rest) = r # parse rest"
    and parse_nil: "parse [] = []"
begin

lemma parse_append: "list_all ok rs \<Longrightarrow> parse (concat (map wire rs) @ rest) = rs @ parse rest"
  by (induction rs) (simp_all add: parse_step)

lemma roundtrip: "list_all ok rs \<Longrightarrow> parse (concat (map wire rs)) = rs"
  using parse_append[of rs "[]"] by (simp add: parse_nil)

text \<open>Hence the wire format is uniquely decodable.\<close>

lemma wire_inj:
  "list_all ok rs \<Longrightarrow> list_all ok rs' \<Longrightarrow> concat (map wire rs) = concat (map wire rs') \<Longrightarrow> rs = rs'"
  by (metis roundtrip)

end

end
