(* ===== verification/Go_Values.thy ===== *)
theory Go_Values
  imports Prelude
begin

text \<open>
  Go's dynamic values (\<^verbatim>\<open>interface{}\<close>) as far as the program stores in them, and the numeric
  conversions the program applies. Floating point values are kept as their IEEE-754 bit
  patterns. A conversion whose result Go leaves to the implementation (a NaN, or a float
  that does not fit the integer type) is a field of the parameter \<^verbatim>\<open>go_fp\<close>.
  \<^verbatim>\<open>int\<close> is 64 bits wide, as on the 64-bit targets of the Makefile.
\<close>

datatype gval =
    GNil
  | GBool bool
  | GInt u64
  | GI8 byte | GI16 u16 | GI32 u32 | GI64 u64
  | GU8 byte | GU16 u16 | GU32 u32 | GU64 u64
  | GF32 u32 | GF64 u64
  | GStr string
  | GBytes bytes
  | GAddr bytes
  | GList "gval list"
  | GMap "(string \<times> gval) list"

section \<open>IEEE-754 bit patterns\<close>

text \<open>Sign, biased exponent and fraction of a float64 (11 and 52 bits) and float32 (8 and 23).\<close>

definition f64_neg :: "u64 \<Rightarrow> bool" where "f64_neg w = bit w 63"
definition f64_exp :: "u64 \<Rightarrow> nat" where "f64_exp w = unat (take_bit 11 (drop_bit 52 w))"
definition f64_frac :: "u64 \<Rightarrow> nat" where "f64_frac w = unat (take_bit 52 w)"
definition f32_neg :: "u32 \<Rightarrow> bool" where "f32_neg w = bit w 31"
definition f32_exp :: "u32 \<Rightarrow> nat" where "f32_exp w = unat (take_bit 8 (drop_bit 23 w))"
definition f32_frac :: "u32 \<Rightarrow> nat" where "f32_frac w = unat (take_bit 23 w)"

definition f64_is_nan :: "u64 \<Rightarrow> bool" where
  "f64_is_nan w \<longleftrightarrow> f64_exp w = 2047 \<and> f64_frac w \<noteq> 0"

definition f64_is_inf :: "u64 \<Rightarrow> bool" where
  "f64_is_inf w \<longleftrightarrow> f64_exp w = 2047 \<and> f64_frac w = 0"

definition f64_is_zero :: "u64 \<Rightarrow> bool" where
  "f64_is_zero w \<longleftrightarrow> f64_exp w = 0 \<and> f64_frac w = 0"

text \<open>A finite float64 is \<open>\<plusminus> m * 2 ^ e\<close>.\<close>

definition f64_mant :: "u64 \<Rightarrow> nat" where
  "f64_mant w = (if f64_exp w = 0 then f64_frac w else f64_frac w + 2 ^ 52)"

definition f64_e2 :: "u64 \<Rightarrow> int" where
  "f64_e2 w = (if f64_exp w = 0 then - 1074 else int (f64_exp w) - 1075)"

definition scale_trunc :: "nat \<Rightarrow> int \<Rightarrow> nat" where
  "scale_trunc m e = (if 0 \<le> e then m * 2 ^ nat e else m div 2 ^ nat (- e))"

text \<open>The integer part of a finite float64 (rounded towards zero).\<close>

definition f64_trunc :: "u64 \<Rightarrow> int" where
  "f64_trunc w = (let n = int (scale_trunc (f64_mant w) (f64_e2 w))
                  in if f64_neg w then - n else n)"

text \<open>The comparison \<^verbatim>\<open>v < 0\<close> on float64: false for NaN and for both zeros.\<close>

definition f64_lt0 :: "u64 \<Rightarrow> bool" where
  "f64_lt0 w \<longleftrightarrow> f64_neg w \<and> \<not> f64_is_nan w \<and> \<not> f64_is_zero w"

section \<open>Rounding to nearest even\<close>

fun bitlen :: "nat \<Rightarrow> nat" where
  "bitlen n = (if n = 0 then 0 else Suc (bitlen (n div 2)))"

declare bitlen.simps [simp del]

text \<open>
  \<open>fp_round p emin infb m e\<close>: the bit pattern (sign excluded) of \<open>m * 2 ^ e\<close> rounded to a
  binary format with \<open>p\<close> significant bits and least exponent \<open>emin\<close>; \<open>infb\<close> is the pattern
  of infinity. A carry out of the mantissa increments the exponent field by itself.
\<close>

definition fp_round :: "nat \<Rightarrow> int \<Rightarrow> nat \<Rightarrow> nat \<Rightarrow> int \<Rightarrow> nat" where
  "fp_round p emin infb m e =
     (if m = 0 then 0
      else let q = max (e + int (bitlen m) - int p) emin;
               n = (if q \<le> e then m * 2 ^ nat (e - q)
                    else let s = nat (q - e); a = m div 2 ^ s; r = m mod 2 ^ s; h = 2 ^ (s - 1)
                         in if h < r \<or> (r = h \<and> odd a) then a + 1 else a)
           in min infb (nat (q - emin) * 2 ^ (p - 1) + n))"

definition f64_of_int :: "int \<Rightarrow> u64" where
  "f64_of_int i =
     (let w = word_of_nat (fp_round 53 (- 1074) (2047 * 2 ^ 52) (nat \<bar>i\<bar>) 0)
      in if i < 0 then w OR push_bit 63 1 else w)"

text \<open>Implementation-defined conversions of the Go compiler.\<close>

record go_fp =
  fp_u64 :: "u64 \<Rightarrow> u64"       \<comment> \<open>\<^verbatim>\<open>uint64(f)\<close> for NaN, infinities and \<open>f \<ge> 2^64\<close>\<close>
  fp_i64 :: "u64 \<Rightarrow> u64"       \<comment> \<open>\<^verbatim>\<open>int64(f)\<close> for NaN, infinities and values out of range\<close>
  fp_f32_nan :: "u64 \<Rightarrow> u32"   \<comment> \<open>\<^verbatim>\<open>float32(f)\<close> for a NaN\<close>
  fp_f64_nan :: "u32 \<Rightarrow> u64"   \<comment> \<open>\<^verbatim>\<open>float64(f)\<close> for a NaN\<close>

text \<open>A concrete instance: every implementation-defined conversion gives zero.\<close>

definition zero_fp :: go_fp where
  "zero_fp = \<lparr>fp_u64 = (\<lambda>_. 0), fp_i64 = (\<lambda>_. 0), fp_f32_nan = (\<lambda>_. 0), fp_f64_nan = (\<lambda>_. 0)\<rparr>"

definition f64_to_f32 :: "go_fp \<Rightarrow> u64 \<Rightarrow> u32" where
  "f64_to_f32 fp w =
     (if f64_is_nan w then fp_f32_nan fp w
      else let b = (if f64_is_inf w then 255 * 2 ^ 23
                    else fp_round 24 (- 149) (255 * 2 ^ 23) (f64_mant w) (f64_e2 w));
               u = word_of_nat b
           in if f64_neg w then u OR push_bit 31 1 else u)"

definition f32_to_f64 :: "go_fp \<Rightarrow> u32 \<Rightarrow> u64" where
  "f32_to_f64 fp w =
     (if f32_exp w = 255 \<and> f32_frac w \<noteq> 0 then fp_f64_nan fp w
      else let b = (if f32_exp w = 255 then 2047 * 2 ^ 52
                    else fp_round 53 (- 1074) (2047 * 2 ^ 52)
                           (if f32_exp w = 0 then f32_frac w else f32_frac w + 2 ^ 23)
                           (if f32_exp w = 0 then - 149 else int (f32_exp w) - 150));
               u = word_of_nat b
           in if f32_neg w then u OR push_bit 63 1 else u)"

definition f64_to_u64 :: "go_fp \<Rightarrow> u64 \<Rightarrow> u64" where
  "f64_to_u64 fp w =
     (if f64_exp w = 2047 \<or> f64_trunc w < 0 \<or> 2 ^ 64 \<le> f64_trunc w then fp_u64 fp w
      else word_of_int (f64_trunc w))"

definition f64_to_i64 :: "go_fp \<Rightarrow> u64 \<Rightarrow> u64" where
  "f64_to_i64 fp w =
     (if f64_exp w = 2047 \<or> f64_trunc w < - (2 ^ 63) \<or> 2 ^ 63 \<le> f64_trunc w then fp_i64 fp w
      else word_of_int (f64_trunc w))"

lemmas fp_defs [model_defs] =
  f64_neg_def f64_exp_def f64_frac_def f32_neg_def f32_exp_def f32_frac_def
  f64_is_nan_def f64_is_inf_def f64_is_zero_def f64_mant_def f64_e2_def scale_trunc_def
  f64_trunc_def f64_lt0_def fp_round_def f64_of_int_def f64_to_f32_def f32_to_f64_def
  f64_to_u64_def f64_to_i64_def

section \<open>The integer a dynamic value holds\<close>

text \<open>
  The mathematical value of a Go integer, read with the signedness of its type. This is the
  specification the encoders and decoders are compared with.
\<close>

fun int_val :: "gval \<Rightarrow> int option" where
  "int_val (GInt w) = Some (sint w)"
| "int_val (GI8 w) = Some (sint w)"
| "int_val (GI16 w) = Some (sint w)"
| "int_val (GI32 w) = Some (sint w)"
| "int_val (GI64 w) = Some (sint w)"
| "int_val (GU8 w) = Some (uint w)"
| "int_val (GU16 w) = Some (uint w)"
| "int_val (GU32 w) = Some (uint w)"
| "int_val (GU64 w) = Some (uint w)"
| "int_val _ = None"

end
