(* ===== verification/Go_Float.thy ===== *)
theory Go_Float
  imports Go_Values
begin

text \<open>
  The float64 arithmetic of the property transforms, on bit patterns: division and multiplication
  rounded to nearest even, the comparisons with constants, and bounds on the patterns that
  rounding gives.
\<close>

section \<open>Operations\<close>

text \<open>
  Division of finite values by a finite non-zero one. The quotient is taken with 128 extra bits and
  a sticky bit for the remainder, so that rounding it is rounding the exact quotient.
\<close>

definition f64_sign :: "bool \<Rightarrow> nat \<Rightarrow> u64" where
  "f64_sign neg b = (if neg then word_of_nat b OR push_bit 63 1 else word_of_nat b)"

definition f64_div :: "u64 \<Rightarrow> u64 \<Rightarrow> u64" where
  "f64_div a b =
     (let n = f64_mant a * 2 ^ 128; d = f64_mant b;
          q = 2 * (n div d) + (if n mod d = 0 then 0 else 1)
      in f64_sign (f64_neg a \<noteq> f64_neg b)
           (fp_round 53 (- 1074) (2047 * 2 ^ 52) q (f64_e2 a - f64_e2 b - 129)))"

definition f64_mul :: "u64 \<Rightarrow> u64 \<Rightarrow> u64" where
  "f64_mul a b = f64_sign (f64_neg a \<noteq> f64_neg b)
     (fp_round 53 (- 1074) (2047 * 2 ^ 52) (f64_mant a * f64_mant b) (f64_e2 a + f64_e2 b))"

text \<open>\<^verbatim>\<open>v > 100\<close>: positive patterns compare like the values, 100.0 is \<open>0x4059000000000000\<close>.\<close>

definition f64_gt100 :: "u64 \<Rightarrow> bool" where
  "f64_gt100 w \<longleftrightarrow> \<not> f64_neg w \<and> \<not> f64_is_nan w \<and> 0x4059000000000000 < w"

section \<open>Patterns\<close>

lemma bitlen_bound: "m < 2 ^ bitlen m"
proof (induction m rule: less_induct)
  case (less m)
  show ?case
  proof (cases "m = 0")
    case False
    then have "m div 2 < 2 ^ bitlen (m div 2)" by (intro less) simp
    then show ?thesis using False by (simp add: bitlen.simps[of m])
  qed simp
qed

lemma bitlen_le: "m < 2 ^ k \<Longrightarrow> bitlen m \<le> k"
proof (induction k arbitrary: m)
  case (Suc k)
  then show ?case by (cases "m = 0") (simp_all add: bitlen.simps[of m] bitlen.simps[of 0] less_mult_imp_div_less)
qed (simp add: bitlen.simps)

lemma fp_round_int_bound:
  assumes "m \<le> 2 ^ 64"
  shows "fp_round 53 (- 1074) (2047 * 2 ^ 52) m 0 < 2047 * 2 ^ 52"
proof (cases "m = 0")
  case False
  define b where "b = bitlen m"
  have b: "m < 2 ^ b" "b \<le> 65" using assms bitlen_bound[of m] bitlen_le[of m 65] by (auto simp: b_def)
  define q where "q = max (0 + int b - int 53) (- 1074 :: int)"
  define n where "n = (if q \<le> 0 then m * 2 ^ nat (0 - q)
     else let s = nat (q - 0); a = m div 2 ^ s; r = m mod 2 ^ s; h = 2 ^ (s - 1)
          in if h < r \<or> (r = h \<and> odd a) then a + 1 else a)"
  have q: "q = int b - 53" using b by (auto simp: q_def)
  have "n \<le> 2 ^ 53"
  proof (cases "q \<le> 0")
    case True
    then have "m * 2 ^ nat (0 - q) < 2 ^ b * 2 ^ nat (0 - q)" using b(1) by simp
    also have "\<dots> = 2 ^ 53" using True q by (simp add: power_add[symmetric] nat_diff_distrib)
    finally show ?thesis using True by (simp add: n_def)
  next
    case False
    have "b = 53 + nat q" using False q by simp
    then have "(2 :: nat) ^ b = 2 ^ 53 * 2 ^ nat q" using power_add[of "2 :: nat" 53 "nat q"] by metis
    then have "m div 2 ^ nat q < 2 ^ 53"
      using b(1) by (intro less_mult_imp_div_less) metis
    then show ?thesis using False by (auto simp: n_def Let_def)
  qed
  moreover have "nat (q + 1074) \<le> 1086" using q b(2) by simp
  ultimately have "nat (q + 1074) * 2 ^ 52 + n \<le> 1086 * 2 ^ 52 + 2 ^ 53" by (intro add_mono mult_right_mono) auto
  also have "\<dots> < 2047 * 2 ^ 52" by simp
  finally have "nat (q + 1074) * 2 ^ 52 + n < 2047 * 2 ^ 52" .
  moreover have "fp_round 53 (- 1074) (2047 * 2 ^ 52) m 0 =
      min (2047 * 2 ^ 52) (nat (q - (- 1074)) * 2 ^ (53 - 1) + n)"
    unfolding fp_round_def Let_def n_def q_def b_def by (simp only: False if_False)
  ultimately show ?thesis by simp
qed (simp add: fp_round_def)

lemma f64_exp_nat: "f64_exp v = unat v div 2 ^ 52 mod 2048"
  unfolding f64_exp_def unsigned_take_bit_eq unsigned_drop_bit_eq
  unfolding take_bit_eq_mod drop_bit_eq_div using unsigned_less[of v, where ?'a=nat] by simp

lemma f64_exp_sign: "f64_exp (w OR push_bit 63 1) = f64_exp w"
proof -
  have "take_bit 11 (drop_bit 52 (w OR push_bit 63 1)) = take_bit 11 (drop_bit 52 w)"
    by (rule bit_eqI) (auto simp: bit_simps)
  then show ?thesis by (simp add: f64_exp_def)
qed

lemma f64_exp_small: "b < 2047 * 2 ^ 52 \<Longrightarrow> f64_exp (word_of_nat b) \<noteq> 2047"
proof -
  assume b: "b < 2047 * 2 ^ 52"
  have "unat (word_of_nat b :: u64) = b" using b by (simp add: unat_of_nat)
  moreover have "b div 2 ^ 52 < 2047" using b by (simp add: div_less_iff_less_mult)
  ultimately show ?thesis unfolding f64_exp_nat by simp
qed

lemma f64_of_int_finite:
  assumes "\<bar>i\<bar> \<le> 2 ^ 64"
  shows "f64_exp (f64_of_int i) \<noteq> 2047"
proof -
  have "nat \<bar>i\<bar> \<le> nat (2 ^ 64)" using assms by (rule nat_mono)
  then have "nat \<bar>i\<bar> \<le> 2 ^ 64" by simp
  note f = f64_exp_small[OF fp_round_int_bound[OF this]]
  show ?thesis
  proof (cases "i < 0")
    case True
    show ?thesis unfolding f64_of_int_def Let_def if_P[OF True] f64_exp_sign by (rule f)
  next
    case False
    show ?thesis unfolding f64_of_int_def Let_def if_not_P[OF False] by (rule f)
  qed
qed


lemma f64_frac_nat: "f64_frac v = unat v mod 2 ^ 52"
  unfolding f64_frac_def unsigned_take_bit_eq by (simp add: take_bit_eq_mod)

lemma f64_frac_sign: "f64_frac (w OR push_bit 63 1) = f64_frac w"
proof -
  have "take_bit 52 (w OR push_bit 63 1) = take_bit 52 w"
    by (rule bit_eqI) (auto simp: bit_simps)
  then show ?thesis by (simp add: f64_frac_def)
qed

text \<open>Rounding never gives a NaN.\<close>

lemma fp_round_le: "fp_round p emin infb m e \<le> infb"
  by (simp add: fp_round_def Let_def)

lemma f64_sign_not_nan:
  assumes "b \<le> 2047 * 2 ^ 52"
  shows "\<not> f64_is_nan (f64_sign s b)"
proof -
  have u: "unat (word_of_nat b :: u64) = b" using assms by (simp add: unat_of_nat)
  have z: "b mod 2 ^ 52 = 0" if "b div 2 ^ 52 mod 2048 = 2047"
  proof -
    have "b div 2 ^ 52 \<le> (2047 * 2 ^ 52) div 2 ^ 52" using assms by (rule div_le_mono)
    then have "b div 2 ^ 52 = 2047" using that by simp
    then have "b = 2047 * 2 ^ 52 + b mod 2 ^ 52" using div_mult_mod_eq[of b "2 ^ 52"] by simp
    then show ?thesis using assms by linarith
  qed
  have w: "f64_exp (word_of_nat b) = b div 2 ^ 52 mod 2048" "f64_frac (word_of_nat b) = b mod 2 ^ 52"
    unfolding f64_exp_nat f64_frac_nat u by (rule refl)+
  have e: "f64_exp (f64_sign s b) = f64_exp (word_of_nat b)" "f64_frac (f64_sign s b) = f64_frac (word_of_nat b)"
    unfolding f64_sign_def by (cases s, simp_all only: if_True if_False f64_exp_sign f64_frac_sign)+
  show ?thesis unfolding f64_is_nan_def e w by (intro notI, elim conjE, drule z, erule notE)
qed

lemma f64_mul_not_nan: "\<not> f64_is_nan (f64_mul a b)"
  unfolding f64_mul_def by (rule f64_sign_not_nan) (rule fp_round_le)

text \<open>The integer part of a non-negative value, on its pattern: monotone.\<close>

definition f64_units :: "u64 \<Rightarrow> nat" where
  "f64_units w = f64_mant w * 2 ^ (max (f64_exp w) 1 - 1)"

lemma shift_div: "(m :: nat) * 2 ^ (i + k) div 2 ^ k = m * 2 ^ i" "(m :: nat) * 2 ^ i div 2 ^ (j + i) = m div 2 ^ j"
proof -
  show "m * 2 ^ (i + k) div 2 ^ k = m * 2 ^ i"
    by (metis mult.assoc nonzero_mult_div_cancel_right power_add power_not_zero zero_neq_numeral)
  show "m * 2 ^ i div 2 ^ (j + i) = m div 2 ^ j"
    by (metis div_mult_mult2 power_add power_not_zero zero_neq_numeral)
qed

lemma scale_trunc_units:
  assumes "K = 1074"
  shows "scale_trunc (f64_mant w) (f64_e2 w) = f64_units w div 2 ^ K"
proof -
  define x where "x = max (f64_exp w) 1"
  have e: "f64_e2 w = int x - int (Suc K)" "1 \<le> x" using assms by (auto simp: f64_e2_def x_def)
  have u: "f64_units w = f64_mant w * 2 ^ (x - 1)" by (simp add: f64_units_def x_def)
  show ?thesis
  proof (cases "Suc K \<le> x")
    case True
    then have "x - 1 = (x - Suc K) + K" "nat (int x - int (Suc K)) = x - Suc K" by simp_all
    then show ?thesis using e(1) True shift_div(1)[of "f64_mant w" "x - Suc K" K] unfolding u by (simp add: scale_trunc_def)
  next
    case False
    then have "K = (Suc K - x) + (x - 1)" "nat (- (int x - int (Suc K))) = Suc K - x" using e(2) by simp_all
    then show ?thesis using e(1) False shift_div(2)[of "f64_mant w" "x - 1" "Suc K - x"] unfolding u by (simp add: scale_trunc_def)
  qed
qed

lemma f64_units_mono:
  assumes "a \<le> b" "\<not> f64_neg a" "\<not> f64_neg b"
  shows "f64_units a \<le> f64_units b"
proof -
  have n: "unat a \<le> unat b" using assms(1) by (simp add: word_le_nat_alt)
  have small: "unat w < 2 ^ 63" if "\<not> f64_neg w" for w :: u64
  proof -
    have "w = take_bit 63 w"
    proof (rule bit_word_eqI)
      fix i assume "i < LENGTH(64)"
      then show "bit w i = bit (take_bit 63 w) i" using that by (cases "i = 63") (auto simp: f64_neg_def bit_simps)
    qed
    then have "unat w = unat w mod 2 ^ 63" by (metis unsigned_take_bit_eq take_bit_eq_mod)
    then show ?thesis by (metis mod_less_divisor zero_less_numeral zero_less_power)
  qed
  define x f y g where "x = unat a div 2 ^ 52" and "f = unat a mod 2 ^ 52" and "y = unat b div 2 ^ 52" and "g = unat b mod 2 ^ 52"
  have le: "x \<le> y" "f < 2 ^ 52" "g < 2 ^ 52" using n by (auto simp: x_def y_def f_def g_def intro: div_le_mono)
  have "unat a div 2 ^ 52 < 2048" "unat b div 2 ^ 52 < 2048" using small assms by (auto intro!: less_mult_imp_div_less)
  then have e: "f64_exp a = x" "f64_frac a = f" "f64_exp b = y" "f64_frac b = g"
    by (simp_all add: f64_exp_nat f64_frac_nat x_def y_def f_def g_def)
  show ?thesis
  proof (cases "x = y")
    case True
    have "unat a = x * 2 ^ 52 + f" "unat b = y * 2 ^ 52 + g" by (simp_all add: x_def f_def y_def g_def)
    then have "f \<le> g" using n True by simp
    then show ?thesis using True e by (simp add: f64_units_def f64_mant_def)
  next
    case False
    then have y: "x < y" using le by simp
    have "(2 :: nat) ^ 52 * 2 ^ (y - 1) \<le> (g + 2 ^ 52) * 2 ^ (y - 1)" by (intro mult_right_mono) auto
    then have b: "2 ^ 52 * 2 ^ (y - 1) \<le> f64_units b" using y e by (simp add: f64_units_def f64_mant_def max_def)
    have "f64_units a \<le> 2 ^ 52 * 2 ^ x"
    proof (cases "x = 0")
      case True
      then show ?thesis using le e by (simp add: f64_units_def f64_mant_def)
    next
      case False
      then have "f64_units a = (f + 2 ^ 52) * 2 ^ (x - 1)" using e by (simp add: f64_units_def f64_mant_def max_def)
      also have "\<dots> \<le> 2 ^ 53 * 2 ^ (x - 1)" using le by (intro mult_right_mono) auto
      also have "\<dots> = 2 ^ 52 * 2 ^ x" using False by (cases x) simp_all
      finally show ?thesis .
    qed
    also have "\<dots> \<le> 2 ^ 52 * 2 ^ (y - 1)" using y by (intro mult_left_mono power_increasing) auto
    finally show ?thesis using b by simp
  qed
qed

lemma f64_trunc_mono:
  assumes "a \<le> b" "\<not> f64_neg a" "\<not> f64_neg b"
  shows "0 \<le> f64_trunc a \<and> f64_trunc a \<le> f64_trunc b"
proof -
  obtain K :: nat where K: "K = 1074" by simp
  have "f64_units a div 2 ^ K \<le> f64_units b div 2 ^ K" using f64_units_mono[OF assms] by (rule div_le_mono)
  then show ?thesis using assms(2,3) unfolding f64_trunc_def Let_def scale_trunc_units[OF K] by simp
qed

text \<open>A value that is neither negative nor above 100 has an integer part between 0 and 100.\<close>

lemma f64_trunc_0_100:
  assumes "\<not> f64_is_nan w" "\<not> f64_lt0 w" "\<not> f64_gt100 w"
  shows "0 \<le> f64_trunc w \<and> f64_trunc w \<le> 100"
proof (cases "f64_neg w")
  case True
  then have "f64_is_zero w" using assms by (simp add: f64_lt0_def)
  then show ?thesis by (simp add: f64_trunc_def f64_is_zero_def f64_mant_def scale_trunc_def)
next
  case False
  have c: "\<not> f64_neg 0x4059000000000000" "f64_trunc 0x4059000000000000 = 100"
    by (simp_all add: f64_trunc_def f64_neg_def f64_mant_def f64_e2_def f64_exp_nat f64_frac_nat scale_trunc_def bit_iff_odd)
  have "w \<le> 0x4059000000000000" using assms False by (simp add: f64_gt100_def)
  then show ?thesis using f64_trunc_mono[OF _ False c(1)] c(2) by simp
qed

end
