(* ===== verification/Keyed_Store.thy ===== *)
theory Keyed_Store
  imports Main
begin

text \<open>
  The contract of a store of values under keys, as the database of devices and the directory of scripts keep it, and what a client
  may conclude for a whole history of operations.
\<close>

section \<open>Histories\<close>

datatype ('w, 'k) store_op = Put 'w | Remove 'k

datatype ('k, 'v) change = Stored 'k 'v | Removed 'k

fun apply_change :: "('k, 'v) change \<Rightarrow> ('k \<rightharpoonup> 'v) \<Rightarrow> ('k \<rightharpoonup> 'v)" where
  "apply_change (Stored k v) t = t(k \<mapsto> v)"
| "apply_change (Removed k) t = t(k := None)"

text \<open>The changes that the operations report, and the state after them.\<close>

fun history :: "('w \<Rightarrow> 's \<Rightarrow> ('k \<times> 'v) option \<times> 's) \<Rightarrow> ('k \<Rightarrow> 's \<Rightarrow> bool \<times> 's) \<Rightarrow> ('w, 'k) store_op list \<Rightarrow> 's \<Rightarrow> ('k, 'v) change list \<times> 's" where
  "history put remove [] s = ([], s)"
| "history put remove (Put w # ops) s =
     (let (r, s1) = put w s; (cs, s2) = history put remove ops s1
      in ((case r of None \<Rightarrow> cs | Some (k, v) \<Rightarrow> Stored k v # cs), s2))"
| "history put remove (Remove k # ops) s =
     (let (r, s1) = remove k s; (cs, s2) = history put remove ops s1 in ((if r then Removed k # cs else cs), s2))"

text \<open>What is stored was put there by an operation, in a state with the properties that all operations keep.\<close>

lemma history_stored:
  assumes "history put remove ops s = (cs, s')" "Stored k v \<in> set cs" "P s"
    "\<And>w s r s'. put w s = (r, s') \<Longrightarrow> P s \<Longrightarrow> P s'" "\<And>i s r s'. remove i s = (r, s') \<Longrightarrow> P s \<Longrightarrow> P s'"
  shows "\<exists>w s1 s2. P s1 \<and> Put w \<in> set ops \<and> put w s1 = (Some (k, v), s2)"
  using assms(1-3)
proof (induction ops arbitrary: s cs)
  case (Cons op ops)
  show ?case
  proof (cases op)
    case (Put w)
    obtain r s1 where p: "put w s = (r, s1)" by (metis prod.collapse)
    obtain cs1 where h: "history put remove ops s1 = (cs1, s')" "cs = (case r of None \<Rightarrow> cs1 | Some (k, v) \<Rightarrow> Stored k v # cs1)"
      using Cons.prems(1) p Put by (auto split: prod.splits)
    have n: "P s1" using assms(4)[OF p] Cons.prems(3) by simp
    show ?thesis
    proof (cases "Stored k v \<in> set cs1")
      case True
      then show ?thesis using Cons.IH[OF h(1) _ n] by auto
    next
      case False
      then have "r = Some (k, v)" using Cons.prems(2) h(2) by (auto split: option.splits)
      then show ?thesis using p Put Cons.prems(3) by auto
    qed
  next
    case (Remove i)
    obtain r s1 where p: "remove i s = (r, s1)" by (metis prod.collapse)
    obtain cs1 where h: "history put remove ops s1 = (cs1, s')" "cs = (if r then Removed i # cs1 else cs1)"
      using Cons.prems(1) p Remove by (auto split: prod.splits)
    have "Stored k v \<in> set cs1" using h(2) Cons.prems(2) by (auto split: if_splits)
    from Cons.IH[OF h(1) this] assms(5)[OF p Cons.prems(3)] show ?thesis by auto
  qed
qed simp

section \<open>The contract\<close>

locale keyed_store =
  fixes ready :: "'s \<Rightarrow> bool"
    and find_key :: "'k \<Rightarrow> 's \<Rightarrow> 'v option"
    and put :: "'w \<Rightarrow> 's \<Rightarrow> ('k \<times> 'v) option \<times> 's"
    and remove :: "'k \<Rightarrow> 's \<Rightarrow> bool \<times> 's"
  assumes put_done: "ready s \<Longrightarrow> put w s = (Some (k, v), s') \<Longrightarrow> ready s' \<and> find_key j s' = (if j = k then Some v else find_key j s)"
    and put_failed: "ready s \<Longrightarrow> put w s = (None, s') \<Longrightarrow> ready s' \<and> find_key j s' = find_key j s"
    and remove_done: "ready s \<Longrightarrow> remove i s = (True, s') \<Longrightarrow> ready s' \<and> find_key j s' = (if j = i then None else find_key j s)"
    and remove_failed: "ready s \<Longrightarrow> remove i s = (False, s') \<Longrightarrow> ready s' \<and> find_key j s' = find_key j s"
begin

lemma step_table:
  assumes "ready s"
  shows "put w s = (Some (k, v), s') \<Longrightarrow> ready s' \<and> (\<lambda>j. find_key j s') = (\<lambda>j. find_key j s)(k \<mapsto> v)"
    "put w s = (None, s') \<Longrightarrow> ready s' \<and> (\<lambda>j. find_key j s') = (\<lambda>j. find_key j s)"
    "remove i s = (True, s') \<Longrightarrow> ready s' \<and> (\<lambda>j. find_key j s') = (\<lambda>j. find_key j s)(i := None)"
    "remove i s = (False, s') \<Longrightarrow> ready s' \<and> (\<lambda>j. find_key j s') = (\<lambda>j. find_key j s)"
  using conjunct1[OF put_done[OF assms]] conjunct2[OF put_done[OF assms]] conjunct1[OF put_failed[OF assms]] conjunct2[OF put_failed[OF assms]]
    conjunct1[OF remove_done[OF assms]] conjunct2[OF remove_done[OF assms]] conjunct1[OF remove_failed[OF assms]] conjunct2[OF remove_failed[OF assms]]
  by (simp_all only: fun_eq_iff fun_upd_apply) simp_all

text \<open>A store is the table that its history makes.\<close>

lemma history_table:
  "ready s \<Longrightarrow> history put remove ops s = (cs, s') \<Longrightarrow> ready s' \<and> (\<lambda>j. find_key j s') = fold apply_change cs (\<lambda>j. find_key j s)"
proof (induction ops arbitrary: s cs)
  case (Cons op ops)
  show ?case
  proof (cases op)
    case (Put w)
    obtain r s1 where p: "put w s = (r, s1)" by (metis prod.collapse)
    obtain cs1 where h: "history put remove ops s1 = (cs1, s')" "cs = (case r of None \<Rightarrow> cs1 | Some (k, v) \<Rightarrow> Stored k v # cs1)"
      using Cons.prems(2) p Put by (auto split: prod.splits)
    show ?thesis
    proof (cases r)
      case None
      then show ?thesis using Cons.IH[OF _ h(1)] step_table(2)[OF Cons.prems(1)] p h(2) by simp
    next
      case (Some kv)
      obtain k v where "kv = (k, v)" by (cases kv)
      then show ?thesis using Cons.IH[OF _ h(1)] step_table(1)[OF Cons.prems(1)] p h(2) Some by simp
    qed
  next
    case (Remove i)
    obtain r s1 where p: "remove i s = (r, s1)" by (metis prod.collapse)
    obtain cs1 where h: "history put remove ops s1 = (cs1, s')" "cs = (if r then Removed i # cs1 else cs1)"
      using Cons.prems(2) p Remove by (auto split: prod.splits)
    show ?thesis
      using Cons.IH[OF _ h(1)] step_table(3,4)[OF Cons.prems(1)] p h(2) by (cases r) simp_all
  qed
qed simp

end

end
