(* ===== verification/Store.thy ===== *)
theory Store
  imports Go_Float Keyed_Store "HOL-Library.List_Lexorder" "HOL-Library.Char_ord"
begin

text \<open>
  The device store: \<^verbatim>\<open>internal/store/models.go\<close>, \<^verbatim>\<open>store.go\<close> and \<^verbatim>\<open>bolt.go\<close>. The database
  keeps JSON texts; the model keeps the value that reading the text back gives, so that saving
  applies the changes of a JSON round trip to the dynamic values in \<^verbatim>\<open>Properties\<close>: every
  number becomes a float64, a byte slice its base64 text, an array of bytes a list of numbers,
  invalid UTF-8 is replaced, and a NaN or an infinity is a marshalling error. Time stamps are
  integers (nanoseconds). The transaction engine bbolt is outside: a transaction applies its
  function to the bucket or fails as a whole (\<open>b_ok\<close> false).
\<close>

section \<open>JSON\<close>

text \<open>\<^verbatim>\<open>encoding/json\<close> replaces each byte that is not part of a valid UTF-8 sequence by U+FFFD.\<close>

definition is_cont :: "byte \<Rightarrow> bool" where
  "is_cont b \<longleftrightarrow> 0x80 \<le> b \<and> b \<le> 0xBF"

definition utf8_len :: "bytes \<Rightarrow> nat" where
  "utf8_len bs =
     (case bs of
        [] \<Rightarrow> 0
      | a # r \<Rightarrow>
          if a < 0x80 then 1
          else if 0xC2 \<le> a \<and> a \<le> 0xDF then
            (case r of b # _ \<Rightarrow> if is_cont b then 2 else 0 | _ \<Rightarrow> 0)
          else if 0xE0 \<le> a \<and> a \<le> 0xEF then
            (case r of b # c # _ \<Rightarrow>
               if is_cont b \<and> is_cont c \<and> (a = 0xE0 \<longrightarrow> 0xA0 \<le> b) \<and> (a = 0xED \<longrightarrow> b \<le> 0x9F) then 3 else 0
             | _ \<Rightarrow> 0)
          else if 0xF0 \<le> a \<and> a \<le> 0xF4 then
            (case r of b # c # d # _ \<Rightarrow>
               if is_cont b \<and> is_cont c \<and> is_cont d \<and> (a = 0xF0 \<longrightarrow> 0x90 \<le> b) \<and> (a = 0xF4 \<longrightarrow> b \<le> 0x8F) then 4 else 0
             | _ \<Rightarrow> 0)
          else 0)"

function utf8_fix :: "bytes \<Rightarrow> bytes" where
  "utf8_fix [] = []"
| "utf8_fix (a # r) =
     (let n = utf8_len (a # r) in
      if n = 0 then [0xEF, 0xBF, 0xBD] @ utf8_fix r else take n (a # r) @ utf8_fix (drop n (a # r)))"
  by pat_completeness auto
termination
  by (relation "measure length") (auto simp: Let_def)

definition json_string :: "string \<Rightarrow> string" where
  "json_string s = string_of (utf8_fix (bytes_of s))"

definition b64_char :: "nat \<Rightarrow> char" where
  "b64_char n = (if n < 26 then char_of (65 + n) else if n < 52 then char_of (71 + n)
     else if n < 62 then char_of (n - 4) else if n = 62 then CHR ''+'' else CHR ''/'')"

fun base64 :: "bytes \<Rightarrow> string" where
  "base64 (a # b # c # r) =
     (let n = unat a * 65536 + unat b * 256 + unat c in
      [b64_char (n div 262144), b64_char (n div 4096 mod 64), b64_char (n div 64 mod 64), b64_char (n mod 64)] @ base64 r)"
| "base64 [a, b] =
     (let n = unat a * 65536 + unat b * 256 in
      [b64_char (n div 262144), b64_char (n div 4096 mod 64), b64_char (n div 64 mod 64), CHR ''='' ])"
| "base64 [a] = (let n = unat a * 65536 in [b64_char (n div 262144), b64_char (n div 4096 mod 64), CHR ''='', CHR ''='' ])"
| "base64 [] = []"

text \<open>
  A float32 is written with the shortest decimal that identifies it among the float32 values and
  read back as a float64; that float64 is the function \<open>js32\<close>, a parameter. A float64 is
  written so that it reads back the same.
\<close>

type_synonym js32 = "u32 \<Rightarrow> u64"

fun json_value :: "js32 \<Rightarrow> gval \<Rightarrow> gval option" where
  "json_value js GNil = Some GNil"
| "json_value js (GBool b) = Some (GBool b)"
| "json_value js (GInt w) = Some (GF64 (f64_of_int (sint w)))"
| "json_value js (GI8 w) = Some (GF64 (f64_of_int (sint w)))"
| "json_value js (GI16 w) = Some (GF64 (f64_of_int (sint w)))"
| "json_value js (GI32 w) = Some (GF64 (f64_of_int (sint w)))"
| "json_value js (GI64 w) = Some (GF64 (f64_of_int (sint w)))"
| "json_value js (GU8 w) = Some (GF64 (f64_of_int (uint w)))"
| "json_value js (GU16 w) = Some (GF64 (f64_of_int (uint w)))"
| "json_value js (GU32 w) = Some (GF64 (f64_of_int (uint w)))"
| "json_value js (GU64 w) = Some (GF64 (f64_of_int (uint w)))"
| "json_value js (GF32 w) = (if f32_exp w = 255 then None else Some (GF64 (js w)))"
| "json_value js (GF64 w) = (if f64_exp w = 2047 then None else Some (GF64 w))"
| "json_value js (GStr s) = Some (GStr (json_string s))"
| "json_value js (GBytes b) = Some (GStr (base64 b))"
| "json_value js (GAddr a) = Some (GList (map (\<lambda>b. GF64 (f64_of_int (uint b))) a))"
| "json_value js (GList vs) = map_option GList (those (map (json_value js) vs))"
| "json_value js (GMap kvs) =
     map_option GMap (those (map (\<lambda>kv. map_option (Pair (fst kv)) (json_value js (snd kv))) kvs))"

section \<open>Models\<close>

record Endpoint =
  ep_ID :: byte
  ep_ProfileID :: u16
  ep_DeviceID :: u16
  ep_InClusters :: "u16 list"
  ep_OutClusters :: "u16 list"

record Device =
  dev_IEEEAddress :: string
  dev_ShortAddress :: u16
  dev_Manufacturer :: string
  dev_Model :: string
  dev_FriendlyName :: string
  dev_Endpoints :: "Endpoint list"
  dev_Interviewed :: bool
  dev_JoinedAt :: int
  dev_LastSeen :: int
  dev_LQI :: byte
  dev_RSSI :: byte
  dev_Properties :: "(string \<times> gval) list"

definition new_device :: "string \<Rightarrow> Device" where
  "new_device ieee = \<lparr>dev_IEEEAddress = ieee, dev_ShortAddress = 0, dev_Manufacturer = [], dev_Model = [],
     dev_FriendlyName = [], dev_Endpoints = [], dev_Interviewed = False, dev_JoinedAt = 0, dev_LastSeen = 0,
     dev_LQI = 0, dev_RSSI = 0, dev_Properties = []\<rparr>"

record NetworkState =
  ns_Channel :: byte
  ns_PanID :: u16
  ns_ExtPanID :: string
  ns_NetworkKey :: string
  ns_Formed :: bool

text \<open>\<^verbatim>\<open>json.Marshal\<close> and \<^verbatim>\<open>json.Unmarshal\<close> of a device: the typed fields come back as they are, up to
  the encoding of strings, and the dynamic values as above.\<close>

definition json_device :: "js32 \<Rightarrow> Device \<Rightarrow> Device option" where
  "json_device js d =
     (case those (map (\<lambda>kv. map_option (Pair (fst kv)) (json_value js (snd kv))) (dev_Properties d)) of
        None \<Rightarrow> None
      | Some ps \<Rightarrow> Some (d\<lparr>dev_IEEEAddress := json_string (dev_IEEEAddress d),
          dev_Manufacturer := json_string (dev_Manufacturer d), dev_Model := json_string (dev_Model d),
          dev_FriendlyName := json_string (dev_FriendlyName d), dev_Properties := ps\<rparr>))"

section \<open>The database\<close>

datatype store_error = ErrNotFound | ErrDatabase | ErrMarshal | ErrCallback

record bolt =
  b_ok :: bool
  b_devices :: "(string \<times> Device) list"
  b_network :: "NetworkState option"

text \<open>A bucket is sorted by key, bytewise.\<close>

fun bucket_put :: "string \<Rightarrow> 'v \<Rightarrow> (string \<times> 'v) list \<Rightarrow> (string \<times> 'v) list" where
  "bucket_put k v [] = [(k, v)]"
| "bucket_put k v ((k', v') # kvs) =
     (if k < k' then (k, v) # (k', v') # kvs else if k = k' then (k, v) # kvs else (k', v') # bucket_put k v kvs)"

definition bucket_delete :: "string \<Rightarrow> (string \<times> 'v) list \<Rightarrow> (string \<times> 'v) list" where
  "bucket_delete k kvs = filter (\<lambda>kv. fst kv \<noteq> k) kvs"

definition SaveDevice :: "js32 \<Rightarrow> Device \<Rightarrow> bolt \<Rightarrow> (store_error + unit) \<times> bolt" where
  "SaveDevice js dev s =
     (if \<not> b_ok s then (Inl ErrDatabase, s)
      else case json_device js dev of
        None \<Rightarrow> (Inl ErrMarshal, s)
      | Some d \<Rightarrow> (Inr (), s\<lparr>b_devices := bucket_put (dev_IEEEAddress dev) d (b_devices s)\<rparr>))"

definition GetDevice :: "string \<Rightarrow> bolt \<Rightarrow> store_error + Device" where
  "GetDevice ieee s =
     (if \<not> b_ok s then Inl ErrDatabase
      else case map_of (b_devices s) ieee of None \<Rightarrow> Inl ErrNotFound | Some d \<Rightarrow> Inr d)"

definition UpdateDevice :: "js32 \<Rightarrow> string \<Rightarrow> (Device \<Rightarrow> Device option) \<Rightarrow> bolt \<Rightarrow> (store_error + unit) \<times> bolt" where
  "UpdateDevice js ieee fn s =
     (if \<not> b_ok s then (Inl ErrDatabase, s)
      else case map_of (b_devices s) ieee of
        None \<Rightarrow> (Inl ErrNotFound, s)
      | Some dev \<Rightarrow>
          (case fn dev of
             None \<Rightarrow> (Inl ErrCallback, s)
           | Some dev' \<Rightarrow>
               (case json_device js dev' of
                  None \<Rightarrow> (Inl ErrMarshal, s)
                | Some d \<Rightarrow> (Inr (), s\<lparr>b_devices := bucket_put ieee d (b_devices s)\<rparr>))))"

definition DeleteDevice :: "string \<Rightarrow> bolt \<Rightarrow> (store_error + unit) \<times> bolt" where
  "DeleteDevice ieee s =
     (if \<not> b_ok s then (Inl ErrDatabase, s)
      else (Inr (), s\<lparr>b_devices := bucket_delete ieee (b_devices s)\<rparr>))"

definition ListDevices :: "bolt \<Rightarrow> store_error + Device list" where
  "ListDevices s = (if \<not> b_ok s then Inl ErrDatabase else Inr (map snd (b_devices s)))"

definition SaveNetworkState :: "NetworkState \<Rightarrow> bolt \<Rightarrow> (store_error + unit) \<times> bolt" where
  "SaveNetworkState ns s =
     (if \<not> b_ok s then (Inl ErrDatabase, s)
      else (Inr (), s\<lparr>b_network := Some (ns\<lparr>ns_ExtPanID := json_string (ns_ExtPanID ns),
              ns_NetworkKey := json_string (ns_NetworkKey ns)\<rparr>)\<rparr>))"

definition GetNetworkState :: "bolt \<Rightarrow> store_error + NetworkState" where
  "GetNetworkState s =
     (if \<not> b_ok s then Inl ErrDatabase
      else case b_network s of None \<Rightarrow> Inl ErrNotFound | Some ns \<Rightarrow> Inr ns)"

definition NewBoltStore :: bolt where
  "NewBoltStore = \<lparr>b_ok = True, b_devices = [], b_network = None\<rparr>"

section \<open>The bucket is a sorted map\<close>

lemma bucket_put_map: "map_of (bucket_put k v kvs) = (map_of kvs)(k \<mapsto> v)"
  by (induction k v kvs rule: bucket_put.induct) (auto simp: fun_eq_iff)

lemma bucket_delete_map: "map_of (bucket_delete k kvs) = (map_of kvs)(k := None)"
  by (induction kvs) (auto simp: bucket_delete_def fun_eq_iff)

lemma bucket_put_keys: "fst ` set (bucket_put k v kvs) = insert k (fst ` set kvs)"
  by (induction k v kvs rule: bucket_put.induct) auto

definition bucket_ok :: "(string \<times> 'v) list \<Rightarrow> bool" where
  "bucket_ok kvs \<longleftrightarrow> sorted_wrt (<) (map fst kvs)"

lemma bucket_put_ok: "bucket_ok kvs \<Longrightarrow> bucket_ok (bucket_put k v kvs)"
proof (induction k v kvs rule: bucket_put.induct)
  case (2 k v k' v' kvs)
  have "k' < x" if "\<not> k < k'" "k \<noteq> k'" "x \<in> fst ` set (bucket_put k v kvs)" for x
    using that 2(2) bucket_put_keys[of k v kvs] by (auto simp: bucket_ok_def)
  with 2 show ?case by (auto simp: bucket_ok_def)
qed (simp add: bucket_ok_def)

lemma bucket_delete_ok: "bucket_ok kvs \<Longrightarrow> bucket_ok (bucket_delete k kvs)"
  by (auto simp: bucket_ok_def bucket_delete_def sorted_wrt_map intro: sorted_wrt_filter)

section \<open>The contract of the store\<close>

text \<open>
  What a client of the \<^verbatim>\<open>Store\<close> interface relies on, and the consequences the device manager
  uses. \<open>norm\<close> is what saving does to a value.
\<close>

locale device_store =
  fixes avail :: "'s \<Rightarrow> bool"
    and norm :: "'d \<Rightarrow> 'd option"
    and key :: "'d \<Rightarrow> string"
    and get :: "string \<Rightarrow> 's \<Rightarrow> store_error + 'd"
    and save :: "'d \<Rightarrow> 's \<Rightarrow> (store_error + unit) \<times> 's"
    and update :: "string \<Rightarrow> ('d \<Rightarrow> 'd option) \<Rightarrow> 's \<Rightarrow> (store_error + unit) \<times> 's"
    and delete :: "string \<Rightarrow> 's \<Rightarrow> (store_error + unit) \<times> 's"
  assumes get_save: "avail s \<Longrightarrow> norm d = Some d' \<Longrightarrow> save d s = (r, s') \<Longrightarrow>
      r = Inr () \<and> avail s' \<and> get k s' = (if k = key d then Inr d' else get k s)"
    and save_fail: "\<not> avail s \<or> norm d = None \<Longrightarrow> save d s = (r, s') \<Longrightarrow> s' = s \<and> (\<exists>e. r = Inl e)"
    and get_delete: "avail s \<Longrightarrow> delete i s = (r, s') \<Longrightarrow>
      r = Inr () \<and> avail s' \<and> get k s' = (if k = i then Inl ErrNotFound else get k s)"
    and get_update: "avail s \<Longrightarrow> get i s = Inr d \<Longrightarrow> f d = Some d1 \<Longrightarrow> norm d1 = Some d' \<Longrightarrow>
      update i f s = (r, s') \<Longrightarrow> r = Inr () \<and> avail s' \<and> get k s' = (if k = i then Inr d' else get k s)"
    and update_missing: "avail s \<Longrightarrow> get i s = Inl ErrNotFound \<Longrightarrow> update i f s = (Inl ErrNotFound, s)"
begin

text \<open>A deleted device is not brought back by an update.\<close>

lemma no_resurrection:
  assumes "avail s" "delete i s = (r, s')"
  shows "update i f s' = (Inl ErrNotFound, s')"
  using get_delete[OF assms, of i] update_missing[of s' i f] by auto

text \<open>An update after a save sees the saved value, as the store keeps it.\<close>

lemma update_after_save:
  assumes "avail s" "norm d = Some d'" "f d' = Some d1" "norm d1 = Some d2" "save d s = (r, s1)" "update (key d) f s1 = (r', s2)"
  shows "get k s2 = (if k = key d then Inr d2 else get k s)"
proof -
  note 1 = get_save[OF assms(1,2,5)]
  have "get (key d) s1 = Inr d'" using 1[of "key d"] by simp
  from get_update[OF _ this assms(3,4,6), of k] 1[of k] show ?thesis by auto
qed

end

text \<open>A device store is a store under keys: what a save puts under the device's key is the device as saving leaves it.\<close>

definition put_device :: "('d \<Rightarrow> 'd option) \<Rightarrow> ('d \<Rightarrow> string) \<Rightarrow> ('d \<Rightarrow> 's \<Rightarrow> (store_error + unit) \<times> 's) \<Rightarrow> 'd \<Rightarrow> 's \<Rightarrow> (string \<times> 'd) option \<times> 's" where
  "put_device norm key save d s = (case save d s of (Inl e, s') \<Rightarrow> (None, s') | (Inr u, s') \<Rightarrow> (map_option (Pair (key d)) (norm d), s'))"

definition reported :: "('k \<Rightarrow> 's \<Rightarrow> (store_error + unit) \<times> 's) \<Rightarrow> 'k \<Rightarrow> 's \<Rightarrow> bool \<times> 's" where
  "reported op i s = (case op i s of (Inl e, s') \<Rightarrow> (False, s') | (Inr u, s') \<Rightarrow> (True, s'))"

definition looked_up :: "store_error + 'd \<Rightarrow> 'd option" where
  "looked_up r = (case r of Inl e \<Rightarrow> None | Inr d \<Rightarrow> Some d)"

sublocale device_store \<subseteq> table: keyed_store avail "\<lambda>k s. looked_up (get k s)" "put_device norm key save" "reported delete"
proof
  fix s s' :: 's and w v :: 'd and k i j :: string
  assume a: "avail s"
  show "avail s' \<and> looked_up (get j s') = (if j = k then Some v else looked_up (get j s))" if "put_device norm key save w s = (Some (k, v), s')"
  proof -
    have u: "save w s = (Inr (), s')" "norm w = Some v" "k = key w" using that by (auto simp: put_device_def split: prod.splits sum.splits)
    show ?thesis using get_save[OF a u(2,1), of j] u(3) by (simp add: looked_up_def)
  qed
  show "avail s' \<and> looked_up (get j s') = looked_up (get j s)" if "put_device norm key save w s = (None, s')"
  proof (cases "norm w")
    case None
    then have "s' = s" using save_fail[OF _, of s w] that by (auto simp: put_device_def split: prod.splits sum.splits)
    then show ?thesis using a by simp
  next
    case (Some d)
    then show ?thesis using get_save[OF a Some] that by (auto simp: put_device_def split: prod.splits sum.splits)
  qed
  show "avail s' \<and> looked_up (get j s') = (if j = i then None else looked_up (get j s))" if "reported delete i s = (True, s')"
  proof -
    have u: "delete i s = (Inr (), s')" using that by (auto simp: reported_def split: prod.splits sum.splits)
    show ?thesis using get_delete[OF a u, of j] by (simp add: looked_up_def)
  qed
  show "avail s' \<and> looked_up (get j s') = looked_up (get j s)" if "reported delete i s = (False, s')"
    using get_delete[OF a, of i] that by (auto simp: reported_def split: prod.splits sum.splits)
qed

interpretation bolt_store: device_store b_ok "json_device js" dev_IEEEAddress GetDevice "SaveDevice js" "UpdateDevice js" DeleteDevice
  by unfold_locales
    (auto simp: SaveDevice_def GetDevice_def UpdateDevice_def DeleteDevice_def bucket_put_map bucket_delete_map
      split: option.splits if_splits)

lemma devices_table:
  "b_ok s \<Longrightarrow> history (put_device (json_device js) dev_IEEEAddress (SaveDevice js)) (reported DeleteDevice) ops s = (cs, s') \<Longrightarrow>
   b_ok s' \<and> (\<lambda>k. looked_up (GetDevice k s')) = fold apply_change cs (\<lambda>k. looked_up (GetDevice k s))"
  by (rule bolt_store.table.history_table)

text \<open>
  the store keeps what it is given. A successful save makes the saved device, with its dynamic values as JSON
  carries them, the one found under its address, and changes no other device; a failed save changes nothing.
\<close>

theorem store_save_get:
  "case SaveDevice js dev s of
     (Inl e, s') \<Rightarrow> s' = s
   | (Inr _, s') \<Rightarrow> (\<exists>d. json_device js dev = Some d \<and> GetDevice (dev_IEEEAddress dev) s' = Inr d)
       \<and> (\<forall>k. k \<noteq> dev_IEEEAddress dev \<longrightarrow> GetDevice k s' = GetDevice k s)"
  by (auto simp: SaveDevice_def GetDevice_def bucket_put_map split: option.splits)

theorem store_save_get_witness:
  "GetDevice ''B'' (snd (SaveDevice (\<lambda>_. 0) (new_device ''A'') (NewBoltStore\<lparr>b_devices := [(''B'', new_device ''B'')]\<rparr>)))
     = Inr (new_device ''B'')"
proof -
  let ?s = "NewBoltStore\<lparr>b_devices := [(''B'', new_device ''B'')]\<rparr>"
  have "json_device (\<lambda>_. 0) (new_device ''A'') \<noteq> None" by (simp add: json_device_def new_device_def)
  then obtain s' u where "SaveDevice (\<lambda>_. 0) (new_device ''A'') ?s = (Inr u, s')"
    by (auto simp: SaveDevice_def NewBoltStore_def)
  moreover from this have "GetDevice ''B'' s' = GetDevice ''B'' ?s"
    using store_save_get[where js = "\<lambda>_. 0" and dev = "new_device ''A''" and s = ?s] by (simp add: new_device_def)
  ultimately show ?thesis by (simp add: GetDevice_def NewBoltStore_def)
qed

text \<open>
  the bucket stays a sorted map under every operation, so that listing gives each stored device exactly once, in
  key order, and agrees with lookup.
\<close>

theorem store_sorted:
  assumes "bucket_ok (b_devices s)"
  shows "bucket_ok (b_devices (snd (SaveDevice js dev s))) \<and> bucket_ok (b_devices (snd (UpdateDevice js ieee fn s)))
     \<and> bucket_ok (b_devices (snd (DeleteDevice ieee s)))
     \<and> (b_ok s \<longrightarrow> (\<exists>ds. ListDevices s = Inr ds
          \<and> (\<forall>d. d \<in> set ds \<longleftrightarrow> (\<exists>k. GetDevice k s = Inr d)) \<and> length ds = card (fst ` set (b_devices s))))"
proof -
  have d: "distinct (map fst (b_devices s))"
    using assms unfolding bucket_ok_def by (metis strict_sorted_iff sorted_wrt_map)
  have "map_of (b_devices s) k = Some v \<longleftrightarrow> (k, v) \<in> set (b_devices s)" for k v
    using d by simp
  then have "d \<in> snd ` set (b_devices s) \<longleftrightarrow> (\<exists>k. map_of (b_devices s) k = Some d)" for d
    by (force simp: image_iff)
  moreover have "length (b_devices s) = card (fst ` set (b_devices s))"
    using d by (metis distinct_card length_map list.set_map)
  ultimately show ?thesis using assms bucket_put_ok bucket_delete_ok
    by (auto simp: SaveDevice_def UpdateDevice_def DeleteDevice_def ListDevices_def GetDevice_def
        split: option.splits)
qed

theorem store_sorted_witness:
  "bucket_ok (b_devices (snd (DeleteDevice ''A'' \<lparr>b_ok = True,
       b_devices = [(''A'', new_device ''A''), (''B'', new_device ''B'')], b_network = None\<rparr>)))
   \<and> (\<exists>ds. ListDevices \<lparr>b_ok = True, b_devices = [(''A'', new_device ''A''), (''B'', new_device ''B'')], b_network = None\<rparr> = Inr ds
      \<and> length ds = 2)"
proof -
  let ?s = "\<lparr>b_ok = True, b_devices = [(''A'', new_device ''A''), (''B'', new_device ''B'')], b_network = None\<rparr>"
  have "''A'' < ''B''" by code_simp
  then have h: "bucket_ok (b_devices ?s)" by (simp add: bucket_ok_def)
  from store_sorted[OF h, of "\<lambda>_. 0" "new_device ''A''" "''A''"] show ?thesis by (auto simp: ListDevices_def)
qed

section \<open>Saved values are stable\<close>

lemma utf8_len_le: "utf8_len bs \<le> length bs"
  by (auto simp: utf8_len_def split: list.splits)

lemma utf8_len_Cons:
  "a < 0x80 \<Longrightarrow> utf8_len (a # r) = 1"
  "0xC2 \<le> a \<Longrightarrow> a \<le> 0xDF \<Longrightarrow> utf8_len (a # r) = (case r of b # _ \<Rightarrow> if is_cont b then 2 else 0 | _ \<Rightarrow> 0)"
  "0xE0 \<le> a \<Longrightarrow> a \<le> 0xEF \<Longrightarrow> utf8_len (a # r) = (case r of b # c # _ \<Rightarrow>
      if is_cont b \<and> is_cont c \<and> (a = 0xE0 \<longrightarrow> 0xA0 \<le> b) \<and> (a = 0xED \<longrightarrow> b \<le> 0x9F) then 3 else 0 | _ \<Rightarrow> 0)"
  "0xF0 \<le> a \<Longrightarrow> a \<le> 0xF4 \<Longrightarrow> utf8_len (a # r) = (case r of b # c # d # _ \<Rightarrow>
      if is_cont b \<and> is_cont c \<and> is_cont d \<and> (a = 0xF0 \<longrightarrow> 0x90 \<le> b) \<and> (a = 0xF4 \<longrightarrow> b \<le> 0x8F) then 4 else 0
      | _ \<Rightarrow> 0)"
  unfolding utf8_len_def list.case
  by (auto simp: word_le_nat_alt word_less_nat_alt simp del: list.case split del: if_split list.split)

lemma utf8_len_bad:
  "0 < utf8_len (a # r) \<Longrightarrow> a < 0x80 \<or> (0xC2 \<le> a \<and> a \<le> 0xDF) \<or> (0xE0 \<le> a \<and> a \<le> 0xEF) \<or> (0xF0 \<le> a \<and> a \<le> 0xF4)"
  unfolding utf8_len_def list.case by (simp split: if_split_asm)

lemma utf8_len_prefix:
  assumes "0 < utf8_len bs"
  shows "utf8_len (take (utf8_len bs) bs @ r) = utf8_len bs"
proof (cases bs)
  case (Cons a x)
  from utf8_len_bad[OF assms[unfolded Cons]] show ?thesis
  proof (elim disjE conjE)
    assume a: "a < 0x80"
    then show ?thesis by (simp add: Cons utf8_len_Cons(1))
  next
    assume a: "0xC2 \<le> a" "a \<le> 0xDF"
    then show ?thesis using assms by (auto simp: Cons utf8_len_Cons(2)[OF a] split: list.splits if_splits)
  next
    assume a: "0xE0 \<le> a" "a \<le> 0xEF"
    then show ?thesis using assms by (auto simp: Cons utf8_len_Cons(3)[OF a] numeral_3_eq_3 split: list.splits if_splits)
  next
    assume a: "0xF0 \<le> a" "a \<le> 0xF4"
    then show ?thesis using assms
      by (auto simp: Cons utf8_len_Cons(4)[OF a] numeral_eq_Suc split: list.splits if_splits)
  qed
qed (use assms in \<open>simp add: utf8_len_def\<close>)

lemma utf8_fix_idem: "utf8_fix (utf8_fix bs) = utf8_fix bs"
proof (induction bs rule: utf8_fix.induct)
  case (2 a r)
  define n where "n = utf8_len (a # r)"
  show ?case
  proof (cases "n = 0")
    case True
    have "utf8_len (0xEF # 0xBF # 0xBD # x) = 3" for x by (simp add: utf8_len_def is_cont_def)
    then have "utf8_fix (0xEF # 0xBF # 0xBD # x) = [0xEF, 0xBF, 0xBD] @ utf8_fix x" for x
      by (simp add: Let_def)
    then show ?thesis using 2(1)[OF n_def True] True by (simp add: n_def Let_def)
  next
    case False
    then obtain t where t: "take n (a # r) = a # t" by (cases n) auto
    define y where "y = utf8_fix (drop n (a # r))"
    have e: "utf8_fix (a # r) = a # t @ y" using False t by (simp add: n_def Let_def y_def)
    have u: "utf8_len (a # t @ y) = n"
      using utf8_len_prefix[of "a # r" y] False unfolding n_def[symmetric] t by simp
    have l: "length (a # t) = n" using utf8_len_le[of "a # r"] unfolding t[symmetric] n_def by simp
    have "utf8_fix (a # t @ y) = take n (a # t @ y) @ utf8_fix (drop n (a # t @ y))"
      using u False by (simp add: Let_def)
    also have "take n (a # t @ y) = a # t" using l by (metis append_Cons append_eq_conv_conj)
    also have "drop n (a # t @ y) = y" using l by (metis append_Cons append_eq_conv_conj)
    finally show ?thesis using 2(2)[OF n_def False] unfolding e y_def by simp
  qed
qed simp

lemma json_string_idem [simp]: "json_string (json_string s) = json_string s"
  by (simp add: json_string_def utf8_fix_idem)

lemma utf8_fix_ascii: "list_all (\<lambda>b. b < 0x80) bs \<Longrightarrow> utf8_fix bs = bs"
  by (induction bs rule: utf8_fix.induct) (auto simp: utf8_len_def)

lemma base64_ascii: "c \<in> set (base64 bs) \<Longrightarrow> (of_char c :: nat) < 128"
proof -
  have b: "(of_char (b64_char n) :: nat) < 128" if "n < 64" for n
    using that by (auto simp: b64_char_def)
  have u: "unat (x :: byte) < 256" for x using unsigned_less[of x, where ?'a=nat] by simp
  show "c \<in> set (base64 bs) \<Longrightarrow> (of_char c :: nat) < 128"
  proof (induction bs rule: base64.induct)
    case (1 a b' c' r)
    have "unat a * 65536 + unat b' * 256 + unat c' < 64 * 262144" using u[of a] u[of b'] u[of c'] by simp
    then show ?case using 1 b by (auto simp: Let_def less_mult_imp_div_less)
  next
    case (2 a b')
    have "unat a * 65536 + unat b' * 256 < 64 * 262144" using u[of a] u[of b'] by simp
    then show ?case using 2 b by (auto simp: Let_def less_mult_imp_div_less)
  next
    case (3 a)
    have "unat a * 65536 < 64 * 262144" using u[of a] by simp
    then show ?case using 3 b by (auto simp: Let_def less_mult_imp_div_less)
  qed simp
qed

lemma json_string_base64 [simp]: "json_string (base64 bs) = base64 bs"
proof -
  have "list_all (\<lambda>b. b < 0x80) (bytes_of (base64 bs))"
  proof -
    have "(word_of_nat (of_char c) :: byte) < 0x80" if "c \<in> set (base64 bs)" for c
      using base64_ascii[OF that] by (simp add: word_less_nat_alt unat_of_nat)
    then show ?thesis by (auto simp: list_all_iff bytes_of_def)
  qed
  then show ?thesis by (simp add: json_string_def utf8_fix_ascii)
qed

lemma word_f64_finite [simp]:
  fixes w :: "'a::len word"
  assumes "LENGTH('a) \<le> 64"
  shows "f64_exp (f64_of_int (sint w)) \<noteq> 2047" "f64_exp (f64_of_int (uint w)) \<noteq> 2047"
proof -
  have p: "(2 :: int) ^ LENGTH('a) \<le> 2 ^ 64" "(2 :: int) ^ (LENGTH('a) - 1) \<le> 2 ^ 64"
    using assms by (intro power_increasing; simp)+
  have "\<bar>sint w\<bar> \<le> 2 ^ 64" using p(2) sint_ge[of w] sint_lt[of w] by linarith
  then show "f64_exp (f64_of_int (sint w)) \<noteq> 2047" by (rule f64_of_int_finite)
  have "\<bar>uint w\<bar> \<le> 2 ^ 64" using p(1) uint_bounded[of w] unsigned_greater_eq[of w, where ?'a=int] by linarith
  then show "f64_exp (f64_of_int (uint w)) \<noteq> 2047" by (rule f64_of_int_finite)
qed

lemma those_map_fixed:
  assumes "those (map f xs) = Some ys" "\<And>x y. x \<in> set xs \<Longrightarrow> f x = Some y \<Longrightarrow> g y = Some y"
  shows "those (map g ys) = Some ys"
  using assms
proof (induction xs arbitrary: ys)
  case (Cons x xs)
  then obtain y zs where y: "f x = Some y" "those (map f xs) = Some zs" "ys = y # zs"
    by (auto split: option.splits)
  have "those (map g zs) = Some zs" by (rule Cons.IH[OF y(2)]) (rule Cons.prems(2), simp_all)
  moreover have "g y = Some y" using Cons.prems(2)[OF _ y(1)] by simp
  ultimately show ?case by (simp add: y(3))
qed simp

lemma json_value_idem:
  assumes "\<And>w. f32_exp w \<noteq> 255 \<Longrightarrow> f64_exp (js w) \<noteq> 2047" "json_value js v = Some v'"
  shows "json_value js v' = Some v'"
  using assms(2)
proof (induction v arbitrary: v')
  case (GList vs)
  then obtain ws where "those (map (json_value js) vs) = Some ws" "v' = GList ws" by auto
  moreover have "those (map (json_value js) ws) = Some ws"
    using calculation(1) GList.IH by (rule those_map_fixed)
  ultimately show ?case by simp
next
  case (GMap kvs)
  then obtain ws where w: "those (map (\<lambda>kv. map_option (Pair (fst kv)) (json_value js (snd kv))) kvs) = Some ws"
    "v' = GMap ws" by auto
  have "those (map (\<lambda>kv. map_option (Pair (fst kv)) (json_value js (snd kv))) ws) = Some ws"
    using w(1) by (rule those_map_fixed) (use GMap.IH in \<open>auto simp: prod_set_simps(2)\<close>)
  then show ?case by (simp add: w)
next
  case (GAddr a)
  then have v': "v' = GList (map (\<lambda>b. GF64 (f64_of_int (uint b))) a)" by simp
  have "json_value js (GF64 (f64_of_int (uint b))) = Some (GF64 (f64_of_int (uint b)))" for b :: byte
    by simp
  then have "those (map (json_value js) (map (\<lambda>b. GF64 (f64_of_int (uint b))) a)) =
      Some (map (\<lambda>b. GF64 (f64_of_int (uint b))) a)"
    by (induction a) simp_all
  then show ?case by (simp add: v')
qed (use assms(1) in \<open>auto split: if_splits\<close>)

lemma json_device_idem:
  assumes "\<And>w. f32_exp w \<noteq> 255 \<Longrightarrow> f64_exp (js w) \<noteq> 2047" "json_device js d = Some d'"
  shows "json_device js d' = Some d'"
proof -
  let ?g = "\<lambda>kv. map_option (Pair (fst kv)) (json_value js (snd kv))"
  obtain ps where ps: "those (map ?g (dev_Properties d)) = Some ps" "dev_Properties d' = ps"
    using assms(2) by (auto simp: json_device_def split: option.splits)
  have idem: "json_value js v = Some v' \<Longrightarrow> json_value js v' = Some v'" for v v'
    using assms(1) by (rule json_value_idem)
  have "those (map ?g ps) = Some ps"
    using ps(1) by (rule those_map_fixed) (auto simp: idem)
  then show ?thesis using assms(2) ps by (auto simp: json_device_def split: option.splits)
qed

text \<open>
  saving is stable. What comes back from the store saves to itself: a second JSON round trip of any value changes
  nothing (given that the shortest-decimal function gives finite floats), so values drift at most once, when they are
  first stored.
\<close>

theorem json_value_stable:
  assumes "\<And>w. f32_exp w \<noteq> 255 \<Longrightarrow> f64_exp (js w) \<noteq> 2047" "json_value js v = Some v'"
  shows "json_value js v' = Some v'"
  using assms by (rule json_value_idem)

theorem json_value_stable_witness:
  "json_value (\<lambda>_. 0) (GList [GU16 7, GBytes [1, 2]]) = Some (GList [GF64 (f64_of_int 7), GStr (base64 [1, 2])])
   \<and> json_value (\<lambda>_. 0) (GList [GF64 (f64_of_int 7), GStr (base64 [1, 2])]) =
      Some (GList [GF64 (f64_of_int 7), GStr (base64 [1, 2])])"
proof -
  have e: "json_value (\<lambda>_. 0) (GList [GU16 7, GBytes [1, 2]]) = Some (GList [GF64 (f64_of_int 7), GStr (base64 [1, 2])])"
    by simp
  have z: "f64_exp 0 \<noteq> 2047" by (simp add: f64_exp_def)
  show ?thesis using e json_value_stable[OF _ e] z by blast
qed

end
