(* ===== verification/MQTT_Discovery.thy ===== *)
theory MQTT_Discovery
  imports Store "HOL-Library.Sublist"
begin

text \<open>
  Home Assistant discovery: \<^verbatim>\<open>internal/mqtt/discovery.go\<close>. Topics are texts; a payload that is JSON is the
  value that reading it back gives, as in \<open>Store\<close>.
\<close>

section \<open>Messages\<close>

datatype payload = Json gval | Text string

record discoveryMsg =
  msg_Topic :: string
  msg_Payload :: payload

record haDevice =
  ha_Identifiers :: "string list"
  ha_Manufacturer :: string
  ha_Model :: string
  ha_DevName :: string

record haDiscovery =
  ha_Name :: string
  ha_UniqueID :: string
  ha_StateTopic :: string
  ha_CommandTopic :: string
  ha_AvailabilityTopic :: string
  ha_ValueTemplate :: string
  ha_UnitOfMeasurement :: string
  ha_DeviceClass :: string
  ha_StateClass :: string
  ha_PayloadOn :: string
  ha_PayloadOff :: string
  ha_BrightnessScale :: u64
  ha_BrightnessStateTopic :: string
  ha_BrightnessCommandTopic :: string
  ha_SupportedColorModes :: "string list"
  ha_Schema :: string
  ha_Device :: haDevice

definition no_discovery :: haDiscovery where
  "no_discovery = \<lparr>ha_Name = [], ha_UniqueID = [], ha_StateTopic = [], ha_CommandTopic = [], ha_AvailabilityTopic = [],
     ha_ValueTemplate = [], ha_UnitOfMeasurement = [], ha_DeviceClass = [], ha_StateClass = [], ha_PayloadOn = [],
     ha_PayloadOff = [], ha_BrightnessScale = 0, ha_BrightnessStateTopic = [], ha_BrightnessCommandTopic = [],
     ha_SupportedColorModes = [], ha_Schema = [],
     ha_Device = \<lparr>ha_Identifiers = [], ha_Manufacturer = [], ha_Model = [], ha_DevName = []\<rparr>\<rparr>"

text \<open>The JSON fields of the structures; \<^verbatim>\<open>omitempty\<close> leaves out empty ones.\<close>

definition str_field :: "string \<Rightarrow> string \<Rightarrow> (string \<times> gval) list" where
  "str_field k s = (if s = [] then [] else [(k, GStr s)])"

definition haDevice_json :: "haDevice \<Rightarrow> gval" where
  "haDevice_json d = GMap ([(''identifiers'', GList (map GStr (ha_Identifiers d)))]
     @ str_field ''manufacturer'' (ha_Manufacturer d) @ str_field ''model'' (ha_Model d) @ [(''name'', GStr (ha_DevName d))])"

definition haDiscovery_json :: "haDiscovery \<Rightarrow> gval" where
  "haDiscovery_json h = GMap
     ([(''name'', GStr (ha_Name h)), (''unique_id'', GStr (ha_UniqueID h)), (''state_topic'', GStr (ha_StateTopic h))]
      @ str_field ''command_topic'' (ha_CommandTopic h)
      @ [(''availability_topic'', GStr (ha_AvailabilityTopic h))]
      @ str_field ''value_template'' (ha_ValueTemplate h)
      @ str_field ''unit_of_measurement'' (ha_UnitOfMeasurement h)
      @ str_field ''device_class'' (ha_DeviceClass h)
      @ str_field ''state_class'' (ha_StateClass h)
      @ str_field ''payload_on'' (ha_PayloadOn h)
      @ str_field ''payload_off'' (ha_PayloadOff h)
      @ (if ha_BrightnessScale h = 0 then [] else [(''brightness_scale'', GInt (ha_BrightnessScale h))])
      @ str_field ''brightness_state_topic'' (ha_BrightnessStateTopic h)
      @ str_field ''brightness_command_topic'' (ha_BrightnessCommandTopic h)
      @ (if ha_SupportedColorModes h = [] then [] else [(''supported_color_modes'', GList (map GStr (ha_SupportedColorModes h)))])
      @ str_field ''schema'' (ha_Schema h)
      @ [(''device'', haDevice_json (ha_Device h))])"

text \<open>A value that cannot be marshalled gives an empty object.\<close>

definition mustJSON :: "js32 \<Rightarrow> gval \<Rightarrow> payload" where
  "mustJSON js v = (case json_value js v of Some w \<Rightarrow> Json w | None \<Rightarrow> Json (GMap []))"

section \<open>Names\<close>

definition deviceDisplayName :: "Device \<Rightarrow> string" where
  "deviceDisplayName dev =
     (if dev_FriendlyName dev \<noteq> [] then dev_FriendlyName dev
      else if dev_Manufacturer dev \<noteq> [] \<and> dev_Model dev \<noteq> [] then dev_Manufacturer dev @ '' '' @ dev_Model dev
      else if dev_Model dev \<noteq> [] then dev_Model dev
      else dev_IEEEAddress dev)"

definition deviceIdentifier :: "Device \<Rightarrow> string" where
  "deviceIdentifier dev = ''zigbee_'' @ dev_IEEEAddress dev"

text \<open>
  The characters of a friendly name: each rune is put into lower case and kept if it is a lower-case letter, a
  digit, an underscore or a dash of ASCII; any other rune, and each byte that is not UTF-8, becomes an underscore.
  Two runes outside ASCII have an ASCII lower case: the Kelvin sign U+212A and the dotted capital I U+0130.
\<close>

definition topic_safe :: "char \<Rightarrow> bool" where
  "topic_safe c \<longleftrightarrow> (97 \<le> (of_char c :: nat) \<and> (of_char c :: nat) \<le> 122) \<or> (48 \<le> (of_char c :: nat) \<and> (of_char c :: nat) \<le> 57)
     \<or> c = CHR ''_'' \<or> c = CHR ''-''"

definition ascii_lower :: "byte \<Rightarrow> byte" where
  "ascii_lower b = (if 65 \<le> b \<and> b \<le> 90 then b + 32 else b)"

definition topic_rune :: "bytes \<Rightarrow> char" where
  "topic_rune rn =
     (case rn of
        [b] \<Rightarrow> (let c = char_of (unat (ascii_lower b)) in if topic_safe c then c else CHR ''_'')
      | _ \<Rightarrow> if rn = [0xE2, 0x84, 0xAA] then CHR ''k'' else if rn = [0xC4, 0xB0] then CHR ''i'' else CHR ''_'')"

function topic_runes :: "bytes \<Rightarrow> string" where
  "topic_runes [] = []"
| "topic_runes (a # r) =
     (let n = utf8_len (a # r) in
      if n = 0 then CHR ''_'' # topic_runes r
      else topic_rune (take n (a # r)) # topic_runes (drop n (a # r)))"
  by pat_completeness auto
termination
  by (relation "measure length") (auto simp: Let_def)

definition deviceTopicName :: "Device \<Rightarrow> string" where
  "deviceTopicName dev =
     (if dev_FriendlyName dev \<noteq> [] then topic_runes (bytes_of (dev_FriendlyName dev)) else dev_IEEEAddress dev)"

section \<open>Entities\<close>

definition buildSensor ::
  "js32 \<Rightarrow> string \<Rightarrow> string \<Rightarrow> string \<Rightarrow> string \<Rightarrow> haDevice \<Rightarrow> string \<Rightarrow> string \<Rightarrow> string \<Rightarrow> string \<Rightarrow> string \<Rightarrow> string \<Rightarrow> discoveryMsg" where
  "buildSensor js nodeID displayName stateTopic avail haDev objectID sfx deviceClass unit stateClass valueTmpl =
     \<lparr>msg_Topic = ''homeassistant/sensor/'' @ nodeID @ ''/'' @ objectID @ ''/config'',
      msg_Payload = mustJSON js (haDiscovery_json (no_discovery
        \<lparr>ha_Name := displayName @ '' '' @ sfx, ha_UniqueID := nodeID @ ''_'' @ objectID, ha_StateTopic := stateTopic,
         ha_AvailabilityTopic := avail, ha_ValueTemplate := valueTmpl, ha_UnitOfMeasurement := unit,
         ha_DeviceClass := deviceClass, ha_StateClass := stateClass, ha_Device := haDev\<rparr>))\<rparr>"

definition buildBinarySensor ::
  "js32 \<Rightarrow> string \<Rightarrow> string \<Rightarrow> string \<Rightarrow> string \<Rightarrow> haDevice \<Rightarrow> string \<Rightarrow> string \<Rightarrow> string \<Rightarrow> string \<Rightarrow> discoveryMsg" where
  "buildBinarySensor js nodeID displayName stateTopic avail haDev objectID sfx deviceClass valueTmpl =
     \<lparr>msg_Topic = ''homeassistant/binary_sensor/'' @ nodeID @ ''/'' @ objectID @ ''/config'',
      msg_Payload = mustJSON js (haDiscovery_json (no_discovery
        \<lparr>ha_Name := displayName @ '' '' @ sfx, ha_UniqueID := nodeID @ ''_'' @ objectID, ha_StateTopic := stateTopic,
         ha_AvailabilityTopic := avail, ha_ValueTemplate := valueTmpl, ha_DeviceClass := deviceClass,
         ha_PayloadOn := ''ON'', ha_PayloadOff := ''OFF'', ha_Device := haDev\<rparr>))\<rparr>"

definition buildLight :: "js32 \<Rightarrow> string \<Rightarrow> string \<Rightarrow> string \<Rightarrow> string \<Rightarrow> haDevice \<Rightarrow> string \<Rightarrow> Device \<Rightarrow> discoveryMsg" where
  "buildLight js nodeID displayName stateTopic avail haDev px dev =
     \<lparr>msg_Topic = ''homeassistant/light/'' @ nodeID @ ''/light/config'',
      msg_Payload = mustJSON js (haDiscovery_json (no_discovery
        \<lparr>ha_Name := displayName, ha_UniqueID := nodeID @ ''_light'', ha_StateTopic := stateTopic,
         ha_CommandTopic := px @ ''/'' @ deviceTopicName dev @ ''/set'', ha_AvailabilityTopic := avail,
         ha_SupportedColorModes := [''brightness''], ha_BrightnessScale := 254, ha_Schema := ''json'', ha_Device := haDev\<rparr>))\<rparr>"

definition buildSwitch :: "js32 \<Rightarrow> string \<Rightarrow> string \<Rightarrow> string \<Rightarrow> string \<Rightarrow> haDevice \<Rightarrow> string \<Rightarrow> Device \<Rightarrow> discoveryMsg" where
  "buildSwitch js nodeID displayName stateTopic avail haDev px dev =
     \<lparr>msg_Topic = ''homeassistant/switch/'' @ nodeID @ ''/switch/config'',
      msg_Payload = mustJSON js (haDiscovery_json (no_discovery
        \<lparr>ha_Name := displayName, ha_UniqueID := nodeID @ ''_switch'', ha_StateTopic := stateTopic,
         ha_CommandTopic := px @ ''/'' @ deviceTopicName dev @ ''/set'', ha_AvailabilityTopic := avail,
         ha_ValueTemplate := ''{{ value_json.state }}'', ha_PayloadOn := ''ON'', ha_PayloadOff := ''OFF'', ha_Device := haDev\<rparr>))\<rparr>"

definition hasCluster :: "Device \<Rightarrow> u16 \<Rightarrow> bool" where
  "hasCluster dev cid = list_ex (\<lambda>ep. cid \<in> set (ep_InClusters ep)) (dev_Endpoints dev)"

text \<open>The unit of a temperature is the degree sign in UTF-8 and a C.\<close>

definition buildDiscovery :: "js32 \<Rightarrow> Device \<Rightarrow> string \<Rightarrow> discoveryMsg list" where
  "buildDiscovery js dev px =
    (if \<not> dev_Interviewed dev \<or> dev_Endpoints dev = [] then []
     else
      let avail = px @ ''/bridge/state'';
          stateTopic = px @ ''/'' @ deviceTopicName dev;
          nodeID = deviceIdentifier dev;
          displayName = deviceDisplayName dev;
          haDev = \<lparr>ha_Identifiers = [nodeID], ha_Manufacturer = dev_Manufacturer dev, ha_Model = dev_Model dev, ha_DevName = displayName\<rparr>;
          has = hasCluster dev;
          sensor = buildSensor js nodeID displayName stateTopic avail haDev;
          binary = buildBinarySensor js nodeID displayName stateTopic avail haDev;
          battery = sensor ''battery'' ''Battery'' ''battery'' ''%'' ''measurement'' ''{{ value_json.battery }}''
      in (if has 0x0006 \<and> has 0x0008 then [buildLight js nodeID displayName stateTopic avail haDev px dev]
          else if has 0x0006 then [buildSwitch js nodeID displayName stateTopic avail haDev px dev] else [])
       @ (if has 0x0402 then [sensor ''temperature'' ''Temperature'' ''temperature'' [CHR 0xC2, CHR 0xB0, CHR ''C''] ''measurement''
            ''{{ value_json.temperature }}''] else [])
       @ (if has 0x0405 then [sensor ''humidity'' ''Humidity'' ''humidity'' ''%'' ''measurement'' ''{{ value_json.humidity }}''] else [])
       @ (if has 0x0403 then [sensor ''pressure'' ''Pressure'' ''pressure'' ''hPa'' ''measurement'' ''{{ value_json.pressure }}''] else [])
       @ (if has 0x0400 then [sensor ''illuminance'' ''Illuminance'' ''illuminance'' ''lx'' ''measurement'' ''{{ value_json.illuminance }}''] else [])
       @ (if has 0x0406 then [binary ''occupancy'' ''Occupancy'' ''occupancy'' (''{{ '' @ [CHR 0x27] @ ''ON'' @ [CHR 0x27] @
            '' if value_json.occupancy else '' @ [CHR 0x27] @ ''OFF'' @ [CHR 0x27] @ '' }}'')] else [])
       @ (if has 0x0500 then [binary ''zone'' ''Zone'' ''safety'' (''{{ '' @ [CHR 0x27] @ ''ON'' @ [CHR 0x27] @
            '' if value_json.zone_status else '' @ [CHR 0x27] @ ''OFF'' @ [CHR 0x27] @ '' }}'')] else [])
       @ (if has 0x0001 then [battery] else [])
       @ (if map_of (dev_Properties dev) ''battery'' \<noteq> None \<and> \<not> has 0x0001 then [battery] else [])
       @ (if has 0x000C then [sensor ''analog'' ''Analog Input'' [] [] ''measurement'' ''{{ value_json.analog }}''] else [])
       @ [sensor ''linkquality'' ''Link Quality'' [] ''lqi'' ''measurement'' ''{{ value_json.linkquality }}''])"

definition remove_components :: "(string \<times> string) list" where
  "remove_components =
     [(''light'', ''light''), (''switch'', ''switch''), (''sensor'', ''temperature''), (''sensor'', ''humidity''),
      (''sensor'', ''pressure''), (''sensor'', ''illuminance''), (''sensor'', ''battery''), (''sensor'', ''analog''),
      (''sensor'', ''linkquality''), (''binary_sensor'', ''occupancy''), (''binary_sensor'', ''zone'')]"

definition buildRemoveDiscovery :: "Device \<Rightarrow> discoveryMsg list" where
  "buildRemoveDiscovery dev =
     map (\<lambda>(comp, obj). \<lparr>msg_Topic = ''homeassistant/'' @ comp @ ''/'' @ deviceIdentifier dev @ ''/'' @ obj @ ''/config'',
        msg_Payload = Text []\<rparr>) remove_components"

section \<open>Topics\<close>

lemma topic_rune_safe [simp]: "topic_safe (topic_rune rn)"
proof -
  have "topic_safe (CHR ''_'')" "topic_safe (CHR ''k'')" "topic_safe (CHR ''i'')" by (simp_all add: topic_safe_def)
  then show ?thesis by (auto simp: topic_rune_def Let_def split: list.split)
qed

lemma topic_runes_safe: "list_all topic_safe (topic_runes bs)"
proof (induction bs rule: topic_runes.induct)
  case (2 a r)
  have "topic_safe (CHR ''_'')" by (simp add: topic_safe_def)
  then show ?case using 2 by (simp add: Let_def)
qed simp

lemma topic_rune_id: "topic_safe c \<Longrightarrow> topic_rune [word_of_nat (of_char c)] = c"
proof -
  assume c: "topic_safe c"
  define n where "n = (of_char c :: nat)"
  have n: "n < 128" "n \<noteq> 65 \<and> \<not> (65 \<le> n \<and> n \<le> 90)" "char_of n = c" using c by (auto simp: topic_safe_def n_def)
  have u: "unat (word_of_nat n :: byte) = n" using n(1) by (simp add: unat_of_nat)
  have "ascii_lower (word_of_nat n) = word_of_nat n" using n(2) by (simp add: ascii_lower_def word_le_nat_alt u)
  then show ?thesis using c n(3) u by (simp add: topic_rune_def Let_def n_def)
qed

lemma topic_runes_id: "list_all topic_safe s \<Longrightarrow> topic_runes (bytes_of s) = s"
proof (induction s)
  case (Cons c s)
  have "(of_char c :: nat) < 128" using Cons by (auto simp: topic_safe_def)
  then have "utf8_len (word_of_nat (of_char c) # x) = 1" for x
    by (simp add: utf8_len_def word_less_nat_alt unat_of_nat)
  then show ?case using Cons topic_rune_id by (simp add: bytes_of_def Let_def)
qed (simp add: bytes_of_def)

lemma topic_runes_Nil [simp]: "topic_runes bs = [] \<longleftrightarrow> bs = []"
  by (cases bs) (auto simp: Let_def)

text \<open>
  the topic name made from a friendly name is not empty and has only lower-case letters, digits, underscores and
  dashes, whatever bytes the name has. It can contain no topic separator and no MQTT wildcard, so a device
  subscribes to its own command topic and to no other topic by its name. A name that already consists of such
  characters is kept.
\<close>

theorem topic_name_safe:
  "(dev_FriendlyName dev \<noteq> [] \<longrightarrow> list_all topic_safe (deviceTopicName dev) \<and> deviceTopicName dev \<noteq> []
      \<and> CHR ''/'' \<notin> set (deviceTopicName dev) \<and> CHR ''+'' \<notin> set (deviceTopicName dev) \<and> CHR ''#'' \<notin> set (deviceTopicName dev))
   \<and> (list_all topic_safe (dev_FriendlyName dev) \<and> dev_FriendlyName dev \<noteq> [] \<longrightarrow> deviceTopicName dev = dev_FriendlyName dev)"
proof -
  have "list_all topic_safe (deviceTopicName dev) \<and> deviceTopicName dev \<noteq> []" if "dev_FriendlyName dev \<noteq> []"
    using that topic_runes_safe length_bytes_of[of "dev_FriendlyName dev"] by (auto simp: deviceTopicName_def simp del: length_bytes_of)
  moreover have "\<not> topic_safe (CHR ''/'')" "\<not> topic_safe (CHR ''+'')" "\<not> topic_safe (CHR ''#'')" by (simp_all add: topic_safe_def)
  ultimately show ?thesis using topic_runes_id by (auto simp: deviceTopicName_def list_all_iff)
qed

theorem topic_name_safe_witness:
  "CHR ''/'' \<notin> set (deviceTopicName ((new_device ''x'')\<lparr>dev_FriendlyName := ''a/+#''\<rparr>))
   \<and> deviceTopicName ((new_device ''x'')\<lparr>dev_FriendlyName := ''lamp_1''\<rparr>) = ''lamp_1''"
  using topic_name_safe[of "(new_device ''x'')\<lparr>dev_FriendlyName := ''a/+#''\<rparr>"]
    topic_name_safe[of "(new_device ''x'')\<lparr>dev_FriendlyName := ''lamp_1''\<rparr>"]
  by (simp add: topic_safe_def)

section \<open>Removal\<close>

definition entity_topic :: "string \<Rightarrow> string \<times> string \<Rightarrow> string" where
  "entity_topic nodeID cx = ''homeassistant/'' @ fst cx @ CHR ''/'' # nodeID @ CHR ''/'' # snd cx @ ''/config''"

lemma remove_topics: "msg_Topic ` set (buildRemoveDiscovery dev) = entity_topic (deviceIdentifier dev) ` set remove_components"
  by (force simp: buildRemoveDiscovery_def entity_topic_def)

lemma entity_topics:
  "msg_Topic (buildSensor js nid dn st av dvc ob sf dc un sc vt) = entity_topic nid (''sensor'', ob)"
  "msg_Topic (buildBinarySensor js nid dn st av dvc ob sf dc vt) = entity_topic nid (''binary_sensor'', ob)"
  "msg_Topic (buildLight js nid dn st av dvc px dev) = entity_topic nid (''light'', ''light'')"
  "msg_Topic (buildSwitch js nid dn st av dvc px dev) = entity_topic nid (''switch'', ''switch'')"
  by (simp_all add: buildSensor_def buildBinarySensor_def buildLight_def buildSwitch_def entity_topic_def)

text \<open>The topics of a discovery are a subsequence of all topics, in the order of the code.\<close>

definition discovery_components :: "(string \<times> string) list" where
  "discovery_components =
     [(''light'', ''light''), (''switch'', ''switch'')] @ [(''sensor'', ''temperature'')] @ [(''sensor'', ''humidity'')]
     @ [(''sensor'', ''pressure'')] @ [(''sensor'', ''illuminance'')] @ [(''binary_sensor'', ''occupancy'')]
     @ [(''binary_sensor'', ''zone'')] @ [(''sensor'', ''battery'')] @ [(''sensor'', ''analog'')] @ [(''sensor'', ''linkquality'')]"

lemma subseq_parts: "subseq xs ys \<Longrightarrow> subseq xs' ys' \<Longrightarrow> subseq (xs @ xs') (ys @ ys')"
  by (rule list_emb_append_mono)

lemma subseq_set_distinct: "subseq xs ys \<Longrightarrow> set xs \<subseteq> set ys \<and> (distinct ys \<longrightarrow> distinct xs)"
  by (induction rule: list_emb.induct) auto

lemma subseq_if: "subseq (if c then [x] else []) [x]"
  by simp

lemma discovery_subseq:
  "subseq (map msg_Topic (buildDiscovery js dev px)) (map (entity_topic (deviceIdentifier dev)) discovery_components)"
proof (cases "\<not> dev_Interviewed dev \<or> dev_Endpoints dev = []")
  case False
  have i: "map f (if c then xs else ys) = (if c then map f xs else map f ys)" for f :: "discoveryMsg \<Rightarrow> string" and c xs ys by simp
  have two: "subseq ((if a then [x] else []) @ (if p \<and> \<not> a then [x] else []) @ zs) ([x] @ zs')" if "subseq zs zs'" for a p and x :: string and zs zs'
    using that by auto
  have ls: "subseq (if a \<and> b then [x] else if a then [y] else []) [x, y]" for a b and x y :: string by simp
  show ?thesis unfolding buildDiscovery_def Let_def if_not_P[OF False] discovery_components_def map_append i list.map entity_topics
    by (rule subseq_parts[OF ls] subseq_parts[OF subseq_if] two subseq_order.order_refl)+
qed (simp add: buildDiscovery_def)

lemma slash_split:
  assumes "c @ CHR ''/'' # r = d @ CHR ''/'' # r'" "CHR ''/'' \<notin> set c" "CHR ''/'' \<notin> set d"
  shows "c = d \<and> r = r'"
proof -
  have t: "takeWhile (\<lambda>x. x \<noteq> CHR ''/'') (c @ CHR ''/'' # r) = c" if "CHR ''/'' \<notin> set c" for c r
    using that by (induction c) auto
  have "c = d" using arg_cong[OF assms(1), of "takeWhile (\<lambda>x. x \<noteq> CHR ''/'')"] t assms(2,3) by simp
  then show ?thesis using assms(1) by auto
qed

text \<open>The topic determines the component, and, among addresses of one length, the device.\<close>

lemma entity_topic_inj:
  assumes "entity_topic n cx = entity_topic m dy" "length n = length m" "CHR ''/'' \<notin> set (fst cx)" "CHR ''/'' \<notin> set (fst dy)"
  shows "n = m \<and> cx = dy"
proof -
  have "fst cx @ CHR ''/'' # n @ CHR ''/'' # snd cx @ ''/config'' = fst dy @ CHR ''/'' # m @ CHR ''/'' # snd dy @ ''/config''"
    using assms(1) by (simp add: entity_topic_def)
  from slash_split[OF this assms(3,4)] show ?thesis using assms(2) by (simp add: prod_eq_iff)
qed

lemma components_plain:
  "cx \<in> set remove_components \<Longrightarrow> CHR ''/'' \<notin> set (fst cx)" "set discovery_components = set remove_components" "distinct discovery_components"
  by (auto simp: remove_components_def discovery_components_def)

lemma discovery_topics: "msg_Topic ` set (buildDiscovery js dev px) \<subseteq> entity_topic (deviceIdentifier dev) ` set remove_components"
  using subseq_set_distinct[OF discovery_subseq[of js dev px]] by (simp add: components_plain)

lemma discovery_distinct: "distinct (map msg_Topic (buildDiscovery js dev px))"
proof -
  have "inj_on (entity_topic (deviceIdentifier dev)) (set discovery_components)"
    unfolding components_plain(2) by (rule inj_onI) (rule entity_topic_inj[THEN conjunct2, OF _ refl components_plain(1) components_plain(1)])
  then show ?thesis using subseq_set_distinct[OF discovery_subseq] by (simp add: distinct_map components_plain)
qed

text \<open>
  when a device leaves, nothing of it stays in Home Assistant: every topic that discovery can have published for it, with
  any of its later names, properties and clusters and any prefix, is among those that the removal clears with an
  empty retained message; the entities of a device have distinct topics; and the removal touches no topic of
  another device.
\<close>

theorem removal_covers_discovery:
  "msg_Topic ` set (buildDiscovery js dev px) \<subseteq> msg_Topic ` set (buildRemoveDiscovery (new_device (dev_IEEEAddress dev)))
   \<and> msg_Payload ` set (buildRemoveDiscovery (new_device ieee)) = {Text []}
   \<and> distinct (map msg_Topic (buildDiscovery js dev px))
   \<and> (ieee \<noteq> dev_IEEEAddress dev \<and> length ieee = length (dev_IEEEAddress dev) \<longrightarrow>
        msg_Topic ` set (buildDiscovery js dev px) \<inter> msg_Topic ` set (buildRemoveDiscovery (new_device ieee)) = {})"
proof (intro conjI impI)
  have id: "deviceIdentifier (new_device i) = ''zigbee_'' @ i" for i by (simp add: deviceIdentifier_def new_device_def)
  show "msg_Topic ` set (buildDiscovery js dev px) \<subseteq> msg_Topic ` set (buildRemoveDiscovery (new_device (dev_IEEEAddress dev)))"
    using discovery_topics unfolding remove_topics id by (simp add: deviceIdentifier_def)
  show "msg_Payload ` set (buildRemoveDiscovery (new_device ieee)) = {Text []}"
    by (auto simp: buildRemoveDiscovery_def remove_components_def)
  show "distinct (map msg_Topic (buildDiscovery js dev px))" by (rule discovery_distinct)
  assume d: "ieee \<noteq> dev_IEEEAddress dev \<and> length ieee = length (dev_IEEEAddress dev)"
  have False if "x \<in> msg_Topic ` set (buildDiscovery js dev px)" "x \<in> msg_Topic ` set (buildRemoveDiscovery (new_device ieee))" for x
  proof -
    have "x \<in> entity_topic (deviceIdentifier dev) ` set remove_components" using discovery_topics that(1) by (rule subsetD)
    then obtain cx where cx: "x = entity_topic (deviceIdentifier dev) cx" "cx \<in> set remove_components" by (rule imageE)
    have "x \<in> entity_topic (''zigbee_'' @ ieee) ` set remove_components" using that(2) unfolding remove_topics id .
    then obtain dy where dy: "x = entity_topic (''zigbee_'' @ ieee) dy" "dy \<in> set remove_components" by (rule imageE)
    note c = components_plain(1)[OF cx(2)] components_plain(1)[OF dy(2)]
    have l: "length (deviceIdentifier dev) = length (''zigbee_'' @ ieee)" using d by (simp add: deviceIdentifier_def)
    from entity_topic_inj[OF trans[OF cx(1)[symmetric] dy(1)] l c] show False using d by (simp add: deviceIdentifier_def)
  qed
  then show "msg_Topic ` set (buildDiscovery js dev px) \<inter> msg_Topic ` set (buildRemoveDiscovery (new_device ieee)) = {}" by blast
qed

theorem removal_covers_discovery_witness:
  "let dev = (new_device ''0A'')\<lparr>dev_Interviewed := True, dev_Endpoints := [\<lparr>ep_ID = 1, ep_ProfileID = 0x0104, ep_DeviceID = 0,
         ep_InClusters = [6, 0x0402], ep_OutClusters = []\<rparr>]\<rparr>
   in entity_topic ''zigbee_0A'' (''switch'', ''switch'') \<in> msg_Topic ` set (buildDiscovery (\<lambda>_. 0) dev ''zb'')
    \<and> msg_Topic ` set (buildDiscovery (\<lambda>_. 0) dev ''zb'') \<inter> msg_Topic ` set (buildRemoveDiscovery (new_device ''0B'')) = {}"
proof -
  let ?d = "(new_device ''0A'')\<lparr>dev_Interviewed := True, dev_Endpoints := [\<lparr>ep_ID = 1, ep_ProfileID = 0x0104, ep_DeviceID = 0,
         ep_InClusters = [6, 0x0402], ep_OutClusters = []\<rparr>]\<rparr>"
  have h: "hasCluster ?d 6" "\<not> hasCluster ?d 8" by (simp_all add: hasCluster_def new_device_def)
  have "buildDiscovery (\<lambda>_. 0) ?d ''zb'' \<noteq> []" "dev_IEEEAddress ?d = ''0A''" "deviceIdentifier ?d = ''zigbee_0A''"
    by (simp_all add: buildDiscovery_def Let_def new_device_def deviceIdentifier_def)
  moreover have "entity_topic ''zigbee_0A'' (''switch'', ''switch'') \<in> msg_Topic ` set (buildDiscovery (\<lambda>_. 0) ?d ''zb'')"
    using h by (simp add: buildDiscovery_def Let_def entity_topics deviceIdentifier_def new_device_def)
  ultimately show ?thesis using removal_covers_discovery[of "\<lambda>_. 0" ?d "''zb''" "''0B''"] unfolding Let_def by auto
qed

end
