(* ===== verification/NCP_Crc.thy ===== *)
theory NCP_Crc
  imports Prelude
begin

text \<open>
  The checksums of \<^verbatim>\<open>internal/ncp\<close>: the FCS-16 lookup table of \<^verbatim>\<open>nrf52840_hdlc.go\<close>, the HDLC
  frame check sequence and the ZBOSS body CRC-16 that share it, and the ZBOSS link-layer CRC-8
  whose table \<^verbatim>\<open>init()\<close> fills. The table-driven routines are shown equal to the bit-by-bit
  division they stand for, and to tell apart any two messages that differ in one byte.
\<close>

section \<open>Tables and table-driven routines\<close>

definition fcsTable :: "u16 list" where
  "fcsTable = [
    0x0000, 0x1189, 0x2312, 0x329B, 0x4624, 0x57AD, 0x6536, 0x74BF,
    0x8C48, 0x9DC1, 0xAF5A, 0xBED3, 0xCA6C, 0xDBE5, 0xE97E, 0xF8F7,
    0x1081, 0x0108, 0x3393, 0x221A, 0x56A5, 0x472C, 0x75B7, 0x643E,
    0x9CC9, 0x8D40, 0xBFDB, 0xAE52, 0xDAED, 0xCB64, 0xF9FF, 0xE876,
    0x2102, 0x308B, 0x0210, 0x1399, 0x6726, 0x76AF, 0x4434, 0x55BD,
    0xAD4A, 0xBCC3, 0x8E58, 0x9FD1, 0xEB6E, 0xFAE7, 0xC87C, 0xD9F5,
    0x3183, 0x200A, 0x1291, 0x0318, 0x77A7, 0x662E, 0x54B5, 0x453C,
    0xBDCB, 0xAC42, 0x9ED9, 0x8F50, 0xFBEF, 0xEA66, 0xD8FD, 0xC974,
    0x4204, 0x538D, 0x6116, 0x709F, 0x0420, 0x15A9, 0x2732, 0x36BB,
    0xCE4C, 0xDFC5, 0xED5E, 0xFCD7, 0x8868, 0x99E1, 0xAB7A, 0xBAF3,
    0x5285, 0x430C, 0x7197, 0x601E, 0x14A1, 0x0528, 0x37B3, 0x263A,
    0xDECD, 0xCF44, 0xFDDF, 0xEC56, 0x98E9, 0x8960, 0xBBFB, 0xAA72,
    0x6306, 0x728F, 0x4014, 0x519D, 0x2522, 0x34AB, 0x0630, 0x17B9,
    0xEF4E, 0xFEC7, 0xCC5C, 0xDDD5, 0xA96A, 0xB8E3, 0x8A78, 0x9BF1,
    0x7387, 0x620E, 0x5095, 0x411C, 0x35A3, 0x242A, 0x16B1, 0x0738,
    0xFFCF, 0xEE46, 0xDCDD, 0xCD54, 0xB9EB, 0xA862, 0x9AF9, 0x8B70,
    0x8408, 0x9581, 0xA71A, 0xB693, 0xC22C, 0xD3A5, 0xE13E, 0xF0B7,
    0x0840, 0x19C9, 0x2B52, 0x3ADB, 0x4E64, 0x5FED, 0x6D76, 0x7CFF,
    0x9489, 0x8500, 0xB79B, 0xA612, 0xD2AD, 0xC324, 0xF1BF, 0xE036,
    0x18C1, 0x0948, 0x3BD3, 0x2A5A, 0x5EE5, 0x4F6C, 0x7DF7, 0x6C7E,
    0xA50A, 0xB483, 0x8618, 0x9791, 0xE32E, 0xF2A7, 0xC03C, 0xD1B5,
    0x2942, 0x38CB, 0x0A50, 0x1BD9, 0x6F66, 0x7EEF, 0x4C74, 0x5DFD,
    0xB58B, 0xA402, 0x9699, 0x8710, 0xF3AF, 0xE226, 0xD0BD, 0xC134,
    0x39C3, 0x284A, 0x1AD1, 0x0B58, 0x7FE7, 0x6E6E, 0x5CF5, 0x4D7C,
    0xC60C, 0xD785, 0xE51E, 0xF497, 0x8028, 0x91A1, 0xA33A, 0xB2B3,
    0x4A44, 0x5BCD, 0x6956, 0x78DF, 0x0C60, 0x1DE9, 0x2F72, 0x3EFB,
    0xD68D, 0xC704, 0xF59F, 0xE416, 0x90A9, 0x8120, 0xB3BB, 0xA232,
    0x5AC5, 0x4B4C, 0x79D7, 0x685E, 0x1CE1, 0x0D68, 0x3FF3, 0x2E7A,
    0xE70E, 0xF687, 0xC41C, 0xD595, 0xA12A, 0xB0A3, 0x8238, 0x93B1,
    0x6B46, 0x7ACF, 0x4854, 0x59DD, 0x2D62, 0x3CEB, 0x0E70, 0x1FF9,
    0xF78F, 0xE606, 0xD49D, 0xC514, 0xB1AB, 0xA022, 0x92B9, 0x8330,
    0x7BC7, 0x6A4E, 0x58D5, 0x495C, 0x3DE3, 0x2C6A, 0x1EF1, 0x0F78]"

definition crc16_step :: "u16 \<Rightarrow> byte \<Rightarrow> u16" where
  "crc16_step crc b = drop_bit 8 crc XOR fcsTable ! unat ((crc XOR ucast b) AND 0xFF)"

definition hdlcFCS16 :: "bytes \<Rightarrow> u16" where
  "hdlcFCS16 data = foldl crc16_step 0xFFFF data XOR 0xFFFF"

definition zbossCRC16 :: "bytes \<Rightarrow> u16" where
  "zbossCRC16 data = foldl crc16_step 0 data"

text \<open>One inner iteration of \<^verbatim>\<open>init()\<close>, and the table it fills with eight of them per entry.\<close>

definition crc8_bit :: "byte \<Rightarrow> byte" where
  "crc8_bit crc = (if crc AND 1 \<noteq> 0 then drop_bit 1 crc XOR 0xB2 else drop_bit 1 crc)"

definition crc8_entry :: "byte \<Rightarrow> byte" where
  "crc8_entry i = crc8_bit (crc8_bit (crc8_bit (crc8_bit
     (crc8_bit (crc8_bit (crc8_bit (crc8_bit i)))))))"

definition crc8Table :: "byte list" where
  "crc8Table = map (\<lambda>i. crc8_entry (word_of_nat i)) [0..<256]"

definition zbossCRC8 :: "bytes \<Rightarrow> byte" where
  "zbossCRC8 data = foldl (\<lambda>crc b. crc8Table ! unat (crc XOR b)) 0xFF data XOR 0xFF"

section \<open>The reference: polynomial division bit by bit\<close>

definition crc16_bit :: "u16 \<Rightarrow> u16" where
  "crc16_bit crc = (if bit crc 0 then drop_bit 1 crc XOR 0x8408 else drop_bit 1 crc)"

definition crc16_byte :: "u16 \<Rightarrow> u16" where
  "crc16_byte c = crc16_bit (crc16_bit (crc16_bit (crc16_bit
     (crc16_bit (crc16_bit (crc16_bit (crc16_bit c)))))))"

definition crc16_ref :: "u16 \<Rightarrow> bytes \<Rightarrow> u16" where
  "crc16_ref init data = foldl (\<lambda>crc b. crc16_byte (crc XOR ucast b)) init data"

lemma length_fcsTable [simp]: "length fcsTable = 256"
  by (simp add: fcsTable_def)

lemma upt_256: "[0..<256] = [0, 1, 2, 3, 4, 5, 6, 7, 8, 9, 10, 11, 12, 13, 14, 15, 16, 17, 18, 19,
     20, 21, 22, 23, 24, 25, 26, 27, 28, 29, 30, 31, 32, 33, 34, 35, 36, 37, 38, 39,
     40, 41, 42, 43, 44, 45, 46, 47, 48, 49, 50, 51, 52, 53, 54, 55, 56, 57, 58, 59,
     60, 61, 62, 63, 64, 65, 66, 67, 68, 69, 70, 71, 72, 73, 74, 75, 76, 77, 78, 79,
     80, 81, 82, 83, 84, 85, 86, 87, 88, 89, 90, 91, 92, 93, 94, 95, 96, 97, 98, 99,
     100, 101, 102, 103, 104, 105, 106, 107, 108, 109, 110, 111, 112, 113, 114, 115, 116, 117, 118, 119,
     120, 121, 122, 123, 124, 125, 126, 127, 128, 129, 130, 131, 132, 133, 134, 135, 136, 137, 138, 139,
     140, 141, 142, 143, 144, 145, 146, 147, 148, 149, 150, 151, 152, 153, 154, 155, 156, 157, 158, 159,
     160, 161, 162, 163, 164, 165, 166, 167, 168, 169, 170, 171, 172, 173, 174, 175, 176, 177, 178, 179,
     180, 181, 182, 183, 184, 185, 186, 187, 188, 189, 190, 191, 192, 193, 194, 195, 196, 197, 198, 199,
     200, 201, 202, 203, 204, 205, 206, 207, 208, 209, 210, 211, 212, 213, 214, 215, 216, 217, 218, 219,
     220, 221, 222, 223, 224, 225, 226, 227, 228, 229, 230, 231, 232, 233, 234, 235, 236, 237, 238, 239,
     240, 241, 242, 243, 244, 245, 246, 247, 248, 249, 250, 251, 252, 253, 254, 255]"
proof -
  have "[0..<256] = 0 # 1 # [2..<256]"
    by (simp add: upt_conv_Cons[of 0 256] upt_conv_Cons[of "Suc 0" 256] numeral_2_eq_2)
  then show ?thesis by simp
qed

lemma words_256: "map (word_of_nat :: nat \<Rightarrow> u16) [0..<256] =
    [0, 1, 2, 3, 4, 5, 6, 7, 8, 9, 10, 11, 12, 13, 14, 15, 16, 17, 18, 19,
     20, 21, 22, 23, 24, 25, 26, 27, 28, 29, 30, 31, 32, 33, 34, 35, 36, 37, 38, 39,
     40, 41, 42, 43, 44, 45, 46, 47, 48, 49, 50, 51, 52, 53, 54, 55, 56, 57, 58, 59,
     60, 61, 62, 63, 64, 65, 66, 67, 68, 69, 70, 71, 72, 73, 74, 75, 76, 77, 78, 79,
     80, 81, 82, 83, 84, 85, 86, 87, 88, 89, 90, 91, 92, 93, 94, 95, 96, 97, 98, 99,
     100, 101, 102, 103, 104, 105, 106, 107, 108, 109, 110, 111, 112, 113, 114, 115, 116, 117, 118, 119,
     120, 121, 122, 123, 124, 125, 126, 127, 128, 129, 130, 131, 132, 133, 134, 135, 136, 137, 138, 139,
     140, 141, 142, 143, 144, 145, 146, 147, 148, 149, 150, 151, 152, 153, 154, 155, 156, 157, 158, 159,
     160, 161, 162, 163, 164, 165, 166, 167, 168, 169, 170, 171, 172, 173, 174, 175, 176, 177, 178, 179,
     180, 181, 182, 183, 184, 185, 186, 187, 188, 189, 190, 191, 192, 193, 194, 195, 196, 197, 198, 199,
     200, 201, 202, 203, 204, 205, 206, 207, 208, 209, 210, 211, 212, 213, 214, 215, 216, 217, 218, 219,
     220, 221, 222, 223, 224, 225, 226, 227, 228, 229, 230, 231, 232, 233, 234, 235, 236, 237, 238, 239,
     240, 241, 242, 243, 244, 245, 246, 247, 248, 249, 250, 251, 252, 253, 254, 255]"
  unfolding upt_256 by simp

lemma fcsTable_ref: "fcsTable = map (\<lambda>i. crc16_byte (word_of_nat i)) [0..<256]"
proof -
  have "map crc16_byte (map word_of_nat [0..<256]) = fcsTable"
    unfolding words_256 by (simp add: fcsTable_def crc16_byte_def crc16_bit_def)
  then show ?thesis by (simp add: o_def)
qed

lemma fcsTable_nth: "i < 256 \<Longrightarrow> fcsTable ! i = crc16_byte (word_of_nat i)"
  by (simp add: fcsTable_ref)

text \<open>The division step is linear and injective, hence so is a whole byte of it.\<close>

lemma crc16_bit_xor: "crc16_bit (x XOR y) = crc16_bit x XOR crc16_bit y"
  by (rule bit_eqI) (auto simp: crc16_bit_def bit_simps)

lemma crc16_byte_xor: "crc16_byte (x XOR y) = crc16_byte x XOR crc16_byte y"
  by (simp only: crc16_byte_def crc16_bit_xor)

lemma crc16_bit_eq_0: "crc16_bit x = 0 \<Longrightarrow> x = 0"
proof (rule bit_eqI)
  fix n assume z: "crc16_bit x = 0" and "possible_bit TYPE(16 word) n"
  then have n: "n < 16" by simp
  have b: "\<not> bit x 0"
  proof
    assume "bit x 0"
    then have "bit (crc16_bit x) 15"
      using bit_imp_le_length[of x 16] by (auto simp: crc16_bit_def bit_simps)
    with z show False by simp
  qed
  show "bit x n \<longleftrightarrow> bit (0 :: u16) n"
  proof (cases n)
    case 0 with b show ?thesis by simp
  next
    case (Suc m)
    have "bit (drop_bit 1 x) m = bit (0 :: u16) m" using z b by (simp add: crc16_bit_def)
    then show ?thesis by (simp add: Suc bit_simps)
  qed
qed

lemma crc16_byte_inj: "crc16_byte x = crc16_byte y \<longleftrightarrow> x = y"
proof
  assume "crc16_byte x = crc16_byte y"
  then have "crc16_byte (x XOR y) = 0" by (simp add: crc16_byte_xor)
  then have "x XOR y = 0" unfolding crc16_byte_def
    by (rule crc16_bit_eq_0[OF crc16_bit_eq_0[OF crc16_bit_eq_0[OF crc16_bit_eq_0[OF
        crc16_bit_eq_0[OF crc16_bit_eq_0[OF crc16_bit_eq_0[OF crc16_bit_eq_0]]]]]]])
  then show "x = y" by (simp add: xor_eq_0)
qed simp

lemma crc16_bit_even: "\<not> bit x 0 \<Longrightarrow> crc16_bit x = drop_bit 1 x"
  by (simp add: crc16_bit_def)

lemma crc16_byte_high: "take_bit 8 x = 0 \<Longrightarrow> crc16_byte x = drop_bit 8 x"
proof -
  assume "take_bit 8 x = 0"
  then have z: "\<not> bit x k" if "k < 8" for k
    using that bit_take_bit_iff[of 8 x k] by simp
  show ?thesis unfolding crc16_byte_def
    by (simp add: crc16_bit_even bit_simps z drop_bit_drop_bit numeral_eq_Suc)
qed

text \<open>The table step is one byte of the division.\<close>

lemma crc16_step_ref: "crc16_step crc b = crc16_byte (crc XOR ucast b)"
proof -
  let ?x = "crc XOR ucast b"
  let ?lo = "?x AND 0xFF" and ?hi = "push_bit 8 (drop_bit 8 crc)"
  have m: "(0xFF :: u16) = mask 8" by (simp add: mask_eq_exp_minus_1)
  have split: "?x = ?hi XOR ?lo"
    by (rule bit_eqI) (auto simp: m bit_simps dest: bit_imp_le_length)
  have "unat (take_bit 8 ?x) < 2 ^ 8" unfolding unsigned_take_bit_eq by (rule take_bit_nat_less_exp)
  moreover have "?lo = take_bit 8 ?x" unfolding m by (rule take_bit_eq_mask[symmetric])
  ultimately have lo: "unat ?lo < 256" by simp
  have "crc16_byte ?hi = drop_bit 8 ?hi"
    by (rule crc16_byte_high) (rule bit_eqI, auto simp: bit_simps)
  also have "\<dots> = drop_bit 8 crc" by (rule bit_eqI) (auto simp: bit_simps dest: bit_imp_le_length)
  finally have hi: "crc16_byte ?hi = drop_bit 8 crc" .
  have "crc16_step crc b = crc16_byte ?hi XOR crc16_byte ?lo"
    using lo by (simp add: crc16_step_def fcsTable_nth hi)
  also have "\<dots> = crc16_byte (?hi XOR ?lo)" by (rule crc16_byte_xor[symmetric])
  also have "\<dots> = crc16_byte ?x" by (rule arg_cong[OF split[symmetric]])
  finally show ?thesis .
qed

text \<open>
  C25: the table-driven FCS-16 (HDLC) and CRC-16 (ZBOSS body) compute the remainder of the
  reflected polynomial \<open>0x8408\<close>, bit by bit, with the initial value and final complement of the
  protocol: the 256 constants in the source are all right and the table is indexed correctly.
\<close>

theorem crc16_table_correct:
  "hdlcFCS16 data = crc16_ref 0xFFFF data XOR 0xFFFF \<and> zbossCRC16 data = crc16_ref 0 data"
  by (simp add: hdlcFCS16_def zbossCRC16_def crc16_ref_def crc16_step_ref[abs_def])

section \<open>A corrupted byte is noticed\<close>

lemma crc16_step_inj_crc: "crc16_step c b = crc16_step d b \<longleftrightarrow> c = d"
  by (simp add: crc16_step_ref crc16_byte_inj)

lemma crc16_step_inj_byte: "crc16_step c b = crc16_step c b' \<longleftrightarrow> b = b'"
  by (simp add: crc16_step_ref crc16_byte_inj ucast_up_inj)

lemma foldl_crc16_inj: "foldl crc16_step c data = foldl crc16_step d data \<longleftrightarrow> c = d"
  by (induction data arbitrary: c d) (auto simp: crc16_step_inj_crc)

lemma foldl_crc16_one_byte:
  "foldl crc16_step c (xs @ b # ys) = foldl crc16_step c (xs @ b' # ys) \<longleftrightarrow> b = b'"
  by (simp add: foldl_crc16_inj crc16_step_inj_byte)

lemma crc8_bit_eq_0: "crc8_bit x = 0 \<Longrightarrow> x = 0"
proof (rule bit_eqI)
  fix n assume z: "crc8_bit x = 0"
  have b: "\<not> bit x 0"
  proof
    assume "bit x 0"
    then have "bit (crc8_bit x) 7"
      using bit_imp_le_length[of x 8] by (auto simp: crc8_bit_def bit_simps and_exp_eq_0_iff_not_bit[of x 0, simplified])
    with z show False by simp
  qed
  show "bit x n \<longleftrightarrow> bit (0 :: byte) n"
  proof (cases n)
    case 0 with b show ?thesis by simp
  next
    case (Suc m)
    have "bit (drop_bit 1 x) m = bit (0 :: byte) m"
      using z b by (simp add: crc8_bit_def and_exp_eq_0_iff_not_bit[of x 0, simplified])
    then show ?thesis by (simp add: Suc bit_simps)
  qed
qed

lemma crc8_bit_xor: "crc8_bit (x XOR y) = crc8_bit x XOR crc8_bit y"
  by (rule bit_eqI) (auto simp: crc8_bit_def bit_simps and_exp_eq_0_iff_not_bit[of _ 0, simplified])

lemma crc8_entry_inj: "crc8_entry x = crc8_entry y \<longleftrightarrow> x = y"
proof
  assume "crc8_entry x = crc8_entry y"
  then have "crc8_entry (x XOR y) = 0" by (simp add: crc8_entry_def crc8_bit_xor)
  then have "x XOR y = 0" unfolding crc8_entry_def
    by (rule crc8_bit_eq_0[OF crc8_bit_eq_0[OF crc8_bit_eq_0[OF crc8_bit_eq_0[OF
        crc8_bit_eq_0[OF crc8_bit_eq_0[OF crc8_bit_eq_0[OF crc8_bit_eq_0]]]]]]])
  then show "x = y" by (simp add: xor_eq_0)
qed simp

lemma crc8Table_nth: "crc8Table ! unat b = crc8_entry b"
  using unsigned_less[of b, where ?'a=nat] by (simp add: crc8Table_def)

lemma zbossCRC8_foldl: "zbossCRC8 data = foldl (\<lambda>crc b. crc8_entry (crc XOR b)) 0xFF data XOR 0xFF"
  by (simp add: zbossCRC8_def crc8Table_nth)

lemma foldl_crc8_inj:
  "foldl (\<lambda>crc b. crc8_entry (crc XOR b)) c data = foldl (\<lambda>crc b. crc8_entry (crc XOR b)) d data \<longleftrightarrow> c = d"
  by (induction data arbitrary: c d) (simp_all add: crc8_entry_inj)

lemma zbossCRC8_one_byte: "zbossCRC8 (xs @ b # ys) = zbossCRC8 (xs @ b' # ys) \<longleftrightarrow> b = b'"
  by (simp add: zbossCRC8_foldl foldl_crc8_inj crc8_entry_inj)

lemma zbossCRC16_one_byte: "zbossCRC16 (xs @ b # ys) = zbossCRC16 (xs @ b' # ys) \<longleftrightarrow> b = b'"
  unfolding zbossCRC16_def by (rule foldl_crc16_one_byte)

lemma hdlcFCS16_one_byte: "hdlcFCS16 (xs @ b # ys) = hdlcFCS16 (xs @ b' # ys) \<longleftrightarrow> b = b'"
  unfolding hdlcFCS16_def by (simp only: foldl_crc16_one_byte xor_cancel_right)

text \<open>
  any two messages that differ in exactly one byte have different checksums, for all three
  checksums of the link, wherever the byte stands: a byte damaged in transit is always noticed.
\<close>

theorem checksums_detect_one_byte:
  "b \<noteq> b' \<Longrightarrow> hdlcFCS16 (xs @ b # ys) \<noteq> hdlcFCS16 (xs @ b' # ys)
     \<and> zbossCRC16 (xs @ b # ys) \<noteq> zbossCRC16 (xs @ b' # ys)
     \<and> zbossCRC8 (xs @ b # ys) \<noteq> zbossCRC8 (xs @ b' # ys)"
  by (simp only: hdlcFCS16_one_byte zbossCRC16_one_byte zbossCRC8_one_byte) simp

theorem checksums_detect_one_byte_witness:
  "(1 :: byte) \<noteq> 3 \<and> zbossCRC8 ([9] @ 1 # [4]) \<noteq> zbossCRC8 ([9] @ 3 # [4])"
proof -
  have h: "(1 :: byte) \<noteq> 3" by simp
  show ?thesis using h checksums_detect_one_byte[OF h, of "[9]" "[4]"] by blast
qed

end
