(* ===== verification/NCP_Hdlc.thy ===== *)
theory NCP_Hdlc
  imports NCP_Crc
begin

text \<open>
  HDLC-Lite framing, \<^verbatim>\<open>internal/ncp/nrf52840_hdlc.go\<close>: byte stuffing with FCS-16, its inverse,
  and the flag-delimited reader. A \<^verbatim>\<open>bufio.Reader\<close> is the list of bytes still to come; reading
  past its end is the read error of the source (\<^verbatim>\<open>io.EOF\<close> or a closed port).
\<close>

abbreviation hdlcFlag :: byte where "hdlcFlag \<equiv> 0x7E"
abbreviation hdlcEscape :: byte where "hdlcEscape \<equiv> 0x7D"
abbreviation hdlcXOR :: byte where "hdlcXOR \<equiv> 0x20"
abbreviation maxHDLCFrameSize :: nat where "maxHDLCFrameSize \<equiv> 4096"

datatype hdlc_error = HDLCEmpty | HDLCTooShort nat | HDLCBadFCS u16 u16
datatype read_error = ReadError

fun hdlc_escape :: "bytes \<Rightarrow> bytes" where
  "hdlc_escape [] = []"
| "hdlc_escape (b # bs) =
     (if b = hdlcFlag \<or> b = hdlcEscape then hdlcEscape # (b XOR hdlcXOR) # hdlc_escape bs
      else b # hdlc_escape bs)"

definition hdlcEncode :: "bytes \<Rightarrow> bytes" where
  "hdlcEncode data =
     (let fcs = hdlcFCS16 data;
          withFCS = data @ [ucast fcs, ucast (drop_bit 8 fcs)]
      in [hdlcFlag] @ hdlc_escape withFCS @ [hdlcFlag])"

fun hdlc_unescape :: "bool \<Rightarrow> bytes \<Rightarrow> bytes" where
  "hdlc_unescape escaped [] = []"
| "hdlc_unescape escaped (b # bs) =
     (if escaped then (b XOR hdlcXOR) # hdlc_unescape False bs
      else if b = hdlcEscape then hdlc_unescape True bs
      else b # hdlc_unescape False bs)"

definition hdlcDecode :: "bytes \<Rightarrow> hdlc_error + bytes" where
  "hdlcDecode data =
     (if data = [] then Inl HDLCEmpty
      else let raw = hdlc_unescape False data in
        if length raw < 2 then Inl (HDLCTooShort (length raw))
        else let payload = take (length raw - 2) raw;
                 fcsGot = le16 (raw ! (length raw - 2)) (raw ! (length raw - 1));
                 fcsExpected = hdlcFCS16 payload
             in if fcsGot \<noteq> fcsExpected then Inl (HDLCBadFCS fcsGot fcsExpected) else Inr payload)"

fun readHDLC_loop :: "bool \<Rightarrow> bytes \<Rightarrow> bytes \<Rightarrow> (read_error + bytes) \<times> bytes" where
  "readHDLC_loop inFrame frame [] = (Inl ReadError, [])"
| "readHDLC_loop inFrame frame (b # r) =
     (if b = hdlcFlag then
        (if inFrame \<and> frame \<noteq> [] then (Inr frame, r) else readHDLC_loop True [] r)
      else if inFrame then
        (if maxHDLCFrameSize \<le> length frame then readHDLC_loop False [] r
         else readHDLC_loop True (frame @ [b]) r)
      else readHDLC_loop False frame r)"

definition readHDLCFrame :: "bytes \<Rightarrow> (read_error + bytes) \<times> bytes" where
  "readHDLCFrame r = readHDLC_loop False [] r"

section \<open>Correctness\<close>

lemma escape_no_flag: "hdlcFlag \<notin> set (hdlc_escape bs)"
  by (induction bs) auto

lemma unescape_escape [wire]: "hdlc_unescape False (hdlc_escape bs) = bs"
  by (induction bs) auto

lemma escape_length_bounds: "length bs \<le> length (hdlc_escape bs) \<and> length (hdlc_escape bs) \<le> 2 * length bs"
  by (induction bs) auto

lemma escape_Nil [simp]: "hdlc_escape bs = [] \<longleftrightarrow> bs = []"
  by (cases bs) auto

lemma hdlcDecode_escape:
  "hdlcDecode (hdlc_escape (data @ [ucast (hdlcFCS16 data), ucast (drop_bit 8 (hdlcFCS16 data))])) = Inr data"
  by (simp add: hdlcDecode_def unescape_escape nth_append Let_def)

lemma readHDLC_in_frame:
  assumes "hdlcFlag \<notin> set bs" "length frame + length bs \<le> maxHDLCFrameSize" "frame @ bs \<noteq> []"
  shows "readHDLC_loop True frame (bs @ hdlcFlag # r) = (Inr (frame @ bs), r)"
  using assms by (induction bs arbitrary: frame) auto

lemma readHDLC_skip:
  assumes "hdlcFlag \<notin> set g"
  shows "readHDLC_loop False [] (g @ r) = readHDLC_loop False [] r"
  using assms by (induction g) auto

text \<open>
  HDLC framing is transparent. For a payload of at most 2046 bytes (the reader's 4096-byte
  limit holds even if every byte is escaped), reading a stream that starts with line noise free of
  flags and then carries the encoded payload returns one frame, leaves the rest of the stream
  untouched, and decoding that frame gives the payload back with its checksum accepted.
\<close>

theorem hdlc_stream_roundtrip:
  assumes "length data \<le> 2046" "hdlcFlag \<notin> set noise"
  shows "\<exists>f. readHDLCFrame (noise @ hdlcEncode data @ rest) = (Inr f, rest) \<and> hdlcDecode f = Inr data"
proof -
  let ?d = "data @ [ucast (hdlcFCS16 data), ucast (drop_bit 8 (hdlcFCS16 data))]"
  have len: "length (hdlc_escape ?d) \<le> maxHDLCFrameSize"
    using escape_length_bounds[of ?d] assms(1) by simp
  have "readHDLCFrame (noise @ hdlcEncode data @ rest)
      = readHDLC_loop True [] (hdlc_escape ?d @ hdlcFlag # rest)"
    by (simp add: readHDLCFrame_def readHDLC_skip[OF assms(2)] hdlcEncode_def Let_def)
  also have "\<dots> = (Inr (hdlc_escape ?d), rest)"
    using readHDLC_in_frame[OF escape_no_flag, of "[]" ?d rest] len by simp
  finally show ?thesis using hdlcDecode_escape by blast
qed

theorem hdlc_stream_roundtrip_witness:
  "\<exists>f. readHDLCFrame ([1, 2] @ hdlcEncode [0x7E, 0x7D, 5] @ [9]) = (Inr f, [9])
     \<and> hdlcDecode f = Inr [0x7E, 0x7D, 5]"
  by (rule hdlc_stream_roundtrip) simp_all

text \<open>
  the HDLC decoder accepts a frame only with the right checksum, and a frame in which one
  payload byte was replaced (before stuffing) is rejected with a checksum error.
\<close>

theorem hdlc_rejects_damage:
  assumes "b \<noteq> b'"
  shows "\<exists>got want. hdlcDecode (hdlc_escape (xs @ b' # ys
           @ [ucast (hdlcFCS16 (xs @ b # ys)), ucast (drop_bit 8 (hdlcFCS16 (xs @ b # ys)))]))
         = Inl (HDLCBadFCS got want) \<and> got \<noteq> want"
proof -
  let ?f = "hdlcFCS16 (xs @ b # ys)"
  let ?d = "(xs @ b' # ys) @ [ucast ?f, ucast (drop_bit 8 ?f)]"
  have ne: "?f \<noteq> hdlcFCS16 (xs @ b' # ys)" using assms by (simp only: hdlcFCS16_one_byte) simp
  have "hdlcDecode (hdlc_escape ?d) = Inl (HDLCBadFCS ?f (hdlcFCS16 (xs @ b' # ys)))"
    using ne by (simp add: hdlcDecode_def unescape_escape nth_append Let_def del: append_assoc append.simps)
  then show ?thesis using ne by auto
qed

theorem hdlc_rejects_damage_witness:
  "(1 :: byte) \<noteq> 2 \<and> (\<exists>got want. hdlcDecode (hdlc_escape ([] @ 2 # []
       @ [ucast (hdlcFCS16 ([] @ 1 # [])), ucast (drop_bit 8 (hdlcFCS16 ([] @ 1 # [])))]))
     = Inl (HDLCBadFCS got want))"
proof -
  have h: "(1 :: byte) \<noteq> 2" by simp
  show ?thesis using h hdlc_rejects_damage[OF h, of "[]" "[]"] by blast
qed

end
