(* ===== verification/NCP_Zboss.thy ===== *)
theory NCP_Zboss
  imports NCP_Hdlc
begin

text \<open>
  The ZBOSS NCP serial protocol, \<^verbatim>\<open>internal/ncp/nrf52840_zboss.go\<close>: command identifiers, the
  low-level (LL) and high-level (HL) headers, the frame encoder and decoder, and the raw reader
  \<^verbatim>\<open>readRawZBOSSFrame\<close> of \<^verbatim>\<open>nrf52840_hdlc.go\<close> that finds frames in the serial stream. A Go
  run-time panic (a slice bound out of range) is a value: \<open>ZPanic\<close> for the decoder, \<open>None\<close> for
  the encoder. Lengths and slice bounds computed in \<^verbatim>\<open>uint16\<close> wrap as they do in the source.
\<close>

section \<open>Constants and names\<close>

abbreviation zbossSig0 :: byte where "zbossSig0 \<equiv> 0xDE"
abbreviation zbossSig1 :: byte where "zbossSig1 \<equiv> 0xAD"
abbreviation zbossLLType :: byte where "zbossLLType \<equiv> 0x06"
abbreviation zbossHLVersion :: byte where "zbossHLVersion \<equiv> 0x00"
abbreviation zbossHLRequest :: byte where "zbossHLRequest \<equiv> 0x00"
abbreviation zbossHLResponse :: byte where "zbossHLResponse \<equiv> 0x01"
abbreviation zbossHLIndication :: byte where "zbossHLIndication \<equiv> 0x02"
abbreviation zbossCmdGetModuleVersion :: u16 where "zbossCmdGetModuleVersion \<equiv> 0x0001"
abbreviation zbossCmdNCPReset :: u16 where "zbossCmdNCPReset \<equiv> 0x0002"
abbreviation zbossCmdSetZigbeeRole :: u16 where "zbossCmdSetZigbeeRole \<equiv> 0x0005"
abbreviation zbossCmdSetChannelMask :: u16 where "zbossCmdSetChannelMask \<equiv> 0x0007"
abbreviation zbossCmdGetChannel :: u16 where "zbossCmdGetChannel \<equiv> 0x0008"
abbreviation zbossCmdGetPanID :: u16 where "zbossCmdGetPanID \<equiv> 0x0009"
abbreviation zbossCmdSetPanID :: u16 where "zbossCmdSetPanID \<equiv> 0x000A"
abbreviation zbossCmdGetLocalIEEE :: u16 where "zbossCmdGetLocalIEEE \<equiv> 0x000B"
abbreviation zbossCmdSetRxOnWhenIdle :: u16 where "zbossCmdSetRxOnWhenIdle \<equiv> 0x0013"
abbreviation zbossCmdSetEDTimeout :: u16 where "zbossCmdSetEDTimeout \<equiv> 0x0017"
abbreviation zbossCmdSetNwkKey :: u16 where "zbossCmdSetNwkKey \<equiv> 0x001B"
abbreviation zbossCmdGetExtPanID :: u16 where "zbossCmdGetExtPanID \<equiv> 0x0023"
abbreviation zbossCmdNCPResetInd :: u16 where "zbossCmdNCPResetInd \<equiv> 0x002B"
abbreviation zbossCmdSetTCPolicy :: u16 where "zbossCmdSetTCPolicy \<equiv> 0x0032"
abbreviation zbossCmdSetExtPanID :: u16 where "zbossCmdSetExtPanID \<equiv> 0x0033"
abbreviation zbossCmdSetMaxChildren :: u16 where "zbossCmdSetMaxChildren \<equiv> 0x0034"
abbreviation zbossCmdAFSetSimpleDesc :: u16 where "zbossCmdAFSetSimpleDesc \<equiv> 0x0101"
abbreviation zbossCmdZDOSimpleDescReq :: u16 where "zbossCmdZDOSimpleDescReq \<equiv> 0x0205"
abbreviation zbossCmdZDOActiveEPReq :: u16 where "zbossCmdZDOActiveEPReq \<equiv> 0x0206"
abbreviation zbossCmdZDOBindReq :: u16 where "zbossCmdZDOBindReq \<equiv> 0x0208"
abbreviation zbossCmdZDOUnbindReq :: u16 where "zbossCmdZDOUnbindReq \<equiv> 0x0209"
abbreviation zbossCmdZDOMgmtLeaveReq :: u16 where "zbossCmdZDOMgmtLeaveReq \<equiv> 0x020A"
abbreviation zbossCmdZDOPermitJoiningReq :: u16 where "zbossCmdZDOPermitJoiningReq \<equiv> 0x020B"
abbreviation zbossCmdZDODevAnnceInd :: u16 where "zbossCmdZDODevAnnceInd \<equiv> 0x020C"
abbreviation zbossCmdZDODevUpdateInd :: u16 where "zbossCmdZDODevUpdateInd \<equiv> 0x0215"
abbreviation zbossCmdAPSDEDataReq :: u16 where "zbossCmdAPSDEDataReq \<equiv> 0x0301"
abbreviation zbossCmdAPSDEDataInd :: u16 where "zbossCmdAPSDEDataInd \<equiv> 0x0306"
abbreviation zbossCmdNwkFormation :: u16 where "zbossCmdNwkFormation \<equiv> 0x0401"
abbreviation zbossCmdNwkDiscovery :: u16 where "zbossCmdNwkDiscovery \<equiv> 0x0402"
abbreviation zbossCmdNwkGetIEEEByShort :: u16 where "zbossCmdNwkGetIEEEByShort \<equiv> 0x0405"
abbreviation zbossCmdNwkGetShortByIEEE :: u16 where "zbossCmdNwkGetShortByIEEE \<equiv> 0x0406"
abbreviation zbossCmdNwkStartedInd :: u16 where "zbossCmdNwkStartedInd \<equiv> 0x0408"
abbreviation zbossCmdNwkLeaveInd :: u16 where "zbossCmdNwkLeaveInd \<equiv> 0x040B"
abbreviation zbossCmdNwkAddrUpdateInd :: u16 where "zbossCmdNwkAddrUpdateInd \<equiv> 0x041C"
abbreviation zbossCmdNwkStartWithoutForm :: u16 where "zbossCmdNwkStartWithoutForm \<equiv> 0x041D"
abbreviation zbossCmdSecurTCLKInd :: u16 where "zbossCmdSecurTCLKInd \<equiv> 0x050E"
abbreviation zbossCmdSecurTCLKExchangeFailInd :: u16 where "zbossCmdSecurTCLKExchangeFailInd \<equiv> 0x050F"
abbreviation zbossCmdZDODevAuthorizedInd :: u16 where "zbossCmdZDODevAuthorizedInd \<equiv> 0x0214"

definition zbossCmdNames :: "(u16 \<times> string) list" where
  "zbossCmdNames =
    [(zbossCmdGetModuleVersion, ''GetModuleVersion''),
     (zbossCmdNCPReset, ''NCPReset''),
     (zbossCmdSetZigbeeRole, ''SetZigbeeRole''),
     (zbossCmdSetChannelMask, ''SetChannelMask''),
     (zbossCmdGetChannel, ''GetChannel''),
     (zbossCmdGetPanID, ''GetPanID''),
     (zbossCmdSetPanID, ''SetPanID''),
     (zbossCmdGetLocalIEEE, ''GetLocalIEEE''),
     (zbossCmdSetRxOnWhenIdle, ''SetRxOnWhenIdle''),
     (zbossCmdSetEDTimeout, ''SetEDTimeout''),
     (zbossCmdSetNwkKey, ''SetNwkKey''),
     (zbossCmdGetExtPanID, ''GetExtPanID''),
     (zbossCmdNCPResetInd, ''NCPResetInd''),
     (zbossCmdSetTCPolicy, ''SetTCPolicy''),
     (zbossCmdSetExtPanID, ''SetExtPanID''),
     (zbossCmdSetMaxChildren, ''SetMaxChildren''),
     (zbossCmdAFSetSimpleDesc, ''AFSetSimpleDesc''),
     (zbossCmdZDOSimpleDescReq, ''ZDO_SimpleDesc''),
     (zbossCmdZDOActiveEPReq, ''ZDO_ActiveEP''),
     (zbossCmdZDOBindReq, ''ZDO_Bind''),
     (zbossCmdZDOUnbindReq, ''ZDO_Unbind''),
     (zbossCmdZDOMgmtLeaveReq, ''ZDO_MgmtLeave''),
     (zbossCmdZDOPermitJoiningReq, ''ZDO_PermitJoin''),
     (zbossCmdZDODevAnnceInd, ''ZDO_DevAnnce''),
     (zbossCmdZDODevUpdateInd, ''ZDO_DevUpdate''),
     (zbossCmdAPSDEDataReq, ''APSDE_DataReq''),
     (zbossCmdAPSDEDataInd, ''APSDE_DataInd''),
     (zbossCmdNwkFormation, ''NwkFormation''),
     (zbossCmdNwkDiscovery, ''NwkDiscovery''),
     (zbossCmdNwkGetIEEEByShort, ''NwkGetIEEEByShort''),
     (zbossCmdNwkGetShortByIEEE, ''NwkGetShortByIEEE''),
     (zbossCmdNwkStartedInd, ''NwkStartedInd''),
     (zbossCmdNwkLeaveInd, ''NwkLeaveInd''),
     (zbossCmdNwkAddrUpdateInd, ''NwkAddrUpdateInd''),
     (zbossCmdNwkStartWithoutForm, ''NwkStartWithoutForm''),
     (zbossCmdSecurTCLKInd, ''SECUR_TCLK_IND''),
     (zbossCmdSecurTCLKExchangeFailInd, ''SECUR_TCLK_EXCHANGE_FAILED_IND''),
     (zbossCmdZDODevAuthorizedInd, ''ZDO_DevAuthorized'')]"

definition zbossCmdName :: "u16 \<Rightarrow> string" where
  "zbossCmdName cid = (case map_of zbossCmdNames cid of Some n \<Rightarrow> n | None \<Rightarrow> ''0x'' @ hex4 cid)"

definition zbossStatusName :: "byte \<Rightarrow> byte \<Rightarrow> string" where
  "zbossStatusName cat code =
    (if cat = 0 \<and> code = 0 then ''OK''
     else let catName = (if cat = 2 then ''MAC'' else if cat = 3 then ''NWK'' else if cat = 4 then ''APS''
                         else if cat = 5 then ''ZDO'' else if cat = 6 then ''CBKE'' else ''Generic'')
          in catName @ ''/'' @ dec_nat (unat code) @ ''(0x'' @ hex2 code @ '')'')"

section \<open>Frames\<close>

record zbossLLHeader =
  ll_Length :: u16
  ll_Type :: byte
  ll_Flags :: byte

record zbossHLHeader =
  hl_Version :: byte
  hl_PacketType :: byte
  hl_CallID :: u16
  hl_TSN :: byte
  hl_StatusCat :: byte
  hl_StatusCode :: byte

record zbossFrame =
  zf_LL :: zbossLLHeader
  zf_HL :: zbossHLHeader
  zf_Payload :: bytes

definition zbossLLPktSeq :: "byte \<Rightarrow> byte" where
  "zbossLLPktSeq flags = drop_bit 2 flags AND 0x03"

definition zbossLLAckSeq :: "byte \<Rightarrow> byte" where
  "zbossLLAckSeq flags = drop_bit 4 flags AND 0x03"

definition zbossLLIsACK :: "byte \<Rightarrow> bool" where
  "zbossLLIsACK flags \<longleftrightarrow> flags AND 0x01 \<noteq> 0"

definition ll_header :: "u16 \<Rightarrow> byte \<Rightarrow> bytes" where
  "ll_header llSize flags =
     (let h = le_put 2 llSize @ [zbossLLType, flags] in [zbossSig0, zbossSig1] @ h @ [zbossCRC8 h])"

definition ll_flags :: "byte \<Rightarrow> byte" where
  "ll_flags pktSeq = (0x40 OR 0x80) OR (push_bit 2 pktSeq AND 0x0C)"

definition zbossEncodeDataFrame :: "byte \<Rightarrow> bytes \<Rightarrow> bytes option" where
  "zbossEncodeDataFrame pktSeq hlData =
     (let bodyCRC = zbossCRC16 hlData;
          bodyLen = 2 + length hlData;
          llSize = (word_of_nat (5 + bodyLen) :: u16);
          flags = ll_flags pktSeq;
          n = 2 + unat llSize
      in if n < 9 then None
         else Some (ll_header llSize flags @ le_put 2 bodyCRC @ take (n - 9) hlData))"

definition zbossEncodeRequest :: "u16 \<Rightarrow> byte \<Rightarrow> byte \<Rightarrow> bytes \<Rightarrow> bytes option" where
  "zbossEncodeRequest callID tsn pktSeq payload =
     zbossEncodeDataFrame pktSeq
       ([zbossHLVersion, zbossHLRequest] @ le_put 2 callID @ [tsn] @ payload)"

definition zbossEncodeACK :: "byte \<Rightarrow> bytes" where
  "zbossEncodeACK ackSeq = ll_header 5 (0x01 OR (push_bit 4 ackSeq AND 0x30))"

datatype zboss_error =
    ZTooShort nat | ZBadSignature byte byte | ZLLCRC byte byte | ZLLType byte
  | ZTruncated u16 nat | ZBodyTooShort nat | ZBodyCRC u16 u16 | ZHLTooShort nat
  | ZRequestTooShort | ZResponseTooShort | ZUnknownPacketType byte | ZPanic

text \<open>The HL part of the decoder: header fields by packet type, then the payload.\<close>

definition zbossDecodeHL :: "zbossLLHeader \<Rightarrow> bytes \<Rightarrow> zboss_error + zbossFrame" where
  "zbossDecodeHL ll hl =
     (if length hl < 4 then Inl (ZHLTooShort (length hl))
      else let h = \<lparr>hl_Version = hl ! 0, hl_PacketType = hl ! 1, hl_CallID = le16 (hl ! 2) (hl ! 3),
                    hl_TSN = 0, hl_StatusCat = 0, hl_StatusCode = 0\<rparr>
        in if hl ! 1 = zbossHLRequest then
             (if length hl < 5 then Inl ZRequestTooShort
              else Inr \<lparr>zf_LL = ll, zf_HL = h\<lparr>hl_TSN := hl ! 4\<rparr>, zf_Payload = drop 5 hl\<rparr>)
           else if hl ! 1 = zbossHLResponse then
             (if length hl < 7 then Inl ZResponseTooShort
              else Inr \<lparr>zf_LL = ll,
                        zf_HL = h\<lparr>hl_TSN := hl ! 4, hl_StatusCat := hl ! 5, hl_StatusCode := hl ! 6\<rparr>,
                        zf_Payload = drop 7 hl\<rparr>)
           else if hl ! 1 = zbossHLIndication then
             Inr \<lparr>zf_LL = ll, zf_HL = h, zf_Payload = drop 4 hl\<rparr>
           else Inl (ZUnknownPacketType (hl ! 1)))"

definition zero_HL :: zbossHLHeader where
  "zero_HL = \<lparr>hl_Version = 0, hl_PacketType = 0, hl_CallID = 0, hl_TSN = 0,
              hl_StatusCat = 0, hl_StatusCode = 0\<rparr>"

definition zbossDecodeFrame :: "bytes \<Rightarrow> zboss_error + zbossFrame" where
  "zbossDecodeFrame data =
    (if length data < 7 then Inl (ZTooShort (length data))
     else if data ! 0 \<noteq> zbossSig0 \<or> data ! 1 \<noteq> zbossSig1 then Inl (ZBadSignature (data ! 0) (data ! 1))
     else let llSize = le16 (data ! 2) (data ! 3); llType = data ! 4; llFlags = data ! 5;
              llCRC = data ! 6; got = zbossCRC8 (slice 2 6 data) in
     if llCRC \<noteq> got then Inl (ZLLCRC llCRC got)
     else if llType \<noteq> zbossLLType then Inl (ZLLType llType)
     else if length data < unat llSize + 2 then Inl (ZTruncated (llSize + 2) (length data))
     else let ll = \<lparr>ll_Length = llSize, ll_Type = llType, ll_Flags = llFlags\<rparr> in
     if zbossLLIsACK llFlags then Inr \<lparr>zf_LL = ll, zf_HL = zero_HL, zf_Payload = []\<rparr>
     else if unat (2 + llSize) < 7 then Inl ZPanic
     else let body = slice 7 (unat (2 + llSize)) data in
     if length body < 2 then Inl (ZBodyTooShort (length body))
     else let bodyCRC = le16 (body ! 0) (body ! 1); hlData = drop 2 body; got16 = zbossCRC16 hlData in
     if bodyCRC \<noteq> got16 then Inl (ZBodyCRC bodyCRC got16)
     else zbossDecodeHL ll hlData)"

section \<open>Finding frames in the serial stream\<close>

datatype raw_error = RawEOF | RawSize | RawBody

function readRawZBOSSFrame :: "bytes \<Rightarrow> (raw_error + bytes) \<times> bytes" where
  "readRawZBOSSFrame [] = (Inl RawEOF, [])"
| "readRawZBOSSFrame (b # r) =
     (if b \<noteq> zbossSig0 then readRawZBOSSFrame r
      else case r of
        [] \<Rightarrow> (Inl RawEOF, [])
      | b2 # r2 \<Rightarrow>
          if b2 \<noteq> zbossSig1 then
            (if b2 = zbossSig0 then readRawZBOSSFrame r else readRawZBOSSFrame r2)
          else if length r2 < 2 then (Inl RawSize, [])
          else let sizeBuf = take 2 r2;
                   llSize = unat (le_get sizeBuf :: u16);
                   remaining = int llSize - 2
               in if remaining < 3 \<or> 4096 < remaining then readRawZBOSSFrame (drop 2 r2)
                  else if length (drop 2 r2) < llSize - 2 then (Inl RawBody, [])
                  else (Inr ([zbossSig0, zbossSig1] @ sizeBuf @ take (llSize - 2) (drop 2 r2)),
                        drop (llSize - 2) (drop 2 r2)))"
  by pat_completeness auto
termination
  by (relation "measure length") auto

declare readRawZBOSSFrame.simps(2) [simp del]

section \<open>Properties of the codec\<close>

lemma flags_not_ack [simp]: "\<not> zbossLLIsACK (ll_flags s)"
proof -
  have "\<not> bit (ll_flags s) 0" by (simp add: ll_flags_def bit_simps)
  then show ?thesis using and_exp_eq_0_iff_not_bit[of "ll_flags s" 0] by (simp add: zbossLLIsACK_def)
qed

lemma flags_pktSeq [simp]: "zbossLLPktSeq (ll_flags s) = s AND 3"
proof (rule bit_eqI)
  have m: "(3 :: byte) = mask 2" by (simp add: mask_eq_exp_minus_1)
  have c: "(0x0C :: byte) = push_bit 2 (mask 2)" by (simp add: mask_eq_exp_minus_1)
  have h: "(0x40 OR 0x80 :: byte) = push_bit 6 (mask 2)" by (simp add: mask_eq_exp_minus_1)
  fix n assume "possible_bit TYPE(8 word) n"
  then show "bit (zbossLLPktSeq (ll_flags s)) n \<longleftrightarrow> bit (s AND 3) n"
    unfolding zbossLLPktSeq_def ll_flags_def m c h by (auto simp: bit_simps)
qed

lemma ack_flags [simp]:
  "zbossLLIsACK (0x01 OR (push_bit 4 s AND 0x30))" "zbossLLAckSeq (0x01 OR (push_bit 4 s AND 0x30)) = s AND 3"
proof -
  have "bit (0x01 OR (push_bit 4 s AND 0x30)) 0" by (simp add: bit_simps)
  then show "zbossLLIsACK (0x01 OR (push_bit 4 s AND 0x30))"
    using and_exp_eq_0_iff_not_bit[of "0x01 OR (push_bit 4 s AND 0x30)" 0] by (simp add: zbossLLIsACK_def)
next
  have m: "(3 :: byte) = mask 2" by (simp add: mask_eq_exp_minus_1)
  have c: "(0x30 :: byte) = push_bit 4 (mask 2)" by (simp add: mask_eq_exp_minus_1)
  have e: "(1 :: byte) = mask 1" by (simp add: mask_eq_exp_minus_1)
  show "zbossLLAckSeq (0x01 OR (push_bit 4 s AND 0x30)) = s AND 3"
    unfolding zbossLLAckSeq_def m c e by (rule bit_eqI) (auto simp: bit_simps)
qed

text \<open>An encoded data frame, byte by byte.\<close>

definition data_frame :: "u16 \<Rightarrow> byte \<Rightarrow> bytes \<Rightarrow> bytes" where
  "data_frame llSize flags hl = zbossSig0 # zbossSig1 # ucast llSize # ucast (drop_bit 8 llSize)
     # zbossLLType # flags # zbossCRC8 [ucast llSize, ucast (drop_bit 8 llSize), zbossLLType, flags]
     # ucast (zbossCRC16 hl) # ucast (drop_bit 8 (zbossCRC16 hl)) # hl"

lemma unat_llSize:
  assumes "length hl \<le> 65526" "s = word_of_nat (7 + length hl)"
  shows "unat (s :: u16) = 7 + length hl" "unat (2 + s) = 9 + length hl"
proof -
  show "unat s = 7 + length hl"
    unfolding assms(2) by (rule unat_word16_small) (use assms(1) in simp)
  have "2 + s = word_of_nat (9 + length hl)" by (simp add: assms(2))
  moreover have "unat (word_of_nat (9 + length hl) :: u16) = 9 + length hl"
    by (rule unat_word16_small) (use assms(1) in simp)
  ultimately show "unat (2 + s) = 9 + length hl" by simp
qed

lemma encode_data_frame:
  assumes "length hl \<le> 65526"
  shows "zbossEncodeDataFrame pktSeq hl = Some (data_frame (word_of_nat (7 + length hl)) (ll_flags pktSeq) hl)"
proof -
  obtain s :: u16 where s: "s = word_of_nat (7 + length hl)" by simp
  have e: "(word_of_nat (5 + (2 + length hl)) :: u16) = s" by (simp add: s)
  show ?thesis unfolding zbossEncodeDataFrame_def Let_def e s[symmetric]
    using unat_llSize(1)[OF assms s] by (simp add: ll_header_def data_frame_def le_put2)
qed

lemma encode_request_some:
  "length payload \<le> 65521 \<Longrightarrow> \<exists>f. zbossEncodeRequest callID tsn pktSeq payload = Some f \<and> length f = 14 + length payload"
  unfolding zbossEncodeRequest_def by (subst encode_data_frame) (simp_all add: data_frame_def)

lemma decode_data_frame:
  assumes "length hl \<le> 65526" "\<not> zbossLLIsACK flags" "s = word_of_nat (7 + length hl)"
  shows "zbossDecodeFrame (data_frame s flags hl @ rest) =
    zbossDecodeHL \<lparr>ll_Length = s, ll_Type = zbossLLType, ll_Flags = flags\<rparr> hl"
proof -
  note u = unat_llSize[OF assms(1,3)]
  have sl: "slice 7 (9 + length hl) (data_frame s flags hl @ rest) =
      ucast (zbossCRC16 hl) # ucast (drop_bit 8 (zbossCRC16 hl)) # hl"
    by (simp add: data_frame_def slice_def)
  show ?thesis
    unfolding zbossDecodeFrame_def Let_def
    using u assms(2) sl by (simp add: data_frame_def slice_def)
qed

lemma HL_request:
  "zbossDecodeHL ll ([zbossHLVersion, zbossHLRequest] @ le_put 2 callID @ [tsn] @ payload) =
   Inr \<lparr>zf_LL = ll, zf_HL = \<lparr>hl_Version = 0, hl_PacketType = zbossHLRequest, hl_CallID = callID,
      hl_TSN = tsn, hl_StatusCat = 0, hl_StatusCode = 0\<rparr>, zf_Payload = payload\<rparr>"
  by (simp add: zbossDecodeHL_def le_put2)

text \<open>
  C7: Every request with a payload that fits is framed and decoded back: the decoder recovers the command id,
  the transaction number and the payload, sees a data frame (not an acknowledgement) with the two low bits of the
  packet sequence, and ignores whatever follows the frame in the buffer.
\<close>

theorem zboss_request_roundtrip:
  assumes "length payload \<le> 65521"
  shows "\<exists>f fr. zbossEncodeRequest callID tsn pktSeq payload = Some f
     \<and> zbossDecodeFrame (f @ rest) = Inr fr
     \<and> hl_PacketType (zf_HL fr) = zbossHLRequest \<and> hl_CallID (zf_HL fr) = callID
     \<and> hl_TSN (zf_HL fr) = tsn \<and> zf_Payload fr = payload
     \<and> zbossLLPktSeq (ll_Flags (zf_LL fr)) = pktSeq AND 3 \<and> \<not> zbossLLIsACK (ll_Flags (zf_LL fr))
     \<and> length f = 14 + length payload"
proof -
  define hl where "hl = [zbossHLVersion, zbossHLRequest] @ le_put 2 callID @ [tsn] @ payload"
  have l: "length hl = 5 + length payload" by (simp add: hl_def)
  have le: "length hl \<le> 65526" using assms l by simp
  note enc = encode_data_frame[OF le, of pktSeq]
  note dec = decode_data_frame[OF le flags_not_ack refl, of pktSeq rest, unfolded HL_request[of _ callID tsn payload, folded hl_def]]
  show ?thesis
    unfolding zbossEncodeRequest_def hl_def[symmetric] enc
    by (rule exI[of _ "data_frame (word_of_nat (7 + length hl)) (ll_flags pktSeq) hl"])
       (simp only: dec, simp add: data_frame_def l)
qed

lemma crc8_4:
  "zbossCRC8 [a', b, c, d] = zbossCRC8 [a, b, c, d] \<longleftrightarrow> a' = a"
  "zbossCRC8 [a, b', c, d] = zbossCRC8 [a, b, c, d] \<longleftrightarrow> b' = b"
  "zbossCRC8 [a, b, c', d] = zbossCRC8 [a, b, c, d] \<longleftrightarrow> c' = c"
  "zbossCRC8 [a, b, c, d'] = zbossCRC8 [a, b, c, d] \<longleftrightarrow> d' = d"
  using zbossCRC8_one_byte[of "[]" a' "[b,c,d]" a] zbossCRC8_one_byte[of "[a]" b' "[c,d]" b]
    zbossCRC8_one_byte[of "[a,b]" c' "[d]" c] zbossCRC8_one_byte[of "[a,b,c]" d' "[]" d] by simp_all

lemma zbossCRC16_update:
  assumes "i < length hl" "b \<noteq> hl ! i"
  shows "zbossCRC16 (hl[i := b]) \<noteq> zbossCRC16 hl"
proof -
  have "hl[i := b] = take i hl @ b # drop (Suc i) hl" using assms(1) by (rule upd_conv_take_nth_drop)
  moreover have "hl = take i hl @ hl ! i # drop (Suc i) hl" using assms(1) by (rule id_take_nth_drop)
  ultimately show ?thesis using zbossCRC16_one_byte[of "take i hl" b "drop (Suc i) hl" "hl ! i"] assms(2)
    by simp
qed

lemma decode_damaged_header:
  fixes a0 :: byte
  assumes "zbossCRC8 [a2, a3, a4, a5] \<noteq> a6 \<or> a0 \<noteq> zbossSig0 \<or> a1 \<noteq> zbossSig1"
  shows "\<exists>e. zbossDecodeFrame (a0 # a1 # a2 # a3 # a4 # a5 # a6 # body) = Inl e \<and> e \<noteq> ZPanic"
proof (cases "a0 \<noteq> zbossSig0 \<or> a1 \<noteq> zbossSig1")
  case True
  then show ?thesis by (auto simp: zbossDecodeFrame_def)
next
  case False
  with assms have "a6 \<noteq> zbossCRC8 [a2, a3, a4, a5]" by auto
  with False show ?thesis by (simp add: zbossDecodeFrame_def slice_def Let_def)
qed

lemma decode_damaged_body:
  fixes hl :: bytes and s :: u16
  assumes "length hl \<le> 65526" "s = word_of_nat (7 + length hl)" "\<not> zbossLLIsACK flags"
    "length body = 2 + length hl" "le16 (body ! 0) (body ! 1) \<noteq> zbossCRC16 (drop 2 body)"
  shows "\<exists>x y. zbossDecodeFrame (zbossSig0 # zbossSig1 # ucast s # ucast (drop_bit 8 s) # zbossLLType # flags
     # zbossCRC8 [ucast s, ucast (drop_bit 8 s), zbossLLType, flags] # body) = Inl (ZBodyCRC x y)"
proof -
  note u = unat_llSize[OF assms(1,2)]
  let ?f = "zbossSig0 # zbossSig1 # ucast s # ucast (drop_bit 8 s) # zbossLLType # flags
     # zbossCRC8 [ucast s, ucast (drop_bit 8 s), zbossLLType, flags] # body"
  have sl: "slice 7 (9 + length hl) ?f = body" using assms(4) by (simp add: slice_def)
  have s2: "slice 2 6 ?f = [ucast s, ucast (drop_bit 8 s), zbossLLType, flags]" by (simp add: slice_def)
  have n: "?f ! 2 = ucast s" "?f ! 3 = ucast (drop_bit 8 s)" "?f ! 4 = zbossLLType" "?f ! 5 = flags"
    "?f ! 6 = zbossCRC8 [ucast s, ucast (drop_bit 8 s), zbossLLType, flags]" by simp_all
  have b: "\<not> length body < 2" "\<not> length ?f < 7" "\<not> length ?f < 7 + length hl + 2"
    "\<not> 9 + length hl < 7" using assms(4) by simp_all
  show ?thesis
    unfolding zbossDecodeFrame_def Let_def s2 n le16_put u sl
    using assms(3,5) b by simp
qed

lemma damaged_frame:
  assumes "length hl \<le> 65526" "\<not> zbossLLIsACK flags" "s = word_of_nat (7 + length hl)"
    and "i < length (data_frame s flags hl)" "b \<noteq> data_frame s flags hl ! i"
  shows "\<exists>e. zbossDecodeFrame ((data_frame s flags hl)[i := b]) = Inl e \<and> e \<noteq> ZPanic"
proof (cases "i < 7")
  case True
  then have "i = 0 \<or> i = 1 \<or> i = 2 \<or> i = 3 \<or> i = 4 \<or> i = 5 \<or> i = 6" by linarith
  then have "(\<exists>a0 a1 a2 a3 a4 a5 a6 body. (data_frame s flags hl)[i := b] = a0 # a1 # a2 # a3 # a4 # a5 # a6 # body
     \<and> (zbossCRC8 [a2, a3, a4, a5] \<noteq> a6 \<or> a0 \<noteq> zbossSig0 \<or> a1 \<noteq> zbossSig1))"
    using assms(5) by (elim disjE) (simp_all add: data_frame_def crc8_4)
  then show ?thesis using decode_damaged_header by fastforce
next
  case False
  define c where "c = [ucast (zbossCRC16 hl), ucast (drop_bit 8 (zbossCRC16 hl)) :: byte]"
  define body where "body = (c @ hl)[i - 7 := b]"
  define h where "h = [zbossSig0, zbossSig1, ucast s, ucast (drop_bit 8 s), zbossLLType, flags,
     zbossCRC8 [ucast s, ucast (drop_bit 8 s), zbossLLType, flags]]"
  have lh: "length h = 7" by (simp add: h_def)
  have f: "data_frame s flags hl = h @ (c @ hl)"
    by (simp add: data_frame_def c_def h_def)
  have upd: "(data_frame s flags hl)[i := b] = h @ body"
    using False unfolding f list_update_append body_def lh by simp
  have bi: "b \<noteq> (c @ hl) ! (i - 7)" "i - 7 < 2 + length hl"
    using assms(4,5) False unfolding f by (auto simp: nth_append[of h] lh c_def)
  have "le16 (body ! 0) (body ! 1) \<noteq> zbossCRC16 (drop 2 body)"
  proof (cases "i < 9")
    case True
    with False have "i = 7 \<or> i = 8" by linarith
    then show ?thesis using bi(1)
      by (elim disjE) (auto simp: body_def c_def le16_eq simp del: le_get.simps)
  next
    case False
    then have "\<not> i - 7 < 2" "i - 7 - 2 = i - 9" by linarith+
    moreover have "length c = 2" by (simp add: c_def)
    ultimately have "body = c @ hl[i - 9 := b]" by (simp add: body_def list_update_append)
    moreover have "zbossCRC16 (hl[i - 9 := b]) \<noteq> zbossCRC16 hl"
      using bi False by (intro zbossCRC16_update) (auto simp: c_def nth_append)
    ultimately show ?thesis by (simp add: c_def)
  qed
  moreover have "length body = 2 + length hl"
    unfolding body_def length_list_update by (simp add: c_def)
  ultimately show ?thesis using decode_damaged_body[OF assms(1,3,2), of body] upd by (auto simp: h_def)
qed

text \<open>
  Any one damaged byte of an encoded request, whatever its position (signature, size, type, flags, either
  checksum or body), makes the decoder return an error, and never panic.
\<close>

theorem zboss_rejects_damage:
  assumes "length payload \<le> 65521" "zbossEncodeRequest callID tsn pktSeq payload = Some f"
    "i < length f" "b \<noteq> f ! i"
  shows "\<exists>e. zbossDecodeFrame (f[i := b]) = Inl e \<and> e \<noteq> ZPanic"
proof -
  let ?hl = "[zbossHLVersion, zbossHLRequest] @ le_put 2 callID @ [tsn] @ payload"
  have le: "length ?hl \<le> 65526" using assms(1) by simp
  have f: "f = data_frame (word_of_nat (7 + length ?hl)) (ll_flags pktSeq) ?hl"
    using assms(2) encode_data_frame[OF le, of pktSeq] unfolding zbossEncodeRequest_def by simp
  show ?thesis using damaged_frame[OF le flags_not_ack refl, of i pktSeq b] assms(3,4) unfolding f by blast
qed

section \<open>The raw reader\<close>

lemmas raw_simp = readRawZBOSSFrame.simps(2)

text \<open>A complete frame at the head of the stream is returned whole and nothing after it is consumed.\<close>

lemma raw_reads_frame:
  assumes "length r2 = unat s + 2 - 4" "5 \<le> unat s" "unat s \<le> 4098"
  shows "readRawZBOSSFrame ([zbossSig0, zbossSig1] @ le_put 2 (s :: u16) @ r2 @ rest) =
     (Inr ([zbossSig0, zbossSig1] @ le_put 2 s @ r2), rest)"
  using assms by (simp add: raw_simp le_put2 Let_def)

text \<open>Bytes without the signature are skipped; a lone first signature byte is pushed back.\<close>

fun has_signature :: "bytes \<Rightarrow> bool" where
  "has_signature (a # b # r) = (a = zbossSig0 \<and> b = zbossSig1 \<or> has_signature (b # r))"
| "has_signature _ = False"

lemma raw_skips_noise:
  assumes "\<not> has_signature noise"
  shows "readRawZBOSSFrame (noise @ zbossSig0 # r) = readRawZBOSSFrame (zbossSig0 # r)"
  using assms
proof (induction "length noise" arbitrary: noise rule: less_induct)
  case less
  show ?case
  proof (cases noise)
    case Nil
    then show ?thesis by simp
  next
    case (Cons a n1)
    note a = Cons
    show ?thesis
    proof (cases n1)
      case Nil
      then show ?thesis using less.prems by (auto simp: a raw_simp[of a])
    next
      case (Cons b n2)
      have n1: "\<not> has_signature n1" "\<not> has_signature n2"
        using less.prems by (auto simp: a Cons elim: has_signature.elims)
      have "readRawZBOSSFrame (n1 @ zbossSig0 # r) = readRawZBOSSFrame (zbossSig0 # r)"
        by (rule less.hyps) (use n1 in \<open>simp_all add: a\<close>)
      moreover have "readRawZBOSSFrame (n2 @ zbossSig0 # r) = readRawZBOSSFrame (zbossSig0 # r)"
        by (rule less.hyps) (use n1 in \<open>simp_all add: a Cons\<close>)
      moreover have "a \<noteq> zbossSig0 \<or> b \<noteq> zbossSig1" using less.prems by (auto simp: a Cons)
      ultimately show ?thesis by (auto simp: a Cons raw_simp[of a])
    qed
  qed
qed

text \<open>What the reader returns is a contiguous piece of the stream that starts with the signature and
  whose length field agrees with its length and lies in the accepted range.\<close>

lemma raw_result:
  assumes "readRawZBOSSFrame s = (Inr f, r)"
  shows "\<exists>skipped l0 l1 body. s = skipped @ f @ r \<and> f = zbossSig0 # zbossSig1 # l0 # l1 # body
     \<and> length f = unat (le16 l0 l1) + 2 \<and> 5 \<le> unat (le16 l0 l1) \<and> unat (le16 l0 l1) \<le> 4098"
  using assms
proof (induction s rule: readRawZBOSSFrame.induct)
  case 1
  then show ?case by simp
next
  case (2 b r0)
  show ?case
  proof (cases "b = zbossSig0")
    case False
    then have "readRawZBOSSFrame r0 = (Inr f, r)" using 2(5) by (simp add: raw_simp)
    from 2(1)[OF False this] show ?thesis by (metis append_Cons)
  next
    case b: True
    then obtain b2 r2 where r0: "r0 = b2 # r2" using 2(5) by (cases r0) (simp_all add: raw_simp)
    show ?thesis
    proof (cases "b2 = zbossSig1")
      case False
      show ?thesis
      proof (cases "b2 = zbossSig0")
        case True
        then have "readRawZBOSSFrame r0 = (Inr f, r)" using 2(5) b by (simp add: r0 raw_simp[of zbossSig0 "zbossSig0 # r2"])
        from 2(2)[OF _ r0 False True this] b show ?thesis by (metis append_Cons)
      next
        case b2: False
        then have "readRawZBOSSFrame r2 = (Inr f, r)" using 2(5) b False by (simp add: r0 raw_simp[of zbossSig0 "b2 # r2"])
        from 2(3)[OF _ r0 False b2 this] b show ?thesis unfolding r0 by (metis append_Cons)
      qed
    next
      case b2: True
      then have "\<not> length r2 < 2" using 2(5) b by (auto simp: r0 raw_simp[of zbossSig0 "zbossSig1 # r2"])
      then obtain l0 l1 r3 where r2: "r2 = l0 # l1 # r3"
        by (cases r2; cases "tl r2") auto
      obtain n where n_def: "unat (le16 l0 l1) = n" by simp
      have e: "readRawZBOSSFrame (b # r0) = (if int n - 2 < 3 \<or> 4096 < int n - 2 then readRawZBOSSFrame r3
           else if length r3 < n - 2 then (Inl RawBody, [])
           else (Inr (zbossSig0 # zbossSig1 # l0 # l1 # take (n - 2) r3), drop (n - 2) r3))"
        by (simp add: r0 r2 b b2 raw_simp[of zbossSig0 "zbossSig1 # l0 # l1 # r3"] Let_def n_def del: le_get.simps)
      show ?thesis
      proof (cases "int n - 2 < 3 \<or> 4096 < int n - 2")
        case True
        then have *: "readRawZBOSSFrame r3 = (Inr f, r)" using 2(5) e by simp
        have "readRawZBOSSFrame (drop 2 r2) = (Inr f, r)" using * r2 by simp
        from 2(4)[OF _ r0 _ _ refl refl refl _ this] b b2 True n_def
        have "\<exists>skipped l0 l1 body. r3 = skipped @ f @ r \<and> f = zbossSig0 # zbossSig1 # l0 # l1 # body
           \<and> length f = unat (le16 l0 l1) + 2 \<and> 5 \<le> unat (le16 l0 l1) \<and> unat (le16 l0 l1) \<le> 4098"
          by (simp add: r2 n_def del: le_get.simps)
        then show ?thesis unfolding r0 r2 by (metis append_Cons)
      next
        case False
        with 2(5) e have f: "f = zbossSig0 # zbossSig1 # l0 # l1 # take (n - 2) r3" "r = drop (n - 2) r3"
            "\<not> length r3 < n - 2"
          by (auto split: if_splits)
        have "length f = n + 2" using f False by (simp, linarith)
        moreover have "b # r0 = [] @ f @ r" by (simp add: r0 r2 b b2 f)
        moreover have "5 \<le> n" "n \<le> 4098" using False by linarith+
        ultimately show ?thesis using f(1) n_def by blast
      qed
    qed
  qed
qed

text \<open>
  Exactly when the frame decoder panics: a well-formed LL header of a data frame whose size field is below 5,
  or so large that \<^verbatim>\<open>2+llSize\<close> wraps in \<^verbatim>\<open>uint16\<close>; the slice \<^verbatim>\<open>data[7:2+llSize]\<close> is then out of range.
\<close>

theorem decode_panics_iff:
  "zbossDecodeFrame data = Inl ZPanic \<longleftrightarrow>
     (7 \<le> length data \<and> data ! 0 = zbossSig0 \<and> data ! 1 = zbossSig1
      \<and> data ! 6 = zbossCRC8 (slice 2 6 data) \<and> data ! 4 = zbossLLType
      \<and> unat (le16 (data ! 2) (data ! 3)) + 2 \<le> length data \<and> \<not> zbossLLIsACK (data ! 5)
      \<and> (unat (le16 (data ! 2) (data ! 3)) < 5 \<or> 65534 \<le> unat (le16 (data ! 2) (data ! 3))))"
proof -
  have HL: "zbossDecodeHL ll hl \<noteq> Inl ZPanic" for ll hl
    unfolding zbossDecodeHL_def Let_def
    by (intro if_neq) (simp_all only: sum.inject sum.distinct zboss_error.distinct simp_thms)
  obtain s where s: "s = le16 (data ! 2) (data ! 3)" by simp
  note w = unat_add_2_less_7[of s]
  have "zbossDecodeFrame data = Inl ZPanic \<longleftrightarrow>
     (\<not> length data < 7 \<and> \<not> (data ! 0 \<noteq> zbossSig0 \<or> data ! 1 \<noteq> zbossSig1)
      \<and> \<not> data ! 6 \<noteq> zbossCRC8 (slice 2 6 data) \<and> \<not> data ! 4 \<noteq> zbossLLType
      \<and> \<not> length data < unat s + 2 \<and> \<not> zbossLLIsACK (data ! 5) \<and> unat (2 + s) < 7)"
    unfolding zbossDecodeFrame_def Let_def s[symmetric]
    by ((rule if_neqI(1), simp only: sum.inject sum.distinct zboss_error.distinct simp_thms)+,
        rule if_neqI(2), intro if_neq HL)
       (simp_all only: sum.inject sum.distinct zboss_error.distinct simp_thms)
  then show ?thesis unfolding w s[symmetric] not_less by simp
qed

text \<open>
  The raw reader never hands the decoder a frame on which it panics, whatever bytes arrive: the reader's size
  check covers the decoder's missing one.
\<close>

theorem raw_frames_never_panic:
  assumes "readRawZBOSSFrame stream = (Inr f, rest)"
  shows "zbossDecodeFrame f \<noteq> Inl ZPanic"
  using raw_result[OF assms] unfolding decode_panics_iff by force

lemma raw_data_frame:
  assumes "\<not> has_signature noise" "length hl \<le> 4091"
  shows "readRawZBOSSFrame (noise @ data_frame (word_of_nat (7 + length hl)) flags hl @ rest) =
    (Inr (data_frame (word_of_nat (7 + length hl)) flags hl), rest)"
proof -
  obtain s :: u16 where s: "s = word_of_nat (7 + length hl)" by simp
  have le: "length hl \<le> 65526" using assms(2) by simp
  obtain r2 where r2: "data_frame s flags hl = [zbossSig0, zbossSig1] @ le_put 2 s @ r2" "length r2 = unat s - 2"
    using unat_llSize(1)[OF le s] by (simp add: data_frame_def le_put2)
  have "readRawZBOSSFrame (data_frame s flags hl @ rest) = (Inr (data_frame s flags hl), rest)"
    using raw_reads_frame[of r2 s rest] r2 unat_llSize(1)[OF le s] assms(2) by simp
  moreover have "readRawZBOSSFrame (noise @ data_frame s flags hl @ rest) =
      readRawZBOSSFrame (data_frame s flags hl @ rest)"
    using raw_skips_noise[OF assms(1)] unfolding r2(1) by simp
  ultimately show ?thesis unfolding s by simp
qed

text \<open>
  C8: After arbitrary noise that does not contain the two signature bytes in a row (it may end in the first one), the
  raw reader returns exactly the next encoded request, for every payload the reader accepts, and leaves what follows
  it in the stream.
\<close>

theorem serial_resync:
  assumes "\<not> has_signature noise" "length payload \<le> 4086"
    "zbossEncodeRequest callID tsn pktSeq payload = Some f"
  shows "readRawZBOSSFrame (noise @ f @ rest) = (Inr f, rest)"
proof -
  define hl where "hl = [zbossHLVersion, zbossHLRequest] @ le_put 2 callID @ [tsn] @ payload"
  have l: "length hl \<le> 4091" using assms(2) by (simp add: hl_def)
  then have "f = data_frame (word_of_nat (7 + length hl)) (ll_flags pktSeq) hl"
    using assms(3) encode_data_frame[of hl pktSeq]
    unfolding zbossEncodeRequest_def hl_def[symmetric] by simp
  then show ?thesis using raw_data_frame[OF assms(1) l] by simp
qed

text \<open>
  An acknowledgement is read back from the stream whole and decodes to an ACK of the two low bits of the
  sequence number, with no payload.
\<close>

theorem ack_roundtrip:
  "\<exists>fr. zbossDecodeFrame (zbossEncodeACK ackSeq @ rest) = Inr fr \<and> zbossLLIsACK (ll_Flags (zf_LL fr))
     \<and> zbossLLAckSeq (ll_Flags (zf_LL fr)) = ackSeq AND 3 \<and> zf_Payload fr = []
     \<and> readRawZBOSSFrame (zbossEncodeACK ackSeq @ rest) = (Inr (zbossEncodeACK ackSeq), rest)"
proof -
  define fl where "fl = 0x01 OR (push_bit 4 ackSeq AND 0x30)"
  have fl: "zbossLLIsACK fl" "zbossLLAckSeq fl = ackSeq AND 3" unfolding fl_def by (rule ack_flags)+
  have e: "zbossEncodeACK ackSeq = [zbossSig0, zbossSig1, 5, 0, zbossLLType, fl, zbossCRC8 [5, 0, zbossLLType, fl]]"
    by (simp add: zbossEncodeACK_def ll_header_def fl_def[symmetric] le_put2)
  show ?thesis unfolding e using fl
    by (simp add: zbossDecodeFrame_def slice_def raw_simp Let_def)
qed

theorem zboss_request_roundtrip_witness:
  "\<exists>f fr. zbossEncodeRequest 0x0301 7 2 [0x2A] = Some f
     \<and> zbossDecodeFrame (f @ [0xFF]) = Inr fr
     \<and> hl_PacketType (zf_HL fr) = zbossHLRequest \<and> hl_CallID (zf_HL fr) = 0x0301
     \<and> hl_TSN (zf_HL fr) = 7 \<and> zf_Payload fr = [0x2A]
     \<and> zbossLLPktSeq (ll_Flags (zf_LL fr)) = 2 AND 3 \<and> \<not> zbossLLIsACK (ll_Flags (zf_LL fr))
     \<and> length f = 14 + length [0x2A :: byte]"
  by (rule zboss_request_roundtrip) simp

theorem zboss_rejects_damage_witness:
  "\<exists>f e. zbossEncodeRequest 2 1 1 [2] = Some f
     \<and> zbossDecodeFrame (f[8 := f ! 8 XOR 1]) = Inl e \<and> e \<noteq> ZPanic"
proof -
  obtain f where f: "zbossEncodeRequest 2 1 1 [2] = Some f" "length f = 15"
    using encode_request_some[of "[2]" 2 1 1] by auto
  have "f ! 8 XOR 1 \<noteq> f ! 8" by (metis xor_cancel_left xor.right_neutral one_neq_zero)
  then show ?thesis using zboss_rejects_damage[OF _ f(1), of 8 "f ! 8 XOR 1"] f by auto
qed

theorem raw_frames_never_panic_witness:
  "readRawZBOSSFrame [0x11, 0xDE, 0xAD, 5, 0, 6, 0, 0, 9] = (Inr [0xDE, 0xAD, 5, 0, 6, 0, 0], [9])
   \<and> zbossDecodeFrame [0xDE, 0xAD, 5, 0, 6, 0, 0] \<noteq> Inl ZPanic"
proof -
  have "readRawZBOSSFrame [0x11, 0xDE, 0xAD, 5, 0, 6, 0, 0, 9] = (Inr [0xDE, 0xAD, 5, 0, 6, 0, 0], [9])"
    by (simp add: raw_simp)
  then show ?thesis using raw_frames_never_panic by blast
qed

theorem serial_resync_witness:
  "\<exists>f. zbossEncodeRequest 2 1 1 [2] = Some f \<and> readRawZBOSSFrame ([0x12, 0xDE] @ f @ [0x33]) = (Inr f, [0x33])"
proof -
  obtain f where f: "zbossEncodeRequest 2 1 1 [2] = Some f" "length f = 15"
    using encode_request_some[of "[2]" 2 1 1] by auto
  then show ?thesis using serial_resync[OF _ _ f(1), of "[0x12, 0xDE]" "[0x33]"] by simp
qed

end
