(* ===== verification/ZCL_Types.thy ===== *)
theory ZCL_Types
  imports Go_Values
begin

text \<open>
  \<^verbatim>\<open>internal/zcl/types.go\<close>: ZCL type identifiers, sizes and names, the decoder from wire
  bytes to Go values and the encoder back. Errors are values of \<open>zcl_error\<close>, one
  constructor per \<^verbatim>\<open>fmt.Errorf\<close> of the source; a decoder result is the value and the number
  of bytes consumed.
\<close>

section \<open>Type identifiers\<close>

abbreviation TypeNoData :: byte where "TypeNoData \<equiv> 0x00"
abbreviation TypeBool :: byte where "TypeBool \<equiv> 0x10"
abbreviation TypeUint8 :: byte where "TypeUint8 \<equiv> 0x20"
abbreviation TypeUint16 :: byte where "TypeUint16 \<equiv> 0x21"
abbreviation TypeUint24 :: byte where "TypeUint24 \<equiv> 0x22"
abbreviation TypeUint32 :: byte where "TypeUint32 \<equiv> 0x23"
abbreviation TypeUint40 :: byte where "TypeUint40 \<equiv> 0x24"
abbreviation TypeUint48 :: byte where "TypeUint48 \<equiv> 0x25"
abbreviation TypeInt8 :: byte where "TypeInt8 \<equiv> 0x28"
abbreviation TypeInt16 :: byte where "TypeInt16 \<equiv> 0x29"
abbreviation TypeInt24 :: byte where "TypeInt24 \<equiv> 0x2A"
abbreviation TypeInt32 :: byte where "TypeInt32 \<equiv> 0x2B"
abbreviation TypeEnum8 :: byte where "TypeEnum8 \<equiv> 0x30"
abbreviation TypeEnum16 :: byte where "TypeEnum16 \<equiv> 0x31"
abbreviation TypeFloat16 :: byte where "TypeFloat16 \<equiv> 0x38"
abbreviation TypeFloat32 :: byte where "TypeFloat32 \<equiv> 0x39"
abbreviation TypeFloat64 :: byte where "TypeFloat64 \<equiv> 0x3A"
abbreviation TypeOctetStr :: byte where "TypeOctetStr \<equiv> 0x41"
abbreviation TypeCharStr :: byte where "TypeCharStr \<equiv> 0x42"
abbreviation TypeOctetStr16 :: byte where "TypeOctetStr16 \<equiv> 0x43"
abbreviation TypeCharStr16 :: byte where "TypeCharStr16 \<equiv> 0x44"
abbreviation TypeArray :: byte where "TypeArray \<equiv> 0x48"
abbreviation TypeStruct :: byte where "TypeStruct \<equiv> 0x4C"
abbreviation TypeBitmap8 :: byte where "TypeBitmap8 \<equiv> 0x18"
abbreviation TypeBitmap16 :: byte where "TypeBitmap16 \<equiv> 0x19"
abbreviation TypeBitmap24 :: byte where "TypeBitmap24 \<equiv> 0x1A"
abbreviation TypeBitmap32 :: byte where "TypeBitmap32 \<equiv> 0x1B"
abbreviation TypeEUI64 :: byte where "TypeEUI64 \<equiv> 0xF0"
abbreviation TypeClusterID :: byte where "TypeClusterID \<equiv> 0xE8"
abbreviation TypeAttrID :: byte where "TypeAttrID \<equiv> 0xE9"
abbreviation TypeToD :: byte where "TypeToD \<equiv> 0xE0"
abbreviation TypeDate :: byte where "TypeDate \<equiv> 0xE1"
abbreviation TypeUTC :: byte where "TypeUTC \<equiv> 0xE2"

definition TypeSize :: "byte \<Rightarrow> int" where
  "TypeSize t =
    (if t = TypeNoData then 0
     else if t \<in> {TypeBool, TypeUint8, TypeInt8, TypeEnum8, TypeBitmap8} then 1
     else if t \<in> {TypeUint16, TypeInt16, TypeEnum16, TypeBitmap16, TypeClusterID, TypeAttrID} then 2
     else if t \<in> {TypeUint24, TypeInt24, TypeBitmap24} then 3
     else if t = TypeFloat16 then 2
     else if t \<in> {TypeUint32, TypeInt32, TypeBitmap32, TypeFloat32, TypeToD, TypeDate, TypeUTC} then 4
     else if t = TypeUint40 then 5
     else if t = TypeUint48 then 6
     else if t \<in> {TypeFloat64, TypeEUI64} then 8
     else - 1)"

definition TypeName :: "byte \<Rightarrow> string" where
  "TypeName t =
    (if t = TypeNoData then ''nodata'' else if t = TypeBool then ''bool''
     else if t = TypeUint8 then ''uint8'' else if t = TypeUint16 then ''uint16''
     else if t = TypeUint24 then ''uint24'' else if t = TypeUint32 then ''uint32''
     else if t = TypeUint40 then ''uint40'' else if t = TypeUint48 then ''uint48''
     else if t = TypeInt8 then ''int8'' else if t = TypeInt16 then ''int16''
     else if t = TypeInt24 then ''int24'' else if t = TypeInt32 then ''int32''
     else if t = TypeEnum8 then ''enum8'' else if t = TypeEnum16 then ''enum16''
     else if t = TypeFloat16 then ''float16'' else if t = TypeFloat32 then ''float32''
     else if t = TypeFloat64 then ''float64'' else if t = TypeOctetStr then ''octstr''
     else if t = TypeCharStr then ''string'' else if t = TypeOctetStr16 then ''octstr16''
     else if t = TypeCharStr16 then ''string16'' else if t = TypeBitmap8 then ''map8''
     else if t = TypeBitmap16 then ''map16'' else if t = TypeBitmap24 then ''map24''
     else if t = TypeBitmap32 then ''map32'' else if t = TypeEUI64 then ''EUI64''
     else if t = TypeArray then ''array'' else if t = TypeStruct then ''struct''
     else if t = TypeUTC then ''UTC'' else ''0x'' @ hex2 t)"

section \<open>Decoding\<close>

datatype zcl_error =
    NotEnoughData byte nat nat
  | NoLengthByte | StringTruncated nat nat
  | NoLengthBytes16 | String16Truncated
  | UnsupportedVariable byte
  | CannotConvert byte
  | Overflows byte u64
  | EUI64Length nat
  | TooLong byte nat
  | EncodeNotImplemented byte

definition decodeVariableValue :: "byte \<Rightarrow> bytes \<Rightarrow> zcl_error + gval \<times> nat" where
  "decodeVariableValue t data =
    (if t \<in> {TypeOctetStr, TypeCharStr} then
       (if length data < 1 then Inl NoLengthByte
        else let n = unat (data ! 0) in
          if n = 0xFF then Inr (GNil, 1)
          else if length data < 1 + n then Inl (StringTruncated n (length data - 1))
          else if t = TypeCharStr then Inr (GStr (string_of (slice 1 (1 + n) data)), 1 + n)
          else Inr (GBytes (slice 1 (1 + n) data), 1 + n))
     else if t \<in> {TypeOctetStr16, TypeCharStr16} then
       (if length data < 2 then Inl NoLengthBytes16
        else let n = unat (le_get (take 2 data) :: u16) in
          if n = 0xFFFF then Inr (GNil, 2)
          else if length data < 2 + n then Inl String16Truncated
          else if t = TypeCharStr16 then Inr (GStr (string_of (slice 2 (2 + n) data)), 2 + n)
          else Inr (GBytes (slice 2 (2 + n) data), 2 + n))
     else Inl (UnsupportedVariable t))"

definition sign_extend24 :: "u32 \<Rightarrow> u32" where
  "sign_extend24 v = (if v AND 0x800000 \<noteq> 0 then v OR 0xFF000000 else v)"

definition DecodeValue :: "byte \<Rightarrow> bytes \<Rightarrow> zcl_error + gval \<times> nat" where
  "DecodeValue t data =
    (let size = TypeSize t in
     if size = 0 then Inr (GNil, 0)
     else if size < 0 then decodeVariableValue t data
     else if length data < nat size then Inl (NotEnoughData t (nat size) (length data))
     else if t = TypeBool then Inr (GBool (data ! 0 \<noteq> 0), 1)
     else if t \<in> {TypeUint8, TypeEnum8, TypeBitmap8} then Inr (GU8 (data ! 0), 1)
     else if t \<in> {TypeUint16, TypeEnum16, TypeBitmap16, TypeClusterID, TypeAttrID, TypeFloat16}
       then Inr (GU16 (le_get (take 2 data)), 2)
     else if t \<in> {TypeUint24, TypeBitmap24} then Inr (GU32 (le_get (take 3 data)), 3)
     else if t = TypeInt24 then Inr (GI32 (sign_extend24 (le_get (take 3 data))), 3)
     else if t \<in> {TypeUint32, TypeBitmap32, TypeUTC} then Inr (GU32 (le_get (take 4 data)), 4)
     else if t = TypeUint40 then Inr (GU64 (le_get (take 5 data)), 5)
     else if t = TypeUint48 then Inr (GU64 (le_get (take 6 data)), 6)
     else if t = TypeInt8 then Inr (GI8 (data ! 0), 1)
     else if t = TypeInt16 then Inr (GI16 (le_get (take 2 data)), 2)
     else if t = TypeInt32 then Inr (GI32 (le_get (take 4 data)), 4)
     else if t = TypeFloat32 then Inr (GF32 (le_get (take 4 data)), 4)
     else if t = TypeFloat64 then Inr (GF64 (le_get (take 8 data)), 8)
     else if t = TypeEUI64 then Inr (GAddr (take 8 data), 8)
     else if t \<in> {TypeToD, TypeDate} then Inr (GU32 (le_get (take 4 data)), 4)
     else Inr (GBytes (take (nat size) data), nat size))"

section \<open>Encoding\<close>

fun toBool :: "gval \<Rightarrow> bool option" where
  "toBool (GBool b) = Some b"
| "toBool (GF64 w) = Some (\<not> f64_is_zero w)"
| "toBool (GInt w) = Some (w \<noteq> 0)"
| "toBool _ = None"

fun toUint64 :: "go_fp \<Rightarrow> gval \<Rightarrow> u64 option" where
  "toUint64 fp (GU8 w) = Some (ucast w)"
| "toUint64 fp (GU16 w) = Some (ucast w)"
| "toUint64 fp (GU32 w) = Some (ucast w)"
| "toUint64 fp (GU64 w) = Some w"
| "toUint64 fp (GInt w) = (if w <s 0 then None else Some w)"
| "toUint64 fp (GI64 w) = (if w <s 0 then None else Some w)"
| "toUint64 fp (GF64 w) = (if f64_lt0 w then None else Some (f64_to_u64 fp w))"
| "toUint64 fp _ = None"

fun toFloat64 :: "go_fp \<Rightarrow> gval \<Rightarrow> u64 option" where
  "toFloat64 fp (GF32 w) = Some (f32_to_f64 fp w)"
| "toFloat64 fp (GF64 w) = Some w"
| "toFloat64 fp (GInt w) = Some (f64_of_int (sint w))"
| "toFloat64 fp (GI64 w) = Some (f64_of_int (sint w))"
| "toFloat64 fp (GU64 w) = Some (f64_of_int (uint w))"
| "toFloat64 fp _ = None"

text \<open>
  The guard of the float64 case compares with \<^verbatim>\<open>math.MaxInt64\<close>, which as a float64 constant
  is \<open>2^63\<close>; infinities fail one of the comparisons, a NaN fails none.
\<close>

definition f64_outside_int64 :: "u64 \<Rightarrow> bool" where
  "f64_outside_int64 w \<longleftrightarrow>
     f64_is_inf w \<or> (f64_exp w \<noteq> 2047 \<and> (2 ^ 63 < f64_trunc w \<or> f64_trunc w < - (2 ^ 63)))"

fun toInt64 :: "go_fp \<Rightarrow> gval \<Rightarrow> u64 option" where
  "toInt64 fp (GI8 w) = Some (scast w)"
| "toInt64 fp (GI16 w) = Some (scast w)"
| "toInt64 fp (GI32 w) = Some (scast w)"
| "toInt64 fp (GI64 w) = Some w"
| "toInt64 fp (GInt w) = Some w"
| "toInt64 fp (GU8 w) = Some (ucast w)"
| "toInt64 fp (GU16 w) = Some (ucast w)"
| "toInt64 fp (GU32 w) = Some (ucast w)"
| "toInt64 fp (GU64 w) = (if 0x7FFFFFFFFFFFFFFF < w then None else Some w)"
| "toInt64 fp (GF64 w) = (if f64_outside_int64 w then None else Some (f64_to_i64 fp w))"
| "toInt64 fp _ = None"

text \<open>
  The unsigned integer cases convert, check the maximum and emit the \<open>n\<close> low bytes; the
  signed ones do the same with a range check.
\<close>

definition encode_uint :: "go_fp \<Rightarrow> byte \<Rightarrow> nat \<Rightarrow> u64 \<Rightarrow> gval \<Rightarrow> zcl_error + bytes" where
  "encode_uint fp t n mx v =
     (case toUint64 fp v of
        None \<Rightarrow> Inl (CannotConvert t)
      | Some u \<Rightarrow> if mx < u then Inl (Overflows t u) else Inr (le_put n u))"

definition encode_int :: "go_fp \<Rightarrow> byte \<Rightarrow> nat \<Rightarrow> int \<Rightarrow> int \<Rightarrow> gval \<Rightarrow> zcl_error + bytes" where
  "encode_int fp t n mn mx v =
     (case toInt64 fp v of
        None \<Rightarrow> Inl (CannotConvert t)
      | Some i \<Rightarrow> if sint i < mn \<or> mx < sint i then Inl (Overflows t i) else Inr (le_put n i))"

definition encode_eui64 :: "gval \<Rightarrow> zcl_error + bytes" where
  "encode_eui64 v =
     (case v of
        GAddr a \<Rightarrow> Inr a
      | GBytes a \<Rightarrow> if length a \<noteq> 8 then Inl (EUI64Length (length a)) else Inr a
      | _ \<Rightarrow> Inl (CannotConvert TypeEUI64))"

definition encode_str :: "byte \<Rightarrow> nat \<Rightarrow> nat \<Rightarrow> bytes \<Rightarrow> zcl_error + bytes" where
  "encode_str t n mx b =
     (if mx < length b then Inl (TooLong t (length b))
      else Inr (le_put n (word_of_nat (length b) :: u16) @ b))"

definition EncodeValue :: "go_fp \<Rightarrow> byte \<Rightarrow> gval \<Rightarrow> zcl_error + bytes" where
  "EncodeValue fp t v =
    (if t = TypeBool then
       (case toBool v of None \<Rightarrow> Inl (CannotConvert t)
        | Some b \<Rightarrow> if b then Inr [1] else Inr [0])
     else if t \<in> {TypeUint8, TypeEnum8, TypeBitmap8} then encode_uint fp t 1 0xFF v
     else if t \<in> {TypeUint16, TypeEnum16, TypeBitmap16} then encode_uint fp t 2 0xFFFF v
     else if t \<in> {TypeUint32, TypeBitmap32, TypeUTC} then encode_uint fp t 4 0xFFFFFFFF v
     else if t = TypeInt8 then encode_int fp t 1 (- 128) 127 v
     else if t = TypeInt16 then encode_int fp t 2 (- 32768) 32767 v
     else if t = TypeInt24 then encode_int fp t 3 (- 8388608) 8388607 v
     else if t \<in> {TypeUint24, TypeBitmap24} then encode_uint fp t 3 0xFFFFFF v
     else if t = TypeInt32 then encode_int fp t 4 (- 2147483648) 2147483647 v
     else if t = TypeUint40 then encode_uint fp t 5 0xFFFFFFFFFF v
     else if t = TypeUint48 then encode_uint fp t 6 0xFFFFFFFFFFFF v
     else if t = TypeFloat16 then
       (case toUint64 fp v of None \<Rightarrow> Inl (CannotConvert t) | Some u \<Rightarrow> Inr (le_put 2 u))
     else if t = TypeFloat32 then
       (case toFloat64 fp v of None \<Rightarrow> Inl (CannotConvert t)
        | Some f \<Rightarrow> Inr (le_put 4 (f64_to_f32 fp f)))
     else if t = TypeFloat64 then
       (case toFloat64 fp v of None \<Rightarrow> Inl (CannotConvert t) | Some f \<Rightarrow> Inr (le_put 8 f))
     else if t = TypeEUI64 then encode_eui64 v
     else if t = TypeCharStr then
       (case v of GStr s \<Rightarrow> encode_str t 1 254 (bytes_of s) | _ \<Rightarrow> Inl (CannotConvert t))
     else if t = TypeOctetStr then
       (case v of GBytes b \<Rightarrow> encode_str t 1 254 b | _ \<Rightarrow> Inl (CannotConvert t))
     else if t = TypeCharStr16 then
       (case v of GStr s \<Rightarrow> encode_str t 2 65534 (bytes_of s) | _ \<Rightarrow> Inl (CannotConvert t))
     else if t = TypeOctetStr16 then
       (case v of GBytes b \<Rightarrow> encode_str t 2 65534 b | _ \<Rightarrow> Inl (CannotConvert t))
     else Inl (EncodeNotImplemented t))"

text \<open>
  A Go value is well formed when the fixed-size arrays in it have their size: \<^verbatim>\<open>[8]byte\<close> is
  eight bytes by its Go type.
\<close>

fun gval_ok :: "gval \<Rightarrow> bool" where
  "gval_ok (GAddr a) \<longleftrightarrow> length a = 8"
| "gval_ok (GList vs) \<longleftrightarrow> list_all gval_ok vs"
| "gval_ok (GMap kvs) \<longleftrightarrow> list_all (\<lambda>kv. gval_ok (snd kv)) kvs"
| "gval_ok _ \<longleftrightarrow> True"

text \<open>The encoder at each type identifier.\<close>

lemma encode_simps:
  "EncodeValue fp TypeUint8 v = encode_uint fp TypeUint8 1 0xFF v"
  "EncodeValue fp TypeEnum8 v = encode_uint fp TypeEnum8 1 0xFF v"
  "EncodeValue fp TypeBitmap8 v = encode_uint fp TypeBitmap8 1 0xFF v"
  "EncodeValue fp TypeUint16 v = encode_uint fp TypeUint16 2 0xFFFF v"
  "EncodeValue fp TypeEnum16 v = encode_uint fp TypeEnum16 2 0xFFFF v"
  "EncodeValue fp TypeBitmap16 v = encode_uint fp TypeBitmap16 2 0xFFFF v"
  "EncodeValue fp TypeUint24 v = encode_uint fp TypeUint24 3 0xFFFFFF v"
  "EncodeValue fp TypeBitmap24 v = encode_uint fp TypeBitmap24 3 0xFFFFFF v"
  "EncodeValue fp TypeUint32 v = encode_uint fp TypeUint32 4 0xFFFFFFFF v"
  "EncodeValue fp TypeBitmap32 v = encode_uint fp TypeBitmap32 4 0xFFFFFFFF v"
  "EncodeValue fp TypeUTC v = encode_uint fp TypeUTC 4 0xFFFFFFFF v"
  "EncodeValue fp TypeUint40 v = encode_uint fp TypeUint40 5 0xFFFFFFFFFF v"
  "EncodeValue fp TypeUint48 v = encode_uint fp TypeUint48 6 0xFFFFFFFFFFFF v"
  "EncodeValue fp TypeInt8 v = encode_int fp TypeInt8 1 (- 128) 127 v"
  "EncodeValue fp TypeInt16 v = encode_int fp TypeInt16 2 (- 32768) 32767 v"
  "EncodeValue fp TypeInt24 v = encode_int fp TypeInt24 3 (- 8388608) 8388607 v"
  "EncodeValue fp TypeInt32 v = encode_int fp TypeInt32 4 (- 2147483648) 2147483647 v"
  "EncodeValue fp TypeEUI64 v = encode_eui64 v"
  "EncodeValue fp TypeBool v = (case toBool v of None \<Rightarrow> Inl (CannotConvert TypeBool)
     | Some b \<Rightarrow> Inr [if b then 1 else 0])"
  "EncodeValue fp TypeFloat16 v = (case toUint64 fp v of None \<Rightarrow> Inl (CannotConvert TypeFloat16)
     | Some u \<Rightarrow> Inr (le_put 2 u))"
  "EncodeValue fp TypeFloat32 v = (case toFloat64 fp v of None \<Rightarrow> Inl (CannotConvert TypeFloat32)
     | Some f \<Rightarrow> Inr (le_put 4 (f64_to_f32 fp f)))"
  "EncodeValue fp TypeFloat64 v = (case toFloat64 fp v of None \<Rightarrow> Inl (CannotConvert TypeFloat64)
     | Some f \<Rightarrow> Inr (le_put 8 f))"
  "EncodeValue fp TypeClusterID v = Inl (EncodeNotImplemented TypeClusterID)"
  "EncodeValue fp TypeAttrID v = Inl (EncodeNotImplemented TypeAttrID)"
  "EncodeValue fp TypeToD v = Inl (EncodeNotImplemented TypeToD)"
  "EncodeValue fp TypeDate v = Inl (EncodeNotImplemented TypeDate)"
  by (simp_all add: EncodeValue_def split: option.splits)

section \<open>Correctness of the codec\<close>

text \<open>The integer types of the encoder, and the number a dynamic value stands for.\<close>

definition int_types :: "byte list" where
  "int_types = [TypeUint8, TypeEnum8, TypeBitmap8, TypeUint16, TypeEnum16, TypeBitmap16,
     TypeUint24, TypeBitmap24, TypeUint32, TypeBitmap32, TypeUTC, TypeUint40, TypeUint48,
     TypeInt8, TypeInt16, TypeInt24, TypeInt32]"

fun num_val :: "gval \<Rightarrow> int option" where
  "num_val (GF64 w) =
     (if f64_exp w \<noteq> 2047 \<and> - (2 ^ 63) \<le> f64_trunc w \<and> f64_trunc w < 2 ^ 63
      then Some (f64_trunc w) else None)"
| "num_val v = int_val v"

lemma f64_trunc_neg: "f64_trunc w < 0 \<Longrightarrow> f64_exp w \<noteq> 2047 \<Longrightarrow> f64_lt0 w"
  by (cases "f64_frac w = 0")
    (auto simp: f64_trunc_def f64_lt0_def f64_is_nan_def f64_is_zero_def Let_def f64_mant_def
      scale_trunc_def split: if_splits)

lemma toUint64_num:
  assumes "toUint64 fp v = Some u" "num_val v = Some i"
  shows "uint u = i"
proof (cases v)
  case (GF64 w)
  with assms have w: "\<not> f64_lt0 w" "u = f64_to_u64 fp w" "i = f64_trunc w" "f64_exp w \<noteq> 2047"
    "f64_trunc w < 2 ^ 63" by (auto split: if_splits)
  then have "0 \<le> f64_trunc w" using f64_trunc_neg by force
  with w show ?thesis by (simp add: f64_to_u64_def uint_word_of_int take_bit_int_eq_self)
qed (use assms in \<open>auto simp: uint_nonneg_sint uint_ucast_small[OF order_less_le_trans[OF uint_bounded]] split: if_splits\<close>)

lemma toInt64_num:
  assumes "toInt64 fp v = Some u" "num_val v = Some i"
  shows "sint u = i"
proof (cases v)
  case (GF64 w)
  with assms have w: "u = f64_to_i64 fp w" "i = f64_trunc w" "f64_exp w \<noteq> 2047"
    "- (2 ^ 63) \<le> f64_trunc w" "f64_trunc w < 2 ^ 63" by (auto split: if_splits)
  then have "sint (word_of_int (f64_trunc w) :: u64) = f64_trunc w"
    by (subst sint_sbintrunc') (rule signed_take_bit_int_eq_self, simp_all)
  with w show ?thesis by (simp add: f64_to_i64_def)
next
  case (GU64 w)
  with assms have "u = w" "\<not> 0x7FFFFFFFFFFFFFFF < w" "i = uint w" by (auto split: if_splits)
  then have "uint w < 2 ^ (LENGTH(64) - 1)" by (simp add: word_less_def)
  then show ?thesis using \<open>u = w\<close> \<open>i = uint w\<close> by (simp add: sint_uint_small)
qed (use assms in \<open>auto simp: sint_ucast_up sint_scast_up split: if_splits\<close>)

lemma decode_uint:
  fixes u :: u64
  assumes "encode_uint fp t n mx v = Inr bs" "num_val v = Some i" "uint mx < 2 ^ (8 * n)"
  shows "bs = le_put n (word_of_int i :: u64)" "0 \<le> i" "i < 2 ^ (8 * n)" "length bs = n"
proof -
  obtain u where u: "toUint64 fp v = Some u" "\<not> mx < u" "bs = le_put n u"
    using assms(1) by (auto simp: encode_uint_def split: option.splits if_splits)
  have i: "uint u = i" by (rule toUint64_num [OF u(1) assms(2)])
  then show "bs = le_put n (word_of_int i :: u64)" "0 \<le> i" "length bs = n"
    using u by auto
  show "i < 2 ^ (8 * n)" using i u assms(3) by (simp add: word_less_def)
qed

lemma decode_int:
  assumes "encode_int fp t n mn mx v = Inr bs" "num_val v = Some i"
  shows "bs = le_put n (word_of_int i :: u64)" "mn \<le> i" "i \<le> mx" "length bs = n"
proof -
  obtain u where u: "toInt64 fp v = Some u" "\<not> sint u < mn" "\<not> mx < sint u" "bs = le_put n u"
    using assms(1) by (auto simp: encode_int_def split: option.splits if_splits)
  have i: "sint u = i" by (rule toInt64_num [OF u(1) assms(2)])
  then show "bs = le_put n (word_of_int i :: u64)" "mn \<le> i" "i \<le> mx" "length bs = n"
    using u by auto
qed

lemma uint_le_get_put:
  assumes "0 \<le> i" "i < 2 ^ (8 * n)" "8 * n \<le> LENGTH('b)" "8 * n \<le> 64"
  shows "uint (le_get (le_put n (word_of_int i :: u64)) :: 'b::len word) = i"
proof -
  have "i < 2 ^ 64"
    using assms(2) by (rule order_less_le_trans) (use assms(4) in \<open>intro power_increasing; simp\<close>)
  then have u: "uint (word_of_int i :: u64) = i" using assms(1) by (simp add: uint_word_of_int take_bit_int_eq_self)
  have "i < 2 ^ LENGTH('b)"
    using assms(2) by (rule order_less_le_trans) (use assms(3) in \<open>simp add: power_increasing\<close>)
  then show ?thesis
    using u assms(2) by (simp add: le_get_put_ucast take_bit_word_small uint_ucast_small)
qed

lemma sint_le_get_put:
  assumes "- (2 ^ (LENGTH('b) - 1)) \<le> i" "i < 2 ^ (LENGTH('b) - 1)" "8 * n = LENGTH('b)" "8 * n \<le> 64"
  shows "sint (le_get (le_put n (word_of_int i :: u64)) :: 'b::len word) = i"
proof -
  let ?w = "word_of_int i :: u64"
  have p: "(2::int) ^ (LENGTH('b) - 1) \<le> 2 ^ 63" using assms(3,4) by (intro power_increasing) auto
  then have "- (2 ^ 63) \<le> i" "i < 2 ^ 63" using assms(1,2) by linarith+
  then have s: "sint ?w = i"
    by (subst sint_sbintrunc') (rule signed_take_bit_int_eq_self, simp_all)
  have "(le_get (le_put n ?w) :: 'b word) = ucast ?w"
    unfolding le_get_put_ucast by (rule bit_eqI) (auto simp: bit_simps assms(3))
  then show ?thesis using sint_ucast_small[of ?w, where 'b='b] s assms by simp
qed

lemma sign_extend24_put:
  assumes "- 8388608 \<le> i" "i \<le> 8388607"
  shows "sint (sign_extend24 (le_get (le_put 3 (word_of_int i :: u64)))) = i"
proof -
  let ?v = "le_get (le_put 3 (word_of_int i :: u64)) :: u32"
  have sb: "signed_take_bit 23 i = i" using assms by (simp add: signed_take_bit_int_eq_self)
  have hi: "bit i k \<longleftrightarrow> bit i 23" if "23 \<le> k" for k
    using bit_signed_take_bit_iff[of 23 i k] that by (simp add: sb min_absorb2)
  have v: "bit ?v k \<longleftrightarrow> k < 24 \<and> bit i k" for k
    by (auto simp: le_get_put_ucast bit_simps)
  have a: "?v AND 0x800000 \<noteq> 0 \<longleftrightarrow> bit i 23"
    using and_exp_eq_0_iff_not_bit[of ?v 23] by (simp add: v)
  have m: "(0xFF000000 :: u32) = NOT (mask 24)" by (simp add: mask_eq_exp_minus_1)
  have "sign_extend24 ?v = word_of_int i"
  proof (rule bit_eqI)
    fix k assume "possible_bit TYPE(32 word) k"
    then have "k < 32" by simp
    then show "bit (sign_extend24 ?v) k \<longleftrightarrow> bit (word_of_int i :: u32) k"
      using hi[of k] by (cases "k < 24") (auto simp: sign_extend24_def a v m bit_simps)
  qed
  moreover have "sint (word_of_int i :: u32) = i"
    using assms by (subst sint_sbintrunc') (rule signed_take_bit_int_eq_self, simp_all)
  ultimately show ?thesis by simp
qed


lemma take_le_put_append [simp]: "take n (le_put n w @ rest) = le_put n w"
  by simp

lemma le_put_Suc0_nth [simp]: "(le_put (Suc 0) w @ rest) ! 0 = ucast w"
  by simp

text \<open>
  C24: an integer survives the wire. Whenever the encoder accepts a number (a Go integer of any
  width, or a JSON float64 within the int64 range, which counts as its integer part) for one of
  the integer types, decoding the bytes it wrote gives back exactly that integer and consumes
  exactly those bytes, whatever follows them: no accepted value is truncated or re-signed.
\<close>

theorem integer_roundtrip:
  assumes "t \<in> set int_types" "num_val v = Some i" "EncodeValue fp t v = Inr bs"
  shows "\<exists>w. DecodeValue t (bs @ rest) = Inr (w, length bs) \<and> int_val w = Some i"
proof -
  note U = decode_uint[OF _ assms(2)] and I = decode_int[OF _ assms(2)]
  have one: "(le_put 1 x @ rest) ! 0 = le_get (le_put 1 x)" for x :: u64 by simp
  consider (u) n mx where "encode_uint fp t n mx v = Inr bs" "(n, mx, t) \<in>
       {(1,0xFF,TypeUint8),(1,0xFF,TypeEnum8),(1,0xFF,TypeBitmap8),(2,0xFFFF,TypeUint16),(2,0xFFFF,TypeEnum16),
        (2,0xFFFF,TypeBitmap16),(3,0xFFFFFF,TypeUint24),(3,0xFFFFFF,TypeBitmap24),(4,0xFFFFFFFF,TypeUint32),
        (4,0xFFFFFFFF,TypeBitmap32),(4,0xFFFFFFFF,TypeUTC),(5,0xFFFFFFFFFF,TypeUint40),(6,0xFFFFFFFFFFFF,TypeUint48)}"
    | (s) n mn mx where "encode_int fp t n mn mx v = Inr bs" "(n, mn, mx, t) \<in>
       {(1,-128,127,TypeInt8),(2,-32768,32767,TypeInt16),(3,-8388608,8388607,TypeInt24),
        (4,-2147483648,2147483647,TypeInt32)}"
    using assms(1,3) by (auto simp: int_types_def EncodeValue_def)
  then show ?thesis
  proof cases
    case u
    have "uint mx < 2 ^ (8 * n)" using u(2) by auto
    note f = U[OF u(1) this]
    have b: "0 \<le> i \<Longrightarrow> i < 256 \<Longrightarrow> uint (ucast (word_of_int i :: u64) :: byte) = i"
      using uint_le_get_put[of i 1, where 'b=8] by simp
    show ?thesis using u(2) f
      by (elim insertE; clarsimp simp: DecodeValue_def TypeSize_def one b uint_le_get_put simp del: le_put.simps)
  next
    case s
    note f = I[OF s(1)]
    have b: "-128 \<le> i \<Longrightarrow> i \<le> 127 \<Longrightarrow> sint (ucast (word_of_int i :: u64) :: byte) = i"
      using sint_le_get_put[of i 1, where 'b=8] by simp
    show ?thesis using s(2) f
      by (elim insertE; clarsimp simp: DecodeValue_def TypeSize_def one b sint_le_get_put sign_extend24_put simp del: le_put.simps)
  qed
qed
theorem integer_roundtrip_witness:
  "\<exists>bs w. EncodeValue zero_fp TypeInt24 (GI64 (- 2)) = Inr bs
     \<and> DecodeValue TypeInt24 (bs @ [7]) = Inr (w, 3) \<and> int_val w = Some (- 2)"
proof -
  have e: "EncodeValue zero_fp TypeInt24 (GI64 (- 2)) = Inr [0xFE, 0xFF, 0xFF]"
    by (simp add: encode_simps encode_int_def numeral_3_eq_3)
  have t: "TypeInt24 \<in> set int_types" and n: "num_val (GI64 (- 2)) = Some (- 2)"
    by (simp_all add: int_types_def)
  show ?thesis using e integer_roundtrip[OF t n e, of "[7]"] by (simp add: numeral_3_eq_3)
qed

text \<open>Everything the decoder reads is what it reports as consumed.\<close>

lemma decodeVariable_consumed:
  "decodeVariableValue t data = Inr (v, n) \<Longrightarrow> n \<le> length data"
  by (auto simp: decodeVariableValue_def Let_def Suc_le_eq split: if_splits)

lemma fixed_typesE:
  assumes "0 < TypeSize t"
  obtains "t \<in> {TypeBool, TypeUint8, TypeInt8, TypeEnum8, TypeBitmap8}" "TypeSize t = 1"
  | "t \<in> {TypeUint16, TypeInt16, TypeEnum16, TypeBitmap16, TypeClusterID, TypeAttrID, TypeFloat16}"
      "TypeSize t = 2"
  | "t \<in> {TypeUint24, TypeInt24, TypeBitmap24}" "TypeSize t = 3"
  | "t \<in> {TypeUint32, TypeInt32, TypeBitmap32, TypeFloat32, TypeToD, TypeDate, TypeUTC}"
      "TypeSize t = 4"
  | "t = TypeUint40" "TypeSize t = 5"
  | "t = TypeUint48" "TypeSize t = 6"
  | "t \<in> {TypeFloat64, TypeEUI64}" "TypeSize t = 8"
  using assms unfolding TypeSize_def by (simp split: if_splits) blast+

lemma slice_take_prefix: "j \<le> length xs \<Longrightarrow> slice i j (take j xs @ ys) = slice i j xs"
  by (cases "i \<le> j") (simp_all add: slice_def take_drop)

lemma take_take_prefix: "i \<le> n \<Longrightarrow> n \<le> length xs \<Longrightarrow> take i (take n xs @ ys) = take i xs"
  by (simp add: min_absorb1)

lemma nth_take_prefix: "i < n \<Longrightarrow> n \<le> length xs \<Longrightarrow> (take n xs @ ys) ! i = xs ! i"
  by (simp add: nth_append)

lemmas prefix_simps = slice_take_prefix take_take_prefix nth_take_prefix

lemma decodeVariable_prefix:
  assumes "decodeVariableValue t data = Inr (v, n)"
  shows "decodeVariableValue t (take n data @ rest) = Inr (v, n)"
proof -
  note len = decodeVariable_consumed[OF assms]
  consider "t \<in> {TypeOctetStr, TypeCharStr}" | "t \<in> {TypeOctetStr16, TypeCharStr16}"
    using assms by (auto simp: decodeVariableValue_def split: if_splits)
  then show ?thesis
  proof cases
    case 1
    with assms have "data \<noteq> []" "1 \<le> n"
      by (auto simp: decodeVariableValue_def Let_def split: if_splits)
    with 1 assms len show ?thesis
      by (auto simp: decodeVariableValue_def Let_def prefix_simps split: if_splits)
  next
    case 2
    with assms have "2 \<le> length data" "2 \<le> n"
      by (auto simp: decodeVariableValue_def Let_def split: if_splits)
    with 2 assms len show ?thesis
      by (auto simp: decodeVariableValue_def Let_def prefix_simps split: if_splits)
  qed
qed

text \<open>The decoder at each fixed-size type identifier.\<close>

lemma decode_simps:
  "DecodeValue TypeBool data = (if length data < 1 then Inl (NotEnoughData TypeBool 1 (length data))
     else Inr (GBool (data ! 0 \<noteq> 0), 1))"
  "DecodeValue TypeUint8 data = (if length data < 1 then Inl (NotEnoughData TypeUint8 1 (length data))
     else Inr (GU8 (data ! 0), 1))"
  "DecodeValue TypeEnum8 data = (if length data < 1 then Inl (NotEnoughData TypeEnum8 1 (length data))
     else Inr (GU8 (data ! 0), 1))"
  "DecodeValue TypeBitmap8 data = (if length data < 1 then Inl (NotEnoughData TypeBitmap8 1 (length data))
     else Inr (GU8 (data ! 0), 1))"
  "DecodeValue TypeInt8 data = (if length data < 1 then Inl (NotEnoughData TypeInt8 1 (length data))
     else Inr (GI8 (data ! 0), 1))"
  "DecodeValue TypeUint16 data = (if length data < 2 then Inl (NotEnoughData TypeUint16 2 (length data))
     else Inr (GU16 (le_get (take 2 data)), 2))"
  "DecodeValue TypeEnum16 data = (if length data < 2 then Inl (NotEnoughData TypeEnum16 2 (length data))
     else Inr (GU16 (le_get (take 2 data)), 2))"
  "DecodeValue TypeBitmap16 data = (if length data < 2 then Inl (NotEnoughData TypeBitmap16 2 (length data))
     else Inr (GU16 (le_get (take 2 data)), 2))"
  "DecodeValue TypeClusterID data = (if length data < 2 then Inl (NotEnoughData TypeClusterID 2 (length data))
     else Inr (GU16 (le_get (take 2 data)), 2))"
  "DecodeValue TypeAttrID data = (if length data < 2 then Inl (NotEnoughData TypeAttrID 2 (length data))
     else Inr (GU16 (le_get (take 2 data)), 2))"
  "DecodeValue TypeFloat16 data = (if length data < 2 then Inl (NotEnoughData TypeFloat16 2 (length data))
     else Inr (GU16 (le_get (take 2 data)), 2))"
  "DecodeValue TypeInt16 data = (if length data < 2 then Inl (NotEnoughData TypeInt16 2 (length data))
     else Inr (GI16 (le_get (take 2 data)), 2))"
  "DecodeValue TypeUint24 data = (if length data < 3 then Inl (NotEnoughData TypeUint24 3 (length data))
     else Inr (GU32 (le_get (take 3 data)), 3))"
  "DecodeValue TypeBitmap24 data = (if length data < 3 then Inl (NotEnoughData TypeBitmap24 3 (length data))
     else Inr (GU32 (le_get (take 3 data)), 3))"
  "DecodeValue TypeInt24 data = (if length data < 3 then Inl (NotEnoughData TypeInt24 3 (length data))
     else Inr (GI32 (sign_extend24 (le_get (take 3 data))), 3))"
  "DecodeValue TypeUint32 data = (if length data < 4 then Inl (NotEnoughData TypeUint32 4 (length data))
     else Inr (GU32 (le_get (take 4 data)), 4))"
  "DecodeValue TypeBitmap32 data = (if length data < 4 then Inl (NotEnoughData TypeBitmap32 4 (length data))
     else Inr (GU32 (le_get (take 4 data)), 4))"
  "DecodeValue TypeUTC data = (if length data < 4 then Inl (NotEnoughData TypeUTC 4 (length data))
     else Inr (GU32 (le_get (take 4 data)), 4))"
  "DecodeValue TypeToD data = (if length data < 4 then Inl (NotEnoughData TypeToD 4 (length data))
     else Inr (GU32 (le_get (take 4 data)), 4))"
  "DecodeValue TypeDate data = (if length data < 4 then Inl (NotEnoughData TypeDate 4 (length data))
     else Inr (GU32 (le_get (take 4 data)), 4))"
  "DecodeValue TypeInt32 data = (if length data < 4 then Inl (NotEnoughData TypeInt32 4 (length data))
     else Inr (GI32 (le_get (take 4 data)), 4))"
  "DecodeValue TypeFloat32 data = (if length data < 4 then Inl (NotEnoughData TypeFloat32 4 (length data))
     else Inr (GF32 (le_get (take 4 data)), 4))"
  "DecodeValue TypeUint40 data = (if length data < 5 then Inl (NotEnoughData TypeUint40 5 (length data))
     else Inr (GU64 (le_get (take 5 data)), 5))"
  "DecodeValue TypeUint48 data = (if length data < 6 then Inl (NotEnoughData TypeUint48 6 (length data))
     else Inr (GU64 (le_get (take 6 data)), 6))"
  "DecodeValue TypeFloat64 data = (if length data < 8 then Inl (NotEnoughData TypeFloat64 8 (length data))
     else Inr (GF64 (le_get (take 8 data)), 8))"
  "DecodeValue TypeEUI64 data = (if length data < 8 then Inl (NotEnoughData TypeEUI64 8 (length data))
     else Inr (GAddr (take 8 data), 8))"
  by (simp_all add: DecodeValue_def TypeSize_def)

lemma DecodeValue_fixed:
  assumes "0 < TypeSize t" "nat (TypeSize t) \<le> length data"
  shows "DecodeValue t data = DecodeValue t (take (nat (TypeSize t)) data)"
    "\<exists>v. DecodeValue t data = Inr (v, nat (TypeSize t))"
  using assms(1)
  by (rule fixed_typesE; use assms(2) in \<open>auto simp: decode_simps\<close>)+

lemma DecodeValue_prefix:
  assumes "DecodeValue t data = Inr (v, n)"
  shows "n \<le> length data \<and> DecodeValue t (take n data @ rest) = Inr (v, n)"
proof -
  consider "TypeSize t = 0" | "TypeSize t < 0" | "0 < TypeSize t" by linarith
  then show ?thesis
  proof cases
    case 1
    then show ?thesis using assms by (simp add: DecodeValue_def)
  next
    case 2
    then show ?thesis using assms decodeVariable_prefix decodeVariable_consumed
      by (simp add: DecodeValue_def)
  next
    case 3
    have le: "nat (TypeSize t) \<le> length data"
      using assms 3 by (simp add: DecodeValue_def Let_def split: if_splits)
    with DecodeValue_fixed(2)[OF 3 le] assms have n: "n = nat (TypeSize t)" by auto
    show ?thesis
      using DecodeValue_fixed(1)[OF 3 le] DecodeValue_fixed(1)[OF 3, of "take n data @ rest"] le assms n
      by simp
  qed
qed

text \<open>
  the decoder never reads past what it reports. A successful decode consumes no more bytes
  than there are, and its result depends only on the consumed bytes: replacing everything after
  them changes neither the value nor the count. Callers that advance by the count (the Xiaomi
  TLV decoder) therefore cut the stream at the right place.
\<close>

theorem decode_prefix:
  assumes "DecodeValue t data = Inr (v, n)"
  shows "n \<le> length data \<and> DecodeValue t (take n data @ rest) = Inr (v, n)"
  by (rule DecodeValue_prefix[OF assms])

theorem decode_prefix_witness:
  "DecodeValue TypeCharStr [2, 72, 105, 9] = Inr (GStr ''Hi'', 3)
     \<and> DecodeValue TypeCharStr ([2, 72, 105] @ [1, 1]) = Inr (GStr ''Hi'', 3)"
proof -
  have s: "string_of [72, 105] = ''Hi''" by code_simp
  have d: "DecodeValue TypeCharStr [2, 72, 105, 9] = Inr (GStr ''Hi'', 3)"
    by (simp add: DecodeValue_def TypeSize_def decodeVariableValue_def slice_def Let_def s)
  show ?thesis using d decode_prefix[OF d, of "[1, 1]"] by (simp add: numeral_3_eq_3)
qed

lemma le_get_length:
  assumes "n \<le> 2" "m < 2 ^ (8 * n)"
  shows "unat (le_get (le_put n (word_of_nat m :: u16)) :: u16) = m"
proof -
  have "m < 2 ^ 16" using assms(2) by (rule order_less_le_trans) (use assms(1) in \<open>intro power_increasing; simp\<close>)
  then show ?thesis using assms(2)
    by (simp add: le_get_put_take unat_of_nat unsigned_take_bit_eq take_bit_nat_eq_self)
qed

lemma decode_string8:
  assumes "unat h = length b" "length b \<le> 254" "t \<in> {TypeCharStr, TypeOctetStr}"
  shows "DecodeValue t (h # b @ rest) =
    Inr (if t = TypeCharStr then GStr (string_of b) else GBytes b, 1 + length b)"
proof -
  have s: "TypeSize t = - 1" using assms(3) by (auto simp: TypeSize_def)
  have sl: "slice 1 (1 + length b) (h # b @ rest) = b" by (simp add: slice_def)
  have nth: "(h # b @ rest) ! 0 = h" by simp
  show ?thesis using assms(2,3)
    unfolding DecodeValue_def s decodeVariableValue_def Let_def nth assms(1) sl
    by (auto simp: assms(1))
qed

lemma string8:
  assumes "length b \<le> 254" "t \<in> {TypeCharStr, TypeOctetStr}"
  shows "DecodeValue t (le_put 1 (word_of_nat (length b) :: u16) @ b @ rest) =
    Inr (if t = TypeCharStr then GStr (string_of b) else GBytes b, 1 + length b)"
proof -
  have "unat (ucast (word_of_nat (length b) :: u16) :: byte) = length b"
    using le_get_length[of 1 "length b"] assms(1)
    by (simp add: le_get_put_ucast unsigned_ucast_eq unsigned_take_bit_eq unat_of_nat take_bit_nat_eq_self)
  then show ?thesis using decode_string8[OF _ assms] by simp
qed

lemma decode_string16:
  assumes "length h = 2" "unat (le_get h :: u16) = length b" "length b \<le> 65534"
    "t \<in> {TypeCharStr16, TypeOctetStr16}"
  shows "DecodeValue t (h @ b @ rest) =
    Inr (if t = TypeCharStr16 then GStr (string_of b) else GBytes b, 2 + length b)"
proof -
  have s: "TypeSize t = - 1" using assms(4) by (auto simp: TypeSize_def)
  have sl: "slice 2 (2 + length b) (h @ b @ rest) = b" using assms(1) by simp
  have tk: "take 2 (h @ b @ rest) = h" using assms(1) by simp
  show ?thesis using assms(3,4)
    unfolding DecodeValue_def s decodeVariableValue_def tk assms(2) Let_def sl
    by (auto simp: assms(1))
qed

lemma string16:
  assumes "length b \<le> 65534" "t \<in> {TypeCharStr16, TypeOctetStr16}"
  shows "DecodeValue t (le_put 2 (word_of_nat (length b) :: u16) @ b @ rest) =
    Inr (if t = TypeCharStr16 then GStr (string_of b) else GBytes b, 2 + length b)"
  using assms by (intro decode_string16 le_get_length) simp_all

lemma encode_str_Inr:
  "encode_str t n mx b = Inr bs \<longleftrightarrow>
     length b \<le> mx \<and> bs = le_put n (word_of_nat (length b) :: u16) @ b"
  by (auto simp: encode_str_def)

lemma string_roundtrip:
  assumes "EncodeValue fp t v = Inr bs"
    "t \<in> {TypeCharStr, TypeOctetStr, TypeCharStr16, TypeOctetStr16}"
  shows "DecodeValue t (bs @ rest) = Inr (v, length bs)"
  using assms(2)
proof (elim insertE)
  assume t: "t = TypeCharStr"
  then obtain s where "v = GStr s" "encode_str t 1 254 (bytes_of s) = Inr bs"
    using assms(1) by (auto simp: EncodeValue_def split: gval.splits)
  then show ?thesis using string8[of "bytes_of s" t rest] t
    by (simp add: encode_str_Inr del: le_put.simps One_nat_def)
next
  assume t: "t = TypeOctetStr"
  then obtain s where "v = GBytes s" "encode_str t 1 254 s = Inr bs"
    using assms(1) by (auto simp: EncodeValue_def split: gval.splits)
  then show ?thesis using string8[of s t rest] t
    by (simp add: encode_str_Inr del: le_put.simps One_nat_def)
next
  assume t: "t = TypeCharStr16"
  then obtain s where "v = GStr s" "encode_str t 2 65534 (bytes_of s) = Inr bs"
    using assms(1) by (auto simp: EncodeValue_def split: gval.splits)
  then show ?thesis using string16[of "bytes_of s" t rest] t by (simp add: encode_str_Inr)
next
  assume t: "t = TypeOctetStr16"
  then obtain s where "v = GBytes s" "encode_str t 2 65534 s = Inr bs"
    using assms(1) by (auto simp: EncodeValue_def split: gval.splits)
  then show ?thesis using string16[of s t rest] t by (simp add: encode_str_Inr)
qed simp

lemma encode_int_length: "encode_int fp t n mn mx v = Inr bs \<Longrightarrow> length bs = n"
  by (auto simp: encode_int_def split: option.splits if_splits)

lemma encode_uint_length: "encode_uint fp t n mx v = Inr bs \<Longrightarrow> length bs = n"
  by (auto simp: encode_uint_def split: option.splits if_splits)


lemma encode_eui64_length: "encode_eui64 v = Inr bs \<Longrightarrow> gval_ok v \<Longrightarrow> length bs = 8"
  by (cases v) (auto simp: encode_eui64_def split: if_splits)

lemma encode_length:
  assumes "EncodeValue fp t v = Inr bs" "gval_ok v" "0 < TypeSize t"
  shows "int (length bs) = TypeSize t"
proof -
  note L = encode_int_length encode_uint_length encode_eui64_length[OF _ assms(2)]
  show ?thesis
    by (rule fixed_typesE[OF assms(3)]; use assms(1) in
      \<open>auto simp: encode_simps dest!: L split: option.splits simp del: le_put.simps\<close>)
qed

text \<open>The dynamic type the decoder produces for a ZCL type whose encoder takes the value unchanged.\<close>

fun native :: "byte \<Rightarrow> gval \<Rightarrow> bool" where
  "native t (GStr s) \<longleftrightarrow> t \<in> {TypeCharStr, TypeCharStr16}"
| "native t (GBytes b) \<longleftrightarrow> t \<in> {TypeOctetStr, TypeOctetStr16}"
| "native t (GAddr a) \<longleftrightarrow> t = TypeEUI64"
| "native t (GBool b) \<longleftrightarrow> t = TypeBool"
| "native t (GF64 f) \<longleftrightarrow> t = TypeFloat64"
| "native t (GU16 u) \<longleftrightarrow> t = TypeFloat16"
| "native t _ \<longleftrightarrow> False"

text \<open>
  strings, octet strings, IEEE addresses, booleans, float64 and raw float16 values round
  trip unchanged: what the encoder accepted is exactly what the decoder returns, with all bytes
  consumed, so the length prefix never reaches the invalid marker \<open>0xFF\<close>/\<open>0xFFFF\<close>.
\<close>

theorem native_roundtrip:
  assumes "EncodeValue fp t v = Inr bs" "gval_ok v" "native t v"
  shows "DecodeValue t (bs @ rest) = Inr (v, length bs)"
proof (cases v)
  case (GF64 f)
  with assms have "t = TypeFloat64" "bs = le_put 8 f" by (auto simp: encode_simps)
  then show ?thesis using le_get_put[of 8 f]
    by (simp add: GF64 DecodeValue_def TypeSize_def)
next
  case (GU16 u)
  with assms have "t = TypeFloat16" "bs = le_put 2 (ucast u :: u64)" by (auto simp: encode_simps)
  moreover have "(le_get (le_put 2 (ucast u :: u64)) :: u16) = u"
    unfolding le_get_put_ucast by (rule bit_eqI) (auto simp: bit_simps)
  ultimately show ?thesis by (simp add: GU16 DecodeValue_def TypeSize_def)
next
  case (GStr s)
  then show ?thesis using assms string_roundtrip[OF assms(1), of rest] by auto
next
  case (GBytes s)
  then show ?thesis using assms string_roundtrip[OF assms(1), of rest] by auto
qed (use assms in \<open>auto simp: encode_simps encode_eui64_def DecodeValue_def TypeSize_def
      split: if_splits\<close>)

theorem native_roundtrip_witness:
  "EncodeValue zero_fp TypeOctetStr (GBytes [1, 2]) = Inr [2, 1, 2]
     \<and> DecodeValue TypeOctetStr ([2, 1, 2] @ [9]) = Inr (GBytes [1, 2], 3)"
proof -
  have e: "EncodeValue zero_fp TypeOctetStr (GBytes [1, 2]) = Inr [2, 1, 2]"
    by (simp add: EncodeValue_def encode_str_def)
  show ?thesis using e native_roundtrip[OF e, of "[9]"] by simp
qed

end
