(* ===== verification/NCP_Zcl.thy ===== *)
theory NCP_Zcl
  imports NCP_Zboss ZCL_Types
begin

text \<open>
  ZCL frames as the NCP backend builds and parses them: the frame builders and the report
  parser of \<^verbatim>\<open>internal/ncp/nrf52840_zboss.go\<close>, the read-response parser and the type sizes of
  \<^verbatim>\<open>internal/ncp/zcl_parse.go\<close>. A nil Go slice is the empty list: the callers only look at its
  length.
\<close>

section \<open>Type sizes\<close>

abbreviation typeSizeVariable :: int where "typeSizeVariable \<equiv> - 1"
abbreviation typeSizeVariable16 :: int where "typeSizeVariable16 \<equiv> - 3"
abbreviation typeSizeUnknown :: int where "typeSizeUnknown \<equiv> - 2"

definition typeSize :: "byte \<Rightarrow> int" where
  "typeSize t =
    (if 0x08 \<le> t \<and> t \<le> 0x0F then int (unat t) - 0x08 + 1
     else if t = 0x10 then 1
     else if t = 0x18 then 1
     else if t = 0x19 then 2
     else if t = 0x1A then 3
     else if t = 0x1B then 4
     else if 0x20 \<le> t \<and> t \<le> 0x27 then int (unat t) - 0x20 + 1
     else if 0x28 \<le> t \<and> t \<le> 0x2F then int (unat t) - 0x28 + 1
     else if t = 0x30 then 1
     else if t = 0x31 then 2
     else if t = 0x38 then 2
     else if t = 0x39 then 4
     else if t = 0x3A then 8
     else if t = 0xE0 \<or> t = 0xE1 then 4
     else if t = 0xE2 then 4
     else if t = 0xE8 \<or> t = 0xE9 then 2
     else if t = 0xF0 then 8
     else if t = 0x41 \<or> t = 0x42 then typeSizeVariable
     else if t = 0x43 \<or> t = 0x44 then typeSizeVariable16
     else typeSizeUnknown)"

text \<open>
  The number of bytes a complete value of type \<open>t\<close> takes at the head of \<open>data\<close>, the three
  cases both parsers share; \<open>None\<close> when the value is not completely there.
\<close>

definition value_len :: "byte \<Rightarrow> bytes \<Rightarrow> nat option" where
  "value_len t data =
    (let size = typeSize t in
     if 0 < size then (if nat size \<le> length data then Some (nat size) else None)
     else if size = typeSizeVariable then
       (if length data < 1 then None
        else let vlen = unat (data ! 0) in if 1 + vlen \<le> length data then Some (1 + vlen) else None)
     else if size = typeSizeVariable16 then
       (if length data < 2 then None
        else let vlen = unat (le_get (take 2 data) :: u16) in
             if 2 + vlen \<le> length data then Some (2 + vlen) else None)
     else None)"

section \<open>Parsers\<close>

record AttributeResponse =
  ar_AttrID :: u16
  ar_Status :: byte
  ar_DataType :: byte
  ar_Value :: bytes

function parseAttributeResponses :: "bytes \<Rightarrow> AttributeResponse list" where
  "parseAttributeResponses data =
    (case data of
       i0 # i1 # status # data1 \<Rightarrow>
         let ar = \<lparr>ar_AttrID = le16 i0 i1, ar_Status = status, ar_DataType = 0, ar_Value = []\<rparr> in
         if status \<noteq> 0 then ar # parseAttributeResponses data1
         else (case data1 of
             [] \<Rightarrow> []
           | t # data2 \<Rightarrow>
               if typeSize t = typeSizeUnknown then [ar\<lparr>ar_DataType := t\<rparr>]
               else (case value_len t data2 of
                   Some n \<Rightarrow> ar\<lparr>ar_DataType := t, ar_Value := take n data2\<rparr>
                              # parseAttributeResponses (drop n data2)
                 | None \<Rightarrow> ar\<lparr>ar_DataType := t\<rparr> # parseAttributeResponses data2))
     | _ \<Rightarrow> [])"
  by pat_completeness auto
termination
  by (relation "measure length") (auto split: list.splits)

declare parseAttributeResponses.simps [simp del]

text \<open>The fields of an \<^verbatim>\<open>AttributeReportEvent\<close> that the parser sets; the address fields are added by its caller.\<close>

record AttributeRecord =
  rec_AttrID :: u16
  rec_DataType :: byte
  rec_Value :: bytes

function zclParseAttributeReports :: "bytes \<Rightarrow> AttributeRecord list" where
  "zclParseAttributeReports data =
    (case data of
       i0 # i1 # t # data1 \<Rightarrow>
         (case value_len t data1 of
            None \<Rightarrow> []
          | Some n \<Rightarrow> \<lparr>rec_AttrID = le16 i0 i1, rec_DataType = t, rec_Value = take n data1\<rparr>
                        # zclParseAttributeReports (drop n data1))
     | _ \<Rightarrow> [])"
  by pat_completeness auto
termination
  by (relation "measure length") (auto split: list.splits)

declare zclParseAttributeReports.simps [simp del]

section \<open>Builders\<close>

abbreviation zclFrameTypeGlobal :: byte where "zclFrameTypeGlobal \<equiv> 0x00"
abbreviation zclFrameTypeCluster :: byte where "zclFrameTypeCluster \<equiv> 0x01"
abbreviation zclFlagMfrSpecific :: byte where "zclFlagMfrSpecific \<equiv> 0x04"
abbreviation zclDirServerToClient :: byte where "zclDirServerToClient \<equiv> 0x08"
abbreviation zclDisableDefaultResp :: byte where "zclDisableDefaultResp \<equiv> 0x10"
abbreviation zclCmdReadAttributes :: byte where "zclCmdReadAttributes \<equiv> 0x00"
abbreviation zclCmdReadAttributesRsp :: byte where "zclCmdReadAttributesRsp \<equiv> 0x01"
abbreviation zclCmdWriteAttributes :: byte where "zclCmdWriteAttributes \<equiv> 0x02"
abbreviation zclCmdConfigReporting :: byte where "zclCmdConfigReporting \<equiv> 0x06"
abbreviation zclCmdReportAttributes :: byte where "zclCmdReportAttributes \<equiv> 0x0A"
abbreviation zclProfileHA :: u16 where "zclProfileHA \<equiv> 0x0104"
abbreviation zbossAddrModeShort :: byte where "zbossAddrModeShort \<equiv> 0x02"
abbreviation zbossAddrModeIEEE :: byte where "zbossAddrModeIEEE \<equiv> 0x03"

definition zclBuildReadAttributes :: "byte \<Rightarrow> u16 list \<Rightarrow> bytes" where
  "zclBuildReadAttributes seqNum attrIDs =
     [zclFrameTypeGlobal OR zclDisableDefaultResp, seqNum, zclCmdReadAttributes] @ concat (map (le_put 2) attrIDs)"

definition zclBuildWriteAttributes :: "byte \<Rightarrow> AttributeRecord list \<Rightarrow> bytes" where
  "zclBuildWriteAttributes seqNum records =
     [zclFrameTypeGlobal OR zclDisableDefaultResp, seqNum, zclCmdWriteAttributes]
     @ concat (map (\<lambda>r. le_put 2 (rec_AttrID r) @ [rec_DataType r] @ rec_Value r) records)"

definition zclBuildClusterCommand :: "byte \<Rightarrow> byte \<Rightarrow> bytes \<Rightarrow> bytes" where
  "zclBuildClusterCommand seqNum cmdID payload =
     [zclFrameTypeCluster OR zclDisableDefaultResp, seqNum, cmdID] @ payload"

definition zclBuildConfigureReporting :: "byte \<Rightarrow> u16 \<Rightarrow> byte \<Rightarrow> u16 \<Rightarrow> u16 \<Rightarrow> bytes \<Rightarrow> bytes" where
  "zclBuildConfigureReporting seqNum attrID dataType minInterval maxInterval reportChange =
     [zclFrameTypeGlobal OR zclDisableDefaultResp, seqNum, zclCmdConfigReporting, 0x00]
     @ le_put 2 attrID @ [dataType] @ le_put 2 minInterval @ le_put 2 maxInterval @ reportChange"

definition buildAPSDEDataReq ::
  "u16 \<Rightarrow> byte \<Rightarrow> byte \<Rightarrow> u16 \<Rightarrow> u16 \<Rightarrow> byte \<Rightarrow> bytes \<Rightarrow> bytes" where
  "buildAPSDEDataReq dstAddr dstEP srcEP clusterID profileID radius apsData =
     [24 - 3] @ le_put 2 (word_of_nat (length apsData) :: u16) @ le_put 2 dstAddr @ replicate 6 0
     @ le_put 2 profileID @ le_put 2 clusterID
     @ [dstEP, srcEP, radius, zbossAddrModeShort, 0x04, 0x00, 0, 0, 0] @ apsData"

section \<open>Values on the wire\<close>

definition complete_value :: "byte \<Rightarrow> bytes \<Rightarrow> bool" where
  "complete_value t v \<longleftrightarrow> value_len t v = Some (length v)"

lemma value_len_le: "value_len t d = Some n \<Longrightarrow> n \<le> length d \<and> 0 < n"
  by (auto simp: value_len_def Let_def split: if_splits)

lemma value_len_append:
  "value_len t d = Some n \<Longrightarrow> value_len t (d @ r) = Some n"
  by (cases d; cases "tl d") (auto simp: value_len_def Let_def split: if_splits)

lemma value_len_take:
  "value_len t d = Some n \<Longrightarrow> complete_value t (take n d)"
  by (cases d; cases "tl d"; cases n; cases "n - 1")
    (auto simp: value_len_def complete_value_def Let_def min_def split: if_splits)

lemma complete_value_append [simp]:
  "complete_value t v \<Longrightarrow> value_len t (v @ r) = Some (length v)"
  by (simp add: complete_value_def value_len_append)

text \<open>The backend's size table extends the one of the ZCL library.\<close>

lemma typeSize_simps:
  "typeSize TypeBool = 1" "typeSize TypeUint8 = 1" "typeSize TypeInt8 = 1" "typeSize TypeEnum8 = 1"
  "typeSize TypeBitmap8 = 1" "typeSize TypeUint16 = 2" "typeSize TypeInt16 = 2" "typeSize TypeEnum16 = 2"
  "typeSize TypeBitmap16 = 2" "typeSize TypeClusterID = 2" "typeSize TypeAttrID = 2" "typeSize TypeFloat16 = 2"
  "typeSize TypeUint24 = 3" "typeSize TypeInt24 = 3" "typeSize TypeBitmap24 = 3" "typeSize TypeUint32 = 4"
  "typeSize TypeInt32 = 4" "typeSize TypeBitmap32 = 4" "typeSize TypeFloat32 = 4" "typeSize TypeToD = 4"
  "typeSize TypeDate = 4" "typeSize TypeUTC = 4" "typeSize TypeUint40 = 5" "typeSize TypeUint48 = 6"
  "typeSize TypeFloat64 = 8" "typeSize TypeEUI64 = 8"
  by (simp_all add: typeSize_def)

lemma typeSize_TypeSize:
  assumes "0 < TypeSize t" shows "typeSize t = TypeSize t"
  by (rule fixed_typesE[OF assms]) (auto simp: typeSize_simps)

lemma complete_fixed:
  assumes "0 < TypeSize t" "int (length v) = TypeSize t"
  shows "complete_value t v"
proof -
  have "nat (TypeSize t) = length v" using assms(2) by (metis nat_int)
  then show ?thesis using assms(1) by (simp add: complete_value_def value_len_def typeSize_TypeSize Let_def)
qed

lemma typeSize_strings:
  "typeSize TypeCharStr = -1" "typeSize TypeOctetStr = -1"
  "typeSize TypeCharStr16 = -3" "typeSize TypeOctetStr16 = -3"
  by (simp_all add: typeSize_def)

lemma complete_string8:
  assumes "length b \<le> 254" "typeSize t = -1"
  shows "complete_value t (le_put 1 (word_of_nat (length b) :: u16) @ b)"
proof -
  have "unat (ucast (word_of_nat (length b) :: u16) :: byte) = length b"
    using le_get_length[of 1 "length b"] assms(1)
    by (simp add: le_get_put_ucast unsigned_ucast_eq unsigned_take_bit_eq unat_of_nat take_bit_nat_eq_self)
  then show ?thesis using assms by (simp add: complete_value_def value_len_def)
qed

lemma complete_string16:
  assumes "length b \<le> 65534" "typeSize t = -3"
  shows "complete_value t (le_put 2 (word_of_nat (length b) :: u16) @ b)"
  using le_get_length[of 2 "length b"] assms
  by (simp add: complete_value_def value_len_def Let_def del: le_put.simps)

text \<open>Whatever the ZCL library encodes is a complete value for the backend's parsers.\<close>

lemma encoded_complete:
  assumes "EncodeValue fp t v = Inr bs" "gval_ok v"
  shows "complete_value t bs"
proof (cases "t \<in> {TypeCharStr, TypeOctetStr, TypeCharStr16, TypeOctetStr16}")
  case True
  then show ?thesis using assms(1) complete_string8 complete_string16
      complete_string8[of "bytes_of x" TypeCharStr for x] complete_string16[of "bytes_of x" TypeCharStr16 for x]
    by (elim insertE; auto simp: EncodeValue_def encode_str_Inr typeSize_strings split: gval.splits
          simp del: le_put.simps)
next
  case False
  then have "0 < TypeSize t" using assms(1)
    by (auto simp: EncodeValue_def TypeSize_def split: if_splits)
  then show ?thesis using encode_length[OF assms] complete_fixed by blast
qed

section \<open>Attribute reports\<close>

definition record_wire :: "AttributeRecord \<Rightarrow> bytes" where
  "record_wire r = le_put 2 (rec_AttrID r) @ [rec_DataType r] @ rec_Value r"

definition record_complete :: "AttributeRecord \<Rightarrow> bool" where
  "record_complete r \<longleftrightarrow> complete_value (rec_DataType r) (rec_Value r)"

lemma reports_step:
  assumes "complete_value t v"
  shows "zclParseAttributeReports (le_put 2 i @ t # v @ rest) =
    \<lparr>rec_AttrID = i, rec_DataType = t, rec_Value = v\<rparr> # zclParseAttributeReports rest"
  by (subst zclParseAttributeReports.simps) (simp add: le_put2 assms)

lemma reports_Nil [simp]: "zclParseAttributeReports [] = []"
  by (simp add: zclParseAttributeReports.simps)

interpretation reports: record_stream zclParseAttributeReports record_wire record_complete
  by unfold_locales
    (simp_all add: record_wire_def record_complete_def reports_step del: le_put.simps)

lemma le_put_le16: "le_put 2 (le16 a b) = [a, b]"
  using le_put_get[of "[a, b]" 2, where 'a=16] by simp

section \<open>The types of the ZCL specification\<close>

text \<open>
  The attribute data types of the Zigbee Cluster Library Specification with the octets of their values, as far as the
  backend knows them: a fixed number, or a string behind a length of one or two octets. The table is the
  specification the size computation of the code is compared with. A length of all ones marks an invalid string,
  which has no octets.
\<close>

datatype zcl_width = Octets nat | Counted nat

definition zcl_widths :: "(byte \<times> zcl_width) list" where
  "zcl_widths =
    [(0x08, Octets 1), (0x09, Octets 2), (0x0A, Octets 3), (0x0B, Octets 4), (0x0C, Octets 5), (0x0D, Octets 6),
     (0x0E, Octets 7), (0x0F, Octets 8), (0x10, Octets 1),
     (0x18, Octets 1), (0x19, Octets 2), (0x1A, Octets 3), (0x1B, Octets 4),
     (0x20, Octets 1), (0x21, Octets 2), (0x22, Octets 3), (0x23, Octets 4), (0x24, Octets 5), (0x25, Octets 6),
     (0x26, Octets 7), (0x27, Octets 8),
     (0x28, Octets 1), (0x29, Octets 2), (0x2A, Octets 3), (0x2B, Octets 4), (0x2C, Octets 5), (0x2D, Octets 6),
     (0x2E, Octets 7), (0x2F, Octets 8),
     (0x30, Octets 1), (0x31, Octets 2), (0x38, Octets 2), (0x39, Octets 4), (0x3A, Octets 8),
     (0x41, Counted 1), (0x42, Counted 1), (0x43, Counted 2), (0x44, Counted 2),
     (0xE0, Octets 4), (0xE1, Octets 4), (0xE2, Octets 4), (0xE8, Octets 2), (0xE9, Octets 2), (0xF0, Octets 8)]"

definition zcl_value :: "byte \<Rightarrow> bytes \<Rightarrow> bool" where
  "zcl_value t v \<longleftrightarrow>
     (case map_of zcl_widths t of
        None \<Rightarrow> False
      | Some (Octets n) \<Rightarrow> length v = n
      | Some (Counted n) \<Rightarrow> n \<le> length v \<and> length v - n < 256 ^ n - 1
           \<and> foldr (\<lambda>b m. unat b + 256 * m) (take n v) 0 = length v - n)"

definition zcl_record :: "AttributeRecord \<Rightarrow> bool" where
  "zcl_record r \<longleftrightarrow> zcl_value (rec_DataType r) (rec_Value r)"

lemma typeSize_table:
  "map_of zcl_widths t = Some (Octets n) \<Longrightarrow> typeSize t = int n \<and> 0 < n"
  "map_of zcl_widths t = Some (Counted n) \<Longrightarrow> n = 1 \<and> typeSize t = typeSizeVariable \<or> n = 2 \<and> typeSize t = typeSizeVariable16"
proof -
  have "list_all (\<lambda>(t, x). case x of Octets n \<Rightarrow> typeSize t = int n \<and> 0 < n
      | Counted n \<Rightarrow> n = 1 \<and> typeSize t = typeSizeVariable \<or> n = 2 \<and> typeSize t = typeSizeVariable16) zcl_widths"
    by (simp add: zcl_widths_def typeSize_def)
  then have *: "(t, x) \<in> set zcl_widths \<Longrightarrow> (case x of Octets n \<Rightarrow> typeSize t = int n \<and> 0 < n
      | Counted n \<Rightarrow> n = 1 \<and> typeSize t = typeSizeVariable \<or> n = 2 \<and> typeSize t = typeSizeVariable16)" for x
    by (auto simp: list_all_iff simp del: One_nat_def split: zcl_width.split)
  show "map_of zcl_widths t = Some (Octets n) \<Longrightarrow> typeSize t = int n \<and> 0 < n"
    "map_of zcl_widths t = Some (Counted n) \<Longrightarrow> n = 1 \<and> typeSize t = typeSizeVariable \<or> n = 2 \<and> typeSize t = typeSizeVariable16"
    using * by (force dest: map_of_SomeD)+
qed

lemma byte_range:
  assumes "a \<le> t" "t \<le> b"
  shows "(t :: byte) \<in> set (map word_of_nat [unat a..<Suc (unat b)])"
proof -
  have "unat t \<in> set [unat a..<Suc (unat b)]"
    using assms by (simp only: word_le_nat_alt set_upt atLeastLessThan_iff less_Suc_eq_le)
  then have "(word_of_nat (unat t) :: byte) \<in> word_of_nat ` set [unat a..<Suc (unat b)]" by (rule imageI)
  then show ?thesis unfolding set_map by simp
qed

lemma typeSize_unknown:
  assumes "map_of zcl_widths t = None"
  shows "typeSize t = typeSizeUnknown"
proof (rule ccontr)
  assume "typeSize t \<noteq> typeSizeUnknown"
  then consider "0x08 \<le> t" "t \<le> 0x0F" | "0x20 \<le> t" "t \<le> 0x27" | "0x28 \<le> t" "t \<le> 0x2F"
    | "t \<in> {0x10, 0x18, 0x19, 0x1A, 0x1B, 0x30, 0x31, 0x38, 0x39, 0x3A, 0xE0, 0xE1, 0xE2, 0xE8, 0xE9, 0xF0, 0x41, 0x42, 0x43, 0x44}"
    by (auto simp: typeSize_def split: if_splits)
  then have "t \<in> fst ` set zcl_widths"
  proof cases
    case 1
    then show ?thesis using byte_range[of "0x08" t "0x0F"] by (simp add: zcl_widths_def upt_rec) blast
  next
    case 2
    then show ?thesis using byte_range[of "0x20" t "0x27"] by (simp add: zcl_widths_def upt_rec) blast
  next
    case 3
    then show ?thesis using byte_range[of "0x28" t "0x2F"] by (simp add: zcl_widths_def upt_rec) blast
  next
    case 4
    then show ?thesis by (simp add: zcl_widths_def) blast
  qed
  then show False using assms by (simp add: map_of_eq_None_iff)
qed

lemma unat_le_get2: "unat (le_get [a, b] :: u16) = unat a + 256 * unat b"
proof -
  define w where "w = (le_get [a, b] :: u16)"
  have "[ucast w, ucast (drop_bit 8 w)] = [a, b]"
    using le_put_get[of "[a, b]" 2, where 'a=16] by (simp add: w_def le_put2)
  then have "unat a = unat w mod 256" "unat b = unat w div 256 mod 256"
    by (auto simp: unsigned_ucast_eq unsigned_take_bit_eq unsigned_drop_bit_eq take_bit_eq_mod drop_bit_eq_div unat_div)
  moreover have "unat w < 65536" using unsigned_less[of w, where ?'a=nat] by simp
  ultimately show ?thesis unfolding w_def[symmetric] by simp
qed

lemma zcl_value_complete: "zcl_value t v \<Longrightarrow> complete_value t v"
proof -
  assume v: "zcl_value t v"
  then obtain x where x: "map_of zcl_widths t = Some x" by (auto simp: zcl_value_def split: option.splits)
  show ?thesis
  proof (cases x)
    case (Octets n)
    then show ?thesis using v x typeSize_table(1)[of t n] by (simp add: zcl_value_def complete_value_def value_len_def)
  next
    case (Counted n)
    note c = v[unfolded zcl_value_def x option.case Counted zcl_width.case]
    consider "n = 1" "typeSize t = typeSizeVariable" | "n = 2" "typeSize t = typeSizeVariable16"
      using typeSize_table(2)[of t n] x Counted by auto
    then show ?thesis
    proof cases
      case 1
      then show ?thesis using c by (cases v) (simp_all add: complete_value_def value_len_def)
    next
      case 2
      then obtain a b w where w: "v = a # b # w" using c by (cases v; cases "tl v") auto
      then show ?thesis using c 2 unat_le_get2[of a b] by (simp add: complete_value_def value_len_def Let_def del: le_get.simps)
    qed
  qed
qed

text \<open>
  C28: a report payload is parsed back into exactly the records it is made of, in order, when each has a value of the size the
  ZCL specification gives its type; what follows them is parsed on its own, and a record of a type that the table
  does not have ends the parsing. (An invalid string, whose length is all ones, is not such a value: the parser takes its length
  for a number.)
\<close>

theorem reports_roundtrip:
  assumes "list_all zcl_record recs"
  shows "zclParseAttributeReports (concat (map record_wire recs) @ rest) = recs @ zclParseAttributeReports rest
    \<and> (map_of zcl_widths t = None \<longrightarrow> zclParseAttributeReports (concat (map record_wire recs) @ le_put 2 i @ t # rest) = recs)"
proof -
  have "list_all record_complete recs" using assms zcl_value_complete by (auto simp: list_all_iff zcl_record_def record_complete_def)
  note parse = reports.parse_append[OF this]
  have "zclParseAttributeReports (le_put 2 i @ t # rest) = []" if "map_of zcl_widths t = None"
    using typeSize_unknown[OF that] by (subst zclParseAttributeReports.simps) (simp add: le_put2 value_len_def)
  then show ?thesis using parse by simp
qed

text \<open>An invalid string costs the records behind it: the parser waits for 255 octets that do not come.\<close>

lemma invalid_string_swallows:
  assumes "length rest < 255" "t = TypeCharStr \<or> t = TypeOctetStr"
  shows "zclParseAttributeReports (le_put 2 i @ [t, 0xFF] @ rest) = []"
  using assms by (subst zclParseAttributeReports.simps) (auto simp: le_put2 value_len_def typeSize_strings)

text \<open>
  the report parser invents nothing. On arbitrary input the records it returns are, in order, the exact contents
  of a prefix of the payload, each with a complete value of its type; what is left over starts no further record.
\<close>

theorem reports_sound:
  "\<exists>rest. data = concat (map record_wire (zclParseAttributeReports data)) @ rest
     \<and> list_all record_complete (zclParseAttributeReports data) \<and> zclParseAttributeReports rest = []"
proof (induction data rule: zclParseAttributeReports.induct)
  case (1 data)
  show ?case
  proof (cases "zclParseAttributeReports data = []")
    case True
    then show ?thesis by simp
  next
    case False
    then obtain i0 i1 t d n where d: "data = i0 # i1 # t # d" "value_len t d = Some n"
      by (subst (asm) zclParseAttributeReports.simps) (auto split: list.splits option.splits)
    define r where "r = \<lparr>rec_AttrID = le16 i0 i1, rec_DataType = t, rec_Value = take n d\<rparr>"
    have e: "zclParseAttributeReports data = r # zclParseAttributeReports (drop n d)"
      by (subst zclParseAttributeReports.simps) (simp add: d r_def)
    have "record_complete r" using value_len_take[OF d(2)] by (simp add: record_complete_def r_def)
    moreover have "data = record_wire r @ drop n d"
      by (simp add: record_wire_def r_def d(1) le_put_le16 del: le_put.simps le_get.simps)
    ultimately show ?thesis using 1(1)[OF d(1) refl refl d(2)] unfolding e by auto
  qed
qed

theorem reports_roundtrip_witness:
  "zclParseAttributeReports (concat (map record_wire
      [\<lparr>rec_AttrID = 0, rec_DataType = TypeInt16, rec_Value = [0x34, 0x08]\<rparr>,
       \<lparr>rec_AttrID = 5, rec_DataType = TypeCharStr, rec_Value = [1, 0x41]\<rparr>])) =
   [\<lparr>rec_AttrID = 0, rec_DataType = TypeInt16, rec_Value = [0x34, 0x08]\<rparr>,
    \<lparr>rec_AttrID = 5, rec_DataType = TypeCharStr, rec_Value = [1, 0x41]\<rparr>]"
  using reports_roundtrip[THEN conjunct1, of "[\<lparr>rec_AttrID = 0, rec_DataType = TypeInt16, rec_Value = [0x34, 0x08]\<rparr>,
       \<lparr>rec_AttrID = 5, rec_DataType = TypeCharStr, rec_Value = [1, 0x41]\<rparr>]" "[]"]
  by (simp add: zcl_record_def zcl_value_def zcl_widths_def)

section \<open>Written values come back\<close>

lemma written_records_complete:
  assumes "\<And>r. r \<in> set recs \<Longrightarrow> gval_ok (val r) \<and> EncodeValue fp (rec_DataType r) (val r) = Inr (rec_Value r)"
  shows "list_all record_complete recs"
  using assms encoded_complete by (fastforce simp: list_all_iff record_complete_def)

text \<open>
  what the ZCL library encodes, the backend frames and any report parser of the same code reads back. A Write
  Attributes frame built from encoded values of any types parses, after its three header bytes, into exactly its
  records, whatever values the encoder accepted.
\<close>

theorem written_attributes_roundtrip:
  assumes "\<And>r. r \<in> set recs \<Longrightarrow> gval_ok (val r) \<and> EncodeValue fp (rec_DataType r) (val r) = Inr (rec_Value r)"
  shows "zclParseAttributeReports (drop 3 (zclBuildWriteAttributes seqNum recs)) = recs"
proof -
  have "drop 3 (zclBuildWriteAttributes seqNum recs) = concat (map record_wire recs)"
    by (simp add: zclBuildWriteAttributes_def record_wire_def[abs_def])
  then show ?thesis using reports.roundtrip[OF written_records_complete[of recs val fp, OF assms]] by simp
qed

theorem written_attributes_roundtrip_witness:
  "zclParseAttributeReports (drop 3 (zclBuildWriteAttributes 7
      [\<lparr>rec_AttrID = 0x10, rec_DataType = TypeOctetStr, rec_Value = [2, 1, 2]\<rparr>])) =
    [\<lparr>rec_AttrID = 0x10, rec_DataType = TypeOctetStr, rec_Value = [2, 1, 2]\<rparr>]"
  by (rule written_attributes_roundtrip[where val = "\<lambda>_. GBytes [1, 2]" and fp = zero_fp])
    (simp add: EncodeValue_def encode_str_def)

section \<open>Read responses\<close>

definition response_ok :: "AttributeResponse \<Rightarrow> bool" where
  "response_ok r \<longleftrightarrow>
     (if ar_Status r \<noteq> 0 then ar_DataType r = 0 \<and> ar_Value r = []
      else complete_value (ar_DataType r) (ar_Value r))"

definition response_wire :: "AttributeResponse \<Rightarrow> bytes" where
  "response_wire r = le_put 2 (ar_AttrID r) @ [ar_Status r]
     @ (if ar_Status r \<noteq> 0 then [] else [ar_DataType r] @ ar_Value r)"

lemma complete_value_known: "complete_value t v \<Longrightarrow> typeSize t \<noteq> typeSizeUnknown"
  by (auto simp: complete_value_def value_len_def)

lemma responses_step:
  assumes "response_ok r"
  shows "parseAttributeResponses (response_wire r @ rest) = r # parseAttributeResponses rest"
proof (cases "ar_Status r = 0")
  case True
  with assms have c: "complete_value (ar_DataType r) (ar_Value r)" by (simp add: response_ok_def)
  show ?thesis
    by (subst parseAttributeResponses.simps)
      (simp add: response_wire_def True le_put2 c complete_value_known[OF c] del: le_get.simps;
       cases r; simp add: True[symmetric] del: le_get.simps)
next
  case False
  with assms show ?thesis
    by (subst parseAttributeResponses.simps)
      (cases r; simp add: response_wire_def le_put2 response_ok_def del: le_get.simps)
qed

interpretation responses: record_stream parseAttributeResponses response_wire response_ok
  by unfold_locales (simp_all add: responses_step parseAttributeResponses.simps[of "[]"])

text \<open>
  a Read Attributes Response is parsed back into exactly its records: failed attributes with their status,
  successful ones with their type and raw value.
\<close>

theorem responses_roundtrip:
  assumes "list_all response_ok recs"
  shows "parseAttributeResponses (concat (map response_wire recs)) = recs"
  using assms by (rule responses.roundtrip)

theorem responses_roundtrip_witness:
  "parseAttributeResponses (concat (map response_wire
     [\<lparr>ar_AttrID = 4, ar_Status = 0x86, ar_DataType = 0, ar_Value = []\<rparr>,
      \<lparr>ar_AttrID = 0, ar_Status = 0, ar_DataType = TypeUint8, ar_Value = [3]\<rparr>])) =
   [\<lparr>ar_AttrID = 4, ar_Status = 0x86, ar_DataType = 0, ar_Value = []\<rparr>,
    \<lparr>ar_AttrID = 0, ar_Status = 0, ar_DataType = TypeUint8, ar_Value = [3]\<rparr>]"
  by (rule responses_roundtrip)
    (simp add: response_ok_def complete_value_def value_len_def typeSize_simps)

text \<open>
  a truncated value is not an error for the response parser. When the value of a successful record is cut short,
  the record is still returned, without a value, and the bytes of the cut value are read as the next records: a
  two-byte rest gives none, three bytes or more are taken for an attribute id and a status.
\<close>

theorem truncated_response_value:
  assumes "typeSize t \<noteq> typeSizeUnknown" "value_len t v = None"
  shows "parseAttributeResponses (le_put 2 i @ [0, t] @ v) =
    \<lparr>ar_AttrID = i, ar_Status = 0, ar_DataType = t, ar_Value = []\<rparr> # parseAttributeResponses v"
  using assms by (subst parseAttributeResponses.simps) (simp add: le_put2)

theorem truncated_response_value_witness:
  "parseAttributeResponses (le_put 2 (0x0004 :: u16) @ [0, TypeUint32] @ [0x11, 0x22, 0x86]) =
    [\<lparr>ar_AttrID = 0x0004, ar_Status = 0, ar_DataType = TypeUint32, ar_Value = []\<rparr>,
     \<lparr>ar_AttrID = 0x2211, ar_Status = 0x86, ar_DataType = 0, ar_Value = []\<rparr>]"
proof -
  have h: "typeSize TypeUint32 \<noteq> typeSizeUnknown" "value_len TypeUint32 [0x11, 0x22, 0x86] = None"
    by (simp_all add: typeSize_simps value_len_def)
  have r: "parseAttributeResponses [0x11, 0x22, 0x86] =
      [\<lparr>ar_AttrID = 0x2211, ar_Status = 0x86, ar_DataType = 0, ar_Value = []\<rparr>]"
    by (subst parseAttributeResponses.simps) (simp add: parseAttributeResponses.simps[of "[]"])
  show ?thesis unfolding truncated_response_value[OF h] r by simp
qed

end
