(* ===== verification/NCP_Driver.thy ===== *)
theory NCP_Driver
  imports NCP_Zcl
begin

text \<open>
  The transport of the nRF52840 backend, \<^verbatim>\<open>internal/ncp/nrf52840.go\<close>: sequence numbers, the
  table of pending requests, the write with link-level acknowledgement, the read loop with its
  indication handlers, and reset and close. The state \<open>ncp\<close> holds the fields of
  \<^verbatim>\<open>NRF52840NCP\<close>; a Go channel of capacity one is a buffer and a closed flag, and the
  channels are objects with identities, because the pending table may be overwritten while a
  request still holds its channel. What the code hands to a callback, and the goroutine it
  starts, are values of type \<open>effect\<close>. Logging is left out.
\<close>

section \<open>Events and state\<close>

record ClusterCommandEvent =
  cc_SrcAddr :: u16
  cc_SrcEP :: byte
  cc_ClusterID :: u16
  cc_CommandID :: byte
  cc_Payload :: bytes
  cc_LQI :: byte
  cc_RSSI :: byte

record AttributeReportEvent =
  rpt_SrcAddr :: u16
  rpt_SrcEP :: byte
  rpt_ClusterID :: u16
  rpt_AttrID :: u16
  rpt_DataType :: byte
  rpt_Value :: bytes
  rpt_LQI :: byte
  rpt_RSSI :: byte

datatype effect =
    OnJoined u16 bytes | OnLeft u16 bytes | OnAnnounce u16 bytes byte
  | OnReport AttributeReportEvent | OnClusterCmd ClusterCommandEvent
  | OnNwkAddrUpdate u16 | OnReset
  | GoOTANoImage u16 byte byte

record handlers =
  h_onJoined :: bool
  h_onLeft :: bool
  h_onAnnounce :: bool
  h_onReport :: bool
  h_onClusterCmd :: bool
  h_onNwkAddrUpdate :: bool
  h_onReset :: bool

record 'a chan =
  ch_buf :: "'a option"
  ch_closed :: bool

definition empty_chan :: "'a chan" where
  "empty_chan = \<lparr>ch_buf = None, ch_closed = False\<rparr>"

text \<open>\<^verbatim>\<open>select { case ch <- x: default: }\<close> on a channel of capacity one.\<close>

definition try_send :: "'a \<Rightarrow> 'a chan \<Rightarrow> 'a chan" where
  "try_send x c = (case ch_buf c of None \<Rightarrow> c\<lparr>ch_buf := Some x\<rparr> | Some _ \<Rightarrow> c)"

record NCPInfo =
  FWVersion :: u32
  StackVersion :: string
  ProtocolVersion :: u32
  NetworkKey :: "bytes option"

record ncp =
  n_hlTSN :: u32
  n_hlPending :: "byte \<rightharpoonup> nat"
  n_hlCh :: "nat \<Rightarrow> zbossFrame chan"
  n_zclSeq :: u32
  n_zclPending :: "byte \<rightharpoonup> nat"
  n_zclCh :: "nat \<Rightarrow> bytes chan"
  n_nextCh :: nat
  n_llPktSeq :: byte
  n_llAckCh :: "byte list"
  n_resetInd :: bool
  n_done :: bool
  n_closed :: bool
  n_handlers :: handlers
  n_tx :: "bytes list"

section \<open>Sequence numbers and requests\<close>

definition nextTSN :: "ncp \<Rightarrow> byte \<times> ncp" where
  "nextTSN n = (let v = n_hlTSN n + 1 in (ucast v, n\<lparr>n_hlTSN := v\<rparr>))"

definition nextZCLSeq :: "ncp \<Rightarrow> byte \<times> ncp" where
  "nextZCLSeq n = (let v = n_zclSeq n + 1 in (ucast v, n\<lparr>n_zclSeq := v\<rparr>))"

definition nextPktSeq :: "ncp \<Rightarrow> byte \<times> ncp" where
  "nextPktSeq n = (let s = n_llPktSeq n mod 3 + 1 in (s, n\<lparr>n_llPktSeq := s\<rparr>))"

text \<open>
  \<^verbatim>\<open>request\<close> up to its write: allocate the TSN, register a fresh channel under it, take the
  packet sequence and encode the frame. The result also names the channel the caller waits on.
\<close>

definition request_open ::
  "u16 \<Rightarrow> bytes \<Rightarrow> ncp \<Rightarrow> byte \<times> nat \<times> byte \<times> bytes option \<times> ncp" where
  "request_open callID payload n =
     (let (tsn, n1) = nextTSN n;
          ch = n_nextCh n1;
          n2 = n1\<lparr>n_nextCh := ch + 1, n_hlCh := (n_hlCh n1)(ch := empty_chan),
                  n_hlPending := (n_hlPending n1)(tsn \<mapsto> ch)\<rparr>;
          (pktSeq, n3) = nextPktSeq n2
      in (tsn, ch, pktSeq, zbossEncodeRequest callID tsn pktSeq payload, n3))"

text \<open>The deferred \<^verbatim>\<open>delete(n.hlPending, tsn)\<close>.\<close>

definition request_close :: "byte \<Rightarrow> ncp \<Rightarrow> ncp" where
  "request_close tsn n = n\<lparr>n_hlPending := (n_hlPending n)(tsn := None)\<rparr>"

datatype req_result = ReqOK zbossFrame | ReqStatus zbossFrame | ReqCancelled | ReqWaiting

text \<open>What the receive on the response channel gives: a response (an error when its status is not
  OK), nothing yet, or, once the channel is closed and drained, the zero value \<^verbatim>\<open>nil\<close>.\<close>

definition request_recv :: "zbossFrame chan \<Rightarrow> req_result" where
  "request_recv c =
     (case ch_buf c of
        Some f \<Rightarrow> if hl_StatusCat (zf_HL f) \<noteq> 0 \<or> hl_StatusCode (zf_HL f) \<noteq> 0 then ReqStatus f else ReqOK f
      | None \<Rightarrow> if ch_closed c then ReqCancelled else ReqWaiting)"

section \<open>Writing with acknowledgement\<close>

text \<open>
  The interleaving \<^verbatim>\<open>writeWithACK\<close> can see, as a list: an acknowledgement put into
  \<^verbatim>\<open>llAckCh\<close> by the read loop (dropped when its four places are taken), and the four arms of
  the \<^verbatim>\<open>select\<close>: an acknowledgement taken from the channel, the timer, the context, the
  closed \<^verbatim>\<open>done\<close>. \<open>wr k\<close> says whether the \<open>k\<close>-th port write succeeds.
\<close>

datatype ll_event = LLRx byte | LLRecv | LLDeadline | LLCtx | LLDone
datatype ll_error = LLWriteError | LLCancelled | LLClosed | LLTimeout | LLWaiting

definition llMaxRetries :: nat where "llMaxRetries = 3"

definition push_ack :: "byte \<Rightarrow> ncp \<Rightarrow> ncp" where
  "push_ack a n = (if length (n_llAckCh n) < 4 then n\<lparr>n_llAckCh := n_llAckCh n @ [a]\<rparr> else n)"

text \<open>One port write: on success the frame is on the wire.\<close>

definition port_write :: "bool \<Rightarrow> bytes \<Rightarrow> ncp \<Rightarrow> ncp" where
  "port_write ok frame n = (if ok then n\<lparr>n_tx := n_tx n @ [frame]\<rparr> else n)"

fun waitACK :: "(nat \<Rightarrow> bool) \<Rightarrow> bytes \<Rightarrow> byte \<Rightarrow> nat \<Rightarrow> ll_event list \<Rightarrow> ncp \<Rightarrow> (ll_error + unit) \<times> ncp" where
  "waitACK wr frame pktSeq attempt [] n = (Inl LLWaiting, n)"
| "waitACK wr frame pktSeq attempt (LLRx a # evs) n = waitACK wr frame pktSeq attempt evs (push_ack a n)"
| "waitACK wr frame pktSeq attempt (LLRecv # evs) n =
     (case n_llAckCh n of
        [] \<Rightarrow> waitACK wr frame pktSeq attempt evs n
      | a # as \<Rightarrow> if a = pktSeq then (Inr (), n\<lparr>n_llAckCh := as\<rparr>)
                  else waitACK wr frame pktSeq attempt evs (n\<lparr>n_llAckCh := as\<rparr>))"
| "waitACK wr frame pktSeq attempt (LLDeadline # evs) n =
     (if llMaxRetries < attempt + 1 then (Inl LLTimeout, n)
      else if \<not> wr (attempt + 1) then (Inl LLWriteError, n)
      else waitACK wr frame pktSeq (attempt + 1) evs (port_write True frame n))"
| "waitACK wr frame pktSeq attempt (LLCtx # evs) n = (Inl LLCancelled, n)"
| "waitACK wr frame pktSeq attempt (LLDone # evs) n = (Inl LLClosed, n)"

definition writeWithACK :: "(nat \<Rightarrow> bool) \<Rightarrow> bytes \<Rightarrow> byte \<Rightarrow> ll_event list \<Rightarrow> ncp \<Rightarrow> (ll_error + unit) \<times> ncp" where
  "writeWithACK wr frame pktSeq evs n =
     (if \<not> wr 0 then (Inl LLWriteError, n)
      else waitACK wr frame pktSeq 0 evs (port_write True frame n))"

definition sendACK :: "bool \<Rightarrow> byte \<Rightarrow> ncp \<Rightarrow> ncp" where
  "sendACK ok pktSeq n = port_write ok (zbossEncodeACK pktSeq) n"

section \<open>Indications\<close>

definition sendOTANoImageAvailable :: "u16 \<Rightarrow> byte \<Rightarrow> byte \<Rightarrow> u16 \<times> bytes" where
  "sendOTANoImageAvailable dstAddr dstEP zclSeq =
     (zbossCmdAPSDEDataReq,
      buildAPSDEDataReq dstAddr dstEP 1 0x0019 zclProfileHA 30
        [zclFrameTypeCluster OR zclDirServerToClient OR zclDisableDefaultResp, zclSeq, 0x02, 0x98])"

text \<open>The ZCL header: its length, sequence number and command.\<close>

definition handleAPSDEDataInd :: "bytes \<Rightarrow> ncp \<Rightarrow> effect list \<times> ncp" where
  "handleAPSDEDataInd payload n =
    (if length payload < 25 then ([], n)
     else let dataLen = unat (le16 (payload ! 1) (payload ! 2));
              srcAddr = le16 (payload ! 4) (payload ! 5);
              srcEP = payload ! 11;
              clusterID = le16 (payload ! 12) (payload ! 13);
              lqi = payload ! 21;
              rssi = payload ! 22
     in if dataLen = 0 \<or> length payload < 24 + dataLen then ([], n)
     else let zclData = slice 24 (24 + dataLen) payload
     in if length zclData < 3 then ([], n)
     else let frameCtrl = zclData ! 0;
              hdrLen = (if frameCtrl AND zclFlagMfrSpecific \<noteq> 0 then 5 else 3)
     in if length zclData < hdrLen then ([], n)
     else let zclSeq = zclData ! (hdrLen - 2);
              cmdID = zclData ! (hdrLen - 1);
              frameType = frameCtrl AND 0x03;
              records = drop hdrLen zclData
     in if frameType = zclFrameTypeCluster then
          (if clusterID = 0x0019 \<and> cmdID = 0x01 then ([GoOTANoImage srcAddr srcEP zclSeq], n)
           else if h_onClusterCmd (n_handlers n) then
             ([OnClusterCmd \<lparr>cc_SrcAddr = srcAddr, cc_SrcEP = srcEP, cc_ClusterID = clusterID,
                 cc_CommandID = cmdID, cc_Payload = records, cc_LQI = lqi, cc_RSSI = rssi\<rparr>], n)
           else ([], n))
        else if frameType \<noteq> zclFrameTypeGlobal then ([], n)
        else if cmdID = zclCmdReadAttributesRsp then
          (case n_zclPending n zclSeq of
             None \<Rightarrow> ([], n)
           | Some ch \<Rightarrow> ([], n\<lparr>n_zclCh := (n_zclCh n)(ch := try_send records (n_zclCh n ch))\<rparr>))
        else if cmdID = zclCmdReportAttributes then
          (if \<not> h_onReport (n_handlers n) then ([], n)
           else (map (\<lambda>r. OnReport \<lparr>rpt_SrcAddr = srcAddr, rpt_SrcEP = srcEP, rpt_ClusterID = clusterID,
                   rpt_AttrID = rec_AttrID r, rpt_DataType = rec_DataType r, rpt_Value = rec_Value r,
                   rpt_LQI = lqi, rpt_RSSI = rssi\<rparr>) (zclParseAttributeReports records), n))
        else ([], n))"

abbreviation zbossDevUpdateSecureRejoin :: byte where "zbossDevUpdateSecureRejoin \<equiv> 0x00"
abbreviation zbossDevUpdateUnsecureJoin :: byte where "zbossDevUpdateUnsecureJoin \<equiv> 0x01"
abbreviation zbossDevUpdateLeft :: byte where "zbossDevUpdateLeft \<equiv> 0x02"
abbreviation zbossDevUpdateTCRejoin :: byte where "zbossDevUpdateTCRejoin \<equiv> 0x03"

definition handleIndication :: "zbossFrame \<Rightarrow> ncp \<Rightarrow> effect list \<times> ncp" where
  "handleIndication f n =
    (let p = zf_Payload f; cid = hl_CallID (zf_HL f); h = n_handlers n in
     if cid = zbossCmdZDODevAnnceInd then
       (if h_onAnnounce h \<and> 11 \<le> length p
        then ([OnAnnounce (le16 (p ! 0) (p ! 1)) (slice 2 10 p) (p ! 10)], n) else ([], n))
     else if cid = zbossCmdZDODevUpdateInd then
       (if 11 \<le> length p then
          (let ieee = slice 0 8 p; shortAddr = le16 (p ! 8) (p ! 9); status = p ! 10 in
           if status \<in> {zbossDevUpdateSecureRejoin, zbossDevUpdateUnsecureJoin, zbossDevUpdateTCRejoin} then
             (if h_onJoined h then ([OnJoined shortAddr ieee], n) else ([], n))
           else if status = zbossDevUpdateLeft then
             (if h_onLeft h then ([OnLeft shortAddr ieee], n) else ([], n))
           else ([], n))
        else ([], n))
     else if cid = zbossCmdNwkLeaveInd then
       (if 8 \<le> length p then
          (let rejoin = (9 \<le> length p \<and> p ! 8 \<noteq> 0) in
           if h_onLeft h \<and> \<not> rejoin then ([OnLeft 0 (slice 0 8 p)], n) else ([], n))
        else ([], n))
     else if cid = zbossCmdAPSDEDataInd then handleAPSDEDataInd p n
     else if cid = zbossCmdNCPResetInd then
       (let n1 = n\<lparr>n_resetInd := True\<rparr> in if h_onReset h then ([OnReset], n1) else ([], n1))
     else if cid = zbossCmdNwkAddrUpdateInd then
       (if 2 \<le> length p \<and> h_onNwkAddrUpdate h then ([OnNwkAddrUpdate (le16 (p ! 0) (p ! 1))], n)
        else ([], n))
     else ([], n))"

section \<open>The read loop\<close>

text \<open>One iteration of \<^verbatim>\<open>readLoop\<close> after a raw frame was read; \<open>ok\<close> is whether the
  acknowledgement could be written.\<close>

definition handleFrame :: "bool \<Rightarrow> bytes \<Rightarrow> ncp \<Rightarrow> effect list \<times> ncp" where
  "handleFrame ok raw n =
    (case zbossDecodeFrame raw of
       Inl e \<Rightarrow> ([], n)
     | Inr frame \<Rightarrow>
         if zbossLLIsACK (ll_Flags (zf_LL frame)) then ([], push_ack (zbossLLAckSeq (ll_Flags (zf_LL frame))) n)
         else let n1 = sendACK ok (zbossLLPktSeq (ll_Flags (zf_LL frame))) n in
           if hl_PacketType (zf_HL frame) = zbossHLResponse then
             (case n_hlPending n1 (hl_TSN (zf_HL frame)) of
                None \<Rightarrow> ([], n1)
              | Some ch \<Rightarrow> ([], n1\<lparr>n_hlCh := (n_hlCh n1)(ch := try_send frame (n_hlCh n1 ch))\<rparr>))
           else if hl_PacketType (zf_HL frame) = zbossHLIndication then handleIndication frame n1
           else ([], n1))"

text \<open>The loop over a received byte stream, until the reader reports an error (what follows is the
  wait and retry of the loop, on the bytes that arrive later).\<close>

function readLoop :: "bytes \<Rightarrow> ncp \<Rightarrow> effect list \<times> bytes \<times> ncp" where
  "readLoop stream n =
    (if n_done n then ([], stream, n)
     else case readRawZBOSSFrame stream of
        (Inl e, rest) \<Rightarrow> ([], rest, n)
      | (Inr raw, rest) \<Rightarrow>
          let (effs, n1) = handleFrame True raw n; (effs2, rest2, n2) = readLoop rest n1
          in (effs @ effs2, rest2, n2))"
  by pat_completeness auto
termination
proof (relation "measure (\<lambda>(s, n). length s)", goal_cases)
  case (2 stream n r a raw)
  then show ?case using raw_result[of stream raw a] by force
qed simp

declare readLoop.simps [simp del]

section \<open>Reset and close\<close>

definition close_chans :: "(byte \<rightharpoonup> nat) \<Rightarrow> (nat \<Rightarrow> 'a chan) \<Rightarrow> nat \<Rightarrow> 'a chan" where
  "close_chans pend chs = (\<lambda>c. if c \<in> ran pend then (chs c)\<lparr>ch_closed := True\<rparr> else chs c)"

definition resetState :: "ncp \<Rightarrow> ncp" where
  "resetState n =
     n\<lparr>n_done := False, n_llAckCh := [], n_resetInd := False,
       n_hlCh := close_chans (n_hlPending n) (n_hlCh n), n_hlPending := Map.empty,
       n_zclCh := close_chans (n_zclPending n) (n_zclCh n), n_zclPending := Map.empty,
       n_llPktSeq := 0, n_hlTSN := 0, n_zclSeq := 0\<rparr>"

definition Close :: "ncp \<Rightarrow> ncp" where
  "Close n =
     (if n_closed n then n
      else n\<lparr>n_closed := True, n_done := True,
             n_hlCh := close_chans (n_hlPending n) (n_hlCh n), n_hlPending := Map.empty,
             n_zclCh := close_chans (n_zclPending n) (n_zclCh n), n_zclPending := Map.empty\<rparr>)"

text \<open>The setters of the callbacks; a callback is set when it is not nil.\<close>

definition OnDeviceJoined :: "bool \<Rightarrow> ncp \<Rightarrow> ncp" where
  "OnDeviceJoined h n = n\<lparr>n_handlers := (n_handlers n)\<lparr>h_onJoined := h\<rparr>\<rparr>"

definition OnDeviceLeft :: "bool \<Rightarrow> ncp \<Rightarrow> ncp" where
  "OnDeviceLeft h n = n\<lparr>n_handlers := (n_handlers n)\<lparr>h_onLeft := h\<rparr>\<rparr>"

definition OnDeviceAnnounce :: "bool \<Rightarrow> ncp \<Rightarrow> ncp" where
  "OnDeviceAnnounce h n = n\<lparr>n_handlers := (n_handlers n)\<lparr>h_onAnnounce := h\<rparr>\<rparr>"

definition OnAttributeReport :: "bool \<Rightarrow> ncp \<Rightarrow> ncp" where
  "OnAttributeReport h n = n\<lparr>n_handlers := (n_handlers n)\<lparr>h_onReport := h\<rparr>\<rparr>"

definition OnClusterCommand :: "bool \<Rightarrow> ncp \<Rightarrow> ncp" where
  "OnClusterCommand h n = n\<lparr>n_handlers := (n_handlers n)\<lparr>h_onClusterCmd := h\<rparr>\<rparr>"

definition setNwkAddrUpdate :: "bool \<Rightarrow> ncp \<Rightarrow> ncp" where
  "setNwkAddrUpdate h n = n\<lparr>n_handlers := (n_handlers n)\<lparr>h_onNwkAddrUpdate := h\<rparr>\<rparr>"

definition OnNCPReset :: "bool \<Rightarrow> ncp \<Rightarrow> ncp" where
  "OnNCPReset h n = n\<lparr>n_handlers := (n_handlers n)\<lparr>h_onReset := h\<rparr>\<rparr>"

section \<open>Reading attributes\<close>

text \<open>\<^verbatim>\<open>ReadAttributes\<close> up to its request: the frame it sends and the channel it waits on.\<close>

definition read_open ::
  "u16 \<Rightarrow> byte \<Rightarrow> u16 \<Rightarrow> u16 list \<Rightarrow> ncp \<Rightarrow> byte \<times> nat \<times> bytes \<times> ncp" where
  "read_open dstAddr dstEP clusterID attrIDs n =
     (let (seq, n1) = nextZCLSeq n;
          apsPayload = buildAPSDEDataReq dstAddr dstEP 1 clusterID zclProfileHA 30 (zclBuildReadAttributes seq attrIDs);
          ch = n_nextCh n1
      in (seq, ch, apsPayload,
          n1\<lparr>n_nextCh := ch + 1, n_zclCh := (n_zclCh n1)(ch := empty_chan),
             n_zclPending := (n_zclPending n1)(seq \<mapsto> ch)\<rparr>))"

definition read_close :: "byte \<Rightarrow> ncp \<Rightarrow> ncp" where
  "read_close seq n = n\<lparr>n_zclPending := (n_zclPending n)(seq := None)\<rparr>"

text \<open>The receive on the channel: unlike \<open>request_recv\<close> it does not tell a closed channel from a
  response, the \<^verbatim>\<open>nil\<close> of the closed channel is parsed.\<close>

definition read_recv :: "bytes chan \<Rightarrow> AttributeResponse list option" where
  "read_recv c =
     (case ch_buf c of
        Some d \<Rightarrow> Some (parseAttributeResponses d)
      | None \<Rightarrow> if ch_closed c then Some (parseAttributeResponses []) else None)"

section \<open>Correctness of the link layer\<close>

lemma waitACK_result:
  assumes "waitACK wr frame q attempt evs n = (r, n')" "attempt \<le> 3"
  shows "\<exists>k \<le> 3 - attempt. n_tx n' = n_tx n @ replicate k frame
     \<and> (r = Inl LLTimeout \<longrightarrow> k = 3 - attempt)
     \<and> (r = Inr () \<longrightarrow> q \<in> set (n_llAckCh n) \<union> {a. LLRx a \<in> set evs})"
  using assms
proof (induction wr frame q attempt evs n rule: waitACK.induct)
  case (2 wr frame q attempt a evs n)
  then obtain k where "k \<le> 3 - attempt" "n_tx n' = n_tx n @ replicate k frame" "r = Inl LLTimeout \<longrightarrow> k = 3 - attempt"
    "r = Inr () \<longrightarrow> q \<in> set (n_llAckCh (push_ack a n)) \<union> {a. LLRx a \<in> set evs}"
    by (auto simp: push_ack_def split: if_splits)
  moreover have "set (n_llAckCh (push_ack a n)) \<subseteq> insert a (set (n_llAckCh n))" by (auto simp: push_ack_def)
  ultimately show ?case by (intro exI[of _ k]) auto
next
  case (3 wr frame q attempt evs n)
  show ?case
  proof (cases "n_llAckCh n")
    case Nil
    then show ?thesis using 3 by simp
  next
    case (Cons a as)
    then show ?thesis using 3(2)[OF Cons] 3(3,4) by (cases "a = q") force+
  qed
next
  case (4 wr frame q attempt evs n)
  show ?case
  proof (cases "llMaxRetries < attempt + 1 \<or> \<not> wr (attempt + 1)")
    case True
    then show ?thesis using 4(2,3) by (auto simp: llMaxRetries_def split: if_splits)
  next
    case False
    then have "attempt + 1 \<le> 3" by (simp add: llMaxRetries_def)
    with False 4(1)[of] 4(2) obtain k where k: "k \<le> 3 - (attempt + 1)"
      "n_tx n' = n_tx (port_write True frame n) @ replicate k frame" "r = Inl LLTimeout \<longrightarrow> k = 3 - (attempt + 1)"
      "r = Inr () \<longrightarrow> q \<in> set (n_llAckCh (port_write True frame n)) \<union> {a. LLRx a \<in> set evs}"
      by auto
    then show ?thesis using \<open>attempt + 1 \<le> 3\<close>
      by (intro exI[of _ "Suc k"]) (auto simp: port_write_def)
  qed
qed auto

text \<open>
  C27: the acknowledged write. Whatever the interleaving of acknowledgements, timeouts, cancellation and closing, the
  frame is put on the wire at most four times and nothing else is written; success means that an acknowledgement with
  the sequence number of this frame was received; the timeout error is given only after all four writes.
\<close>

theorem write_with_ack:
  assumes "writeWithACK wr frame q evs n = (r, n')"
  shows "\<exists>k \<le> 4. n_tx n' = n_tx n @ replicate k frame
     \<and> (r = Inl LLTimeout \<longrightarrow> k = 4)
     \<and> (r = Inr () \<longrightarrow> q \<in> set (n_llAckCh n) \<union> {a. LLRx a \<in> set evs})"
proof (cases "wr 0")
  case False
  then show ?thesis using assms by (auto simp: writeWithACK_def)
next
  case True
  then have "waitACK wr frame q 0 evs (port_write True frame n) = (r, n')"
    using assms by (simp add: writeWithACK_def)
  from waitACK_result[OF this] obtain k where "k \<le> 3" "n_tx n' = n_tx n @ frame # replicate k frame"
    "r = Inl LLTimeout \<longrightarrow> k = 3" "r = Inr () \<longrightarrow> q \<in> set (n_llAckCh n) \<union> {a. LLRx a \<in> set evs}"
    by (auto simp: port_write_def)
  then show ?thesis by (intro exI[of _ "Suc k"]) auto
qed

definition new_ncp :: "handlers \<Rightarrow> ncp" where
  "new_ncp h = \<lparr>n_hlTSN = 0, n_hlPending = Map.empty, n_hlCh = (\<lambda>_. empty_chan), n_zclSeq = 0,
     n_zclPending = Map.empty, n_zclCh = (\<lambda>_. empty_chan), n_nextCh = 0, n_llPktSeq = 0, n_llAckCh = [],
     n_resetInd = False, n_done = False, n_closed = False, n_handlers = h, n_tx = []\<rparr>"

abbreviation all_handlers :: handlers where
  "all_handlers \<equiv> \<lparr>h_onJoined = True, h_onLeft = True, h_onAnnounce = True, h_onReport = True,
     h_onClusterCmd = True, h_onNwkAddrUpdate = True, h_onReset = True\<rparr>"

theorem write_with_ack_witness:
  "\<exists>n'. writeWithACK (\<lambda>_. True) [1, 2] 2 [LLDeadline, LLRx 1, LLRx 2, LLRecv, LLRecv] (new_ncp all_handlers) = (Inr (), n')
     \<and> (\<exists>k \<le> 4. n_tx n' = [] @ replicate k [1, 2])"
proof -
  obtain n' where n': "writeWithACK (\<lambda>_. True) [1, 2] 2 [LLDeadline, LLRx 1, LLRx 2, LLRecv, LLRecv] (new_ncp all_handlers) = (Inr (), n')"
    by (simp add: writeWithACK_def new_ncp_def push_ack_def port_write_def llMaxRetries_def)
  show ?thesis using n' write_with_ack[OF n'] by (auto simp: new_ncp_def)
qed

section \<open>The driver as a step relation\<close>

text \<open>
  Requests and attribute reads are goroutines: each holds its sequence number and its channel
  while it waits. A step is one of their atomic sections, one frame handled by the read loop, a
  reset or the final close; the relation allows every interleaving of them.
\<close>

record sys =
  s_n :: ncp
  s_reqs :: "(byte \<times> nat) list"
  s_reads :: "(byte \<times> nat) list"

inductive sys_step :: "sys \<Rightarrow> sys \<Rightarrow> bool" where
  rx: "handleFrame ok raw (s_n s) = (effs, n') \<Longrightarrow> sys_step s (s\<lparr>s_n := n'\<rparr>)"
| req_open: "request_open callID payload (s_n s) = (tsn, ch, q, raw, n') \<Longrightarrow>
    sys_step s (s\<lparr>s_n := n', s_reqs := (tsn, ch) # s_reqs s\<rparr>)"
| req_write: "writeWithACK wr raw q evs (s_n s) = (r, n') \<Longrightarrow> sys_step s (s\<lparr>s_n := n'\<rparr>)"
| req_end: "(tsn, ch) \<in> set (s_reqs s) \<Longrightarrow>
    sys_step s (s\<lparr>s_n := request_close tsn (s_n s), s_reqs := remove1 (tsn, ch) (s_reqs s)\<rparr>)"
| rd_open: "read_open dst ep cl ids (s_n s) = (sq, ch, aps, n') \<Longrightarrow>
    sys_step s (s\<lparr>s_n := n', s_reads := (sq, ch) # s_reads s\<rparr>)"
| rd_end: "(sq, ch) \<in> set (s_reads s) \<Longrightarrow>
    sys_step s (s\<lparr>s_n := read_close sq (s_n s), s_reads := remove1 (sq, ch) (s_reads s)\<rparr>)"
| ncp_reset: "sys_step s (s\<lparr>s_n := resetState (s_n s)\<rparr>)"
| ncp_close: "sys_step s (s\<lparr>s_n := Close (s_n s)\<rparr>)"

inductive_cases sys_stepE: "sys_step s s'"

definition sys_init :: "handlers \<Rightarrow> sys" where
  "sys_init h = \<lparr>s_n = new_ncp h, s_reqs = [], s_reads = []\<rparr>"

definition reachable :: "handlers \<Rightarrow> sys \<Rightarrow> bool" where
  "reachable h s \<longleftrightarrow> sys_step\<^sup>*\<^sup>* (sys_init h) s"

text \<open>The invariant: sequence and queue bounds, and every pending channel belongs to the request
  that registered it and only ever holds a response to that request.\<close>

definition answers :: "byte \<Rightarrow> zbossFrame chan \<Rightarrow> bool" where
  "answers tsn c \<longleftrightarrow> (\<forall>f. ch_buf c = Some f \<longrightarrow> hl_TSN (zf_HL f) = tsn \<and> hl_PacketType (zf_HL f) = zbossHLResponse)"

definition req_inv :: "ncp \<Rightarrow> (byte \<times> nat) list \<Rightarrow> bool" where
  "req_inv n reqs \<longleftrightarrow>
     distinct (map snd reqs) \<and> (\<forall>(tsn, ch) \<in> set reqs. ch < n_nextCh n \<and> answers tsn (n_hlCh n ch))
     \<and> (\<forall>tsn ch. n_hlPending n tsn = Some ch \<longrightarrow> (tsn, ch) \<in> set reqs)"

definition sys_inv :: "sys \<Rightarrow> bool" where
  "sys_inv s \<longleftrightarrow> n_llPktSeq (s_n s) \<le> 3 \<and> length (n_llAckCh (s_n s)) \<le> 4 \<and> req_inv (s_n s) (s_reqs s)"

text \<open>Which fields the handlers of the read loop leave alone.\<close>

lemma handleAPSDEDataInd_frame:
  assumes "handleAPSDEDataInd p n = (effs, n')"
  shows "\<exists>z. n' = n\<lparr>n_zclCh := z\<rparr>"
proof -
  have same: "\<exists>z. m = m\<lparr>n_zclCh := z\<rparr>" for m :: ncp by (rule exI[of _ "n_zclCh m"]) simp
  show ?thesis using assms unfolding handleAPSDEDataInd_def Let_def
    by (auto intro: same split: if_splits option.splits)
qed

lemma handleIndication_frame:
  assumes "handleIndication f n = (effs, n')"
  shows "\<exists>z r. n' = n\<lparr>n_zclCh := z, n_resetInd := r\<rparr>"
proof -
  have same: "\<exists>z r. m = m\<lparr>n_zclCh := z, n_resetInd := r\<rparr>" for m :: ncp
    by (rule exI[of _ "n_zclCh m"], rule exI[of _ "n_resetInd m"]) simp
  have ind: "\<exists>z r. m\<lparr>n_resetInd := b\<rparr> = m\<lparr>n_zclCh := z, n_resetInd := r\<rparr>" for m :: ncp and b
    by (rule exI[of _ "n_zclCh m"], rule exI[of _ b]) simp
  have aps: "\<exists>z r. m' = m\<lparr>n_zclCh := z, n_resetInd := r\<rparr>"
    if "handleAPSDEDataInd p m = (e, m')" for p e and m m' :: ncp
  proof -
    from handleAPSDEDataInd_frame[OF that] obtain z where "m' = m\<lparr>n_zclCh := z\<rparr>" by blast
    then show ?thesis by (intro exI[of _ z] exI[of _ "n_resetInd m"]) simp
  qed
  show ?thesis using assms unfolding handleIndication_def Let_def
    by (auto intro: same ind aps split: if_splits)
qed

text \<open>The three things a frame can do to the request side of the driver.\<close>

lemma handleFrame_cases:
  assumes "handleFrame ok raw n = (effs, n')"
  obtains (ack) a where "n' = push_ack a n"
  | (response) f ch tx where "hl_PacketType (zf_HL f) = zbossHLResponse" "n_hlPending n (hl_TSN (zf_HL f)) = Some ch"
      "n' = n\<lparr>n_tx := tx, n_hlCh := (n_hlCh n)(ch := try_send f (n_hlCh n ch))\<rparr>"
  | (other) tx z r where "n' = n\<lparr>n_tx := tx, n_zclCh := z, n_resetInd := r\<rparr>"
proof (cases "zbossDecodeFrame raw")
  case (Inl e)
  then have "n' = n\<lparr>n_tx := n_tx n, n_zclCh := n_zclCh n, n_resetInd := n_resetInd n\<rparr>"
    using assms by (simp add: handleFrame_def)
  then show ?thesis by (rule other)
next
  case (Inr f)
  let ?q = "zbossLLPktSeq (ll_Flags (zf_LL f))"
  obtain tx where tx: "sendACK ok ?q n = n\<lparr>n_tx := tx\<rparr>"
    by (cases ok) (auto simp: sendACK_def port_write_def intro: that[of "n_tx n"])
  note d = assms[unfolded handleFrame_def Inr sum.case tx Let_def]
  have same: "n' = n\<lparr>n_tx := tx\<rparr> \<Longrightarrow> thesis"
    using other[where tx = tx and z = "n_zclCh n" and r = "n_resetInd n"] by simp
  show ?thesis
  proof (cases "zbossLLIsACK (ll_Flags (zf_LL f))")
    case True
    then show ?thesis using d ack by auto
  next
    case False
    note d = d[unfolded if_not_P[OF False]]
    show ?thesis
    proof (cases "hl_PacketType (zf_HL f) = zbossHLResponse")
      case True
      then show ?thesis using d response[OF True] same by (auto split: option.splits)
    next
      case nr: False
      show ?thesis
      proof (cases "hl_PacketType (zf_HL f) = zbossHLIndication")
        case True
        then have "handleIndication f (n\<lparr>n_tx := tx\<rparr>) = (effs, n')" using d nr by simp
        from handleIndication_frame[OF this] obtain z r where "n' = n\<lparr>n_tx := tx, n_zclCh := z, n_resetInd := r\<rparr>"
          by auto
        then show ?thesis by (rule other)
      qed (use d nr same in auto)
    qed
  qed
qed

lemma distinct_snd_unique:
  "distinct (map snd xs) \<Longrightarrow> (a, c) \<in> set xs \<Longrightarrow> (b, c) \<in> set xs \<Longrightarrow> a = b"
  by (induction xs) (auto simp: image_iff)

lemma req_inv_cong:
  assumes "n_nextCh n' = n_nextCh n" "n_hlCh n' = n_hlCh n" "n_hlPending n' = n_hlPending n"
  shows "req_inv n' reqs = req_inv n reqs"
  unfolding req_inv_def assms ..

lemma push_ack_simps [simp]:
  "n_llPktSeq (push_ack a n) = n_llPktSeq n" "n_nextCh (push_ack a n) = n_nextCh n"
  "n_hlCh (push_ack a n) = n_hlCh n" "n_hlPending (push_ack a n) = n_hlPending n"
  "length (n_llAckCh n) \<le> 4 \<Longrightarrow> length (n_llAckCh (push_ack a n)) \<le> 4"
  by (simp_all add: push_ack_def)

lemma inv_rx:
  assumes "handleFrame ok raw (s_n s) = (effs, n')" "sys_inv s"
  shows "sys_inv (s\<lparr>s_n := n'\<rparr>)"
  using assms(1)
proof (cases rule: handleFrame_cases)
  case (ack a)
  then show ?thesis using assms(2) req_inv_cong[of "push_ack a (s_n s)" "s_n s"]
    by (auto simp: sys_inv_def)
next
  case (response f ch tx)
  let ?n = "s_n s"
  have i: "req_inv ?n (s_reqs s)" using assms(2) by (simp add: sys_inv_def)
  have mem: "(hl_TSN (zf_HL f), ch) \<in> set (s_reqs s)" using i response(2) by (simp add: req_inv_def)
  have one: "ch' = ch \<Longrightarrow> (t', ch') \<in> set (s_reqs s) \<Longrightarrow> t' = hl_TSN (zf_HL f)" for t' ch'
    using i mem distinct_snd_unique[of "s_reqs s"] unfolding req_inv_def by blast
  have "answers (hl_TSN (zf_HL f)) (try_send f (n_hlCh ?n ch))"
    using i mem response(1) unfolding req_inv_def answers_def try_send_def by (fastforce split: option.splits)
  then have "req_inv n' (s_reqs s)"
    using i one unfolding req_inv_def response(3) by fastforce
  then show ?thesis using assms(2) unfolding sys_inv_def response(3) by simp
next
  case (other tx z r)
  then show ?thesis using assms(2) req_inv_cong[of n' "s_n s"] by (simp add: sys_inv_def)
qed

lemma inv_open:
  assumes "request_open callID payload (s_n s) = (tsn, ch, q, raw, n')" "sys_inv s"
  shows "sys_inv (s\<lparr>s_n := n', s_reqs := (tsn, ch) # s_reqs s\<rparr>)"
proof -
  let ?n = "s_n s"
  have i: "req_inv ?n (s_reqs s)" using assms(2) by (simp add: sys_inv_def)
  have n': "tsn = ucast (n_hlTSN ?n + 1)" "ch = n_nextCh ?n"
    "n' = ?n\<lparr>n_hlTSN := n_hlTSN ?n + 1, n_nextCh := ch + 1, n_hlCh := (n_hlCh ?n)(ch := empty_chan),
       n_hlPending := (n_hlPending ?n)(tsn \<mapsto> ch), n_llPktSeq := n_llPktSeq ?n mod 3 + 1\<rparr>"
    using assms(1) by (auto simp: request_open_def nextTSN_def nextPktSeq_def Let_def)
  have fresh: "c < ch" if "(t, c) \<in> set (s_reqs s)" for t c using i that n'(2) by (auto simp: req_inv_def)
  then have nin: "ch \<notin> snd ` set (s_reqs s)" by fastforce
  have "req_inv n' ((tsn, ch) # s_reqs s)"
    using i fresh nin unfolding req_inv_def n'(3)
    by (auto simp: answers_def empty_chan_def n'(2) less_SucI split: if_splits)
  moreover have "n_llPktSeq ?n mod 3 + 1 \<le> 3"
  proof -
    have "unat (n_llPktSeq ?n mod 3 + 1) \<le> 3"
      by (simp add: unat_word_ariths unat_mod)
    then show ?thesis by (simp add: word_le_nat_alt)
  qed
  ultimately show ?thesis using assms(2) by (simp add: sys_inv_def n'(3))
qed

lemma waitACK_inv:
  assumes "waitACK wr frame q attempt evs n = (r, n')" "length (n_llAckCh n) \<le> 4"
  shows "length (n_llAckCh n') \<le> 4 \<and> n_llPktSeq n' = n_llPktSeq n \<and> n_nextCh n' = n_nextCh n
     \<and> n_hlCh n' = n_hlCh n \<and> n_hlPending n' = n_hlPending n"
  using assms
  by (induction wr frame q attempt evs n rule: waitACK.induct)
    (auto simp: port_write_def split: if_splits list.splits)

lemma inv_write:
  assumes "writeWithACK wr raw q evs (s_n s) = (r, n')" "sys_inv s"
  shows "sys_inv (s\<lparr>s_n := n'\<rparr>)"
proof (cases "wr 0")
  case True
  then have "waitACK wr raw q 0 evs (port_write True raw (s_n s)) = (r, n')"
    using assms(1) by (simp add: writeWithACK_def)
  from waitACK_inv[OF this] assms(2) have "length (n_llAckCh n') \<le> 4 \<and> n_llPktSeq n' = n_llPktSeq (s_n s)
     \<and> n_nextCh n' = n_nextCh (s_n s) \<and> n_hlCh n' = n_hlCh (s_n s) \<and> n_hlPending n' = n_hlPending (s_n s)"
    by (simp add: sys_inv_def port_write_def)
  then show ?thesis using assms(2) req_inv_cong[of n' "s_n s"] by (simp add: sys_inv_def)
next
  case False
  then show ?thesis using assms by (auto simp: writeWithACK_def sys_inv_def)
qed

lemma req_inv_less:
  assumes "req_inv n reqs" "n_nextCh n \<le> n_nextCh n'" "n_hlCh n' = close_chans pend (n_hlCh n) \<or> n_hlCh n' = n_hlCh n"
    "n_hlPending n' = Map.empty \<or> n_hlPending n' = n_hlPending n"
  shows "req_inv n' reqs"
  using assms unfolding req_inv_def answers_def close_chans_def
  by (auto split: if_splits)

lemma inv_end:
  assumes "(tsn, ch) \<in> set (s_reqs s)" "sys_inv s"
  shows "sys_inv (s\<lparr>s_n := request_close tsn (s_n s), s_reqs := remove1 (tsn, ch) (s_reqs s)\<rparr>)"
proof -
  have i: "req_inv (s_n s) (s_reqs s)" using assms(2) by (simp add: sys_inv_def)
  then have d: "distinct (s_reqs s)" by (auto simp: req_inv_def distinct_map)
  then have "inj_on snd (set (s_reqs s))" using i by (simp add: req_inv_def distinct_map)
  then have "distinct (map snd (remove1 (tsn, ch) (s_reqs s)))"
    using d by (auto simp: distinct_map intro: inj_on_subset)
  then have "req_inv (request_close tsn (s_n s)) (remove1 (tsn, ch) (s_reqs s))"
    using i d by (auto simp: req_inv_def request_close_def split: if_splits)
  then show ?thesis using assms(2) by (simp add: sys_inv_def request_close_def)
qed

lemma sys_step_inv:
  assumes "sys_step s s'" "sys_inv s"
  shows "sys_inv s'"
  using assms(1)
proof (cases rule: sys_step.cases)
  case (rx ok raw effs n')
  then show ?thesis using inv_rx assms(2) by blast
next
  case (req_open callID payload tsn ch q raw n')
  then show ?thesis using inv_open assms(2) by blast
next
  case (req_write wr raw q evs r n')
  then show ?thesis using inv_write assms(2) by blast
next
  case (req_end tsn ch)
  then show ?thesis using inv_end assms(2) by blast
next
  case (rd_open dst ep cl ids sq ch aps n')
  have "n_nextCh n' = n_nextCh (s_n s) + 1" "n_hlCh n' = n_hlCh (s_n s)" "n_hlPending n' = n_hlPending (s_n s)"
    "n_llPktSeq n' = n_llPktSeq (s_n s)" "n_llAckCh n' = n_llAckCh (s_n s)"
    using rd_open(2) by (auto simp: read_open_def nextZCLSeq_def Let_def)
  then show ?thesis using rd_open assms(2) req_inv_less[of "s_n s" "s_reqs s" n'] by (simp add: sys_inv_def)
next
  case (rd_end sq ch)
  then show ?thesis using assms(2) req_inv_cong[of "read_close sq (s_n s)" "s_n s"]
    by (simp add: sys_inv_def read_close_def)
next
  case ncp_reset
  then show ?thesis using assms(2) req_inv_less[of "s_n s" "s_reqs s" "resetState (s_n s)" "n_hlPending (s_n s)"]
    by (simp add: sys_inv_def resetState_def)
next
  case ncp_close
  then show ?thesis using assms(2) req_inv_less[of "s_n s" "s_reqs s" "Close (s_n s)" "n_hlPending (s_n s)"]
    by (cases "n_closed (s_n s)") (simp_all add: sys_inv_def Close_def)
qed

lemma reachable_inv:
  assumes "reachable h s" shows "sys_inv s"
proof -
  have "sys_inv (sys_init h)"
    by (simp add: sys_inv_def sys_init_def new_ncp_def req_inv_def)
  with assms show ?thesis unfolding reachable_def
    by (induction rule: rtranclp_induct) (auto intro: sys_step_inv)
qed

text \<open>
  C1: a response never reaches the wrong request. In every reachable state of the driver, under every interleaving of
  requests, incoming frames, timeouts, resets and close, and although the 8-bit TSN wraps and may be reused while an
  older request still waits, what a request receives on its channel is a response frame with its own TSN.
\<close>

theorem response_matches_request:
  assumes "reachable h s" "(tsn, ch) \<in> set (s_reqs s)"
    "request_recv (n_hlCh (s_n s) ch) = ReqOK f \<or> request_recv (n_hlCh (s_n s) ch) = ReqStatus f"
  shows "hl_TSN (zf_HL f) = tsn \<and> hl_PacketType (zf_HL f) = zbossHLResponse"
proof -
  have "answers tsn (n_hlCh (s_n s) ch)"
    using reachable_inv[OF assms(1)] assms(2) by (auto simp: sys_inv_def req_inv_def)
  moreover have "ch_buf (n_hlCh (s_n s) ch) = Some f"
    using assms(3) by (auto simp: request_recv_def split: option.splits if_splits)
  ultimately show ?thesis by (simp add: answers_def)
qed

text \<open>
  the link state stays within its protocol bounds. In every reachable state the packet sequence is at most 3, so
  the next frame carries 1, 2 or 3 (never the 0 that only an initial frame may have), and the acknowledgement queue
  holds at most its four entries.
\<close>

theorem link_state_bounds:
  assumes "reachable h s"
  shows "n_llPktSeq (s_n s) \<le> 3 \<and> length (n_llAckCh (s_n s)) \<le> 4
     \<and> fst (nextPktSeq (s_n s)) \<in> {1, 2, 3}"
proof -
  have b: "n_llPktSeq (s_n s) \<le> 3 \<and> length (n_llAckCh (s_n s)) \<le> 4"
    using reachable_inv[OF assms] by (simp add: sys_inv_def)
  define u where "u = unat (n_llPktSeq (s_n s) mod 3)"
  have "u < 3" unfolding u_def by (simp add: unat_mod)
  then have "u = 0 \<or> u = 1 \<or> u = 2" by linarith
  moreover have "n_llPktSeq (s_n s) mod 3 = word_of_nat u" by (simp add: u_def)
  ultimately have "fst (nextPktSeq (s_n s)) \<in> {1, 2, 3}"
    by (auto simp: nextPktSeq_def Let_def)
  with b show ?thesis by blast
qed

text \<open>
  closing the driver leaves no request behind. After \<^verbatim>\<open>Close\<close> no request or read is pending, and a request
  that was pending receives its response if one had already arrived and an error otherwise, never nothing.
\<close>

theorem close_releases_requests:
  assumes "\<not> n_closed n" "n_hlPending n tsn = Some ch"
  shows "n_hlPending (Close n) = Map.empty \<and> n_zclPending (Close n) = Map.empty \<and> n_done (Close n)
     \<and> request_recv (n_hlCh (Close n) ch) =
         (if request_recv (n_hlCh n ch) = ReqWaiting then ReqCancelled else request_recv (n_hlCh n ch))"
proof -
  have "ch \<in> ran (n_hlPending n)" using assms(2) by (auto simp: ran_def)
  then show ?thesis using assms(1)
    by (auto simp: Close_def close_chans_def request_recv_def split: option.splits)
qed

text \<open>
  an attribute read that is pending when the driver is closed or reset reports success with no attributes. The
  receive of \<^verbatim>\<open>ReadAttributes\<close>, unlike that of \<^verbatim>\<open>request\<close>, does not check for the \<^verbatim>\<open>nil\<close> of a closed
  channel, so it is parsed as an empty response.
\<close>

theorem read_closed_is_success:
  assumes "n_zclPending n sq = Some ch" "ch_buf (n_zclCh n ch) = None" "\<not> n_closed n"
  shows "read_recv (n_zclCh (resetState n) ch) = Some [] \<and> read_recv (n_zclCh (Close n) ch) = Some []"
proof -
  have "ch \<in> ran (n_zclPending n)" using assms(1) by (auto simp: ran_def)
  then show ?thesis using assms(2,3)
    by (simp add: Close_def resetState_def close_chans_def read_recv_def parseAttributeResponses.simps)
qed

section \<open>From the serial stream to the callbacks\<close>

lemma HL_response:
  "zbossDecodeHL ll ([zbossHLVersion, zbossHLResponse] @ le_put 2 callID @ [tsn, cat, code] @ payload) =
   Inr \<lparr>zf_LL = ll, zf_HL = \<lparr>hl_Version = 0, hl_PacketType = zbossHLResponse, hl_CallID = callID,
      hl_TSN = tsn, hl_StatusCat = cat, hl_StatusCode = code\<rparr>, zf_Payload = payload\<rparr>"
  by (simp add: zbossDecodeHL_def le_put2)

lemma HL_indication:
  "zbossDecodeHL ll ([zbossHLVersion, zbossHLIndication] @ le_put 2 callID @ payload) =
   Inr \<lparr>zf_LL = ll, zf_HL = \<lparr>hl_Version = 0, hl_PacketType = zbossHLIndication, hl_CallID = callID,
      hl_TSN = 0, hl_StatusCat = 0, hl_StatusCode = 0\<rparr>, zf_Payload = payload\<rparr>"
  by (simp add: zbossDecodeHL_def le_put2)

lemma readLoop_frame:
  assumes "\<not> n_done n" "\<not> has_signature noise" "length hl \<le> 4091" "zbossEncodeDataFrame q hl = Some f"
    "zbossDecodeHL \<lparr>ll_Length = word_of_nat (7 + length hl), ll_Type = zbossLLType, ll_Flags = ll_flags q\<rparr> hl = Inr fr"
  shows "zbossDecodeFrame f = Inr fr"
    and "readLoop (noise @ f @ rest) n =
      (let (effs, n1) = handleFrame True f n; (effs2, rest2, n2) = readLoop rest n1 in (effs @ effs2, rest2, n2))"
proof -
  have le: "length hl \<le> 65526" using assms(3) by simp
  have f: "f = data_frame (word_of_nat (7 + length hl)) (ll_flags q) hl"
    using assms(4) encode_data_frame[OF le, of q] by simp
  show "zbossDecodeFrame f = Inr fr"
    using decode_data_frame[OF le flags_not_ack refl, of q "[]"] assms(5) unfolding f by simp
  show "readLoop (noise @ f @ rest) n =
      (let (effs, n1) = handleFrame True f n; (effs2, rest2, n2) = readLoop rest n1 in (effs @ effs2, rest2, n2))"
    using raw_data_frame[OF assms(2,3), of "ll_flags q" rest, folded f] assms(1)
    by (subst readLoop.simps) simp
qed

lemma handle_response:
  assumes "length payload \<le> 4084"
    "zbossEncodeDataFrame q ([zbossHLVersion, zbossHLResponse] @ le_put 2 callID @ [tsn, cat, code] @ payload) = Some f"
    "n_hlPending n tsn = Some ch" "ch_buf (n_hlCh n ch) = None"
  shows "\<exists>fr n'. handleFrame True f n = ([], n') \<and> n_tx n' = n_tx n @ [zbossEncodeACK (q AND 3)]
     \<and> zf_Payload fr = payload \<and> hl_CallID (zf_HL fr) = callID
     \<and> request_recv (n_hlCh n' ch) = (if cat = 0 \<and> code = 0 then ReqOK fr else ReqStatus fr)"
proof -
  define hl where "hl = [zbossHLVersion, zbossHLResponse] @ le_put 2 callID @ [tsn, cat, code] @ payload"
  define ll where "ll = \<lparr>ll_Length = word_of_nat (7 + length hl), ll_Type = zbossLLType, ll_Flags = ll_flags q\<rparr>"
  define fr where "fr = \<lparr>zf_LL = ll, zf_HL = \<lparr>hl_Version = 0, hl_PacketType = zbossHLResponse, hl_CallID = callID,
      hl_TSN = tsn, hl_StatusCat = cat, hl_StatusCode = code\<rparr>, zf_Payload = payload\<rparr>"
  have l: "length hl \<le> 65526" using assms(1) by (simp add: hl_def)
  have dec: "zbossDecodeHL ll hl = Inr fr" unfolding hl_def fr_def by (rule HL_response)
  have "f = data_frame (word_of_nat (7 + length hl)) (ll_flags q) hl"
    using assms(2) encode_data_frame[OF l, of q] by (simp add: hl_def)
  then have "zbossDecodeFrame f = Inr fr"
    using decode_data_frame[OF l flags_not_ack refl, of q "[]"] dec by (simp add: ll_def)
  then have "handleFrame True f n = ([], n\<lparr>n_tx := n_tx n @ [zbossEncodeACK (q AND 3)],
      n_hlCh := (n_hlCh n)(ch := try_send fr (n_hlCh n ch))\<rparr>)"
    using assms(3) unfolding handleFrame_def
    by (simp add: fr_def[symmetric] sendACK_def port_write_def) (simp add: fr_def ll_def)
  moreover have "request_recv (try_send fr (n_hlCh n ch)) = (if cat = 0 \<and> code = 0 then ReqOK fr else ReqStatus fr)"
    using assms(4) by (simp add: try_send_def request_recv_def fr_def)
  ultimately show ?thesis by (intro exI[of _ fr]) (simp add: fr_def)
qed

text \<open>
  a response is delivered to its request. When a response frame arrives on the serial line, possibly after noise,
  while the request with its TSN waits, the driver acknowledges it, and the request receives it with its payload: as a
  success exactly when both status bytes are zero. No callback runs and the loop goes on behind the frame.
\<close>

theorem response_delivery:
  assumes "\<not> n_done n" "\<not> has_signature noise" "length payload \<le> 4084"
    "zbossEncodeDataFrame q ([zbossHLVersion, zbossHLResponse] @ le_put 2 callID @ [tsn, cat, code] @ payload) = Some f"
    "n_hlPending n tsn = Some ch" "ch_buf (n_hlCh n ch) = None"
  shows "\<exists>fr n'. readLoop (noise @ f @ rest) n = readLoop rest n'
     \<and> n_tx n' = n_tx n @ [zbossEncodeACK (q AND 3)] \<and> zf_Payload fr = payload \<and> hl_CallID (zf_HL fr) = callID
     \<and> request_recv (n_hlCh n' ch) = (if cat = 0 \<and> code = 0 then ReqOK fr else ReqStatus fr)"
proof -
  define hl where "hl = [zbossHLVersion, zbossHLResponse] @ le_put 2 callID @ [tsn, cat, code] @ payload"
  have l: "length hl \<le> 4091" using assms(3) by (simp add: hl_def)
  note loop = readLoop_frame(2)[OF assms(1,2) l assms(4)[folded hl_def] HL_response[of _ callID tsn cat code payload, folded hl_def]]
  from handle_response[OF assms(3-6)] obtain fr n' where "handleFrame True f n = ([], n')"
    "n_tx n' = n_tx n @ [zbossEncodeACK (q AND 3)]" "zf_Payload fr = payload" "hl_CallID (zf_HL fr) = callID"
    "request_recv (n_hlCh n' ch) = (if cat = 0 \<and> code = 0 then ReqOK fr else ReqStatus fr)" by blast
  then show ?thesis unfolding loop by (intro exI[of _ fr] exI[of _ n']) (simp add: case_prod_beta)
qed

text \<open>The APS data indication as the NCP sends it, field by field.\<close>

record aps_ind =
  ai_paramLen :: byte
  ai_fc :: byte
  ai_src :: u16
  ai_dst :: u16
  ai_group :: u16
  ai_dstEP :: byte
  ai_srcEP :: byte
  ai_cluster :: u16
  ai_profile :: u16
  ai_counter :: byte
  ai_srcMac :: u16
  ai_dstMac :: u16
  ai_lqi :: byte
  ai_rssi :: byte
  ai_key :: byte

definition aps_wire :: "aps_ind \<Rightarrow> bytes \<Rightarrow> bytes" where
  "aps_wire a zcl = [ai_paramLen a] @ le_put 2 (word_of_nat (length zcl) :: u16) @ [ai_fc a] @ le_put 2 (ai_src a)
     @ le_put 2 (ai_dst a) @ le_put 2 (ai_group a) @ [ai_dstEP a, ai_srcEP a] @ le_put 2 (ai_cluster a)
     @ le_put 2 (ai_profile a) @ [ai_counter a] @ le_put 2 (ai_srcMac a) @ le_put 2 (ai_dstMac a)
     @ [ai_lqi a, ai_rssi a, ai_key a] @ zcl"

definition report_event :: "aps_ind \<Rightarrow> AttributeRecord \<Rightarrow> AttributeReportEvent" where
  "report_event a r = \<lparr>rpt_SrcAddr = ai_src a, rpt_SrcEP = ai_srcEP a, rpt_ClusterID = ai_cluster a,
     rpt_AttrID = rec_AttrID r, rpt_DataType = rec_DataType r, rpt_Value = rec_Value r,
     rpt_LQI = ai_lqi a, rpt_RSSI = ai_rssi a\<rparr>"

lemma aps_fields:
  assumes "0 < length zcl" "length zcl < 65536"
  shows "length (aps_wire a zcl) = 24 + length zcl"
    "unat (le16 (aps_wire a zcl ! 1) (aps_wire a zcl ! 2)) = length zcl"
    "le16 (aps_wire a zcl ! 4) (aps_wire a zcl ! 5) = ai_src a" "aps_wire a zcl ! 11 = ai_srcEP a"
    "le16 (aps_wire a zcl ! 12) (aps_wire a zcl ! 13) = ai_cluster a"
    "aps_wire a zcl ! 21 = ai_lqi a" "aps_wire a zcl ! 22 = ai_rssi a"
    "slice 24 (24 + length zcl) (aps_wire a zcl) = zcl"
proof -
  obtain l :: u16 where l: "l = word_of_nat (length zcl)" by simp
  have u: "unat l = length zcl" unfolding l by (rule unat_word16_small) (use assms in simp)
  show "unat (le16 (aps_wire a zcl ! 1) (aps_wire a zcl ! 2)) = length zcl"
    unfolding aps_wire_def l[symmetric] by (simp add: le_put2 u del: le_get.simps)
qed (simp_all add: aps_wire_def le_put2 slice_def del: le_get.simps)

lemma report_handled:
  assumes "list_all record_complete recs" "length (concat (map record_wire recs)) < 65533"
    "fc AND 3 = zclFrameTypeGlobal" "fc AND zclFlagMfrSpecific = 0" "h_onReport (n_handlers n)"
  shows "handleAPSDEDataInd (aps_wire a ([fc, sq, zclCmdReportAttributes] @ concat (map record_wire recs))) n =
    (map (\<lambda>r. OnReport (report_event a r)) recs, n)"
proof -
  define body where "body = concat (map record_wire recs)"
  define zcl where "zcl = fc # sq # zclCmdReportAttributes # body"
  have l: "0 < length zcl" "length zcl < 65536" using assms(2) by (simp_all add: zcl_def body_def)
  have parse: "zclParseAttributeReports body = recs" unfolding body_def using assms(1) by (rule reports.roundtrip)
  have zs: "zcl ! 0 = fc" "\<not> length zcl < 3" "zcl ! (3 - 2) = sq" "zcl ! (3 - 1) = zclCmdReportAttributes"
    "drop 3 zcl = body" by (simp_all add: zcl_def)
  have ne: "\<not> 24 + length zcl < 25" "\<not> (length zcl = 0 \<or> 24 + length zcl < 24 + length zcl)" using l(1) by simp_all
  have "handleAPSDEDataInd (aps_wire a zcl) n = (map (\<lambda>r. OnReport (report_event a r)) recs, n)"
    unfolding handleAPSDEDataInd_def Let_def aps_fields[OF l] if_not_P[OF ne(1)] if_not_P[OF ne(2)]
    using assms(3-5) zs by (simp add: parse report_event_def)
  then show ?thesis by (simp add: zcl_def body_def)
qed

lemma report_frame:
  assumes "\<not> n_done n" "h_onReport (n_handlers n)" "\<not> has_signature noise" "list_all record_complete recs"
    "fc AND 3 = zclFrameTypeGlobal" "fc AND zclFlagMfrSpecific = 0"
    "zcl = [fc, sq, zclCmdReportAttributes] @ concat (map record_wire recs)" "length zcl \<le> 4063"
    "zbossEncodeDataFrame q ([zbossHLVersion, zbossHLIndication] @ le_put 2 zbossCmdAPSDEDataInd @ aps_wire a zcl) = Some f"
  shows "readLoop (noise @ f @ rest) n =
    (let (effs, rest', n') = readLoop rest (n\<lparr>n_tx := n_tx n @ [zbossEncodeACK (q AND 3)]\<rparr>)
     in (map (\<lambda>r. OnReport (report_event a r)) recs @ effs, rest', n'))"
proof -
  define hl where "hl = [zbossHLVersion, zbossHLIndication] @ le_put 2 zbossCmdAPSDEDataInd @ aps_wire a zcl"
  define ll where "ll = \<lparr>ll_Length = word_of_nat (7 + length hl), ll_Type = zbossLLType, ll_Flags = ll_flags q\<rparr>"
  define fr where "fr = \<lparr>zf_LL = ll, zf_HL = \<lparr>hl_Version = 0, hl_PacketType = zbossHLIndication,
      hl_CallID = zbossCmdAPSDEDataInd, hl_TSN = 0, hl_StatusCat = 0, hl_StatusCode = 0\<rparr>, zf_Payload = aps_wire a zcl\<rparr>"
  have lz: "0 < length zcl" "length zcl < 65536" using assms(7,8) by simp_all
  have l: "length hl \<le> 4091" using assms(8) by (simp add: hl_def aps_fields(1)[OF lz])
  have dec: "zbossDecodeHL ll hl = Inr fr" unfolding hl_def fr_def by (rule HL_indication)
  note loop = readLoop_frame[OF assms(1,3) l assms(9)[folded hl_def] dec[unfolded ll_def]]
  let ?n = "n\<lparr>n_tx := n_tx n @ [zbossEncodeACK (q AND 3)]\<rparr>"
  have aps: "handleAPSDEDataInd (aps_wire a zcl) ?n = (map (\<lambda>r. OnReport (report_event a r)) recs, ?n)"
    unfolding assms(7) by (rule report_handled) (use assms(2,4-8) in simp_all)
  have "handleFrame True f n = (map (\<lambda>r. OnReport (report_event a r)) recs, ?n)"
    unfolding handleFrame_def loop(1)
    by (simp add: fr_def ll_def sendACK_def port_write_def handleIndication_def aps)
  then show ?thesis unfolding loop(2) by simp
qed

text \<open>
  from the radio to the application. A ZCL Report Attributes frame of a device, carried by an APS data indication
  in a ZBOSS frame that arrives on the serial line after arbitrary noise, is acknowledged and makes the driver call the
  report callback once per attribute record, in order, with the source address, endpoint, cluster, link quality, type
  and raw value of the report; the loop then goes on behind the frame.
\<close>

theorem report_delivery:
  assumes "\<not> n_done n" "h_onReport (n_handlers n)" "\<not> has_signature noise" "list_all record_complete recs"
    "fc AND 3 = zclFrameTypeGlobal" "fc AND zclFlagMfrSpecific = 0"
    "zcl = [fc, sq, zclCmdReportAttributes] @ concat (map record_wire recs)" "length zcl \<le> 4063"
    "zbossEncodeDataFrame q ([zbossHLVersion, zbossHLIndication] @ le_put 2 zbossCmdAPSDEDataInd @ aps_wire a zcl) = Some f"
  shows "readLoop (noise @ f @ rest) n =
    (let (effs, rest', n') = readLoop rest (n\<lparr>n_tx := n_tx n @ [zbossEncodeACK (q AND 3)]\<rparr>)
     in (map (\<lambda>r. OnReport (report_event a r)) recs @ effs, rest', n'))"
  using assms by (rule report_frame)

section \<open>Concrete runs\<close>

definition demo_open :: ncp where
  "demo_open = (case request_open zbossCmdGetChannel [] (new_ncp all_handlers) of (_, _, _, _, n) \<Rightarrow> n)"

lemma demo_open_simps:
  "request_open zbossCmdGetChannel [] (new_ncp all_handlers) =
     (1, 0, 1, zbossEncodeRequest zbossCmdGetChannel 1 1 [], demo_open)"
  "n_hlPending demo_open 1 = Some 0" "n_hlCh demo_open 0 = empty_chan" "\<not> n_done demo_open" "\<not> n_closed demo_open"
  "n_tx demo_open = []"
  by (simp_all add: demo_open_def request_open_def nextTSN_def nextPktSeq_def new_ncp_def Let_def)

lemma demo_response:
  obtains f where "zbossEncodeDataFrame 2
     ([zbossHLVersion, zbossHLResponse] @ le_put 2 zbossCmdGetChannel @ [1, 0, 0] @ [0, 11]) = Some f"
  using encode_data_frame[of "[zbossHLVersion, zbossHLResponse] @ le_put 2 zbossCmdGetChannel @ [1, 0, 0] @ [0, 11]" 2]
  by simp

lemma demo_open_reachable:
  "reachable all_handlers \<lparr>s_n = demo_open, s_reqs = [(1, 0)], s_reads = []\<rparr>"
proof -
  have "sys_step (sys_init all_handlers) ((sys_init all_handlers)\<lparr>s_n := demo_open, s_reqs := (1, 0) # s_reqs (sys_init all_handlers)\<rparr>)"
    by (rule sys_step.req_open[where callID = zbossCmdGetChannel and payload = "[]" and q = 1
          and raw = "zbossEncodeRequest zbossCmdGetChannel 1 1 []"]) (simp add: sys_init_def demo_open_simps)
  then show ?thesis by (simp add: reachable_def sys_init_def)
qed

theorem response_matches_request_witness:
  "\<exists>s fr. reachable all_handlers s \<and> (1, 0) \<in> set (s_reqs s) \<and> request_recv (n_hlCh (s_n s) 0) = ReqOK fr
     \<and> zf_Payload fr = [0, 11] \<and> hl_TSN (zf_HL fr) = 1"
proof -
  obtain f where f: "zbossEncodeDataFrame 2
     ([zbossHLVersion, zbossHLResponse] @ le_put 2 zbossCmdGetChannel @ [1, 0, 0] @ [0, 11]) = Some f"
    by (rule demo_response)
  obtain fr n' where h: "handleFrame True f demo_open = ([], n')" "zf_Payload fr = [0, 11]"
      "request_recv (n_hlCh n' 0) = ReqOK fr"
    using handle_response[OF _ f demo_open_simps(2)] by (auto simp: demo_open_simps empty_chan_def)
  let ?s = "\<lparr>s_n = n', s_reqs = [(1, 0)], s_reads = []\<rparr>"
  have "sys_step \<lparr>s_n = demo_open, s_reqs = [(1, 0)], s_reads = []\<rparr> ?s"
    using sys_step.rx[of True f "\<lparr>s_n = demo_open, s_reqs = [(1, 0)], s_reads = []\<rparr>"] h(1) by simp
  with demo_open_reachable have r: "reachable all_handlers ?s"
    unfolding reachable_def by (rule rtranclp.rtrancl_into_rtrancl)
  have "hl_TSN (zf_HL fr) = 1" using response_matches_request[OF r, of 1 0 fr] h(3) by simp
  with r h show ?thesis by (intro exI[of _ ?s] exI[of _ fr]) simp
qed

theorem link_state_bounds_witness:
  "n_llPktSeq demo_open \<le> 3 \<and> length (n_llAckCh demo_open) \<le> 4 \<and> fst (nextPktSeq demo_open) \<in> {1, 2, 3}"
  using link_state_bounds[OF demo_open_reachable] by simp

theorem close_releases_requests_witness:
  "n_hlPending (Close demo_open) = Map.empty \<and> request_recv (n_hlCh (Close demo_open) 0) = ReqCancelled"
  using close_releases_requests[OF demo_open_simps(5,2)] by (simp add: demo_open_simps request_recv_def empty_chan_def)

theorem read_closed_is_success_witness:
  "\<exists>n ch. n = snd (snd (snd (read_open 0x1234 1 6 [0] (new_ncp all_handlers))))
     \<and> n_zclPending n 1 = Some ch \<and> read_recv (n_zclCh n ch) = None \<and> read_recv (n_zclCh (Close n) ch) = Some []"
proof -
  define n where "n = snd (snd (snd (read_open 0x1234 1 6 [0] (new_ncp all_handlers))))"
  have n: "n_zclPending n 1 = Some 0" "n_zclCh n 0 = empty_chan" "\<not> n_closed n"
    by (simp_all add: n_def read_open_def nextZCLSeq_def new_ncp_def Let_def)
  show ?thesis using read_closed_is_success[OF n(1) _ n(3)] n
    by (intro exI[of _ n] exI[of _ 0]) (simp add: n_def[symmetric] empty_chan_def read_recv_def)
qed

theorem response_delivery_witness:
  "\<exists>f fr n'. readLoop ([0x55, 0xDE] @ f @ []) demo_open = readLoop [] n'
     \<and> n_tx n' = [zbossEncodeACK 2] \<and> zf_Payload fr = [0, 11] \<and> request_recv (n_hlCh n' 0) = ReqOK fr"
proof -
  obtain f where f: "zbossEncodeDataFrame 2
     ([zbossHLVersion, zbossHLResponse] @ le_put 2 zbossCmdGetChannel @ [1, 0, 0] @ [0, 11]) = Some f"
    by (rule demo_response)
  show ?thesis
    using response_delivery[OF demo_open_simps(4) _ _ f demo_open_simps(2), of "[0x55, 0xDE]" "[]"]
    by (auto simp: demo_open_simps empty_chan_def)
qed

theorem report_delivery_witness:
  "\<exists>f. readLoop ([] @ f @ []) (new_ncp all_handlers) =
    ([OnReport \<lparr>rpt_SrcAddr = 0x1234, rpt_SrcEP = 1, rpt_ClusterID = 0x0402, rpt_AttrID = 0, rpt_DataType = TypeInt16,
        rpt_Value = [0x34, 0x08], rpt_LQI = 200, rpt_RSSI = 0xD8\<rparr>], [],
     (new_ncp all_handlers)\<lparr>n_tx := [zbossEncodeACK 1]\<rparr>)"
proof -
  define a where "a = \<lparr>ai_paramLen = 21, ai_fc = 0, ai_src = 0x1234, ai_dst = 0, ai_group = 0, ai_dstEP = 1, ai_srcEP = 1,
     ai_cluster = 0x0402, ai_profile = zclProfileHA, ai_counter = 9, ai_srcMac = 0x1234, ai_dstMac = 0, ai_lqi = 200,
     ai_rssi = 0xD8, ai_key = 0\<rparr>"
  define rec where "rec = \<lparr>rec_AttrID = 0, rec_DataType = TypeInt16, rec_Value = [0x34, 0x08]\<rparr>"
  define zcl where "zcl = [0x18, 5, zclCmdReportAttributes] @ concat (map record_wire [rec])"
  have lz: "length zcl = 8" by (simp add: zcl_def rec_def record_wire_def)
  define hl where "hl = [zbossHLVersion, zbossHLIndication] @ le_put 2 zbossCmdAPSDEDataInd @ aps_wire a zcl"
  have "length hl \<le> 65526" using aps_fields(1)[of zcl a] lz by (simp add: hl_def)
  from encode_data_frame[OF this, of 1] obtain f where f: "zbossEncodeDataFrame 1 hl = Some f" by blast
  have d: "\<not> n_done (new_ncp all_handlers)" "h_onReport (n_handlers (new_ncp all_handlers))"
    "n_tx (new_ncp all_handlers) = []" by (simp_all add: new_ncp_def)
  have c: "list_all record_complete [rec]"
    by (simp add: rec_def record_complete_def complete_value_def value_len_def typeSize_simps)
  have e: "readLoop [] n = ([], [], n)" for n by (simp add: readLoop.simps)
  show ?thesis
    using report_delivery[OF d(1,2) _ c _ _ zcl_def _ f[unfolded hl_def], of "[]" "[]"] lz
    by (intro exI[of _ f]) (simp add: e d report_event_def a_def rec_def)
qed

end
