(* ===== verification/NCP_Api.thy ===== *)
theory NCP_Api
  imports NCP_Driver
begin

text \<open>
  The operations of the \<^verbatim>\<open>NCP\<close> interface as \<^verbatim>\<open>internal/ncp/nrf52840.go\<close> implements them on
  top of \<^verbatim>\<open>request\<close>: initialisation, network formation and start, and the ZDO and ZCL
  commands. The transport is an explicit state: \<open>l_replies\<close> holds what each request will
  receive (\<open>None\<close> when it fails without a response: write error, timeout, cancellation, close,
  reset), \<open>l_sent\<close> the requests made, with their payloads; \<open>l_zclSeq\<close> and \<open>l_info\<close> are the
  fields \<^verbatim>\<open>zclSeq\<close> and \<^verbatim>\<open>ncpInfo\<close> of the driver. The replies are arbitrary, so every
  behaviour of the NCP and of the serial line is covered.
\<close>

section \<open>Requests\<close>

record link =
  l_replies :: "zbossFrame option list"
  l_sent :: "(u16 \<times> bytes) list"
  l_zclSeq :: u32
  l_info :: NCPInfo

text \<open>The result of \<^verbatim>\<open>request\<close>: a response; an error with the response that carries a bad status; or an error alone.\<close>

datatype outcome = Reply zbossFrame | StatusError zbossFrame | Failed

definition outcome_of :: "zbossFrame option \<Rightarrow> outcome" where
  "outcome_of r =
     (case r of
        None \<Rightarrow> Failed
      | Some f \<Rightarrow> if hl_StatusCat (zf_HL f) \<noteq> 0 \<or> hl_StatusCode (zf_HL f) \<noteq> 0 then StatusError f else Reply f)"

definition request :: "u16 \<Rightarrow> bytes \<Rightarrow> link \<Rightarrow> outcome \<times> link" where
  "request callID payload l =
     (outcome_of (case l_replies l of [] \<Rightarrow> None | r # rs \<Rightarrow> r),
      l\<lparr>l_replies := tl (l_replies l), l_sent := l_sent l @ [(callID, payload)]\<rparr>)"

text \<open>Sequencing with errors: \<open>must e m\<close> turns a failed request into the error \<open>e\<close>.\<close>

type_synonym ('e, 'a) act = "link \<Rightarrow> ('e + 'a) \<times> link"

definition must :: "'e \<Rightarrow> u16 \<Rightarrow> bytes \<Rightarrow> ('e, zbossFrame) act" where
  "must e callID payload l =
     (case request callID payload l of (Reply f, l1) \<Rightarrow> (Inr f, l1) | (_, l1) \<Rightarrow> (Inl e, l1))"

definition andThen :: "('e, 'a) act \<Rightarrow> ('a \<Rightarrow> ('e, 'b) act) \<Rightarrow> ('e, 'b) act" where
  "andThen m k l = (case m l of (Inl e, l1) \<Rightarrow> (Inl e, l1) | (Inr x, l1) \<Rightarrow> k x l1)"

definition ret :: "'a \<Rightarrow> ('e, 'a) act" where
  "ret x l = (Inr x, l)"

definition ignore :: "u16 \<Rightarrow> bytes \<Rightarrow> ('e, unit) act" where
  "ignore callID payload l = (Inr (), snd (request callID payload l))"

section \<open>Initialisation\<close>

definition version_string :: "u32 \<Rightarrow> string" where
  "version_string v =
     dec_nat (unat (drop_bit 24 v AND 0xFF)) @ ''.'' @ dec_nat (unat (drop_bit 16 v AND 0xFF)) @ ''.''
     @ dec_nat (unat (drop_bit 8 v AND 0xFF)) @ ''.'' @ dec_nat (unat (v AND 0xFF))"

definition module_info :: "bytes \<Rightarrow> NCPInfo option" where
  "module_info p =
     (if 12 \<le> length p
      then Some \<lparr>FWVersion = le_get (slice 0 4 p), StackVersion = version_string (le_get (slice 4 8 p)),
                 ProtocolVersion = le_get (slice 8 12 p), NetworkKey = None\<rparr>
      else None)"

datatype init_error = InitVersion | InitPolicy string

definition tcPolicies :: "(u16 \<times> byte \<times> string) list" where
  "tcPolicies =
    [(0x0000, 0, ''TC link keys required=false''), (0x0001, 0, ''IC required=false''),
     (0x0002, 1, ''TC rejoin enabled=true''), (0x0003, 0, ''ignore TC rejoin=false''),
     (0x0004, 0, ''APS insecure join=false''), (0x0005, 0, ''disable mgmt chan update=false'')]"

definition setTCPolicy :: "'e \<Rightarrow> u16 \<Rightarrow> byte \<Rightarrow> ('e, zbossFrame) act" where
  "setTCPolicy e policyType v = must e zbossCmdSetTCPolicy (le_put 2 policyType @ [v])"

primrec set_policies :: "(u16 \<times> byte \<times> string) list \<Rightarrow> (init_error, unit) act" where
  "set_policies [] = ret ()"
| "set_policies (p # ps) =
     andThen (setTCPolicy (InitPolicy (snd (snd p))) (fst p) (fst (snd p))) (\<lambda>_. set_policies ps)"

text \<open>The module information replaces the cached one before the policies are set.\<close>

definition store_info :: "bytes \<Rightarrow> ('e, unit) act" where
  "store_info p l = (Inr (), case module_info p of Some i \<Rightarrow> l\<lparr>l_info := i\<rparr> | None \<Rightarrow> l)"

definition Init :: "(init_error, unit) act" where
  "Init = andThen (must InitVersion zbossCmdGetModuleVersion [])
     (\<lambda>f. andThen (store_info (zf_Payload f)) (\<lambda>_. set_policies tcPolicies))"

section \<open>Network formation\<close>

record NetworkConfig =
  cfg_Channel :: byte
  cfg_PanID :: u16
  cfg_ExtPanID :: bytes

datatype form_error =
    FormRole | FormExtPan | FormChannel | FormRandom | FormKey | FormCancelled | FormNetworkFailed
  | FormPan | FormRxOn

definition channel_mask :: "byte \<Rightarrow> u32" where
  "channel_mask ch = push_bit (unat ch) 1"

definition form_payload :: "NetworkConfig \<Rightarrow> bytes" where
  "form_payload cfg = [0x01, 0x00] @ le_put 4 (channel_mask (cfg_Channel cfg)) @ [0x05, 0x00]
     @ le_put 2 (0 :: u16) @ cfg_ExtPanID cfg"

text \<open>Up to three attempts, at most; \<open>cancelled k\<close> says whether the context ends in the wait after
  the failed attempt \<open>k\<close>. \<open>FormNetworkFailed\<close> carries on to the caller's error.\<close>

function form_attempts :: "(nat \<Rightarrow> bool) \<Rightarrow> bytes \<Rightarrow> nat \<Rightarrow> (form_error, unit) act" where
  "form_attempts cancelled buf attempt l =
     (if 3 < attempt then (Inl FormNetworkFailed, l)
      else case request zbossCmdNwkFormation buf l of
        (Reply f, l1) \<Rightarrow> (Inr (), l1)
      | (_, l1) \<Rightarrow> if cancelled attempt then (Inl FormCancelled, l1)
                   else form_attempts cancelled buf (attempt + 1) l1)"
  by pat_completeness auto
termination
  by (relation "measure (\<lambda>(_, _, a, _). 4 - a)") auto

declare form_attempts.simps [simp del]

text \<open>\<open>rnd\<close> is what \<^verbatim>\<open>rand.Read\<close> gives: 16 bytes, or an error. The network key is cached as soon as
  the NCP has accepted it, whatever happens afterwards.\<close>

definition store_key :: "bytes \<Rightarrow> ('e, unit) act" where
  "store_key key l = (Inr (), l\<lparr>l_info := (l_info l)\<lparr>NetworkKey := Some key\<rparr>\<rparr>)"

definition FormNetwork :: "(nat \<Rightarrow> bool) \<Rightarrow> bytes option \<Rightarrow> NetworkConfig \<Rightarrow> (form_error, unit) act" where
  "FormNetwork cancelled rnd cfg =
     andThen (must FormRole zbossCmdSetZigbeeRole [0x00]) (\<lambda>_.
     andThen (must FormExtPan zbossCmdSetExtPanID (cfg_ExtPanID cfg)) (\<lambda>_.
     andThen (must FormChannel zbossCmdSetChannelMask ([0x00] @ le_put 4 (channel_mask (cfg_Channel cfg)))) (\<lambda>_.
     case rnd of
       None \<Rightarrow> (\<lambda>l. (Inl FormRandom, l))
     | Some key \<Rightarrow>
        andThen (must FormKey zbossCmdSetNwkKey (key @ [0x00])) (\<lambda>_.
        andThen (store_key key) (\<lambda>_.
        andThen (form_attempts cancelled (form_payload cfg) 1) (\<lambda>_.
        andThen (must FormPan zbossCmdSetPanID (le_put 2 (cfg_PanID cfg))) (\<lambda>_.
        andThen (must FormRxOn zbossCmdSetRxOnWhenIdle [0x01]) (\<lambda>_.
        andThen (ignore zbossCmdSetEDTimeout [0x08]) (\<lambda>_.
        ignore zbossCmdSetMaxChildren [100])))))))))"

definition buildSimpleDescPayload :: "byte \<Rightarrow> u16 \<Rightarrow> u16 \<Rightarrow> byte \<Rightarrow> u16 list \<Rightarrow> u16 list \<Rightarrow> bytes" where
  "buildSimpleDescPayload ep profileID deviceID devVersion inClusters outClusters =
     [ep] @ le_put 2 profileID @ le_put 2 deviceID
     @ [devVersion, word_of_nat (length inClusters), word_of_nat (length outClusters)]
     @ concat (map (le_put 2) inClusters) @ concat (map (le_put 2) outClusters)"

datatype start_error = StartFailed | StartEndpoint

definition StartNetwork :: "(start_error, unit) act" where
  "StartNetwork = andThen (must StartFailed zbossCmdNwkStartWithoutForm []) (\<lambda>_.
     andThen (must StartEndpoint zbossCmdAFSetSimpleDesc (buildSimpleDescPayload 1 zclProfileHA 0x0005 0 [] []))
       (\<lambda>_. ret ()))"

definition PermitJoin :: "byte \<Rightarrow> (unit, zbossFrame) act" where
  "PermitJoin duration = must () zbossCmdZDOPermitJoiningReq [0x00, 0x00, duration, 0x01]"

definition MgmtLeave :: "u16 \<Rightarrow> bytes \<Rightarrow> (unit, zbossFrame) act" where
  "MgmtLeave shortAddr ieeeAddr = must () zbossCmdZDOMgmtLeaveReq (le_put 2 shortAddr @ ieeeAddr @ [0x00])"

section \<open>Queries\<close>

record NetworkInfo =
  ni_Channel :: byte
  ni_PanID :: u16
  ni_ExtPanID :: bytes

text \<open>Each of the three queries updates its field on a long enough response and records an error otherwise;
  a short response is neither. The result is an error only when channel and PAN id are both zero.\<close>

definition NetworkInfo_query :: "(unit, NetworkInfo) act" where
  "NetworkInfo_query l =
     (let (o1, l1) = request zbossCmdGetChannel [] l;
          (o2, l2) = request zbossCmdGetPanID [] l1;
          (o3, l3) = request zbossCmdGetExtPanID [] l2;
          ch = (case o1 of Reply f \<Rightarrow> if 2 \<le> length (zf_Payload f) then zf_Payload f ! 1 else 0 | _ \<Rightarrow> 0);
          pan = (case o2 of Reply f \<Rightarrow> if 2 \<le> length (zf_Payload f) then le16 (zf_Payload f ! 0) (zf_Payload f ! 1) else 0
                 | _ \<Rightarrow> 0);
          ext = (case o3 of Reply f \<Rightarrow> if 8 \<le> length (zf_Payload f) then take 8 (zf_Payload f) else replicate 8 0
                 | _ \<Rightarrow> replicate 8 0);
          failed = (\<exists>x \<in> {o1, o2, o3}. case x of Reply _ \<Rightarrow> False | _ \<Rightarrow> True)
      in if ch = 0 \<and> pan = 0 \<and> failed then (Inl (), l3)
         else (Inr \<lparr>ni_Channel = ch, ni_PanID = pan, ni_ExtPanID = ext\<rparr>, l3))"

record NetworkScanResult =
  sc_ExtPanID :: bytes
  sc_PanID :: u16
  sc_UpdateID :: byte
  sc_Channel :: byte
  sc_StackProfile :: byte
  sc_PermitJoin :: bool
  sc_RouterCap :: bool
  sc_EDCap :: bool
  sc_LQI :: byte
  sc_RSSI :: byte

definition scan_entry :: "bytes \<Rightarrow> NetworkScanResult" where
  "scan_entry d = \<lparr>sc_ExtPanID = slice 0 8 d, sc_PanID = le16 (d ! 8) (d ! 9), sc_UpdateID = d ! 10,
     sc_Channel = d ! 12, sc_StackProfile = drop_bit 4 (d ! 13) AND 0x0F, sc_PermitJoin = (d ! 13 AND 0x01 \<noteq> 0),
     sc_RouterCap = (d ! 13 AND 0x02 \<noteq> 0), sc_EDCap = (d ! 13 AND 0x04 \<noteq> 0), sc_LQI = d ! 14, sc_RSSI = d ! 15\<rparr>"

fun scan_entries :: "nat \<Rightarrow> bytes \<Rightarrow> NetworkScanResult list" where
  "scan_entries 0 data = []"
| "scan_entries (Suc count) data =
     (if length data < 16 then [] else scan_entry (take 16 data) # scan_entries count (drop 16 data))"

definition NetworkScan :: "(unit, NetworkScanResult list) act" where
  "NetworkScan l =
     (case request zbossCmdNwkDiscovery ([0x01, 0x00] @ le_put 4 (0x07FFF800 :: u32) @ [0x05]) l of
        (Failed, l1) \<Rightarrow> (Inl (), l1)
      | (StatusError f, l1) \<Rightarrow>
          if hl_StatusCat (zf_HL f) = 0x02 \<and> hl_StatusCode (zf_HL f) = 0xEA then (Inr [], l1) else (Inl (), l1)
      | (Reply f, l1) \<Rightarrow>
          (case zf_Payload f of [] \<Rightarrow> (Inr [], l1) | c # ds \<Rightarrow> (Inr (scan_entries (unat c) ds), l1)))"

definition GetLocalIEEE :: "(unit, bytes) act" where
  "GetLocalIEEE = andThen (must () zbossCmdGetLocalIEEE [0x00])
     (\<lambda>f. ret (if 9 \<le> length (zf_Payload f) then slice 1 9 (zf_Payload f) else replicate 8 0))"

section \<open>ZDO\<close>

datatype zdo_error = ZdoRequest | ZdoEmpty | ZdoTruncated nat nat | ZdoTooShort nat

definition parse_active_eps :: "bytes \<Rightarrow> zdo_error + bytes" where
  "parse_active_eps p =
     (case p of
        [] \<Rightarrow> Inl ZdoEmpty
      | c # eps \<Rightarrow> if length p < 1 + unat c then Inl (ZdoTruncated (1 + unat c) (length p)) else Inr (take (unat c) eps))"

definition ActiveEndpoints :: "u16 \<Rightarrow> (zdo_error, bytes) act" where
  "ActiveEndpoints shortAddr = andThen (must ZdoRequest zbossCmdZDOActiveEPReq (le_put 2 shortAddr))
     (\<lambda>f l. (parse_active_eps (zf_Payload f), l))"

record SimpleDescriptor =
  sd_Endpoint :: byte
  sd_ProfileID :: u16
  sd_DeviceID :: u16
  sd_InClusters :: "u16 list"
  sd_OutClusters :: "u16 list"

text \<open>One of the two cluster loops: at most \<open>count\<close> ids while two bytes are left; the ids and the rest.\<close>

fun read_clusters :: "nat \<Rightarrow> bytes \<Rightarrow> u16 list \<times> bytes" where
  "read_clusters (Suc count) (a # b # r) = (let (cs, r') = read_clusters count r in (le16 a b # cs, r'))"
| "read_clusters _ r = ([], r)"

definition parse_simple_desc :: "bytes \<Rightarrow> zdo_error + SimpleDescriptor" where
  "parse_simple_desc p =
     (if length p < 8 then Inl (ZdoTooShort (length p))
      else let (ins, r1) = read_clusters (unat (p ! 6)) (drop 8 p); (outs, r2) = read_clusters (unat (p ! 7)) r1
           in Inr \<lparr>sd_Endpoint = p ! 0, sd_ProfileID = le16 (p ! 1) (p ! 2), sd_DeviceID = le16 (p ! 3) (p ! 4),
                   sd_InClusters = ins, sd_OutClusters = outs\<rparr>)"

definition SimpleDescriptor_query :: "u16 \<Rightarrow> byte \<Rightarrow> (zdo_error, SimpleDescriptor) act" where
  "SimpleDescriptor_query shortAddr endpoint =
     andThen (must ZdoRequest zbossCmdZDOSimpleDescReq (le_put 2 shortAddr @ [endpoint]))
       (\<lambda>f l. (parse_simple_desc (zf_Payload f), l))"

record BindRequest =
  br_TargetShortAddr :: u16
  br_SrcIEEE :: bytes
  br_SrcEP :: byte
  br_ClusterID :: u16
  br_DstIEEE :: bytes
  br_DstEP :: byte

definition bind_payload :: "BindRequest \<Rightarrow> bytes" where
  "bind_payload r = le_put 2 (br_TargetShortAddr r) @ br_SrcIEEE r @ [br_SrcEP r] @ le_put 2 (br_ClusterID r)
     @ [zbossAddrModeIEEE] @ br_DstIEEE r @ [br_DstEP r]"

definition Bind :: "BindRequest \<Rightarrow> (unit, zbossFrame) act" where
  "Bind r = must () zbossCmdZDOBindReq (bind_payload r)"

definition Unbind :: "BindRequest \<Rightarrow> (unit, zbossFrame) act" where
  "Unbind r = must () zbossCmdZDOUnbindReq (bind_payload r)"

section \<open>ZCL\<close>

definition link_zclSeq :: "link \<Rightarrow> byte \<times> link" where
  "link_zclSeq l = (ucast (l_zclSeq l + 1), l\<lparr>l_zclSeq := l_zclSeq l + 1\<rparr>)"

text \<open>\<open>answer\<close> is what the wait for the ZCL response gives: its records, or \<open>None\<close> on timeout or close.\<close>

definition ReadAttributes ::
  "bytes option \<Rightarrow> u16 \<Rightarrow> byte \<Rightarrow> u16 \<Rightarrow> u16 list \<Rightarrow> (unit, AttributeResponse list) act" where
  "ReadAttributes answer dstAddr dstEP clusterID attrIDs l =
     (let (sq, l1) = link_zclSeq l in
      andThen (must () zbossCmdAPSDEDataReq
          (buildAPSDEDataReq dstAddr dstEP 1 clusterID zclProfileHA 30 (zclBuildReadAttributes sq attrIDs)))
        (\<lambda>_ l2. (case answer of None \<Rightarrow> Inl () | Some d \<Rightarrow> Inr (parseAttributeResponses d), l2)) l1)"

definition WriteAttributes :: "u16 \<Rightarrow> byte \<Rightarrow> u16 \<Rightarrow> AttributeRecord list \<Rightarrow> (unit, zbossFrame) act" where
  "WriteAttributes dstAddr dstEP clusterID records l =
     (let (sq, l1) = link_zclSeq l in
      must () zbossCmdAPSDEDataReq
        (buildAPSDEDataReq dstAddr dstEP 1 clusterID zclProfileHA 30 (zclBuildWriteAttributes sq records)) l1)"

definition SendCommand :: "u16 \<Rightarrow> byte \<Rightarrow> u16 \<Rightarrow> byte \<Rightarrow> bytes \<Rightarrow> (unit, zbossFrame) act" where
  "SendCommand dstAddr dstEP clusterID cmdID payload l =
     (let (sq, l1) = link_zclSeq l in
      must () zbossCmdAPSDEDataReq
        (buildAPSDEDataReq dstAddr dstEP 1 clusterID zclProfileHA 30 (zclBuildClusterCommand sq cmdID payload)) l1)"

definition ConfigureReporting ::
  "u16 \<Rightarrow> byte \<Rightarrow> u16 \<Rightarrow> u16 \<Rightarrow> byte \<Rightarrow> u16 \<Rightarrow> u16 \<Rightarrow> bytes \<Rightarrow> (unit, zbossFrame) act" where
  "ConfigureReporting dstAddr dstEP clusterID attrID dataType minInterval maxInterval reportChange l =
     (let (sq, l1) = link_zclSeq l in
      must () zbossCmdAPSDEDataReq
        (buildAPSDEDataReq dstAddr dstEP 1 clusterID zclProfileHA 30
          (zclBuildConfigureReporting sq attrID dataType minInterval maxInterval reportChange)) l1)"

text \<open>\<^verbatim>\<open>GetNCPInfo\<close> returns a copy of the cached value, key included; a value in HOL is its own copy.\<close>

definition GetNCPInfo :: "link \<Rightarrow> NCPInfo" where
  "GetNCPInfo l = l_info l"

section \<open>Formation follows the order the NCP requires\<close>

text \<open>The commands an action adds to the link.\<close>

abbreviation cmds :: "link \<Rightarrow> u16 list" where
  "cmds l \<equiv> map fst (l_sent l)"

text \<open>
  \<open>sends m S\<close>: the commands the action sends are a prefix of a sequence in \<open>S\<close>, and a whole
  sequence of \<open>S\<close> when it succeeds.
\<close>

definition sends :: "('e, 'a) act \<Rightarrow> u16 list set \<Rightarrow> bool" where
  "sends m S \<longleftrightarrow> (\<forall>l r l'. m l = (r, l') \<longrightarrow>
     (\<exists>cs \<in> S. (\<exists>k. cmds l' = cmds l @ take k cs) \<and> ((\<exists>x. r = Inr x) \<longrightarrow> cmds l' = cmds l @ cs)))"

lemma sendsI:
  assumes "\<And>l r l'. m l = (r, l') \<Longrightarrow>
    \<exists>cs \<in> S. (\<exists>k. cmds l' = cmds l @ take k cs) \<and> ((\<exists>x. r = Inr x) \<longrightarrow> cmds l' = cmds l @ cs)"
  shows "sends m S"
  using assms by (auto simp: sends_def)

lemma sends_must: "sends (must e c p) {[c]}"
  by (rule sendsI, unfold must_def request_def)
    (auto split: outcome.splits intro: exI[of _ 1])

lemma sends_ignore: "sends (ignore c p) {[c]}"
  by (rule sendsI, unfold ignore_def request_def) (auto intro: exI[of _ 1])

lemma sends_key: "sends (store_key k) {[]}"
  by (rule sendsI) (auto simp: store_key_def)

lemma sends_andThen:
  assumes "sends m S" "\<And>x. sends (k x) T" "T \<noteq> {}"
  shows "sends (andThen m k) {cs @ ds | cs ds. cs \<in> S \<and> ds \<in> T}"
proof (rule sendsI)
  fix l r l' assume run: "andThen m k l = (r, l')"
  obtain r1 l1 where m: "m l = (r1, l1)" by (cases "m l") auto
  show "\<exists>cs \<in> {cs @ ds | cs ds. cs \<in> S \<and> ds \<in> T}.
     (\<exists>j. cmds l' = cmds l @ take j cs) \<and> ((\<exists>x. r = Inr x) \<longrightarrow> cmds l' = cmds l @ cs)"
  proof (cases r1)
    case (Inl e)
    with run m have "r = Inl e" "l' = l1" by (simp_all add: andThen_def)
    moreover obtain cs j where "cs \<in> S" "cmds l1 = cmds l @ take j cs" using assms(1) m unfolding sends_def by blast
    moreover obtain ds where "ds \<in> T" using assms(3) by blast
    moreover have "take j cs = take (min j (length cs)) (cs @ ds)" by (simp add: min_def)
    ultimately show ?thesis
      by (intro bexI[of _ "cs @ ds"] conjI exI[of _ "min j (length cs)"]) auto
  next
    case (Inr x)
    then have "k x l1 = (r, l')" using run m by (simp add: andThen_def)
    then obtain j ds where "ds \<in> T" "cmds l' = cmds l1 @ take j ds" "(\<exists>x. r = Inr x) \<longrightarrow> cmds l' = cmds l1 @ ds"
      using assms(2)[of x] unfolding sends_def by meson
    moreover obtain cs where "cs \<in> S" "cmds l1 = cmds l @ cs" using assms(1) m Inr unfolding sends_def by blast
    ultimately show ?thesis by (intro bexI[of _ "cs @ ds"] conjI exI[of _ "length cs + j"]) auto
  qed
qed

lemma sends_mono: "sends m S \<Longrightarrow> S \<subseteq> T \<Longrightarrow> sends m T"
  unfolding sends_def by (meson subsetD)

section \<open>Requests and their answers\<close>

text \<open>
  \<open>accepted rs j\<close>: among the answers \<open>rs\<close> the request number \<open>j\<close> gets a response with status zero. \<open>traced l t l'\<close>: from
  \<open>l\<close> to \<open>l'\<close> exactly the requests of \<open>t\<close> were sent, each with whether it was answered so.
\<close>

definition accepted :: "zbossFrame option list \<Rightarrow> nat \<Rightarrow> bool" where
  "accepted rs j \<longleftrightarrow> (case drop j rs of Some f # _ \<Rightarrow> hl_StatusCat (zf_HL f) = 0 \<and> hl_StatusCode (zf_HL f) = 0 | _ \<Rightarrow> False)"

type_synonym request_trace = "((u16 \<times> bytes) \<times> bool) list"

definition traced :: "link \<Rightarrow> request_trace \<Rightarrow> link \<Rightarrow> bool" where
  "traced l t l' \<longleftrightarrow> l_sent l' = l_sent l @ map fst t \<and> l_replies l' = drop (length t) (l_replies l)
     \<and> (\<forall>j < length t. snd (t ! j) = accepted (l_replies l) j)"

lemma traced_append:
  assumes "traced l t l1" "traced l1 u l2"
  shows "traced l (t @ u) l2"
proof -
  have "accepted (drop n rs) j = accepted rs (n + j)" for n j rs by (simp add: accepted_def add.commute)
  then show ?thesis using assms by (auto simp: traced_def nth_append add.commute)
qed

lemma traced_Nil: "traced l [] l"
  by (simp add: traced_def)

lemma traced_info: "traced l t (l'\<lparr>l_info := i\<rparr>) = traced l t l'"
  by (simp add: traced_def)

lemma request_traced:
  assumes "request c p l = (ou, l')"
  shows "traced l [((c, p), \<exists>f. ou = Reply f)] l' \<and> l_info l' = l_info l"
  using assms by (cases "l_replies l") (auto simp: request_def traced_def accepted_def outcome_of_def split: option.splits if_splits)

lemma must_then:
  assumes "andThen (must e c p) k l = (r, l')"
  obtains (failed) "r = Inl e" "traced l [((c, p), False)] l'"
  | (ok) f l1 where "traced l [((c, p), True)] l1" "l_info l1 = l_info l" "k f l1 = (r, l')"
proof -
  obtain ou l1 where o: "request c p l = (ou, l1)" by (metis prod.collapse)
  then show thesis using assms request_traced[OF o] that
    by (cases ou) (auto simp: andThen_def must_def)
qed

lemma ignore_traced: "ignore c p l = (r, l') \<Longrightarrow> \<exists>a. r = Inr () \<and> traced l [((c, p), a)] l' \<and> l_info l' = l_info l"
  using request_traced[of c p l] by (cases "request c p l") (auto simp: ignore_def)

section \<open>Network formation, step by step\<close>

lemma form_attempts_info: "form_attempts cancelled buf attempt l = (r, l') \<Longrightarrow> l_info l' = l_info l"
proof (induction cancelled buf attempt l rule: form_attempts.induct)
  case (1 cancelled buf attempt l)
  obtain ou l1 where o: "request zbossCmdNwkFormation buf l = (ou, l1)" by (metis prod.collapse)
  then have "l_info l1 = l_info l" using request_traced by blast
  then show ?case using 1 o by (subst (asm) (3) form_attempts.simps) (auto split: if_splits outcome.splits)
qed

text \<open>The attempts: those that failed, then one that succeeded, or the end of the context or of the attempts.\<close>

lemma form_attempts_traced:
  assumes "form_attempts cancelled buf attempt l = (r, l')" "0 < attempt"
  shows "\<exists>j. (case r of
       Inr u \<Rightarrow> attempt + j \<le> 3 \<and> traced l (replicate j ((zbossCmdNwkFormation, buf), False) @ [((zbossCmdNwkFormation, buf), True)]) l'
     | Inl e \<Rightarrow> traced l (replicate j ((zbossCmdNwkFormation, buf), False)) l' \<and> attempt + j \<le> max attempt 4
         \<and> (e = FormCancelled \<and> 0 < j \<and> cancelled (attempt + j - 1) \<or> e = FormNetworkFailed \<and> attempt + j = max attempt 4))"
  using assms
proof (induction cancelled buf attempt l rule: form_attempts.induct)
  case (1 cancelled buf attempt l)
  show ?case
  proof (cases "3 < attempt")
    case True
    then show ?thesis using 1(3) by (auto simp: form_attempts.simps traced_Nil intro!: exI[of _ 0])
  next
    case False
    obtain ou l1 where o: "request zbossCmdNwkFormation buf l = (ou, l1)" by (metis prod.collapse)
    note t = conjunct1[OF request_traced[OF o]]
    consider (ok) f where "ou = Reply f" | (over) "\<forall>f. ou \<noteq> Reply f" "cancelled attempt" | (again) "\<forall>f. ou \<noteq> Reply f" "\<not> cancelled attempt" by blast
    then show ?thesis
    proof cases
      case ok
      then have "r = Inr ()" "l' = l1" using 1(3) False o by (simp_all add: form_attempts.simps[of cancelled buf attempt])
      then show ?thesis using t ok False by (intro exI[of _ 0]) simp
    next
      case over
      then have "r = Inl FormCancelled" "l' = l1" using 1(3) False o
        by (auto simp: form_attempts.simps[of cancelled buf attempt] split: outcome.splits)
      then show ?thesis using t over False by (intro exI[of _ 1]) simp
    next
      case again
      then have rec: "form_attempts cancelled buf (attempt + 1) l1 = (r, l')" using 1(3) False o
        by (auto simp: form_attempts.simps[of cancelled buf attempt] split: outcome.splits)
      have t1: "traced l [((zbossCmdNwkFormation, buf), False)] l1" using t again by simp
      obtain j where j: "case r of
          Inr u \<Rightarrow> attempt + 1 + j \<le> 3 \<and> traced l1 (replicate j ((zbossCmdNwkFormation, buf), False) @ [((zbossCmdNwkFormation, buf), True)]) l'
        | Inl e \<Rightarrow> traced l1 (replicate j ((zbossCmdNwkFormation, buf), False)) l' \<and> attempt + 1 + j \<le> max (attempt + 1) 4
            \<and> (e = FormCancelled \<and> 0 < j \<and> cancelled (attempt + 1 + j - 1) \<or> e = FormNetworkFailed \<and> attempt + 1 + j = max (attempt + 1) 4)"
        using 1(1,2)[OF False o[symmetric]] rec again by (cases ou) auto
      show ?thesis using j False traced_append[OF t1]
        by (intro exI[of _ "Suc j"]) (auto simp: max_def split: sum.splits)
    qed
  qed
qed

text \<open>
  What the NCP requires, as the runs that are allowed. \<open>form_prefix\<close> are the settings before the formation, each of which
  must succeed before the next one is sent, and \<open>form_suffix\<close> those after it; \<open>form_failed\<close> says for every error
  how far the run came.
\<close>

definition form_prefix :: "NetworkConfig \<Rightarrow> bytes \<Rightarrow> (u16 \<times> bytes) list" where
  "form_prefix cfg key = [(zbossCmdSetZigbeeRole, [0]), (zbossCmdSetExtPanID, cfg_ExtPanID cfg),
     (zbossCmdSetChannelMask, [0] @ le_put 4 (2 ^ unat (cfg_Channel cfg) :: u32)), (zbossCmdSetNwkKey, key @ [0])]"

definition formation :: "NetworkConfig \<Rightarrow> u16 \<times> bytes" where
  "formation cfg = (zbossCmdNwkFormation, [1, 0] @ le_put 4 (2 ^ unat (cfg_Channel cfg) :: u32) @ [5, 0, 0, 0] @ cfg_ExtPanID cfg)"

definition set_pan :: "NetworkConfig \<Rightarrow> u16 \<times> bytes" where
  "set_pan cfg = (zbossCmdSetPanID, le_put 2 (cfg_PanID cfg))"

definition all_ok :: "(u16 \<times> bytes) list \<Rightarrow> request_trace" where
  "all_ok rs = map (\<lambda>r. (r, True)) rs"

definition formed :: "NetworkConfig \<Rightarrow> bytes \<Rightarrow> nat \<Rightarrow> request_trace" where
  "formed cfg key j = all_ok (form_prefix cfg key) @ replicate j (formation cfg, False) @ [(formation cfg, True)]"

fun form_failed :: "(nat \<Rightarrow> bool) \<Rightarrow> bytes option \<Rightarrow> NetworkConfig \<Rightarrow> form_error \<Rightarrow> request_trace \<Rightarrow> bool" where
  "form_failed c rnd cfg FormRole t \<longleftrightarrow> t = [((zbossCmdSetZigbeeRole, [0]), False)]"
| "form_failed c rnd cfg FormExtPan t \<longleftrightarrow> t = all_ok (take 1 (form_prefix cfg [])) @ [((zbossCmdSetExtPanID, cfg_ExtPanID cfg), False)]"
| "form_failed c rnd cfg FormChannel t \<longleftrightarrow> t = all_ok (take 2 (form_prefix cfg [])) @ [(form_prefix cfg [] ! 2, False)]"
| "form_failed c rnd cfg FormRandom t \<longleftrightarrow> rnd = None \<and> t = all_ok (take 3 (form_prefix cfg []))"
| "form_failed c rnd cfg FormKey t \<longleftrightarrow> (\<exists>key. rnd = Some key \<and> t = all_ok (take 3 (form_prefix cfg key)) @ [((zbossCmdSetNwkKey, key @ [0]), False)])"
| "form_failed c rnd cfg FormCancelled t \<longleftrightarrow> (\<exists>key j. rnd = Some key \<and> 0 < j \<and> j \<le> 3 \<and> c j
     \<and> t = all_ok (form_prefix cfg key) @ replicate j (formation cfg, False))"
| "form_failed c rnd cfg FormNetworkFailed t \<longleftrightarrow> (\<exists>key. rnd = Some key \<and> t = all_ok (form_prefix cfg key) @ replicate 3 (formation cfg, False))"
| "form_failed c rnd cfg FormPan t \<longleftrightarrow> (\<exists>key j. rnd = Some key \<and> j \<le> 2 \<and> t = formed cfg key j @ [(set_pan cfg, False)])"
| "form_failed c rnd cfg FormRxOn t \<longleftrightarrow> (\<exists>key j. rnd = Some key \<and> j \<le> 2
     \<and> t = formed cfg key j @ [(set_pan cfg, True), ((zbossCmdSetRxOnWhenIdle, [1]), False)])"

lemma form_after:
  assumes "andThen (must FormPan zbossCmdSetPanID (le_put 2 (cfg_PanID cfg))) (\<lambda>_.
        andThen (must FormRxOn zbossCmdSetRxOnWhenIdle [0x01]) (\<lambda>_.
        andThen (ignore zbossCmdSetEDTimeout [0x08]) (\<lambda>_. ignore zbossCmdSetMaxChildren [100]))) l0 = (r, l')"
    "traced l (formed cfg key j) l0" "j \<le> 2" "NetworkKey (l_info l0) = Some key"
  shows "\<exists>t. traced l t l' \<and> (case r of
       Inl e \<Rightarrow> form_failed cancelled (Some key) cfg e t
     | Inr u \<Rightarrow> \<exists>a b. NetworkKey (l_info l') = Some key
         \<and> t = formed cfg key j @ [(set_pan cfg, True), ((zbossCmdSetRxOnWhenIdle, [1]), True),
                 ((zbossCmdSetEDTimeout, [8]), a), ((zbossCmdSetMaxChildren, [100]), b)])"
  using assms(1)
proof (cases rule: must_then)
  case failed
  then show ?thesis using traced_append[OF assms(2)] assms(3) by (fastforce simp: set_pan_def)
next
  case (ok f l1)
  note t1 = traced_append[OF assms(2) ok(1)] and i1 = ok(2)
  from ok(3) show ?thesis
  proof (cases rule: must_then)
    case failed
    then show ?thesis using traced_append[OF t1] assms(3) by (fastforce simp: set_pan_def)
  next
    case (ok f l2)
    obtain l3 where l3: "ignore zbossCmdSetEDTimeout [8] l2 = (Inr (), l3)" "ignore zbossCmdSetMaxChildren [100] l3 = (r, l')"
      using ok(3) by (auto simp: andThen_def ignore_def)
    obtain a where a: "traced l2 [((zbossCmdSetEDTimeout, [8]), a)] l3" "l_info l3 = l_info l2" using ignore_traced[OF l3(1)] by blast
    obtain b where b: "r = Inr ()" "traced l3 [((zbossCmdSetMaxChildren, [100]), b)] l'" "l_info l' = l_info l3" using ignore_traced[OF l3(2)] by blast
    show ?thesis using traced_append[OF traced_append[OF traced_append[OF t1 ok(1)] a(1)] b(2)] b(1,3) a(2) ok(2) i1 assms(4)
      by (fastforce simp: set_pan_def)
  qed
qed

lemma form_keyed:
  assumes "andThen (must FormKey zbossCmdSetNwkKey (key @ [0x00])) (\<lambda>_.
        andThen (store_key key) (\<lambda>_.
        andThen (form_attempts cancelled (form_payload cfg) 1) (\<lambda>_.
        andThen (must FormPan zbossCmdSetPanID (le_put 2 (cfg_PanID cfg))) (\<lambda>_.
        andThen (must FormRxOn zbossCmdSetRxOnWhenIdle [0x01]) (\<lambda>_.
        andThen (ignore zbossCmdSetEDTimeout [0x08]) (\<lambda>_. ignore zbossCmdSetMaxChildren [100])))))) l3 = (r, l')"
    "traced l (all_ok (take 3 (form_prefix cfg key))) l3"
  shows "\<exists>t. traced l t l' \<and> (case r of
       Inl e \<Rightarrow> form_failed cancelled (Some key) cfg e t
     | Inr u \<Rightarrow> \<exists>j a b. j \<le> 2 \<and> NetworkKey (l_info l') = Some key
         \<and> t = formed cfg key j @ [(set_pan cfg, True), ((zbossCmdSetRxOnWhenIdle, [1]), True),
                 ((zbossCmdSetEDTimeout, [8]), a), ((zbossCmdSetMaxChildren, [100]), b)])"
  using assms(1)
proof (cases rule: must_then)
  case failed
  then show ?thesis using traced_append[OF assms(2)] by fastforce
next
  case (ok f l4)
  have buf: "(zbossCmdNwkFormation, form_payload cfg) = formation cfg"
    by (simp add: form_payload_def formation_def channel_mask_def le_put2)
  define l5 where "l5 = l4\<lparr>l_info := (l_info l4)\<lparr>NetworkKey := Some key\<rparr>\<rparr>"
  have "all_ok (take 3 (form_prefix cfg key)) @ [((zbossCmdSetNwkKey, key @ [0]), True)] = all_ok (form_prefix cfg key)"
    by (simp add: all_ok_def form_prefix_def)
  then have t5: "traced l (all_ok (form_prefix cfg key)) l5"
    using traced_append[OF assms(2) ok(1)] by (simp add: l5_def traced_info)
  obtain r6 l6 where a: "form_attempts cancelled (form_payload cfg) 1 l5 = (r6, l6)" by (metis prod.collapse)
  obtain j where j: "case r6 of
       Inr u \<Rightarrow> 1 + j \<le> 3 \<and> traced l5 (replicate j (formation cfg, False) @ [(formation cfg, True)]) l6
     | Inl e \<Rightarrow> traced l5 (replicate j (formation cfg, False)) l6 \<and> 1 + j \<le> max 1 4
         \<and> (e = FormCancelled \<and> 0 < j \<and> cancelled (1 + j - 1) \<or> e = FormNetworkFailed \<and> 1 + j = max 1 4)"
    using form_attempts_traced[OF a] unfolding buf by auto
  show ?thesis
  proof (cases r6)
    case (Inl e)
    then have e: "r = Inl e" "l' = l6" using ok(3) a by (simp_all add: andThen_def store_key_def l5_def)
    have "traced l (all_ok (form_prefix cfg key) @ replicate j (formation cfg, False)) l6" using j Inl traced_append[OF t5] by simp
    then show ?thesis using j Inl e by (intro exI[of _ "all_ok (form_prefix cfg key) @ replicate j (formation cfg, False)"]) auto
  next
    case (Inr u)
    have t6: "traced l (formed cfg key j) l6" using j Inr traced_append[OF t5] by (simp add: formed_def)
    have "NetworkKey (l_info l6) = Some key" using form_attempts_info[OF a] by (simp add: l5_def)
    have tail: "andThen (must FormPan zbossCmdSetPanID (le_put 2 (cfg_PanID cfg))) (\<lambda>_.
        andThen (must FormRxOn zbossCmdSetRxOnWhenIdle [0x01]) (\<lambda>_.
        andThen (ignore zbossCmdSetEDTimeout [0x08]) (\<lambda>_. ignore zbossCmdSetMaxChildren [100]))) l6 = (r, l')"
      using ok(3) a Inr by (simp add: andThen_def[of "store_key key"] andThen_def[of "form_attempts cancelled (form_payload cfg) 1"]
          store_key_def l5_def del: One_nat_def)
    have "j \<le> 2" using j Inr by simp
    from form_after[OF tail t6 this \<open>NetworkKey (l_info l6) = Some key\<close>, of cancelled]
    show ?thesis using \<open>j \<le> 2\<close> by (cases r) auto
  qed
qed

text \<open>
  C23: network formation does what the NCP requires, on every path. Whatever the NCP answers, whether or not the random source
  works and whenever the context ends: the requests are sent in the order role, extended PAN id, channel mask, network key,
  at most three formation attempts, PAN id, receiver on, timeout, children, with these payloads; each of them is sent only after all
  before it were answered with success, except that a failed formation is tried again and that the answers to the last two do not
  matter; the first failure ends the run with its own error. The PAN id is never set before a formation succeeded.
\<close>

theorem form_network_order:
  assumes "FormNetwork cancelled rnd cfg l = (r, l')"
  shows "\<exists>t. traced l t l' \<and> (case r of
       Inl e \<Rightarrow> form_failed cancelled rnd cfg e t
     | Inr u \<Rightarrow> \<exists>key j a b. rnd = Some key \<and> j \<le> 2 \<and> NetworkKey (l_info l') = Some key
         \<and> t = formed cfg key j @ [(set_pan cfg, True), ((zbossCmdSetRxOnWhenIdle, [1]), True),
                 ((zbossCmdSetEDTimeout, [8]), a), ((zbossCmdSetMaxChildren, [100]), b)])"
proof -
  note F = assms[unfolded FormNetwork_def]
  have m: "channel_mask (cfg_Channel cfg) = 2 ^ unat (cfg_Channel cfg)" by (simp add: channel_mask_def)
  show ?thesis
  proof (rule must_then[OF F], goal_cases)
    case 1
    then show ?thesis by (intro exI[of _ "[((zbossCmdSetZigbeeRole, [0]), False)]"]) simp
  next
    case (2 f1 l1)
    note t1 = 2(1)
    show ?case
    proof (rule must_then[OF 2(3)], goal_cases)
      case 1
      then show ?case using traced_append[OF t1 1(2)] by (simp add: all_ok_def form_prefix_def)
    next
      case (2 f2 l2)
      note t2 = traced_append[OF t1 2(1)]
      show ?case
      proof (rule must_then[OF 2(3)], goal_cases)
        case 1
        then show ?case using traced_append[OF t2 1(2)] by (simp add: all_ok_def form_prefix_def m)
      next
        case (2 f3 l3)
        note t3 = traced_append[OF t2 2(1)]
        show ?case
        proof (cases rnd)
          case None
          then have "r = Inl FormRandom" "l' = l3" using 2(3) by simp_all
          then show ?thesis using t3 None by (simp add: all_ok_def form_prefix_def m)
        next
          case (Some key)
          have "traced l (all_ok (take 3 (form_prefix cfg key))) l3" using t3 by (simp add: all_ok_def form_prefix_def m)
          from form_keyed[OF 2(3)[unfolded Some option.case] this] show ?thesis unfolding Some by (cases r) auto
        qed
      qed
    qed
  qed
qed

definition demo_frame :: "byte \<Rightarrow> byte \<Rightarrow> bytes \<Rightarrow> zbossFrame" where
  "demo_frame cat code payload = \<lparr>zf_LL = \<lparr>ll_Length = 14, ll_Type = zbossLLType, ll_Flags = 0xC4\<rparr>,
     zf_HL = \<lparr>hl_Version = 0, hl_PacketType = 1, hl_CallID = 0, hl_TSN = 1, hl_StatusCat = cat, hl_StatusCode = code\<rparr>,
     zf_Payload = payload\<rparr>"

definition demo_link :: "zbossFrame option list \<Rightarrow> link" where
  "demo_link rs = \<lparr>l_replies = rs, l_sent = [], l_zclSeq = 0, l_info =
     \<lparr>FWVersion = 0, StackVersion = [], ProtocolVersion = 0, NetworkKey = None\<rparr>\<rparr>"

theorem form_network_order_witness:
  "\<exists>l' t. FormNetwork (\<lambda>_. False) (Some (replicate 16 7)) \<lparr>cfg_Channel = 15, cfg_PanID = 0x1A62, cfg_ExtPanID = replicate 8 1\<rparr>
      (demo_link (let ok = Some (demo_frame 0 0 []) in [ok, ok, ok, ok, Some (demo_frame 3 0xC2 []), ok, None])) =
        (Inl FormPan, l')
     \<and> traced (demo_link (let ok = Some (demo_frame 0 0 []) in [ok, ok, ok, ok, Some (demo_frame 3 0xC2 []), ok, None])) t l'
     \<and> form_failed (\<lambda>_. False) (Some (replicate 16 7)) \<lparr>cfg_Channel = 15, cfg_PanID = 0x1A62, cfg_ExtPanID = replicate 8 1\<rparr> FormPan t"
proof -
  obtain l' where l': "FormNetwork (\<lambda>_. False) (Some (replicate 16 7)) \<lparr>cfg_Channel = 15, cfg_PanID = 0x1A62, cfg_ExtPanID = replicate 8 1\<rparr>
      (demo_link (let ok = Some (demo_frame 0 0 []) in [ok, ok, ok, ok, Some (demo_frame 3 0xC2 []), ok, None])) =
        (Inl FormPan, l')"
    by (simp add: FormNetwork_def andThen_def must_def request_def outcome_of_def demo_link_def demo_frame_def store_key_def
        form_attempts.simps Let_def)
  then show ?thesis using form_network_order[OF l'] by (auto simp del: form_failed.simps)
qed

section \<open>Parsing the replies\<close>

lemma read_clusters_append:
  "read_clusters (length cs) (concat (map (le_put 2) cs) @ r) = (cs, r)"
  by (induction cs) (simp_all add: le_put2 del: le_get.simps)

text \<open>
  a simple descriptor survives the wire. Parsing the descriptor layout that the driver itself builds, followed by
  the network address the response ends with, gives back the endpoint, profile, device and both cluster lists, for up to
  255 clusters each.
\<close>

theorem simple_desc_roundtrip:
  assumes "length ins < 256" "length outs < 256"
  shows "parse_simple_desc (buildSimpleDescPayload ep profile dev ver ins outs @ rest) =
    Inr \<lparr>sd_Endpoint = ep, sd_ProfileID = profile, sd_DeviceID = dev, sd_InClusters = ins, sd_OutClusters = outs\<rparr>"
proof -
  have u: "unat (word_of_nat (length ins) :: byte) = length ins" "unat (word_of_nat (length outs) :: byte) = length outs"
    using assms by (simp_all add: unat_of_nat)
  show ?thesis
    unfolding parse_simple_desc_def buildSimpleDescPayload_def
    by (simp add: le_put2 u read_clusters_append del: le_get.simps le_put.simps)
qed

theorem simple_desc_roundtrip_witness:
  "parse_simple_desc (buildSimpleDescPayload 1 zclProfileHA 0x0100 0 [0, 6] [0x19] @ [0x34, 0x12]) =
    Inr \<lparr>sd_Endpoint = 1, sd_ProfileID = zclProfileHA, sd_DeviceID = 0x0100, sd_InClusters = [0, 6], sd_OutClusters = [0x19]\<rparr>"
  by (rule simple_desc_roundtrip) simp_all

text \<open>
  the parser of scan results reads whole descriptors only. It returns the network count's worth of entries, or as
  many as the payload holds when it is shorter, each from its own sixteen bytes.
\<close>

theorem scan_entries_spec:
  "scan_entries count data = map (\<lambda>i. scan_entry (slice (16 * i) (16 * i + 16) data)) [0..<min count (length data div 16)]"
proof (induction count data rule: scan_entries.induct)
  case (2 count data)
  show ?case
  proof (cases "length data < 16")
    case True
    then show ?thesis by simp
  next
    case False
    then have d: "min (Suc count) (length data div 16) = Suc (min count (length (drop 16 data) div 16))"
      by (simp add: div_if[of "length data"])
    have s: "slice (16 * Suc i) (16 * Suc i + 16) data = slice (16 * i) (16 * i + 16) (drop 16 data)" for i
      by (simp add: slice_def ac_simps)
    have u: "[0..<Suc k] = 0 # map Suc [0..<k]" for k :: nat
      by (metis map_Suc_upt upt_conv_Cons zero_less_Suc)
    show ?thesis unfolding d u using False 2 by (simp add: s del: mult_Suc_right) (simp add: slice_def)
  qed
qed simp

end
