(* ===== verification/NCP_Reset.thy ===== *)
theory NCP_Reset
  imports NCP_Api
begin

text \<open>
  Resetting the NCP: \<^verbatim>\<open>resetAndReconnect\<close>, \<^verbatim>\<open>Reset\<close> and \<^verbatim>\<open>FactoryReset\<close> of
  \<^verbatim>\<open>internal/ncp/nrf52840.go\<close>. The driver's state (\<open>ncp\<close>) and the requests made through it
  (\<open>link\<close>) are threaded together. What the operating system and the clock do in attempt \<open>k\<close> is the
  argument \<open>env k\<close>. The two waits for the end of the read loop (\<^verbatim>\<open>wg.Wait\<close>) are taken to end, which they do when a read of the
  closed port returns. As in the code, a driver that has been closed can still be reset: the flag \<^verbatim>\<open>closed\<close> is read by
  \<^verbatim>\<open>Close\<close> alone.
\<close>

record reset_env =
  rs_cancelled :: bool       \<comment> \<open>the context ends in the one-second wait\<close>
  rs_open :: bool            \<comment> \<open>the serial port opens\<close>
  rs_wr :: "nat \<Rightarrow> bool"      \<comment> \<open>the port writes of the probe succeed\<close>
  rs_evs :: "ll_event list"  \<comment> \<open>what the probe sees while it waits for its acknowledgement\<close>
  rs_readyCancelled :: bool  \<comment> \<open>the context ends while waiting for the reset indication\<close>

datatype reset_error = ResetCancelled | NotRecovered

abbreviation zbossResetNoOption :: byte where "zbossResetNoOption \<equiv> 0x00"
abbreviation zbossResetFactory :: byte where "zbossResetFactory \<equiv> 0x02"

text \<open>The reset request is written with each packet sequence number, errors ignored; \<open>wr k\<close> is whether write
  \<open>k\<close> succeeds.\<close>

definition write_reset :: "(nat \<Rightarrow> bool) \<Rightarrow> byte \<Rightarrow> ncp \<Rightarrow> ncp" where
  "write_reset wr option n =
     (let (tsn, n1) = nextTSN n in
      fold (\<lambda>k n. case zbossEncodeRequest zbossCmdNCPReset tsn (word_of_nat k) [option] of
                     Some raw \<Rightarrow> port_write (wr k) raw n | None \<Rightarrow> n) [1, 2, 3] n1)"

text \<open>Closing the port ends the read loop; reopening gives a fresh driver state, and a fresh ZCL counter.\<close>

definition close_port :: "ncp \<Rightarrow> ncp" where
  "close_port n = n\<lparr>n_done := True\<rparr>"

text \<open>What the probing request does to the driver: it registers, writes, and deregisters.\<close>

definition probe :: "reset_env \<Rightarrow> ncp \<Rightarrow> ncp" where
  "probe e n =
     (let (tsn, ch, q, raw, n1) = request_open zbossCmdGetModuleVersion [] n;
          n2 = (case raw of None \<Rightarrow> n1 | Some f \<Rightarrow> snd (writeWithACK (rs_wr e) f q (rs_evs e) n1))
      in request_close tsn n2)"

fun reconnect :: "reset_env list \<Rightarrow> ncp \<Rightarrow> link \<Rightarrow> (reset_error + unit) \<times> ncp \<times> link" where
  "reconnect [] n l = (Inl NotRecovered, n, l)"
| "reconnect (e # es) n l =
     (if rs_cancelled e then (Inl ResetCancelled, n, l)
      else if \<not> rs_open e then reconnect es n l
      else let n1 = probe e (resetState n); l1 = l\<lparr>l_zclSeq := 0\<rparr> in
        (case request zbossCmdGetModuleVersion [] l1 of
           (Reply f, l2) \<Rightarrow> if rs_readyCancelled e then (Inl ResetCancelled, n1, l2) else (Inr (), n1, l2)
         | (_, l2) \<Rightarrow> reconnect es (close_port n1) l2))"

definition resetAndReconnect ::
  "(nat \<Rightarrow> bool) \<Rightarrow> (nat \<Rightarrow> reset_env) \<Rightarrow> byte \<Rightarrow> ncp \<Rightarrow> link \<Rightarrow> (reset_error + unit) \<times> ncp \<times> link" where
  "resetAndReconnect wr env option n l = reconnect (map env [1..<31]) (close_port (write_reset wr option n)) l"

definition Reset :: "(nat \<Rightarrow> bool) \<Rightarrow> (nat \<Rightarrow> reset_env) \<Rightarrow> ncp \<Rightarrow> link \<Rightarrow> (reset_error + unit) \<times> ncp \<times> link" where
  "Reset wr env n l = resetAndReconnect wr env zbossResetNoOption n l"

definition FactoryReset :: "(nat \<Rightarrow> bool) \<Rightarrow> (nat \<Rightarrow> reset_env) \<Rightarrow> ncp \<Rightarrow> link \<Rightarrow> (reset_error + unit) \<times> ncp \<times> link" where
  "FactoryReset wr env n l = resetAndReconnect wr env zbossResetFactory n l"

section \<open>What a reset guarantees\<close>

lemma writeWithACK_keeps:
  "n_hlPending (snd (writeWithACK wr f q evs n)) = n_hlPending n \<and> n_zclPending (snd (writeWithACK wr f q evs n)) = n_zclPending n
   \<and> n_done (snd (writeWithACK wr f q evs n)) = n_done n \<and> n_hlTSN (snd (writeWithACK wr f q evs n)) = n_hlTSN n
   \<and> n_llPktSeq (snd (writeWithACK wr f q evs n)) = n_llPktSeq n"
proof -
  have "n_hlPending (snd (waitACK wr f q k evs n)) = n_hlPending n \<and> n_zclPending (snd (waitACK wr f q k evs n)) = n_zclPending n
    \<and> n_done (snd (waitACK wr f q k evs n)) = n_done n \<and> n_hlTSN (snd (waitACK wr f q k evs n)) = n_hlTSN n
    \<and> n_llPktSeq (snd (waitACK wr f q k evs n)) = n_llPktSeq n" for k n
    by (induction wr f q k evs n rule: waitACK.induct) (auto simp: push_ack_def port_write_def split: list.split)
  then show ?thesis by (simp add: writeWithACK_def port_write_def)
qed

definition fresh_driver :: "ncp \<Rightarrow> bool" where
  "fresh_driver n \<longleftrightarrow> n_hlPending n = Map.empty \<and> n_zclPending n = Map.empty \<and> \<not> n_done n \<and> n_hlTSN n = 1 \<and> n_llPktSeq n = 1"

lemma probe_fresh: "fresh_driver (probe e (resetState n))"
  using writeWithACK_keeps
  by (auto simp: fresh_driver_def probe_def request_open_def nextTSN_def nextPktSeq_def resetState_def request_close_def Let_def
      split: option.split)

lemma reconnect_spec:
  assumes "reconnect es n l = (r, n', l')"
  shows "\<exists>k \<le> length es. cmds l' = cmds l @ replicate k zbossCmdGetModuleVersion
     \<and> (r = Inr () \<longrightarrow> 0 < k \<and> fresh_driver n' \<and> l_zclSeq l' = 0) \<and> l_info l' = l_info l"
  using assms
proof (induction es n l rule: reconnect.induct)
  case (2 e es n l)
  obtain out l2 where q: "request zbossCmdGetModuleVersion [] (l\<lparr>l_zclSeq := 0\<rparr>) = (out, l2)" by (metis prod.collapse)
  then have l2: "cmds l2 = cmds l @ [zbossCmdGetModuleVersion]" "l_zclSeq l2 = 0" "l_info l2 = l_info l" by (auto simp: request_def)
  consider (c) "rs_cancelled e" | (o) "\<not> rs_cancelled e" "\<not> rs_open e" | (p) "\<not> rs_cancelled e" "rs_open e" by blast
  then show ?case
  proof cases
    case c then show ?thesis using 2(4) by (intro exI[of _ 0]) auto
  next
    case o
    then obtain k where "k \<le> length es" "cmds l' = cmds l @ replicate k zbossCmdGetModuleVersion"
      "r = Inr () \<longrightarrow> 0 < k \<and> fresh_driver n' \<and> l_zclSeq l' = 0" "l_info l' = l_info l"
      using 2(1)[OF o] 2(4) by auto
    then show ?thesis by (intro exI[of _ k]) auto
  next
    case p
    show ?thesis
    proof (cases "\<exists>f. out = Reply f")
      case True
      then have "n' = probe e (resetState n)" "l' = l2" using 2(4) p q by (auto simp: Let_def split: if_splits)
      then show ?thesis using l2 probe_fresh by (intro exI[of _ 1]) auto
    next
      case False
      then have rec: "reconnect es (close_port (probe e (resetState n))) l2 = (r, n', l')"
        using 2(4) p q by (cases out) (auto simp: Let_def)
      have "\<exists>k \<le> length es. cmds l' = cmds l2 @ replicate k zbossCmdGetModuleVersion
        \<and> (r = Inr () \<longrightarrow> 0 < k \<and> fresh_driver n' \<and> l_zclSeq l' = 0) \<and> l_info l' = l_info l2"
        using 2(2)[OF p(1) _ refl refl, of out l2] 2(3)[OF p(1) _ refl refl, of out l2] p(2) q rec False
        by (cases out) auto
      then obtain k where "k \<le> length es" "cmds l' = cmds l2 @ replicate k zbossCmdGetModuleVersion"
        "r = Inr () \<longrightarrow> 0 < k \<and> fresh_driver n' \<and> l_zclSeq l' = 0" "l_info l' = l_info l"
        using l2 by auto
      then show ?thesis using l2 by (intro exI[of _ "Suc k"]) auto
    qed
  qed
qed auto

text \<open>
  C40: a reset ends after at most 30 attempts, each of at most one probe, whatever the port and the NCP do; and when it
  reports success the driver has started over: the probe was answered, no other request is pending, the transaction and
  packet counters have counted just the probe, the ZCL counter is at zero and the driver is open. The cached
  module information, network key included, is kept.
\<close>

theorem reset_recovers:
  assumes "resetAndReconnect wr env option n l = (r, n', l')"
  shows "(\<exists>k \<le> 30. cmds l' = cmds l @ replicate k zbossCmdGetModuleVersion \<and> (r = Inr () \<longrightarrow> 0 < k))
     \<and> (r = Inr () \<longrightarrow> fresh_driver n' \<and> l_zclSeq l' = 0) \<and> l_info l' = l_info l"
proof -
  obtain k where "k \<le> 30" "cmds l' = cmds l @ replicate k zbossCmdGetModuleVersion"
    "r = Inr () \<longrightarrow> 0 < k \<and> fresh_driver n' \<and> l_zclSeq l' = 0" "l_info l' = l_info l"
    using reconnect_spec[OF assms[unfolded resetAndReconnect_def]] by auto
  then show ?thesis by blast
qed

theorem reset_recovers_witness:
  "\<exists>n' l'. resetAndReconnect (\<lambda>_. True) (\<lambda>k. \<lparr>rs_cancelled = False, rs_open = 2 \<le> k, rs_wr = (\<lambda>_. True), rs_evs = [LLRx 1, LLRecv],
         rs_readyCancelled = False\<rparr>) 2
       (new_ncp all_handlers) (demo_link [Some (demo_frame 0 0 [])]) = (Inr (), n', l') \<and> fresh_driver n'"
proof -
  let ?e = "\<lambda>k :: nat. \<lparr>rs_cancelled = False, rs_open = 2 \<le> k, rs_wr = (\<lambda>_. True), rs_evs = [LLRx 1, LLRecv], rs_readyCancelled = False\<rparr>"
  have "[1..<31] = 1 # 2 # [3..<31 :: nat]" by (simp add: upt_rec)
  then obtain n' l' where r: "resetAndReconnect (\<lambda>_. True) ?e 2 (new_ncp all_handlers) (demo_link [Some (demo_frame 0 0 [])]) = (Inr (), n', l')"
    by (simp add: resetAndReconnect_def request_def outcome_of_def demo_link_def demo_frame_def Let_def)
  from reset_recovers[OF this] r show ?thesis by auto
qed

end
