(* ===== verification/ZCL_Registry.thy ===== *)
theory ZCL_Registry
  imports Prelude
begin

text \<open>
  Cluster definitions and the cluster registry: \<^verbatim>\<open>internal/zcl/cluster.go\<close> and
  \<^verbatim>\<open>internal/zcl/registry.go\<close>. The registry's map is a finite map from cluster id to
  definition; \<^verbatim>\<open>Get\<close> and \<^verbatim>\<open>All\<close> return deep copies, which in HOL are the values
  themselves.
\<close>

section \<open>Definitions\<close>

abbreviation AccessRead :: byte where "AccessRead \<equiv> 0x01"
abbreviation AccessWrite :: byte where "AccessWrite \<equiv> 0x02"
abbreviation AccessReport :: byte where "AccessReport \<equiv> 0x04"

record AttributeDef =
  ad_ID :: u16
  ad_Name :: string
  ad_Type :: byte
  ad_Access :: byte

definition IsReadable :: "AttributeDef \<Rightarrow> bool" where
  "IsReadable a \<longleftrightarrow> ad_Access a AND AccessRead \<noteq> 0"

definition IsWritable :: "AttributeDef \<Rightarrow> bool" where
  "IsWritable a \<longleftrightarrow> ad_Access a AND AccessWrite \<noteq> 0"

definition IsReportable :: "AttributeDef \<Rightarrow> bool" where
  "IsReportable a \<longleftrightarrow> ad_Access a AND AccessReport \<noteq> 0"

datatype CommandDirection = ToServer | ToClient | OtherDirection string

record CommandDef =
  cd_ID :: byte
  cd_Name :: string
  cd_Direction :: CommandDirection

record ClusterDef =
  cl_ID :: u16
  cl_Name :: string
  cl_Attributes :: "AttributeDef list"
  cl_Commands :: "CommandDef list"

section \<open>Lookup and merge\<close>

definition FindAttribute :: "ClusterDef \<Rightarrow> u16 \<Rightarrow> AttributeDef option" where
  "FindAttribute c i = List.find (\<lambda>a. ad_ID a = i) (cl_Attributes c)"

definition FindCommand :: "ClusterDef \<Rightarrow> byte \<Rightarrow> CommandDirection \<Rightarrow> CommandDef option" where
  "FindCommand c i dir = List.find (\<lambda>d. cd_ID d = i \<and> cd_Direction d = dir) (cl_Commands c)"

definition merge_attr :: "ClusterDef \<Rightarrow> AttributeDef \<Rightarrow> ClusterDef" where
  "merge_attr c a =
     (if FindAttribute c (ad_ID a) = None then c\<lparr>cl_Attributes := cl_Attributes c @ [a]\<rparr> else c)"

definition merge_cmd :: "ClusterDef \<Rightarrow> CommandDef \<Rightarrow> ClusterDef" where
  "merge_cmd c d =
     (if FindCommand c (cd_ID d) (cd_Direction d) = None then c\<lparr>cl_Commands := cl_Commands c @ [d]\<rparr> else c)"

definition Merge :: "ClusterDef \<Rightarrow> ClusterDef \<Rightarrow> ClusterDef" where
  "Merge c other = foldl merge_cmd (foldl merge_attr c (cl_Attributes other)) (cl_Commands other)"

section \<open>The registry\<close>

type_synonym registry = "u16 \<rightharpoonup> ClusterDef"

definition Register :: "registry \<Rightarrow> ClusterDef \<Rightarrow> registry" where
  "Register r c =
     (case r (cl_ID c) of
        Some existing \<Rightarrow> r(cl_ID c \<mapsto> Merge existing c)
      | None \<Rightarrow> r(cl_ID c \<mapsto> c))"

definition Registry_Get :: "registry \<Rightarrow> u16 \<Rightarrow> ClusterDef option" where
  "Registry_Get r i = r i"

section \<open>Merging keeps definitions and adds the missing ones\<close>

lemma find_append: "List.find P (xs @ ys) = (case List.find P xs of None \<Rightarrow> List.find P ys | Some x \<Rightarrow> Some x)"
  by (induction xs) auto

lemma merge_attr_simps [simp]:
  "cl_ID (merge_attr c a) = cl_ID c" "cl_Name (merge_attr c a) = cl_Name c" "cl_Commands (merge_attr c a) = cl_Commands c"
  by (simp_all add: merge_attr_def)

lemma merge_cmd_simps [simp]:
  "cl_ID (merge_cmd c d) = cl_ID c" "cl_Name (merge_cmd c d) = cl_Name c" "cl_Attributes (merge_cmd c d) = cl_Attributes c"
  by (simp_all add: merge_cmd_def)

lemma merge_attrs_find:
  "FindAttribute (foldl merge_attr c as) i =
     (case FindAttribute c i of Some a \<Rightarrow> Some a | None \<Rightarrow> List.find (\<lambda>a. ad_ID a = i) as)"
proof (induction as arbitrary: c)
  case (Cons a as)
  have "FindAttribute (merge_attr c a) i =
     (case FindAttribute c i of Some b \<Rightarrow> Some b | None \<Rightarrow> if ad_ID a = i then Some a else None)"
    by (auto simp: merge_attr_def FindAttribute_def find_append split: option.splits)
  then show ?case by (auto simp: Cons.IH split: option.splits)
qed (simp split: option.splits)

lemma merge_cmds_find:
  "FindCommand (foldl merge_cmd c ds) i dir =
     (case FindCommand c i dir of Some d \<Rightarrow> Some d | None \<Rightarrow> List.find (\<lambda>d. cd_ID d = i \<and> cd_Direction d = dir) ds)"
proof (induction ds arbitrary: c)
  case (Cons d ds)
  have "FindCommand (merge_cmd c d) i dir =
     (case FindCommand c i dir of Some b \<Rightarrow> Some b | None \<Rightarrow> if cd_ID d = i \<and> cd_Direction d = dir then Some d else None)"
    by (auto simp: merge_cmd_def FindCommand_def find_append split: option.splits)
  then show ?case by (auto simp: Cons.IH split: option.splits)
qed (simp split: option.splits)

lemma merge_attrs_frame:
  "cl_ID (foldl merge_attr c as) = cl_ID c" "cl_Name (foldl merge_attr c as) = cl_Name c"
  "cl_Commands (foldl merge_attr c as) = cl_Commands c"
  by (induction as arbitrary: c) simp_all

lemma merge_cmds_frame:
  "cl_ID (foldl merge_cmd c ds) = cl_ID c" "cl_Name (foldl merge_cmd c ds) = cl_Name c"
  "cl_Attributes (foldl merge_cmd c ds) = cl_Attributes c"
  by (induction ds arbitrary: c) simp_all

lemma Merge_find:
  "FindAttribute (Merge c d) i = (case FindAttribute c i of Some a \<Rightarrow> Some a | None \<Rightarrow> FindAttribute d i)"
  "FindCommand (Merge c d) j dir = (case FindCommand c j dir of Some a \<Rightarrow> Some a | None \<Rightarrow> FindCommand d j dir)"
  "cl_ID (Merge c d) = cl_ID c" "cl_Name (Merge c d) = cl_Name c"
proof -
  show "FindAttribute (Merge c d) i = (case FindAttribute c i of Some a \<Rightarrow> Some a | None \<Rightarrow> FindAttribute d i)"
    unfolding Merge_def FindAttribute_def[of "foldl merge_cmd _ _"] merge_cmds_frame
    by (simp add: FindAttribute_def[symmetric] merge_attrs_find) (simp add: FindAttribute_def split: option.splits)
  show "FindCommand (Merge c d) j dir = (case FindCommand c j dir of Some a \<Rightarrow> Some a | None \<Rightarrow> FindCommand d j dir)"
    unfolding Merge_def merge_cmds_find
    by (simp add: FindCommand_def merge_attrs_frame split: option.split)
qed (simp_all add: Merge_def merge_attrs_frame merge_cmds_frame)

text \<open>The contract of the registry: the first definition of an attribute or command wins, later ones only add.\<close>

lemma Register_attr:
  "(case Register r c i of None \<Rightarrow> None | Some d \<Rightarrow> FindAttribute d a) =
     (case (case r i of None \<Rightarrow> None | Some d \<Rightarrow> FindAttribute d a) of
        Some x \<Rightarrow> Some x | None \<Rightarrow> if cl_ID c = i then FindAttribute c a else None)"
  by (auto simp: Register_def Merge_find split: option.splits)

definition registry_attr :: "registry \<Rightarrow> u16 \<Rightarrow> u16 \<Rightarrow> AttributeDef option" where
  "registry_attr r i a = (case Registry_Get r i of None \<Rightarrow> None | Some d \<Rightarrow> FindAttribute d a)"

lemma registry_attr_find:
  "registry_attr (foldl Register Map.empty cs) i a =
     List.find (\<lambda>d. ad_ID d = a) (concat (map cl_Attributes (filter (\<lambda>c. cl_ID c = i) cs)))"
proof (induction cs rule: rev_induct)
  case Nil
  then show ?case by (simp add: registry_attr_def Registry_Get_def)
next
  case (snoc c cs)
  have "registry_attr (foldl Register Map.empty (cs @ [c])) i a =
     (case registry_attr (foldl Register Map.empty cs) i a of
        Some x \<Rightarrow> Some x | None \<Rightarrow> if cl_ID c = i then FindAttribute c a else None)"
    using Register_attr[where r = "foldl Register Map.empty cs" and c = c and i = i and a = a]
    by (simp add: registry_attr_def Registry_Get_def)
  then show ?case
    by (auto simp: snoc.IH find_append FindAttribute_def split: option.splits)
qed

text \<open>
  the registry after any sequence of registrations. What a lookup of an attribute of a cluster finds is the first
  definition of it in registration order: built-in clusters registered first are never overridden by the custom
  definitions loaded after them, and every attribute that only a later definition has is found in it.
\<close>

theorem registry_first_wins:
  "registry_attr (foldl Register Map.empty cs) i a =
     List.find (\<lambda>d. ad_ID d = a) (concat (map cl_Attributes (filter (\<lambda>c. cl_ID c = i) cs)))"
  by (rule registry_attr_find)

text \<open>Attribute ids stay unique in a registry that is filled with well-formed definitions.\<close>

definition cluster_ok :: "ClusterDef \<Rightarrow> bool" where
  "cluster_ok c \<longleftrightarrow> distinct (map ad_ID (cl_Attributes c))
     \<and> distinct (map (\<lambda>d. (cd_ID d, cd_Direction d)) (cl_Commands c))"

lemma find_None_notin: "List.find P xs = None \<longleftrightarrow> (\<forall>x \<in> set xs. \<not> P x)"
  by (induction xs) auto

lemma merge_attr_ok: "cluster_ok c \<Longrightarrow> cluster_ok (merge_attr c a)"
  by (auto simp: cluster_ok_def merge_attr_def FindAttribute_def find_None_notin)

lemma merge_cmd_ok: "cluster_ok c \<Longrightarrow> cluster_ok (merge_cmd c d)"
  by (auto simp: cluster_ok_def merge_cmd_def FindCommand_def find_None_notin)

lemma Merge_ok: "cluster_ok c \<Longrightarrow> cluster_ok (Merge c d)"
proof -
  have "cluster_ok c \<Longrightarrow> cluster_ok (foldl merge_attr c as)" for c as
    by (induction as arbitrary: c) (simp_all add: merge_attr_ok)
  moreover have "cluster_ok c \<Longrightarrow> cluster_ok (foldl merge_cmd c ds)" for c ds
    by (induction ds arbitrary: c) (simp_all add: merge_cmd_ok)
  ultimately show "cluster_ok c \<Longrightarrow> cluster_ok (Merge c d)" by (simp add: Merge_def)
qed

text \<open>
  registration keeps the registry well formed. If every registered cluster holds each attribute id once and each
  command id once per direction, this is still so after registering any well-formed definition, under its own id.
\<close>

theorem register_invariant:
  assumes "\<And>i d. r i = Some d \<Longrightarrow> cl_ID d = i \<and> cluster_ok d" "cluster_ok c" "Register r c i = Some d"
  shows "cl_ID d = i \<and> cluster_ok d"
  using assms by (auto simp: Register_def Merge_find Merge_ok split: option.splits if_splits)

theorem register_invariant_witness:
  "\<exists>d. Register (Map.empty(6 \<mapsto> \<lparr>cl_ID = 6, cl_Name = ''On/Off'',
        cl_Attributes = [\<lparr>ad_ID = 0, ad_Name = ''OnOff'', ad_Type = 0x10, ad_Access = 5\<rparr>], cl_Commands = []\<rparr>))
      \<lparr>cl_ID = 6, cl_Name = ''x'', cl_Attributes = [\<lparr>ad_ID = 0, ad_Name = ''y'', ad_Type = 0, ad_Access = 0\<rparr>],
        cl_Commands = [\<lparr>cd_ID = 2, cd_Name = ''Toggle'', cd_Direction = ToServer\<rparr>]\<rparr> 6 = Some d
     \<and> cl_ID d = 6 \<and> cluster_ok d"
proof -
  let ?c = "\<lparr>cl_ID = 6, cl_Name = ''x'', cl_Attributes = [\<lparr>ad_ID = 0, ad_Name = ''y'', ad_Type = 0, ad_Access = 0\<rparr>],
        cl_Commands = [\<lparr>cd_ID = 2, cd_Name = ''Toggle'', cd_Direction = ToServer\<rparr>]\<rparr>"
  let ?r = "Map.empty(6 \<mapsto> \<lparr>cl_ID = 6, cl_Name = ''On/Off'',
        cl_Attributes = [\<lparr>ad_ID = 0, ad_Name = ''OnOff'', ad_Type = 0x10, ad_Access = 5\<rparr>], cl_Commands = []\<rparr>)"
  obtain d where d: "Register ?r ?c 6 = Some d" by (simp add: Register_def)
  have "cl_ID d = 6 \<and> cluster_ok d"
    by (rule register_invariant[OF _ _ d]) (auto simp: cluster_ok_def split: if_splits)
  then show ?thesis using d by blast
qed

end
