(* ===== verification/Device_DB.thy ===== *)
theory Device_DB
  imports ZCL_Registry "HOL-Library.AList"
begin

text \<open>
  The device definitions database: \<^verbatim>\<open>internal/coordinator/devicedb.go\<close>. The map of definitions
  is an association list with distinct keys, so that \<^verbatim>\<open>Len\<close> is its length. Reading and parsing
  a file (operating system, \<^verbatim>\<open>encoding/json\<close>) is the input of \<open>LoadDeviceDir\<close>: for every path
  that the glob matched, an error or the parsed file.
\<close>

section \<open>Definitions\<close>

record PropertyDef =
  pd_Tag :: int
  pd_Name :: string
  pd_Transform :: string

record PropertySource =
  ps_Cluster :: u16
  ps_Attribute :: u16
  ps_Decoder :: string
  ps_Values :: "PropertyDef list"

record ReportingEntry =
  re_Cluster :: u16
  re_Attribute :: u16
  re_Type :: byte
  re_Min :: u16
  re_Max :: u16
  re_Change :: u64

record DeviceDefinition =
  dd_Manufacturer :: string
  dd_Model :: string
  dd_FriendlyName :: string
  dd_Bind :: "u16 list"
  dd_Reporting :: "ReportingEntry list"
  dd_Properties :: "PropertySource list"

record ManufacturerGroup =
  mg_Name :: string
  mg_Models :: "DeviceDefinition list"

type_synonym DeviceDB = "(string \<times> DeviceDefinition) list"

definition deviceKey :: "string \<Rightarrow> string \<Rightarrow> string" where
  "deviceKey manufacturer model = manufacturer @ [CHR 0x00] @ model"

definition NewDeviceDB :: DeviceDB where
  "NewDeviceDB = []"

definition Add :: "DeviceDefinition \<Rightarrow> DeviceDB \<Rightarrow> DeviceDB" where
  "Add def db = AList.update (deviceKey (dd_Manufacturer def) (dd_Model def)) def db"

definition Lookup :: "DeviceDB \<Rightarrow> string \<Rightarrow> string \<Rightarrow> DeviceDefinition option" where
  "Lookup db manufacturer model = map_of db (deviceKey manufacturer model)"

definition Len :: "DeviceDB \<Rightarrow> nat" where
  "Len db = length db"

section \<open>Loading a directory\<close>

record deviceFile =
  df_Clusters :: "ClusterDef list"
  df_Devices :: "DeviceDefinition list"
  df_Manufacturers :: "ManufacturerGroup list"

datatype load_error = GlobFailed | ReadFailed | ParseFailed

text \<open>The models of a manufacturer group take the name of the group.\<close>

definition add_group :: "DeviceDB \<Rightarrow> ManufacturerGroup \<Rightarrow> DeviceDB" where
  "add_group db mg = foldl (\<lambda>db d. Add (d\<lparr>dd_Manufacturer := mg_Name mg\<rparr>) db) db (mg_Models mg)"

definition load_file :: "deviceFile \<Rightarrow> registry \<times> DeviceDB \<Rightarrow> registry \<times> DeviceDB" where
  "load_file df st =
     (foldl Register (fst st) (df_Clusters df),
      foldl add_group (foldl (\<lambda>db d. Add d db) (snd st) (df_Devices df)) (df_Manufacturers df))"

text \<open>The files in the order of the glob; the first one that cannot be read or parsed ends the load
  with what was loaded so far.\<close>

fun load_files :: "(load_error + deviceFile) list \<Rightarrow> registry \<times> DeviceDB \<Rightarrow> load_error option \<times> registry \<times> DeviceDB" where
  "load_files [] st = (None, st)"
| "load_files (Inl e # fs) st = (Some e, st)"
| "load_files (Inr df # fs) st = load_files fs (load_file df st)"

definition LoadDeviceDir ::
  "(load_error + (load_error + deviceFile) list) \<Rightarrow> registry \<Rightarrow> load_error option \<times> registry \<times> DeviceDB" where
  "LoadDeviceDir glob r =
     (case glob of
        Inl e \<Rightarrow> (Some e, r, NewDeviceDB)
      | Inr files \<Rightarrow> load_files files (r, NewDeviceDB))"

section \<open>Keys\<close>

text \<open>The zero byte separates manufacturer and model: a definition whose names are free of it is found
  under no other pair, whatever bytes a device reports.\<close>

definition nul_free :: "string \<Rightarrow> bool" where
  "nul_free s \<longleftrightarrow> CHR 0x00 \<notin> set s"

lemma split_at_nul:
  "nul_free a \<Longrightarrow> nul_free b \<Longrightarrow> a @ CHR 0x00 # b = m @ CHR 0x00 # d \<Longrightarrow> a = m \<and> b = d"
proof (induction a arbitrary: m)
  case Nil
  then show ?case by (cases m) (auto simp: nul_free_def)
next
  case (Cons c a)
  then show ?case by (cases m) (auto simp: nul_free_def)
qed

lemma deviceKey_eq:
  "nul_free a \<Longrightarrow> nul_free b \<Longrightarrow> deviceKey a b = deviceKey m d \<longleftrightarrow> a = m \<and> b = d"
  using split_at_nul[of a b m d] by (auto simp: deviceKey_def)

lemma deviceKey_eq':
  "nul_free a \<Longrightarrow> nul_free b \<Longrightarrow> deviceKey m d = deviceKey a b \<longleftrightarrow> m = a \<and> d = b"
  using deviceKey_eq[of a b m d] by metis

lemma length_update_le: "length (AList.update k v xs) \<le> Suc (length xs)"
  by (induction xs) auto

section \<open>What a load makes available\<close>

text \<open>All definitions of a file, in the order they are added.\<close>

definition file_defs :: "deviceFile \<Rightarrow> DeviceDefinition list" where
  "file_defs df = df_Devices df
     @ concat (map (\<lambda>mg. map (\<lambda>d. d\<lparr>dd_Manufacturer := mg_Name mg\<rparr>) (mg_Models mg)) (df_Manufacturers df))"

lemma foldl_add_group:
  "foldl add_group db mgs =
     foldl (\<lambda>db d. Add d db) db (concat (map (\<lambda>mg. map (\<lambda>d. d\<lparr>dd_Manufacturer := mg_Name mg\<rparr>) (mg_Models mg)) mgs))"
  by (induction mgs arbitrary: db) (simp_all add: add_group_def foldl_map)

lemma load_file_defs: "snd (load_file df st) = foldl (\<lambda>db d. Add d db) (snd st) (file_defs df)"
  by (simp add: load_file_def file_defs_def foldl_add_group)

lemma load_files_defs:
  "snd (snd (load_files (map Inr dfs) st)) = foldl (\<lambda>db d. Add d db) (snd st) (concat (map file_defs dfs))
   \<and> fst (load_files (map Inr dfs) st) = None"
  by (induction dfs arbitrary: st) (simp_all add: load_file_defs)

definition names_ok :: "DeviceDefinition \<Rightarrow> bool" where
  "names_ok d \<longleftrightarrow> nul_free (dd_Manufacturer d) \<and> nul_free (dd_Model d)"

definition matches :: "string \<Rightarrow> string \<Rightarrow> DeviceDefinition \<Rightarrow> bool" where
  "matches m md d \<longleftrightarrow> dd_Manufacturer d = m \<and> dd_Model d = md"

lemma Lookup_Add:
  "names_ok d \<Longrightarrow> Lookup (Add d db) m md = (if matches m md d then Some d else Lookup db m md)"
  by (auto simp: Lookup_def Add_def names_ok_def matches_def update_conv' deviceKey_eq')

lemma Lookup_foldl:
  "list_all names_ok ds \<Longrightarrow>
     Lookup (foldl (\<lambda>db d. Add d db) db ds) m md =
       (case List.find (matches m md) (rev ds) of Some d \<Rightarrow> Some d | None \<Rightarrow> Lookup db m md)"
  by (induction ds arbitrary: db) (auto simp: Lookup_Add find_append split: option.splits)

lemma Add_distinct: "distinct (map fst db) \<Longrightarrow> distinct (map fst (Add d db))"
  by (simp add: Add_def distinct_update)

text \<open>
  loading a device directory whose files all parse gives a database in which a device is looked up by its reported
  manufacturer and model: the last definition with exactly these names, over all files in order, with the
  models of a group under the group's name; and nothing when there is none, whatever bytes the device reports
  for its names, zero bytes included. Definitions with the same names replace each other, so that the
  database never holds more entries than there are definitions.
\<close>

theorem device_lookup:
  assumes "LoadDeviceDir (Inr (map Inr dfs)) r = (e, r', db)" "list_all names_ok (concat (map file_defs dfs))"
  shows "Lookup db m md = List.find (matches m md) (rev (concat (map file_defs dfs)))
     \<and> e = None \<and> Len db \<le> length (concat (map file_defs dfs))"
proof -
  let ?ds = "concat (map file_defs dfs)"
  have db: "db = foldl (\<lambda>db d. Add d db) [] ?ds" and e: "e = None"
    using assms(1) load_files_defs[of dfs "(r, NewDeviceDB)"] by (auto simp: LoadDeviceDir_def NewDeviceDB_def)
  have "length (foldl (\<lambda>db d. Add d db) db0 ds) \<le> length db0 + length ds" for db0 ds
  proof (induction ds arbitrary: db0)
    case (Cons d ds)
    have "length (Add d db0) \<le> Suc (length db0)" by (simp add: Add_def length_update_le)
    with Cons[of "Add d db0"] show ?case by simp
  qed simp
  from this[of "[]" ?ds] show ?thesis
    by (simp add: db e Lookup_foldl[OF assms(2)] Len_def) (simp add: Lookup_def split: option.splits)
qed

definition demo_def :: "string \<Rightarrow> string \<Rightarrow> DeviceDefinition" where
  "demo_def m md = \<lparr>dd_Manufacturer = m, dd_Model = md, dd_FriendlyName = [], dd_Bind = [6], dd_Reporting = [], dd_Properties = []\<rparr>"

theorem device_lookup_witness:
  "\<exists>db. LoadDeviceDir (Inr (map Inr [\<lparr>df_Clusters = [], df_Devices = [demo_def ''A'' ''x''],
        df_Manufacturers = [\<lparr>mg_Name = ''B'', mg_Models = [demo_def [] ''y'']\<rparr>]\<rparr>])) Map.empty = (None, Map.empty, db)
      \<and> Lookup db ''B'' ''y'' = Some (demo_def ''B'' ''y'') \<and> Lookup db ''A'' ''y'' = None"
proof -
  let ?f = "\<lparr>df_Clusters = [], df_Devices = [demo_def ''A'' ''x''],
        df_Manufacturers = [\<lparr>mg_Name = ''B'', mg_Models = [demo_def [] ''y'']\<rparr>]\<rparr>"
  obtain e r' db where l: "LoadDeviceDir (Inr (map Inr [?f])) Map.empty = (e, r', db)" by (metis prod_cases3)
  then have "r' = Map.empty" by (auto simp: LoadDeviceDir_def load_file_def)
  moreover have n: "list_all names_ok (concat (map file_defs [?f]))"
    by (simp add: file_defs_def names_ok_def nul_free_def demo_def_def)
  ultimately show ?thesis
    using l device_lookup[OF l n, of "''B''" "''y''"] device_lookup[OF l n, of "''A''" "''y''"]
    by (auto simp: file_defs_def matches_def demo_def_def)
qed

end
