(* ===== verification/Properties.thy ===== *)
theory Properties
  imports ZCL_Types Go_Float Device_DB
begin

text \<open>
  Proprietary properties: \<^verbatim>\<open>internal/coordinator/properties.go\<close>. The Tuya data points, the Xiaomi
  TLV format, the named transforms, and the extraction of the properties a device definition
  names. A \<^verbatim>\<open>map[int]interface{}\<close> is an association list with distinct keys. What
  \<^verbatim>\<open>processProperties\<close> does to the device, the store and the event bus is in
  \<open>Device_Manager\<close>; this theory has the pure part.
\<close>

type_synonym dp_map = "(int \<times> gval) list"

section \<open>Tuya data points\<close>

text \<open>The value of a data point by its type; \<open>None\<close> when it is too short for its type and is skipped.\<close>

definition tuya_value :: "byte \<Rightarrow> bytes \<Rightarrow> gval option" where
  "tuya_value dpType d =
     (if dpType = 0 then Some (GBytes d)
      else if dpType = 1 then (if 1 \<le> length d then Some (GBool (d ! 0 \<noteq> 0)) else None)
      else if dpType = 2 then (if 4 \<le> length d then Some (GI64 (ucast (be_get (take 4 d) :: u32))) else None)
      else if dpType = 3 then Some (GStr (string_of d))
      else if dpType = 4 then (if 1 \<le> length d then Some (GI64 (ucast (d ! 0))) else None)
      else if dpType = 5 then Some (GI64 (ucast (foldl (\<lambda>v b. push_bit 8 v OR ucast b) (0 :: u32) d)))
      else Some (GBytes d))"

datatype tuya_error = TuyaTruncated int nat nat nat

definition dp_store :: "int \<Rightarrow> byte \<Rightarrow> bytes \<Rightarrow> dp_map \<Rightarrow> dp_map" where
  "dp_store dpID dpType d res =
     (case tuya_value dpType d of None \<Rightarrow> res | Some v \<Rightarrow> AList.update dpID v res)"

text \<open>The loop at offset \<open>pos\<close>, where \<open>data\<close> is what is left of the payload.\<close>

function tuya_loop :: "nat \<Rightarrow> dp_map \<Rightarrow> bytes \<Rightarrow> tuya_error option \<times> dp_map" where
  "tuya_loop pos res data =
     (if length data < 4 then (None, res)
      else let dpID = uint (data ! 0); dpType = data ! 1;
               dataLen = unat (be_get (slice 2 4 data) :: u16); r = drop 4 data
           in if length r < dataLen then (Some (TuyaTruncated dpID dataLen (pos + 4) (length r)), res)
              else tuya_loop (pos + 4 + dataLen) (dp_store dpID dpType (take dataLen r) res) (drop dataLen r))"
  by pat_completeness auto
termination
  by (relation "measure (\<lambda>(_, _, data). length data)") auto

declare tuya_loop.simps [simp del]

definition decodeTuyaDPs :: "bytes \<Rightarrow> tuya_error option \<times> dp_map" where
  "decodeTuyaDPs data = (if length data < 2 then (None, []) else tuya_loop 2 [] (drop 2 data))"

section \<open>Xiaomi TLV\<close>

datatype tlv_error = TlvDecode int byte nat zcl_error

function tlv_loop :: "nat \<Rightarrow> dp_map \<Rightarrow> bytes \<Rightarrow> tlv_error option \<times> dp_map" where
  "tlv_loop pos res data =
     (if length data < 2 then (None, res)
      else case DecodeValue (data ! 1) (drop 2 data) of
        Inl e \<Rightarrow> (Some (TlvDecode (uint (data ! 0)) (data ! 1) (pos + 2) e), res)
      | Inr (v, consumed) \<Rightarrow>
          tlv_loop (pos + 2 + consumed) (AList.update (uint (data ! 0)) v res) (drop consumed (drop 2 data)))"
  by pat_completeness auto
termination
  by (relation "measure (\<lambda>(_, _, data). length data)") auto

declare tlv_loop.simps [simp del]

definition decodeXiaomiTLV :: "bytes \<Rightarrow> tlv_error option \<times> dp_map" where
  "decodeXiaomiTLV data = tlv_loop 0 [] data"

section \<open>Transforms\<close>

fun toNumeric :: "go_fp \<Rightarrow> gval \<Rightarrow> u64 option" where
  "toNumeric fp (GInt w) = Some w"
| "toNumeric fp (GU8 w) = Some (ucast w)"
| "toNumeric fp (GU16 w) = Some (ucast w)"
| "toNumeric fp (GU32 w) = Some (ucast w)"
| "toNumeric fp (GU64 w) = Some w"
| "toNumeric fp (GI8 w) = Some (scast w)"
| "toNumeric fp (GI16 w) = Some (scast w)"
| "toNumeric fp (GI32 w) = Some (scast w)"
| "toNumeric fp (GI64 w) = Some w"
| "toNumeric fp (GF32 w) = Some (f64_to_i64 fp (f32_to_f64 fp w))"
| "toNumeric fp (GF64 w) = Some (f64_to_i64 fp w)"
| "toNumeric fp _ = None"

definition divideN :: "go_fp \<Rightarrow> gval \<Rightarrow> int \<Rightarrow> gval" where
  "divideN fp value n =
     (case toNumeric fp value of
        None \<Rightarrow> value
      | Some v \<Rightarrow> GF64 (f64_div (f64_of_int (sint v)) (f64_of_int n)))"

text \<open>\<open>lumi_pct\<close> is the percentage before clamping, in the order of the float64 operations of the source.\<close>

definition lumi_pct :: "u64 \<Rightarrow> u64" where
  "lumi_pct mv = f64_mul (f64_div (f64_of_int (sint (mv - 2850))) (f64_of_int 150)) (f64_of_int 100)"

definition lumiBattery :: "go_fp \<Rightarrow> gval \<Rightarrow> gval" where
  "lumiBattery fp value =
     (case toNumeric fp value of
        None \<Rightarrow> value
      | Some mv \<Rightarrow>
          let pct = lumi_pct mv;
              pct1 = (if f64_lt0 pct then 0 else pct);
              pct2 = (if f64_gt100 pct1 then 0x4059000000000000 else pct1)
          in GInt (word_of_int (f64_trunc pct2)))"

definition minusOne :: "go_fp \<Rightarrow> gval \<Rightarrow> gval" where
  "minusOne fp value = (case toNumeric fp value of None \<Rightarrow> value | Some n \<Rightarrow> GI64 (n - 1))"

definition lumiTrigger :: "go_fp \<Rightarrow> gval \<Rightarrow> gval" where
  "lumiTrigger fp value = (case toNumeric fp value of None \<Rightarrow> value | Some n \<Rightarrow> GI64 ((n AND 0xFFFF) - 1))"

fun boolInvert :: "gval \<Rightarrow> gval" where
  "boolInvert (GBool b) = GBool (\<not> b)"
| "boolInvert (GU8 w) = GBool (w = 0)"
| "boolInvert (GU16 w) = GBool (w = 0)"
| "boolInvert (GU32 w) = GBool (w = 0)"
| "boolInvert (GU64 w) = GBool (w = 0)"
| "boolInvert (GI64 w) = GBool (w = 0)"
| "boolInvert v = v"

definition applyTransform :: "go_fp \<Rightarrow> string \<Rightarrow> gval \<Rightarrow> gval" where
  "applyTransform fp name value =
     (if name = ''lumi_battery'' then lumiBattery fp value
      else if name = ''minus_one'' then minusOne fp value
      else if name = ''lumi_trigger'' then lumiTrigger fp value
      else if name = ''bool_invert'' then boolInvert value
      else if name = ''divide_10'' then divideN fp value 10
      else if name = ''divide_100'' then divideN fp value 100
      else value)"

section \<open>Extraction\<close>

record property_value =
  pv_Cluster :: u16
  pv_Attribute :: "u16 option"
  pv_Decoder :: string
  pv_Tag :: int
  pv_Name :: string
  pv_Value :: gval

text \<open>The loop over the values of one property source.\<close>

definition source_values :: "go_fp \<Rightarrow> (PropertyDef \<Rightarrow> gval \<Rightarrow> property_value) \<Rightarrow> dp_map \<Rightarrow> PropertyDef list \<Rightarrow> property_value list" where
  "source_values fp mk m vs =
     List.map_filter (\<lambda>v. map_option (\<lambda>raw. mk v (if pd_Transform v \<noteq> [] then applyTransform fp (pd_Transform v) raw else raw))
                             (map_of m (pd_Tag v))) vs"

text \<open>\<^verbatim>\<open>processProperties\<close>, the part that computes the values: the sources for the reported attribute, of
  which only those with the decoder \<^verbatim>\<open>xiaomi_tlv\<close> have values. A value of another type than bytes or
  string, and a TLV error, skip the source.\<close>

fun raw_bytes :: "gval \<Rightarrow> bytes option" where
  "raw_bytes (GBytes b) = Some b"
| "raw_bytes (GStr s) = Some (bytes_of s)"
| "raw_bytes _ = None"

definition report_properties :: "go_fp \<Rightarrow> PropertySource list \<Rightarrow> u16 \<Rightarrow> u16 \<Rightarrow> gval \<Rightarrow> property_value list" where
  "report_properties fp pss cluster attr decoded =
     concat (map (\<lambda>ps.
       if ps_Cluster ps \<noteq> cluster \<or> ps_Attribute ps \<noteq> attr then []
       else if ps_Decoder ps \<noteq> ''xiaomi_tlv'' then []
       else case raw_bytes decoded of
         None \<Rightarrow> []
       | Some raw \<Rightarrow>
           (case decodeXiaomiTLV raw of
              (Some e, _) \<Rightarrow> []
            | (None, m) \<Rightarrow>
                source_values fp (\<lambda>v x. \<lparr>pv_Cluster = ps_Cluster ps, pv_Attribute = Some (ps_Attribute ps),
                  pv_Decoder = ps_Decoder ps, pv_Tag = pd_Tag v, pv_Name = pd_Name v, pv_Value = x\<rparr>) m (ps_Values ps))) pss)"

text \<open>The same for \<^verbatim>\<open>processClusterCommandProperties\<close> and the decoder \<^verbatim>\<open>tuya_dp\<close>.\<close>

definition command_properties :: "go_fp \<Rightarrow> PropertySource list \<Rightarrow> u16 \<Rightarrow> bytes \<Rightarrow> property_value list" where
  "command_properties fp pss cluster payload =
     concat (map (\<lambda>ps.
       if ps_Cluster ps \<noteq> cluster then []
       else if ps_Decoder ps \<noteq> ''tuya_dp'' then []
       else case decodeTuyaDPs payload of
           (Some e, _) \<Rightarrow> []
         | (None, m) \<Rightarrow>
             source_values fp (\<lambda>v x. \<lparr>pv_Cluster = ps_Cluster ps, pv_Attribute = None,
               pv_Decoder = ps_Decoder ps, pv_Tag = pd_Tag v, pv_Name = pd_Name v, pv_Value = x\<rparr>) m (ps_Values ps)) pss)"

text \<open>The properties are written into the device's property map one after the other.\<close>

definition set_properties :: "property_value list \<Rightarrow> (string \<times> gval) list \<Rightarrow> (string \<times> gval) list" where
  "set_properties pvs ps = foldl (\<lambda>m pv. AList.update (pv_Name pv) (pv_Value pv) m) ps pvs"

section \<open>The wire format of the data points is read back\<close>

record dp =
  dp_ID :: byte
  dp_Type :: byte
  dp_Data :: bytes

definition dp_wire :: "dp \<Rightarrow> bytes" where
  "dp_wire d = [dp_ID d, dp_Type d] @ rev (le_put 2 (word_of_nat (length (dp_Data d)) :: u16)) @ dp_Data d"

definition dp_ok :: "dp \<Rightarrow> bool" where
  "dp_ok d \<longleftrightarrow> length (dp_Data d) < 2 ^ 16"

text \<open>The records of a payload, as a list: the reference parser the loop is compared with.\<close>

function dp_records :: "bytes \<Rightarrow> dp list" where
  "dp_records data =
     (if length data < 4 then []
      else let n = unat (be_get (slice 2 4 data) :: u16); r = drop 4 data
           in if length r < n then [] else \<lparr>dp_ID = data ! 0, dp_Type = data ! 1, dp_Data = take n r\<rparr> # dp_records (drop n r))"
  by pat_completeness auto
termination
  by (relation "measure length") auto

declare dp_records.simps [simp del]

definition store_dps :: "dp list \<Rightarrow> dp_map \<Rightarrow> dp_map" where
  "store_dps dps res = foldl (\<lambda>m d. dp_store (uint (dp_ID d)) (dp_Type d) (dp_Data d) m) res dps"

lemma tuya_loop_records: "snd (tuya_loop pos res data) = store_dps (dp_records data) res"
proof (induction pos res data rule: tuya_loop.induct)
  case (1 pos res data)
  then show ?case
    by (subst tuya_loop.simps, subst dp_records.simps) (auto simp: Let_def store_dps_def)
qed

lemma dp_wire_parts:
  assumes "dp_ok d"
  shows "length (dp_wire d @ rest) \<ge> 4" "(dp_wire d @ rest) ! 0 = dp_ID d" "(dp_wire d @ rest) ! 1 = dp_Type d"
    "drop 4 (dp_wire d @ rest) = dp_Data d @ rest"
    "unat (be_get (slice 2 4 (dp_wire d @ rest)) :: u16) = length (dp_Data d)"
proof -
  have l: "length (le_put 2 (word_of_nat (length (dp_Data d)) :: u16)) = 2" by simp
  then obtain a b where ab: "le_put 2 (word_of_nat (length (dp_Data d)) :: u16) = [a, b]"
    by (auto simp: length_Suc_conv numeral_2_eq_2)
  have g: "(le_get [a, b] :: u16) = word_of_nat (length (dp_Data d))" unfolding ab[symmetric] by (simp add: le_get_put)
  show "length (dp_wire d @ rest) \<ge> 4" "(dp_wire d @ rest) ! 0 = dp_ID d" "(dp_wire d @ rest) ! 1 = dp_Type d"
    "drop 4 (dp_wire d @ rest) = dp_Data d @ rest" by (simp_all add: dp_wire_def ab)
  have "slice 2 4 (dp_wire d @ rest) = [b, a]" by (simp add: dp_wire_def ab slice_def)
  then have "(be_get (slice 2 4 (dp_wire d @ rest)) :: u16) = word_of_nat (length (dp_Data d))"
    by (simp add: be_get_def g del: le_get.simps)
  then show "unat (be_get (slice 2 4 (dp_wire d @ rest)) :: u16) = length (dp_Data d)"
    using assms by (simp add: dp_ok_def unat_word16_small)
qed

interpretation tuya: record_stream dp_records dp_wire dp_ok
proof unfold_locales
  fix d rest assume ok: "dp_ok d"
  note p = dp_wire_parts[OF ok, of rest]
  show "dp_records (dp_wire d @ rest) = d # dp_records rest"
    by (subst dp_records.simps) (use p in \<open>simp add: Let_def\<close>)
qed (simp add: dp_records.simps)

lemma tuya_loop_wire:
  assumes "dp_ok d"
  shows "tuya_loop pos res (dp_wire d @ rest) =
    tuya_loop (pos + 4 + length (dp_Data d)) (dp_store (uint (dp_ID d)) (dp_Type d) (dp_Data d) res) rest"
  by (subst tuya_loop.simps) (use dp_wire_parts[OF assms, of rest] in \<open>simp add: Let_def\<close>)

lemma tuya_loop_wires:
  "list_all dp_ok dps \<Longrightarrow> \<exists>pos'. tuya_loop pos res (concat (map dp_wire dps) @ rest) = tuya_loop pos' (store_dps dps res) rest"
proof (induction dps arbitrary: pos res)
  case (Cons d dps)
  then show ?case by (simp add: tuya_loop_wire store_dps_def)
qed (auto simp: store_dps_def)

text \<open>
  a Tuya payload is decoded as it was written. After the two bytes of the sequence number, any list of data points
  (raw, bool, number, string, enum, bitmap or of an unknown type, each with up to 65535 bytes) is read back
  completely, later values of the same data point replacing earlier ones, and up to three stray bytes
  behind them are ignored; when the last data point is cut short, the decoder reports the error and the
  properties of the whole payload are dropped.
\<close>

theorem tuya_roundtrip:
  assumes "list_all dp_ok dps" "length hdr = 2"
  shows "(length tail < 4 \<longrightarrow> decodeTuyaDPs (hdr @ concat (map dp_wire dps) @ tail) = (None, store_dps dps []))
     \<and> (\<forall>d k. dp_ok d \<and> tail = take k (dp_wire d) \<and> 4 \<le> k \<and> k < length (dp_wire d) \<longrightarrow>
          (\<exists>e. fst (decodeTuyaDPs (hdr @ concat (map dp_wire dps) @ tail)) = Some e)
          \<and> command_properties fp pss cluster (hdr @ concat (map dp_wire dps) @ tail) = [])"
proof -
  have d: "\<exists>pos'. decodeTuyaDPs (hdr @ concat (map dp_wire dps) @ tail) = tuya_loop pos' (store_dps dps []) tail"
    using tuya_loop_wires[OF assms(1)] assms(2) by (simp add: decodeTuyaDPs_def)
  have cut: "\<exists>e m. decodeTuyaDPs (hdr @ concat (map dp_wire dps) @ tail) = (Some e, m)"
    if h: "dp_ok d" "tail = take k (dp_wire d)" "4 \<le> k" "k < length (dp_wire d)" for d k
  proof -
    have w: "dp_wire d = tail @ drop k (dp_wire d)" using h by simp
    have l: "4 \<le> length tail" using h by simp
    then obtain a b c e r where t: "tail = a # b # c # e # r" by (auto simp: Suc_le_length_iff eval_nat_numeral)
    note p = dp_wire_parts[OF h(1), of "[]", unfolded append_Nil2]
    have "slice 2 4 (dp_wire d) = slice 2 4 tail" by (subst w) (simp add: t slice_def)
    then have "unat (be_get (slice 2 4 tail) :: u16) = length (dp_Data d)" using p by simp
    moreover have "length (drop 4 tail) < length (dp_Data d)"
      using h p(4) by (metis length_drop length_take diff_less_mono min.absorb2 less_imp_le)
    ultimately show ?thesis using d l by (subst (asm) tuya_loop.simps) (auto simp: Let_def)
  qed
  then have "command_properties fp pss cluster (hdr @ concat (map dp_wire dps) @ tail) = []"
    if "dp_ok d" "tail = take k (dp_wire d)" "4 \<le> k" "k < length (dp_wire d)" for d k
    using cut[OF that] by (auto simp: command_properties_def)
  with cut d show ?thesis by (auto simp: tuya_loop.simps) (metis fst_conv)
qed

theorem tuya_roundtrip_witness:
  "decodeTuyaDPs ([0, 7] @ concat (map dp_wire [\<lparr>dp_ID = 1, dp_Type = 1, dp_Data = [1]\<rparr>]) @ [9]) = (None, [(1, GBool True)])
   \<and> list_all dp_ok [\<lparr>dp_ID = 1, dp_Type = 1, dp_Data = [1]\<rparr>]"
proof -
  have ok: "list_all dp_ok [\<lparr>dp_ID = 1, dp_Type = 1, dp_Data = [1]\<rparr>]" by (simp add: dp_ok_def)
  show ?thesis
    using tuya_roundtrip[OF ok, where hdr = "[0, 7]" and tail = "[9]"] ok
    by (simp add: store_dps_def dp_store_def tuya_value_def)
qed

section \<open>The Xiaomi format is read back\<close>

record tlv =
  tlv_Tag :: byte
  tlv_Type :: byte
  tlv_Bytes :: bytes
  tlv_Val :: gval

definition tlv_wire :: "tlv \<Rightarrow> bytes" where
  "tlv_wire t = [tlv_Tag t, tlv_Type t] @ tlv_Bytes t"

definition tlv_ok :: "tlv \<Rightarrow> bool" where
  "tlv_ok t \<longleftrightarrow> DecodeValue (tlv_Type t) (tlv_Bytes t) = Inr (tlv_Val t, length (tlv_Bytes t))"

function tlv_records :: "bytes \<Rightarrow> tlv list" where
  "tlv_records data =
     (if length data < 2 then []
      else case DecodeValue (data ! 1) (drop 2 data) of
        Inl e \<Rightarrow> []
      | Inr (v, n) \<Rightarrow> \<lparr>tlv_Tag = data ! 0, tlv_Type = data ! 1, tlv_Bytes = take n (drop 2 data), tlv_Val = v\<rparr>
                      # tlv_records (drop n (drop 2 data)))"
  by pat_completeness auto
termination
  by (relation "measure length") auto

declare tlv_records.simps [simp del]

definition store_tlvs :: "tlv list \<Rightarrow> dp_map \<Rightarrow> dp_map" where
  "store_tlvs ts res = foldl (\<lambda>m t. AList.update (uint (tlv_Tag t)) (tlv_Val t) m) res ts"

lemma tlv_loop_records: "snd (tlv_loop pos res data) = store_tlvs (tlv_records data) res"
proof (induction pos res data rule: tlv_loop.induct)
  case (1 pos res data)
  then show ?case
    by (subst tlv_loop.simps, subst tlv_records.simps) (auto simp: store_tlvs_def split: sum.split)
qed

lemma tlv_ok_append: "tlv_ok t \<Longrightarrow> DecodeValue (tlv_Type t) (tlv_Bytes t @ rest) = Inr (tlv_Val t, length (tlv_Bytes t))"
  using DecodeValue_prefix[of "tlv_Type t" "tlv_Bytes t" "tlv_Val t" "length (tlv_Bytes t)" rest] by (simp add: tlv_ok_def)

interpretation tlvs: record_stream tlv_records tlv_wire tlv_ok
  by unfold_locales (subst tlv_records.simps; simp add: tlv_wire_def tlv_ok_append)+

lemma tlv_loop_wires:
  "list_all tlv_ok ts \<Longrightarrow> \<exists>pos'. tlv_loop pos res (concat (map tlv_wire ts) @ rest) = tlv_loop pos' (store_tlvs ts res) rest"
proof (induction ts arbitrary: pos res)
  case (Cons t ts)
  have "tlv_loop pos res (concat (map tlv_wire (t # ts)) @ rest) =
      tlv_loop (pos + 2 + length (tlv_Bytes t)) (AList.update (uint (tlv_Tag t)) (tlv_Val t) res) (concat (map tlv_wire ts) @ rest)"
    by (subst tlv_loop.simps) (use Cons.prems in \<open>simp add: tlv_wire_def tlv_ok_append\<close>)
  with Cons show ?case by (simp add: store_tlvs_def)
qed (auto simp: store_tlvs_def)

lemma map_of_store_tlvs:
  "map_of (store_tlvs ts res) k =
     (case List.find (\<lambda>t. uint (tlv_Tag t) = k) (rev ts) of Some t \<Rightarrow> Some (tlv_Val t) | None \<Rightarrow> map_of res k)"
  by (induction ts arbitrary: res) (auto simp: store_tlvs_def find_append update_conv' split: option.splits)

text \<open>
  a Xiaomi attribute report is decoded tag by tag. For every list of tagged ZCL values, each in the encoding that
  decodes to it, the decoder gives for each tag exactly the value of its last entry, and one stray
  byte at the end is ignored.
\<close>

theorem xiaomi_roundtrip:
  assumes "list_all tlv_ok ts" "length tail < 2"
  shows "\<exists>m. decodeXiaomiTLV (concat (map tlv_wire ts) @ tail) = (None, m)
     \<and> (\<forall>k. map_of m k = map_option tlv_Val (List.find (\<lambda>t. uint (tlv_Tag t) = k) (rev ts)))"
proof -
  obtain pos' where "decodeXiaomiTLV (concat (map tlv_wire ts) @ tail) = tlv_loop pos' (store_tlvs ts []) tail"
    using tlv_loop_wires[OF assms(1), of 0 "[]" tail] by (auto simp: decodeXiaomiTLV_def)
  moreover have "tlv_loop pos' (store_tlvs ts []) tail = (None, store_tlvs ts [])"
    using assms(2) by (simp add: tlv_loop.simps)
  ultimately show ?thesis using map_of_store_tlvs[of ts "[]"] by (auto split: option.split)
qed

theorem xiaomi_roundtrip_witness:
  "\<exists>m. decodeXiaomiTLV (concat (map tlv_wire [\<lparr>tlv_Tag = 1, tlv_Type = TypeUint16, tlv_Bytes = [0xEF, 0x0B], tlv_Val = GU16 3055\<rparr>]) @ [5]) = (None, m)
     \<and> map_of m 1 = Some (GU16 3055) \<and> map_of m 5 = None"
proof -
  let ?ts = "[\<lparr>tlv_Tag = 1, tlv_Type = TypeUint16, tlv_Bytes = [0xEF, 0x0B], tlv_Val = GU16 3055\<rparr>]"
  have "(le_get [0xEF, 0x0B] :: u16) = 3055" by code_simp
  then have ok: "list_all tlv_ok ?ts"
    by (simp add: tlv_ok_def DecodeValue_def TypeSize_def del: le_get.simps)
  show ?thesis using xiaomi_roundtrip[OF ok, of "[5]"] by auto
qed

section \<open>The battery percentage is a percentage\<close>

lemma GInt_small: "0 \<le> i \<Longrightarrow> i \<le> 100 \<Longrightarrow> sint (word_of_int i :: u64) = i"
  by (simp add: signed_of_int signed_take_bit_int_eq_self)

lemma f64_100_parts: "f64_exp 0x4059000000000000 = 1029" "f64_frac 0x4059000000000000 = 0x9000000000000"
    "f64_exp 0 = 0" "f64_frac 0 = 0" "\<not> f64_neg 0" "\<not> f64_neg 0x4059000000000000"
  by (simp_all add: f64_exp_nat f64_frac_nat f64_neg_def)

lemma f64_100: "\<not> f64_is_nan 0x4059000000000000" "\<not> f64_gt100 0x4059000000000000"
  "\<not> f64_lt0 0x4059000000000000" "f64_trunc 0x4059000000000000 = 100" "f64_trunc 0 = 0" "\<not> f64_gt100 0"
  by (simp_all add: f64_is_nan_def f64_gt100_def f64_lt0_def f64_trunc_def f64_mant_def f64_e2_def scale_trunc_def f64_100_parts)

text \<open>
  the battery percentage computed from a voltage is an integer between 0 and 100 for every numeric value a device
  can report, and a value that is not a number is passed through unchanged. The floating point
  division, multiplication and truncation of the source are computed bit by bit.
\<close>

theorem lumi_battery_range:
  "case toNumeric fp value of
     None \<Rightarrow> applyTransform fp ''lumi_battery'' value = value
   | Some mv \<Rightarrow> (\<exists>w. applyTransform fp ''lumi_battery'' value = GInt w \<and> 0 \<le> sint w \<and> sint w \<le> 100)"
proof (cases "toNumeric fp value")
  case (Some mv)
  define pct where "pct = lumi_pct mv"
  have n: "\<not> f64_is_nan pct" unfolding pct_def lumi_pct_def by (rule f64_mul_not_nan)
  define p1 where "p1 = (if f64_lt0 pct then 0 else pct)"
  define p2 where "p2 = (if f64_gt100 p1 then 0x4059000000000000 else p1)"
  have "0 \<le> f64_trunc p2 \<and> f64_trunc p2 \<le> 100"
  proof (cases "f64_lt0 pct")
    case True
    then show ?thesis by (simp add: p1_def p2_def f64_100)
  next
    case False
    then show ?thesis using n f64_trunc_0_100[of pct] by (auto simp: p1_def p2_def f64_100)
  qed
  moreover have "applyTransform fp ''lumi_battery'' value = GInt (word_of_int (f64_trunc p2))"
    by (simp add: applyTransform_def lumiBattery_def Some Let_def pct_def p1_def p2_def)
  ultimately show ?thesis by (auto simp: Some GInt_small)
qed (simp add: applyTransform_def lumiBattery_def)

end
