(* ===== verification/Event_Bus.thy ===== *)
theory Event_Bus
  imports Go_Values "HOL-Library.Multiset"
begin

text \<open>
  The event bus: \<^verbatim>\<open>internal/coordinator/events.go\<close>. A handler is a function on the state of the rest of
  the program; its boolean result says whether it panicked (the state is what it had done up to
  there). The maps of handlers are lists of subscriptions; \<^verbatim>\<open>Emit\<close> visits a map in an order that the Go
  runtime chooses, the parameter \<open>ord\<close>.
\<close>

section \<open>Events\<close>

record Event =
  ev_Type :: string
  ev_Data :: gval

abbreviation EventDeviceJoined :: string where "EventDeviceJoined \<equiv> ''device_joined''"
abbreviation EventDeviceLeft :: string where "EventDeviceLeft \<equiv> ''device_left''"
abbreviation EventDeviceAnnounce :: string where "EventDeviceAnnounce \<equiv> ''device_announce''"
abbreviation EventAttributeReport :: string where "EventAttributeReport \<equiv> ''attribute_report''"
abbreviation EventClusterCommand :: string where "EventClusterCommand \<equiv> ''cluster_command''"
abbreviation EventPropertyUpdate :: string where "EventPropertyUpdate \<equiv> ''property_update''"
abbreviation EventNetworkState :: string where "EventNetworkState \<equiv> ''network_state''"
abbreviation EventPermitJoin :: string where "EventPermitJoin \<equiv> ''permit_join''"

section \<open>Subscriptions\<close>

type_synonym 's EventHandler = "Event \<Rightarrow> 's \<Rightarrow> bool \<times> 's"

record 's EventBus =
  eb_handlers :: "string \<Rightarrow> (u64 \<times> 's EventHandler) list"
  eb_allHandlers :: "(u64 \<times> 's EventHandler) list"
  eb_nextID :: u64

definition NewEventBus :: "'s EventBus" where
  "NewEventBus = \<lparr>eb_handlers = (\<lambda>_. []), eb_allHandlers = [], eb_nextID = 0\<rparr>"

text \<open>A map write: an entry with the same id is replaced.\<close>

definition sub_put :: "u64 \<Rightarrow> 's EventHandler \<Rightarrow> (u64 \<times> 's EventHandler) list \<Rightarrow> (u64 \<times> 's EventHandler) list" where
  "sub_put i h hs = filter (\<lambda>e. fst e \<noteq> i) hs @ [(i, h)]"

definition sub_delete :: "u64 \<Rightarrow> (u64 \<times> 's EventHandler) list \<Rightarrow> (u64 \<times> 's EventHandler) list" where
  "sub_delete i hs = filter (\<lambda>e. fst e \<noteq> i) hs"

text \<open>\<^verbatim>\<open>On\<close> and \<^verbatim>\<open>OnAll\<close> give the id, which the returned unsubscribe function closes over.\<close>

definition On :: "string \<Rightarrow> 's EventHandler \<Rightarrow> 's EventBus \<Rightarrow> u64 \<times> 's EventBus" where
  "On t h eb =
     (let i = eb_nextID eb in
      (i, eb\<lparr>eb_nextID := i + 1, eb_handlers := (eb_handlers eb)(t := sub_put i h (eb_handlers eb t))\<rparr>))"

definition OnAll :: "'s EventHandler \<Rightarrow> 's EventBus \<Rightarrow> u64 \<times> 's EventBus" where
  "OnAll h eb =
     (let i = eb_nextID eb in
      (i, eb\<lparr>eb_nextID := i + 1, eb_allHandlers := sub_put i h (eb_allHandlers eb)\<rparr>))"

definition unsubscribe :: "string \<Rightarrow> u64 \<Rightarrow> 's EventBus \<Rightarrow> 's EventBus" where
  "unsubscribe t i eb = eb\<lparr>eb_handlers := (eb_handlers eb)(t := sub_delete i (eb_handlers eb t))\<rparr>"

definition unsubscribe_all :: "u64 \<Rightarrow> 's EventBus \<Rightarrow> 's EventBus" where
  "unsubscribe_all i eb = eb\<lparr>eb_allHandlers := sub_delete i (eb_allHandlers eb)\<rparr>"

section \<open>Emitting\<close>

text \<open>The handlers are copied under the read lock and called one after the other; a panic is recovered, so that
  only the state after it goes on.\<close>

definition Emit ::
  "((u64 \<times> 's EventHandler) list \<Rightarrow> (u64 \<times> 's EventHandler) list) \<Rightarrow> Event \<Rightarrow> 's EventBus \<Rightarrow> 's \<Rightarrow> 's" where
  "Emit ord ev eb s =
     fold (\<lambda>h s. snd (h ev s)) (map snd (ord (eb_handlers eb (ev_Type ev)) @ ord (eb_allHandlers eb))) s"

definition subscribed :: "'s EventBus \<Rightarrow> string \<Rightarrow> 's EventHandler \<Rightarrow> bool" where
  "subscribed eb t h \<longleftrightarrow> h \<in> snd ` set (eb_handlers eb t) \<union> snd ` set (eb_allHandlers eb)"

text \<open>Ids are fresh until the counter wraps.\<close>

definition bus_ok :: "'s EventBus \<Rightarrow> bool" where
  "bus_ok eb \<longleftrightarrow> (\<forall>t. \<forall>i \<in> fst ` set (eb_handlers eb t). i < eb_nextID eb)
     \<and> (\<forall>i \<in> fst ` set (eb_allHandlers eb). i < eb_nextID eb)"

lemma no_wrap: "eb_nextID eb \<noteq> - 1 \<Longrightarrow> i \<le> eb_nextID eb \<Longrightarrow> i < eb_nextID eb + 1"
  using inc_less_eq_self_iff_eq[of "eb_nextID eb"] by (meson linorder_not_le order.trans order_trans)

lemma sub_fresh: "\<forall>j \<in> fst ` set hs. j < i \<Longrightarrow> filter (\<lambda>e. fst e \<noteq> (i :: u64)) hs = hs"
  by (rule filter_True) auto

lemma fold_establish:
  assumes "h \<in> set hs" "\<And>s. Q (snd (h ev s))" "\<And>h' s. h' \<in> set hs \<Longrightarrow> Q s \<Longrightarrow> Q (snd (h' ev s))"
  shows "Q (fold (\<lambda>h s. snd (h ev s)) hs s)"
  using assms
proof (induction hs arbitrary: s)
  case (Cons g hs)
  have keep: "Q s \<Longrightarrow> Q (fold (\<lambda>h s. snd (h ev s)) gs s)" if "set gs \<subseteq> set (g # hs)" for gs s
    using that Cons.prems(3) by (induction gs arbitrary: s) auto
  show ?case
  proof (cases "h \<in> set hs")
    case True
    then show ?thesis using Cons by simp
  next
    case False
    then have "Q (snd (g ev s))" using Cons.prems by simp
    then show ?thesis using keep[of hs] by auto
  qed
qed simp

text \<open>
  an event reaches every handler subscribed to its type or to all events, in whatever order the runtime visits
  them and although other handlers panic: what a handler guarantees after its call, and the other handlers do not
  undo, holds after the event was emitted.
\<close>

theorem emit_delivers:
  assumes "\<And>hs. mset (ord hs) = mset hs" "subscribed eb (ev_Type ev) h"
    "\<And>s. Q (snd (h ev s))" "\<And>h' s. subscribed eb (ev_Type ev) h' \<Longrightarrow> Q s \<Longrightarrow> Q (snd (h' ev s))"
  shows "Q (Emit ord ev eb s)"
proof -
  have s: "set (ord hs) = set hs" for hs using assms(1)[of hs] by (metis set_mset_mset)
  show ?thesis unfolding Emit_def
    by (rule fold_establish[of h]) (use assms(2-4) in \<open>auto simp: s subscribed_def\<close>)
qed

text \<open>A panicking handler in front of one that counts.\<close>

definition demo_bus :: "nat EventBus" where
  "demo_bus = snd (OnAll (\<lambda>_ s. (False, s + 1)) (snd (On EventDeviceLeft (\<lambda>_ s. (True, s)) NewEventBus)))"

theorem emit_delivers_witness:
  "0 < Emit rev \<lparr>ev_Type = EventDeviceLeft, ev_Data = GNil\<rparr> demo_bus 0"
  by (rule emit_delivers[where h = "\<lambda>_ s. (False, s + 1)"])
    (auto simp: subscribed_def demo_bus_def On_def OnAll_def NewEventBus_def sub_put_def)

text \<open>
  subscribing takes effect and its unsubscribe function undoes exactly that. As long as the id counter has not
  wrapped, a new subscription gets an id no other one has, is called for its type from then on, and unsubscribing
  leaves the subscriptions as they were before, for every type.
\<close>

theorem subscribe_unsubscribe:
  assumes "bus_ok eb" "eb_nextID eb \<noteq> - 1" "On t h eb = (i, eb')"
  shows "bus_ok eb' \<and> subscribed eb' t h \<and> i \<notin> fst ` set (eb_handlers eb t)
     \<and> eb_handlers (unsubscribe t i eb') = eb_handlers eb \<and> eb_allHandlers (unsubscribe t i eb') = eb_allHandlers eb"
proof -
  have f: "filter (\<lambda>e. fst e \<noteq> eb_nextID eb) (eb_handlers eb t) = eb_handlers eb t"
    using assms(1) by (intro sub_fresh) (auto simp: bus_ok_def)
  have w: "j < eb_nextID eb + 1" if "j \<le> eb_nextID eb" for j using assms(2) that by (rule no_wrap)
  have i: "i = eb_nextID eb" and e: "eb' = eb\<lparr>eb_nextID := i + 1, eb_handlers := (eb_handlers eb)(t := eb_handlers eb t @ [(i, h)])\<rparr>"
    using assms(3) by (auto simp: On_def Let_def sub_put_def f)
  have "bus_ok eb'" using assms(1) w by (auto simp: bus_ok_def e i le_less)
  moreover have "i \<notin> fst ` set (eb_handlers eb t)" using assms(1) by (force simp: bus_ok_def i)
  ultimately show ?thesis by (auto simp: e subscribed_def unsubscribe_def sub_delete_def f i)
qed

theorem subscribe_unsubscribe_witness:
  "\<exists>eb'. On EventPermitJoin (\<lambda>_ s. (False, s)) (NewEventBus :: nat EventBus) = (0, eb')
     \<and> subscribed eb' EventPermitJoin (\<lambda>_ s. (False, s)) \<and> eb_handlers (unsubscribe EventPermitJoin 0 eb') = (\<lambda>_. [])"
proof -
  let ?h = "\<lambda>_ s :: nat. (False, s)"
  obtain eb' where o: "On EventPermitJoin ?h NewEventBus = (0, eb')" by (simp add: On_def NewEventBus_def)
  have "bus_ok (NewEventBus :: nat EventBus)" "eb_nextID (NewEventBus :: nat EventBus) \<noteq> - 1"
    by (simp_all add: bus_ok_def NewEventBus_def)
  from subscribe_unsubscribe[OF this o] show ?thesis using o by (auto simp: NewEventBus_def)
qed

end
