(* ===== verification/IEEE_Address.thy ===== *)
theory IEEE_Address
  imports Prelude
begin

text \<open>
  IEEE addresses as text: \<^verbatim>\<open>ParseIEEE\<close> and \<^verbatim>\<open>ParseExtPanID\<close> of \<^verbatim>\<open>internal/coordinator/coordinator.go\<close>,
  with \<^verbatim>\<open>hex.DecodeString\<close>; \<open>hexstr\<close> is the \<^verbatim>\<open>%016X\<close> with which the device manager names a device.
\<close>

definition hex_val :: "char \<Rightarrow> nat option" where
  "hex_val c = (let n = of_char c in
     if 48 \<le> n \<and> n \<le> 57 then Some (n - 48)
     else if 97 \<le> n \<and> n \<le> 102 then Some (n - 87)
     else if 65 \<le> n \<and> n \<le> 70 then Some (n - 55)
     else None)"

fun hex_decode :: "string \<Rightarrow> bytes option" where
  "hex_decode [] = Some []"
| "hex_decode [c] = None"
| "hex_decode (c # d # r) =
     (case (hex_val c, hex_val d) of
        (Some h, Some l) \<Rightarrow> map_option (Cons (word_of_nat (16 * h + l))) (hex_decode r)
      | _ \<Rightarrow> None)"

datatype ieee_error = NotHex | IEEELength nat

definition ParseIEEE :: "string \<Rightarrow> ieee_error + bytes" where
  "ParseIEEE s =
     (case hex_decode (filter (\<lambda>c. c \<noteq> CHR '':'') s) of
        None \<Rightarrow> Inl NotHex
      | Some b \<Rightarrow> if length b \<noteq> 8 then Inl (IEEELength (length b)) else Inr b)"

definition ParseExtPanID :: "string \<Rightarrow> ieee_error + bytes" where
  "ParseExtPanID s = ParseIEEE s"

lemma hex_digit_val: "n < 16 \<Longrightarrow> hex_val (hex_digit n) = Some n"
  by (auto simp: hex_val_def hex_digit_def Let_def)

lemma hex_digit_not_colon: "n < 16 \<Longrightarrow> hex_digit n \<noteq> CHR '':''"
proof
  assume n: "n < 16" and "hex_digit n = CHR '':''"
  then have "hex_val (CHR '':'') = Some n" using hex_digit_val by metis
  then show False by (simp add: hex_val_def)
qed

lemma hex2_bytes: "unat b div 16 < 16" "unat b mod 16 < 16" for b :: byte
  using unsigned_less[of b, where ?'a=nat] by (simp_all add: less_mult_imp_div_less)

lemma hex_decode_hexstr [simp]: "hex_decode (hexstr bs) = Some bs"
  by (induction bs) (simp_all add: hexstr_def hex2_def hex_digit_val hex2_bytes)

lemma hexstr_inj: "hexstr a = hexstr b \<longleftrightarrow> a = b"
  by (metis hex_decode_hexstr option.inject)

lemma hexstr_no_colon: "filter (\<lambda>c. c \<noteq> CHR '':'') (hexstr bs) = hexstr bs"
  by (rule filter_True) (auto simp: hexstr_def hex2_def hex_digit_not_colon hex2_bytes)

text \<open>Writing an address with colons between its bytes, as users do.\<close>

fun colons :: "bytes \<Rightarrow> string" where
  "colons [] = []"
| "colons [b] = hex2 b"
| "colons (b # bs) = hex2 b @ CHR '':'' # colons bs"

lemma filter_colons: "filter (\<lambda>c. c \<noteq> CHR '':'') (colons bs) = hexstr bs"
  by (induction bs rule: colons.induct)
    (auto simp: hexstr_def hex2_def hex_digit_not_colon hex2_bytes)

text \<open>
  an address survives its textual form. The 16 hex digits under which the device manager files a device, and
  the same address with colons between the bytes, parse back to its eight bytes; so two devices never share a
  key. Every accepted text denotes exactly eight bytes.
\<close>

theorem ieee_roundtrip:
  assumes "length a = 8"
  shows "ParseIEEE (hexstr a) = Inr a \<and> ParseIEEE (colons a) = Inr a \<and> (hexstr a = hexstr b \<longleftrightarrow> a = b)
     \<and> (case ParseIEEE s of Inl _ \<Rightarrow> True | Inr x \<Rightarrow> length x = 8)"
  using assms by (auto simp: ParseIEEE_def hexstr_no_colon filter_colons hexstr_inj split: option.split)

theorem ieee_roundtrip_witness:
  "ParseIEEE (colons [0, 0x12, 0x4B, 0, 0x1C, 0xD5, 0xFE, 0x0A]) = Inr [0, 0x12, 0x4B, 0, 0x1C, 0xD5, 0xFE, 0x0A]"
  using ieee_roundtrip[of "[0, 0x12, 0x4B, 0, 0x1C, 0xD5, 0xFE, 0x0A]"] by simp

end
