(* ===== verification/Device_Manager.thy ===== *)
theory Device_Manager
  imports NCP_Driver Store Properties Event_Bus IEEE_Address
begin

text \<open>
  The device manager: \<^verbatim>\<open>internal/coordinator/device_manager.go\<close> without the interview (see
  \<open>Interview\<close>), and the stateful part of \<^verbatim>\<open>properties.go\<close>. Emitted events are recorded in order in
  \<open>dm_events\<close>, cancelled interviews by their generation in \<open>dm_cancelled\<close>, interviews launched with
  \<^verbatim>\<open>go dm.Interview(ieee)\<close> in \<open>dm_started\<close>. The clock is an argument: a handler reads it once, in
  nanoseconds. A Go map that is searched with an early \<^verbatim>\<open>break\<close> is visited in an order the
  runtime chooses, which is an argument too.
\<close>

section \<open>State\<close>

text \<open>What the manager reaches through the coordinator and never changes.\<close>

record dm_env =
  e_js :: js32
  e_fp :: go_fp
  e_registry :: registry
  e_db :: "DeviceDB option"
  e_localIEEE :: bytes

record dm =
  dm_store :: bolt
  dm_events :: "Event list"
  dm_addrIndex :: "u16 \<rightharpoonup> string"
  dm_lastJoin :: "(string \<times> int) list"
  dm_interviewCancels :: "string \<rightharpoonup> u64"
  dm_interviewGen :: u64
  dm_cancelled :: "u64 list"
  dm_started :: "string list"

definition NewDeviceManager :: "bolt \<Rightarrow> dm" where
  "NewDeviceManager st = \<lparr>dm_store = st, dm_events = [], dm_addrIndex = Map.empty, dm_lastJoin = [],
     dm_interviewCancels = Map.empty, dm_interviewGen = 0, dm_cancelled = [], dm_started = []\<rparr>"

definition joinDebounceDuration :: int where "joinDebounceDuration = 3000000000"
definition lastJoinCacheCap :: nat where "lastJoinCacheCap = 50"

definition emit :: "string \<Rightarrow> (string \<times> gval) list \<Rightarrow> dm \<Rightarrow> dm" where
  "emit t kvs s = s\<lparr>dm_events := dm_events s @ [\<lparr>ev_Type = t, ev_Data = GMap kvs\<rparr>]\<rparr>"

section \<open>The address index\<close>

definition updateAddrIndex :: "string \<Rightarrow> u16 \<Rightarrow> dm \<Rightarrow> dm" where
  "updateAddrIndex ieee shortAddr s = s\<lparr>dm_addrIndex := (dm_addrIndex s)(shortAddr \<mapsto> ieee)\<rparr>"

definition removeFromAddrIndex :: "u16 \<Rightarrow> dm \<Rightarrow> dm" where
  "removeFromAddrIndex shortAddr s = s\<lparr>dm_addrIndex := (dm_addrIndex s)(shortAddr := None)\<rparr>"

definition lookupIEEE :: "u16 \<Rightarrow> dm \<Rightarrow> string" where
  "lookupIEEE shortAddr s = (case dm_addrIndex s shortAddr of None \<Rightarrow> [] | Some ieee \<Rightarrow> ieee)"

definition index_devices :: "Device list \<Rightarrow> u16 \<rightharpoonup> string" where
  "index_devices ds = foldl (\<lambda>m d. m(dev_ShortAddress d \<mapsto> dev_IEEEAddress d)) Map.empty ds"

definition RebuildAddrIndex :: "dm \<Rightarrow> dm" where
  "RebuildAddrIndex s =
     (case ListDevices (dm_store s) of
        Inl e \<Rightarrow> s
      | Inr ds \<Rightarrow> s\<lparr>dm_addrIndex := index_devices ds\<rparr>)"

text \<open>The slow path also remembers the last device with the wanted short address.\<close>

definition lookupOrRebuild :: "u16 \<Rightarrow> dm \<Rightarrow> string \<times> dm" where
  "lookupOrRebuild shortAddr s =
     (if lookupIEEE shortAddr s \<noteq> [] then (lookupIEEE shortAddr s, s)
      else case ListDevices (dm_store s) of
        Inl e \<Rightarrow> ([], s)
      | Inr ds \<Rightarrow>
          (foldl (\<lambda>i d. if dev_ShortAddress d = shortAddr then dev_IEEEAddress d else i) [] ds,
           s\<lparr>dm_addrIndex := index_devices ds\<rparr>))"

text \<open>The removal loop: the first address in the runtime's order \<open>order\<close> that maps to the device is deleted, and
  only that one.\<close>

definition remove_one :: "u16 list \<Rightarrow> string \<Rightarrow> dm \<Rightarrow> dm" where
  "remove_one order ieee s =
     (case List.find (\<lambda>a. dm_addrIndex s a = Some ieee) order of
        None \<Rightarrow> s
      | Some a \<Rightarrow> removeFromAddrIndex a s)"

definition deviceName :: "Device option \<Rightarrow> string" where
  "deviceName dev =
     (case dev of
        None \<Rightarrow> []
      | Some d \<Rightarrow>
          if dev_FriendlyName d \<noteq> [] then dev_FriendlyName d
          else if dev_Manufacturer d \<noteq> [] \<or> dev_Model d \<noteq> [] then
            (if dev_Model d \<noteq> []
             then (if dev_Manufacturer d \<noteq> [] then dev_Manufacturer d @ '' '' else dev_Manufacturer d) @ dev_Model d
             else dev_Manufacturer d)
          else [])"

section \<open>Join, leave and announce\<close>

definition cancel_interview :: "string \<Rightarrow> dm \<Rightarrow> dm" where
  "cancel_interview ieee s =
     (case dm_interviewCancels s ieee of
        None \<Rightarrow> s
      | Some gen \<Rightarrow> s\<lparr>dm_cancelled := gen # dm_cancelled s, dm_interviewCancels := (dm_interviewCancels s)(ieee := None)\<rparr>)"

text \<open>\<^verbatim>\<open>CancelAllInterviews\<close>; \<open>ieees\<close> enumerates the entries of the map.\<close>

definition CancelAllInterviews :: "string list \<Rightarrow> dm \<Rightarrow> dm" where
  "CancelAllInterviews ieees s = fold cancel_interview ieees s"

text \<open>The sections of the handlers on the store and on the debounce cache. A join, like an announce below, reads the device
  in one of them and writes it back as a whole in a later one; \<open>None\<close> is the early return on a database error.\<close>

abbreviation save_device :: "dm_env \<Rightarrow> Device \<Rightarrow> dm \<Rightarrow> dm" where
  "save_device env d s \<equiv> s\<lparr>dm_store := snd (SaveDevice (e_js env) d (dm_store s))\<rparr>"

abbreviation update_device :: "dm_env \<Rightarrow> string \<Rightarrow> (Device \<Rightarrow> Device option) \<Rightarrow> dm \<Rightarrow> dm" where
  "update_device env ieee f s \<equiv> s\<lparr>dm_store := snd (UpdateDevice (e_js env) ieee f (dm_store s))\<rparr>"

abbreviation delete_device :: "string \<Rightarrow> dm \<Rightarrow> dm" where
  "delete_device ieee s \<equiv> s\<lparr>dm_store := snd (DeleteDevice ieee (dm_store s))\<rparr>"

abbreviation forget_join :: "string \<Rightarrow> dm \<Rightarrow> dm" where
  "forget_join ieee s \<equiv> s\<lparr>dm_lastJoin := AList.delete ieee (dm_lastJoin s)\<rparr>"

definition join_read :: "int \<Rightarrow> u16 \<Rightarrow> bytes \<Rightarrow> dm \<Rightarrow> Device option \<times> dm" where
  "join_read now shortAddr ieeeAddr s =
     (let ieee = hexstr ieeeAddr; s1 = updateAddrIndex ieee shortAddr s in
      (case GetDevice ieee (dm_store s1) of
         Inr d \<Rightarrow> Some (d\<lparr>dev_ShortAddress := shortAddr, dev_LastSeen := now\<rparr>)
       | Inl ErrNotFound \<Rightarrow> Some ((new_device ieee)\<lparr>dev_ShortAddress := shortAddr, dev_JoinedAt := now, dev_LastSeen := now\<rparr>)
       | Inl _ \<Rightarrow> None, s1))"

definition join_write :: "dm_env \<Rightarrow> u16 \<Rightarrow> bytes \<Rightarrow> Device option \<Rightarrow> dm \<Rightarrow> dm" where
  "join_write env shortAddr ieeeAddr dev s =
     (case dev of
        None \<Rightarrow> s
      | Some d \<Rightarrow>
          (case SaveDevice (e_js env) d (dm_store s) of
             (Inl e, st) \<Rightarrow> s\<lparr>dm_store := st\<rparr>
           | (Inr u, st) \<Rightarrow> emit EventDeviceJoined [(''ieee'', GStr (hexstr ieeeAddr)), (''short_addr'', GU16 shortAddr)] (s\<lparr>dm_store := st\<rparr>)))"

definition HandleJoin :: "dm_env \<Rightarrow> int \<Rightarrow> u16 \<Rightarrow> bytes \<Rightarrow> dm \<Rightarrow> dm" where
  "HandleJoin env now shortAddr ieeeAddr s =
     (let (dev, s1) = join_read now shortAddr ieeeAddr s in join_write env shortAddr ieeeAddr dev s1)"

definition HandleLeave :: "u16 list \<Rightarrow> bytes \<Rightarrow> dm \<Rightarrow> dm" where
  "HandleLeave order ieeeAddr s =
     (let ieee = hexstr ieeeAddr;
          s1 = cancel_interview ieee s;
          s2 = forget_join ieee s1;
          s3 = remove_one order ieee s2;
          s4 = delete_device ieee s3
      in emit EventDeviceLeft [(''ieee'', GStr ieee)] s4)"

text \<open>An announce in two atomic sections: the device is read (and created when there is none), then written back
  as a whole. \<open>None\<close> is the early return on a database error.\<close>

definition announce_read :: "int \<Rightarrow> u16 \<Rightarrow> bytes \<Rightarrow> dm \<Rightarrow> Device option \<times> dm" where
  "announce_read now shortAddr ieeeAddr s =
     (let ieee = hexstr ieeeAddr; s1 = updateAddrIndex ieee shortAddr s in
      (case GetDevice ieee (dm_store s1) of
         Inr d \<Rightarrow> Some (d\<lparr>dev_ShortAddress := shortAddr, dev_LastSeen := now\<rparr>)
       | Inl ErrNotFound \<Rightarrow> Some ((new_device ieee)\<lparr>dev_JoinedAt := now, dev_ShortAddress := shortAddr, dev_LastSeen := now\<rparr>)
       | Inl _ \<Rightarrow> None, s1))"

text \<open>The debounce: the time of this announce is recorded, entries older than a minute are evicted above the cap, and
  all but the current one if that is not enough.\<close>

definition record_join :: "string \<Rightarrow> int \<Rightarrow> (string \<times> int) list \<Rightarrow> (string \<times> int) list" where
  "record_join ieee now lj =
     (let lj1 = AList.update ieee now lj in
      if lastJoinCacheCap < length lj1 then
        (let lj2 = filter (\<lambda>kt. \<not> 60000000000 < now - snd kt) lj1 in
         if lastJoinCacheCap < length lj2 then [(ieee, now)] else lj2)
      else lj1)"

definition debounce :: "string \<Rightarrow> int \<Rightarrow> dm \<Rightarrow> dm" where
  "debounce ieee now s =
     (if (case map_of (dm_lastJoin s) ieee of None \<Rightarrow> False | Some t \<Rightarrow> now - t < joinDebounceDuration) then s
      else s\<lparr>dm_lastJoin := record_join ieee now (dm_lastJoin s), dm_started := dm_started s @ [ieee]\<rparr>)"

definition announce_start :: "string \<Rightarrow> int \<Rightarrow> dm \<Rightarrow> dm" where
  "announce_start ieee now s = (if dm_interviewCancels s ieee \<noteq> None then s else debounce ieee now s)"

definition announce_write :: "dm_env \<Rightarrow> int \<Rightarrow> u16 \<Rightarrow> bytes \<Rightarrow> Device option \<Rightarrow> dm \<Rightarrow> dm" where
  "announce_write env now shortAddr ieeeAddr dev s =
     (case dev of
        None \<Rightarrow> s
      | Some d \<Rightarrow>
          let ieee = hexstr ieeeAddr;
              s1 = save_device env d s;
              s2 = emit EventDeviceAnnounce [(''ieee'', GStr ieee), (''short_addr'', GU16 shortAddr)] s1
          in announce_start ieee now s2)"

definition HandleAnnounce :: "dm_env \<Rightarrow> int \<Rightarrow> u16 \<Rightarrow> bytes \<Rightarrow> dm \<Rightarrow> dm" where
  "HandleAnnounce env now shortAddr ieeeAddr s =
     (let (dev, s1) = announce_read now shortAddr ieeeAddr s in announce_write env now shortAddr ieeeAddr dev s1)"

section \<open>Attribute reports\<close>

definition decode_report :: "AttributeReportEvent \<Rightarrow> gval" where
  "decode_report evt =
     (if rpt_Value evt = [] then GNil
      else case DecodeValue (rpt_DataType evt) (rpt_Value evt) of
        Inr (v, n) \<Rightarrow> v
      | Inl e \<Rightarrow> GStr (hexstr (rpt_Value evt)))"

definition seen :: "int \<Rightarrow> byte \<Rightarrow> byte \<Rightarrow> Device \<Rightarrow> Device" where
  "seen now lqi rssi d =
     (let d1 = d\<lparr>dev_LastSeen := now\<rparr> in if 0 < lqi then d1\<lparr>dev_LQI := lqi, dev_RSSI := rssi\<rparr> else d1)"

text \<open>The transaction of a report: the Basic cluster's manufacturer name and model identifier fill empty fields.\<close>

definition report_update :: "int \<Rightarrow> AttributeReportEvent \<Rightarrow> gval \<Rightarrow> Device \<Rightarrow> Device option" where
  "report_update now evt decoded d =
     (let d1 = seen now (rpt_LQI evt) (rpt_RSSI evt) d in
      Some (case decoded of
        GStr t \<Rightarrow>
          if rpt_ClusterID evt = 0 \<and> t \<noteq> [] then
            (if rpt_AttrID evt = 0x0004 then (if dev_Manufacturer d1 = [] then d1\<lparr>dev_Manufacturer := t\<rparr> else d1)
             else if rpt_AttrID evt = 0x0005 then (if dev_Model d1 = [] then d1\<lparr>dev_Model := t\<rparr> else d1)
             else d1)
          else d1
      | _ \<Rightarrow> d1))"

text \<open>An update followed by reading the device back.\<close>

definition update_and_get :: "dm_env \<Rightarrow> string \<Rightarrow> (Device \<Rightarrow> Device option) \<Rightarrow> dm \<Rightarrow> Device option \<times> dm" where
  "update_and_get env ieee f s =
     (if ieee = [] then (None, s)
      else let st = snd (UpdateDevice (e_js env) ieee f (dm_store s)) in
           (case GetDevice ieee st of Inr d \<Rightarrow> Some d | Inl e \<Rightarrow> None, s\<lparr>dm_store := st\<rparr>))"

definition cluster_name :: "dm_env \<Rightarrow> u16 \<Rightarrow> string" where
  "cluster_name env cid =
     (case Registry_Get (e_registry env) cid of None \<Rightarrow> ''0x'' @ hex4 cid | Some c \<Rightarrow> cl_Name c)"

definition attr_name :: "dm_env \<Rightarrow> u16 \<Rightarrow> u16 \<Rightarrow> string" where
  "attr_name env cid aid =
     (case Registry_Get (e_registry env) cid of
        None \<Rightarrow> ''0x'' @ hex4 aid
      | Some c \<Rightarrow> (case FindAttribute c aid of None \<Rightarrow> ''0x'' @ hex4 aid | Some a \<Rightarrow> ad_Name a))"

definition standardPropertyMap :: "((u16 \<times> u16) \<times> string) list" where
  "standardPropertyMap =
    [((0x0006, 0x0000), ''on_off''), ((0x0008, 0x0000), ''brightness''),
     ((0x0300, 0x0000), ''hue''), ((0x0300, 0x0001), ''saturation''),
     ((0x0402, 0x0000), ''temperature''), ((0x0403, 0x0000), ''pressure''),
     ((0x0405, 0x0000), ''humidity''), ((0x0406, 0x0000), ''occupancy''),
     ((0x0400, 0x0000), ''illuminance''), ((0x0001, 0x0021), ''battery''),
     ((0x0500, 0x0002), ''zone_status''), ((0x0B04, 0x050B), ''power''),
     ((0x0702, 0x0000), ''energy''), ((0x000C, 0x0055), ''analog_value''),
     ((0x0012, 0x0055), ''multistate_value'')]"

text \<open>The two transactions on the stored properties.\<close>

abbreviation set_property :: "string \<Rightarrow> gval \<Rightarrow> Device \<Rightarrow> Device option" where
  "set_property name v \<equiv> \<lambda>d. Some (d\<lparr>dev_Properties := AList.update name v (dev_Properties d)\<rparr>)"

abbreviation merge_properties :: "(string \<times> gval) list \<Rightarrow> Device \<Rightarrow> Device option" where
  "merge_properties kvs \<equiv> \<lambda>d. Some (d\<lparr>dev_Properties := foldl (\<lambda>m kv. AList.update (fst kv) (snd kv) m) (dev_Properties d) kvs\<rparr>)"

definition emitStandardProperty :: "dm_env \<Rightarrow> string \<Rightarrow> Device option \<Rightarrow> AttributeReportEvent \<Rightarrow> gval \<Rightarrow> dm \<Rightarrow> dm" where
  "emitStandardProperty env ieee dev evt decoded s =
     (if ieee = [] \<or> decoded = GNil then s
      else case map_of standardPropertyMap (rpt_ClusterID evt, rpt_AttrID evt) of
        None \<Rightarrow> s
      | Some propName \<Rightarrow>
          let s1 = (if dev = None then s
                    else update_device env ieee (set_property propName decoded) s)
          in emit EventPropertyUpdate [(''ieee'', GStr ieee), (''property'', GStr propName), (''value'', decoded)] s1)"

text \<open>The event of one extracted property; a source without attribute is a cluster command.\<close>

definition emit_property :: "string \<Rightarrow> property_value \<Rightarrow> dm \<Rightarrow> dm" where
  "emit_property ieee pv s =
     emit EventPropertyUpdate
       [(''ieee'', GStr ieee), (''property'', GStr (pv_Name pv)), (''value'', pv_Value pv),
        (''source'', GMap ([(''cluster'', GU16 (pv_Cluster pv))]
           @ (case pv_Attribute pv of None \<Rightarrow> [] | Some a \<Rightarrow> [(''attribute'', GU16 a)])
           @ [(''decoder'', GStr (pv_Decoder pv)), (''tag'', GInt (word_of_int (pv_Tag pv)))]))] s"

text \<open>The common end of \<^verbatim>\<open>processProperties\<close> and \<^verbatim>\<open>processClusterCommandProperties\<close>: the values go into the
  device that was read, an event is emitted for each, and then all properties of that device, old and new, are merged
  into the stored one.\<close>

definition save_properties :: "dm_env \<Rightarrow> string \<Rightarrow> Device \<Rightarrow> property_value list \<Rightarrow> dm \<Rightarrow> dm" where
  "save_properties env ieee dev pvs s =
     (let s1 = fold (emit_property ieee) pvs s;
          collected = set_properties pvs (dev_Properties dev)
      in if pvs = [] then s1
         else update_device env ieee (merge_properties collected) s1)"

definition definition_of :: "dm_env \<Rightarrow> string \<Rightarrow> Device option \<Rightarrow> (Device \<times> DeviceDefinition) option" where
  "definition_of env ieee dev =
     (case dev of
        None \<Rightarrow> None
      | Some d \<Rightarrow>
          if ieee = [] \<or> dev_Manufacturer d = [] \<or> dev_Model d = [] then None
          else (case e_db env of
                  None \<Rightarrow> None
                | Some db \<Rightarrow> map_option (Pair d) (Lookup db (dev_Manufacturer d) (dev_Model d))))"

definition processProperties :: "dm_env \<Rightarrow> string \<Rightarrow> Device option \<Rightarrow> AttributeReportEvent \<Rightarrow> gval \<Rightarrow> dm \<Rightarrow> dm" where
  "processProperties env ieee dev evt decoded s =
     (case definition_of env ieee dev of
        None \<Rightarrow> s
      | Some (d, def) \<Rightarrow>
          save_properties env ieee d (report_properties (e_fp env) (dd_Properties def) (rpt_ClusterID evt) (rpt_AttrID evt) decoded) s)"

definition HandleAttributeReport :: "dm_env \<Rightarrow> int \<Rightarrow> AttributeReportEvent \<Rightarrow> dm \<Rightarrow> dm" where
  "HandleAttributeReport env now evt s =
     (let (ieee, s1) = lookupOrRebuild (rpt_SrcAddr evt) s;
          decoded = decode_report evt;
          (dev, s2) = update_and_get env ieee (report_update now evt decoded) s1;
          s3 = emit EventAttributeReport
                 [(''ieee'', GStr ieee), (''short_addr'', GU16 (rpt_SrcAddr evt)), (''endpoint'', GU8 (rpt_SrcEP evt)),
                  (''cluster_id'', GU16 (rpt_ClusterID evt)), (''cluster_name'', GStr (cluster_name env (rpt_ClusterID evt))),
                  (''attr_id'', GU16 (rpt_AttrID evt)),
                  (''attr_name'', GStr (attr_name env (rpt_ClusterID evt) (rpt_AttrID evt))), (''value'', decoded)] s2;
          s4 = emitStandardProperty env ieee dev evt decoded s3
      in processProperties env ieee dev evt decoded s4)"

section \<open>Cluster commands\<close>

definition processClusterCommandProperties :: "dm_env \<Rightarrow> string \<Rightarrow> Device option \<Rightarrow> ClusterCommandEvent \<Rightarrow> dm \<Rightarrow> dm" where
  "processClusterCommandProperties env ieee dev evt s =
     (case definition_of env ieee dev of
        None \<Rightarrow> s
      | Some (d, def) \<Rightarrow>
          save_properties env ieee d (command_properties (e_fp env) (dd_Properties def) (cc_ClusterID evt) (cc_Payload evt)) s)"

definition HandleClusterCommand :: "dm_env \<Rightarrow> int \<Rightarrow> ClusterCommandEvent \<Rightarrow> dm \<Rightarrow> dm" where
  "HandleClusterCommand env now evt s =
     (let (ieee, s1) = lookupOrRebuild (cc_SrcAddr evt) s;
          (dev, s2) = update_and_get env ieee (\<lambda>d. Some (seen now (cc_LQI evt) (cc_RSSI evt) d)) s1;
          s3 = emit EventClusterCommand
                 [(''ieee'', GStr ieee), (''short_addr'', GU16 (cc_SrcAddr evt)), (''endpoint'', GU8 (cc_SrcEP evt)),
                  (''cluster_id'', GU16 (cc_ClusterID evt)), (''command_id'', GU8 (cc_CommandID evt)),
                  (''payload'', GStr (hexstr (cc_Payload evt)))] s2
      in processClusterCommandProperties env ieee dev evt s3)"

end
