(* ===== verification/Interview.thy ===== *)
theory Interview
  imports Device_Manager NCP_Api
begin

text \<open>
  The interview of a device: \<^verbatim>\<open>Interview\<close>, \<^verbatim>\<open>readBasicAttributes\<close>, \<^verbatim>\<open>configureDevice\<close> and
  \<^verbatim>\<open>RemoveDevice\<close> of \<^verbatim>\<open>internal/coordinator/device_manager.go\<close>, over the operations of the NCP
  driver (\<open>NCP_Api\<close>). An interview runs beside the handlers; its atomic sections on the manager's state are
  the definitions \<open>interview_begin\<close>, \<open>interview_save\<close> and \<open>interview_end\<close>, and an attempt between
  them works on a copy of the device.
\<close>

section \<open>Reading manufacturer and model\<close>

definition basic_attribute :: "AttributeResponse \<Rightarrow> Device \<Rightarrow> Device" where
  "basic_attribute r d =
     (if ar_Status r \<noteq> 0 \<or> ar_Value r = [] then d
      else case DecodeValue (ar_DataType r) (ar_Value r) of
        Inr (GStr t, n) \<Rightarrow>
          (if ar_AttrID r = 0x0004 then d\<lparr>dev_Manufacturer := t\<rparr>
           else if ar_AttrID r = 0x0005 then d\<lparr>dev_Model := t\<rparr> else d)
      | _ \<Rightarrow> d)"

text \<open>What the read did not give is taken from the store as it is by then (\<open>fresh\<close>).\<close>

definition fill_from :: "store_error + Device \<Rightarrow> Device \<Rightarrow> Device" where
  "fill_from fresh d =
     (if dev_Manufacturer d = [] \<or> dev_Model d = [] then
        (case fresh of
           Inl e \<Rightarrow> d
         | Inr f \<Rightarrow>
             (let d1 = (if dev_Manufacturer d = [] \<and> dev_Manufacturer f \<noteq> [] then d\<lparr>dev_Manufacturer := dev_Manufacturer f\<rparr> else d)
              in if dev_Model d1 = [] \<and> dev_Model f \<noteq> [] then d1\<lparr>dev_Model := dev_Model f\<rparr> else d1))
      else d)"

definition readBasicAttributes :: "bytes option \<Rightarrow> store_error + Device \<Rightarrow> byte \<Rightarrow> Device \<Rightarrow> link \<Rightarrow> Device \<times> link" where
  "readBasicAttributes answer fresh ep dev l =
     (let (r, l1) = ReadAttributes answer (dev_ShortAddress dev) ep 0x0000 [0x0004, 0x0005] l;
          dev1 = (case r of Inl e \<Rightarrow> dev | Inr results \<Rightarrow> fold basic_attribute results dev)
      in (fill_from fresh dev1, l1))"

section \<open>Endpoints\<close>

text \<open>An endpoint whose simple descriptor cannot be read is left out.\<close>

fun discover :: "u16 \<Rightarrow> bytes \<Rightarrow> link \<Rightarrow> Endpoint list \<times> link" where
  "discover short [] l = ([], l)"
| "discover short (ep # eps) l =
     (case SimpleDescriptor_query short ep l of
        (Inl e, l1) \<Rightarrow> discover short eps l1
      | (Inr sd, l1) \<Rightarrow>
          (let (es, l2) = discover short eps l1 in
           (\<lparr>ep_ID = ep, ep_ProfileID = sd_ProfileID sd, ep_DeviceID = sd_DeviceID sd,
             ep_InClusters = sd_InClusters sd, ep_OutClusters = sd_OutClusters sd\<rparr> # es, l2)))"

section \<open>Bindings and reporting\<close>

definition hasOutCluster :: "Endpoint \<Rightarrow> u16 \<Rightarrow> bool" where
  "hasOutCluster ep c \<longleftrightarrow> List.member (ep_OutClusters ep) c"

definition hasInCluster :: "Endpoint \<Rightarrow> u16 \<Rightarrow> bool" where
  "hasInCluster ep c \<longleftrightarrow> List.member (ep_InClusters ep) c"

text \<open>The reportable change as \<open>n\<close> little-endian bytes of the Go int, \<open>n\<close> by the data type.\<close>

definition encodeReportChange :: "byte \<Rightarrow> u64 \<Rightarrow> bytes" where
  "encodeReportChange dataType v =
     (if dataType \<in> {0x08, 0x10, 0x18, 0x20, 0x28, 0x30} then le_put 1 v
      else if dataType \<in> {0x09, 0x19, 0x21, 0x29, 0x31} then le_put 2 v
      else if dataType \<in> {0x0B, 0x1B, 0x23, 0x2B, 0x39} then le_put 4 v
      else if dataType \<in> {0x25, 0x2D} then le_put 6 v
      else if dataType \<in> {0x27, 0x2F, 0x3A} then le_put 8 v
      else if sint v \<le> 0xFF then le_put 1 v
      else if sint v \<le> 0xFFFF then le_put 2 v
      else le_put 4 v)"

text \<open>One request whose error is only logged.\<close>

definition try_request :: "(unit, zbossFrame) act \<Rightarrow> link \<Rightarrow> link" where
  "try_request a l = snd (a l)"

definition bind_cluster :: "bytes \<Rightarrow> bytes \<Rightarrow> Device \<Rightarrow> Endpoint \<Rightarrow> u16 \<Rightarrow> link \<Rightarrow> link" where
  "bind_cluster coordIEEE devIEEE dev ep cluster l =
     (if \<not> hasOutCluster ep cluster then l
      else try_request (Bind \<lparr>br_TargetShortAddr = dev_ShortAddress dev, br_SrcIEEE = devIEEE, br_SrcEP = ep_ID ep,
             br_ClusterID = cluster, br_DstIEEE = coordIEEE, br_DstEP = 1\<rparr>) l)"

definition report_cluster :: "Device \<Rightarrow> Endpoint \<Rightarrow> ReportingEntry \<Rightarrow> link \<Rightarrow> link" where
  "report_cluster dev ep r l =
     (if \<not> hasInCluster ep (re_Cluster r) then l
      else try_request (ConfigureReporting (dev_ShortAddress dev) (ep_ID ep) (re_Cluster r) (re_Attribute r) (re_Type r)
             (re_Min r) (re_Max r) (encodeReportChange (re_Type r) (re_Change r))) l)"

definition configureDevice :: "bytes \<Rightarrow> Device \<Rightarrow> DeviceDefinition \<Rightarrow> link \<Rightarrow> link" where
  "configureDevice coordIEEE dev def l =
     (if dev_Endpoints dev = [] then l
      else case ParseIEEE (dev_IEEEAddress dev) of
        Inl e \<Rightarrow> l
      | Inr devIEEE \<Rightarrow>
          fold (\<lambda>ep l. fold (report_cluster dev ep) (dd_Reporting def)
                          (fold (bind_cluster coordIEEE devIEEE dev ep) (dd_Bind def) l)) (dev_Endpoints dev) l)"

section \<open>The interview\<close>

definition interview_begin :: "string \<Rightarrow> dm \<Rightarrow> u64 \<times> dm" where
  "interview_begin ieee s =
     (let gen = dm_interviewGen s + 1;
          s1 = s\<lparr>dm_interviewGen := gen\<rparr>;
          s2 = (case dm_interviewCancels s1 ieee of
                  None \<Rightarrow> s1
                | Some prev \<Rightarrow> s1\<lparr>dm_cancelled := prev # dm_cancelled s1\<rparr>)
      in (gen, s2\<lparr>dm_interviewCancels := (dm_interviewCancels s2)(ieee \<mapsto> gen)\<rparr>))"

text \<open>The deferred clean-up: only the entry of the same generation is removed.\<close>

definition interview_end :: "string \<Rightarrow> u64 \<Rightarrow> dm \<Rightarrow> dm" where
  "interview_end ieee gen s =
     (if dm_interviewCancels s ieee = Some gen then s\<lparr>dm_interviewCancels := (dm_interviewCancels s)(ieee := None)\<rparr> else s)"

text \<open>The final transaction: the interview's fields are merged into the device as it is stored by then.\<close>

definition interview_merge :: "Device \<Rightarrow> Device \<Rightarrow> Device option" where
  "interview_merge dev d =
     (let d1 = d\<lparr>dev_Endpoints := dev_Endpoints dev, dev_Interviewed := True, dev_FriendlyName := dev_FriendlyName dev\<rparr>;
          d2 = (if dev_Manufacturer dev \<noteq> [] then d1\<lparr>dev_Manufacturer := dev_Manufacturer dev\<rparr> else d1)
      in Some (if dev_Model dev \<noteq> [] then d2\<lparr>dev_Model := dev_Model dev\<rparr> else d2))"

definition interview_save :: "dm_env \<Rightarrow> string \<Rightarrow> Device \<Rightarrow> dm \<Rightarrow> dm" where
  "interview_save env ieee dev s =
     s\<lparr>dm_store := snd (UpdateDevice (e_js env) ieee (interview_merge dev) (dm_store s))\<rparr>"

text \<open>What happens around one attempt: the ZCL answer to the attribute read, the device in the store at the
  fallback, whether the context is over when the endpoints fail, while waiting for the retry, and before the save.\<close>

record attempt_env =
  at_answer :: "bytes option"
  at_fresh :: "store_error + Device"
  at_overEP :: bool
  at_overWait :: bool
  at_overSave :: bool

datatype attempt_result = Retry | GiveUp | Interviewed Device

definition friendly :: "DeviceDefinition option \<Rightarrow> Device \<Rightarrow> Device" where
  "friendly def dev =
     (case def of
        Some d \<Rightarrow> if dd_FriendlyName d \<noteq> [] then dev\<lparr>dev_FriendlyName := dd_FriendlyName d\<rparr>
                  else if dev_FriendlyName dev = [] \<and> dev_Model dev \<noteq> [] then dev\<lparr>dev_FriendlyName := dev_Model dev\<rparr> else dev
      | None \<Rightarrow> if dev_FriendlyName dev = [] \<and> dev_Model dev \<noteq> [] then dev\<lparr>dev_FriendlyName := dev_Model dev\<rparr> else dev)"

text \<open>One attempt, from the device read at its start to the decision to save; \<open>final\<close> says that there is no
  further attempt to wait for.\<close>

definition interview_attempt :: "dm_env \<Rightarrow> attempt_env \<Rightarrow> bool \<Rightarrow> Device \<Rightarrow> link \<Rightarrow> attempt_result \<times> link" where
  "interview_attempt env a final dev l =
     (case ActiveEndpoints (dev_ShortAddress dev) l of
        (Inl e, l1) \<Rightarrow> (if at_overEP a then GiveUp else if \<not> final \<and> at_overWait a then GiveUp else Retry, l1)
      | (Inr eps, l1) \<Rightarrow>
          let (dev1, l2) = (case eps of [] \<Rightarrow> (dev, l1) | ep # _ \<Rightarrow> readBasicAttributes (at_answer a) (at_fresh a) ep dev l1);
              def = (case e_db env of None \<Rightarrow> None | Some db \<Rightarrow> Lookup db (dev_Manufacturer dev1) (dev_Model dev1));
              dev2 = friendly def dev1;
              (es, l3) = discover (dev_ShortAddress dev2) eps l2;
              dev3 = dev2\<lparr>dev_Endpoints := es\<rparr>;
              l4 = (case def of None \<Rightarrow> l3 | Some d \<Rightarrow> configureDevice (e_localIEEE env) dev3 d l3)
          in (if at_overSave a then GiveUp else Interviewed dev3, l4))"

text \<open>The attempts when nothing else touches the manager meanwhile: three at most, each on the device as it is
  stored then.\<close>

fun interview_attempts :: "dm_env \<Rightarrow> string \<Rightarrow> attempt_env list \<Rightarrow> dm \<Rightarrow> link \<Rightarrow> dm \<times> link" where
  "interview_attempts env ieee [] s l = (s, l)"
| "interview_attempts env ieee (a # as) s l =
     (case GetDevice ieee (dm_store s) of
        Inl e \<Rightarrow> (s, l)
      | Inr dev \<Rightarrow>
          (case interview_attempt env a (as = []) dev l of
             (Retry, l1) \<Rightarrow> interview_attempts env ieee as s l1
           | (GiveUp, l1) \<Rightarrow> (s, l1)
           | (Interviewed d, l1) \<Rightarrow> (interview_save env ieee d s, l1)))"

definition run_interview :: "dm_env \<Rightarrow> string \<Rightarrow> (nat \<Rightarrow> attempt_env) \<Rightarrow> dm \<Rightarrow> link \<Rightarrow> dm \<times> link" where
  "run_interview env ieee envs s l =
     (let (gen, s1) = interview_begin ieee s;
          (s2, l1) = interview_attempts env ieee (map envs [1, 2, 3]) s1 l
      in (interview_end ieee gen s2, l1))"

section \<open>Removing a device\<close>

definition RemoveDevice :: "u16 list \<Rightarrow> string \<Rightarrow> dm \<Rightarrow> link \<Rightarrow> (store_error + unit) \<times> dm \<times> link" where
  "RemoveDevice order ieee s l =
     (case GetDevice ieee (dm_store s) of
        Inl e \<Rightarrow> (Inl e, s, l)
      | Inr dev \<Rightarrow>
          let s1 = cancel_interview ieee s;
              l1 = (case ParseIEEE ieee of Inl e \<Rightarrow> l | Inr b \<Rightarrow> snd (MgmtLeave (dev_ShortAddress dev) b l));
              s2 = remove_one order ieee s1;
              (r, st) = DeleteDevice ieee (dm_store s2);
              s3 = s2\<lparr>dm_store := st\<rparr>
          in (case r of
                Inl e \<Rightarrow> (Inl e, s3, l1)
              | Inr u \<Rightarrow> (Inr (), emit EventDeviceLeft [(''ieee'', GStr ieee)] s3, l1)))"

end
