(* ===== verification/DM_Theorems.thy ===== *)
theory DM_Theorems
  imports DM_Correct
begin

text \<open>
  The properties of the device manager, over the lemmas of \<open>DM_Correct\<close>: its invariant under every
  interleaving, departures, reports, interviews and their races, address resolution, and the
  configuration of a device.
\<close>

section \<open>All interleavings\<close>

text \<open>
  A step is one atomic section of a handler, of an interview or of a request to the API, or a handler that runs
  undisturbed. The sections are those the locks and the transactions of the source make: of the address index, of the debounce cache, of the
  table of interviews, and each call of the store. A section that writes what an earlier one read comes with arbitrary data of
  the kind that the earlier one gives, so that any other sections may run in between: a join or an announce writes back, at any later time, a
  device under its address; an index is rebuilt from an older list of devices; a report merges properties it collected before.
\<close>

inductive dm_step :: "dm_env \<Rightarrow> dm \<Rightarrow> dm \<Rightarrow> bool" for env where
  index: "length a = 8 \<Longrightarrow> dm_step env s (updateAddrIndex (hexstr a) sh s)"
| unindex: "dm_step env s (remove_one order i s)"
| resolve: "dm_step env s (snd (lookupOrRebuild sh s))"
| reindex: "\<forall>d \<in> set ds. is_ieee (dev_IEEEAddress d) \<Longrightarrow> dm_step env s (s\<lparr>dm_addrIndex := index_devices ds\<rparr>)"
| save: "length a = 8 \<Longrightarrow> dev_IEEEAddress d = hexstr a \<Longrightarrow> dm_step env s (save_device env d s)"
| delete: "dm_step env s (delete_device i s)"
| see_report: "dm_step env s (update_device env i (report_update now evt v) s)"
| see_command: "dm_step env s (update_device env i (\<lambda>d. Some (seen now lqi rssi d)) s)"
| standard: "dm_step env s (update_device env i (set_property name v) s)"
| merge: "dm_step env s (update_device env i (merge_properties kvs) s)"
| event: "dm_step env s (emit t kvs s)"
| cancel: "dm_step env s (cancel_interview i s)"
| forget: "dm_step env s (forget_join i s)"
| start: "dm_step env s (debounce i now s)"
| join_rd: "length a = 8 \<Longrightarrow> join_read now sh a s = (dev, s') \<Longrightarrow> dm_step env s s'"
| join_wr: "length a = 8 \<Longrightarrow> (\<And>d. dev = Some d \<Longrightarrow> dev_IEEEAddress d = hexstr a) \<Longrightarrow>
    dm_step env s (join_write env sh a dev s)"
| join: "length a = 8 \<Longrightarrow> dm_step env s (HandleJoin env now sh a s)"
| leave: "dm_step env s (HandleLeave order a s)"
| ann_read: "length a = 8 \<Longrightarrow> announce_read now sh a s = (dev, s') \<Longrightarrow> dm_step env s s'"
| ann_write: "length a = 8 \<Longrightarrow> (\<And>d. dev = Some d \<Longrightarrow> dev_IEEEAddress d = hexstr a) \<Longrightarrow>
    dm_step env s (announce_write env now sh a dev s)"
| report: "dm_step env s (HandleAttributeReport env now evt s)"
| command: "dm_step env s (HandleClusterCommand env now cmd s)"
| rebuild: "dm_step env s (RebuildAddrIndex s)"
| iv_begin: "dm_step env s (snd (interview_begin i s))"
| iv_save: "dm_step env s (interview_save env i d s)"
| iv_end: "dm_step env s (interview_end i gen s)"
| remove: "RemoveDevice order i s l = (r, s', l') \<Longrightarrow> dm_step env s s'"
| stop: "dm_step env s (CancelAllInterviews ieees s)"
| rename: "dm_step env s (update_device env i (\<lambda>d. Some (d\<lparr>dev_FriendlyName := name\<rparr>)) s)"

inductive_cases dm_stepE: "dm_step env s s'"

lemma update_sections_ok:
  assumes "dm_ok s"
  shows "dm_ok (update_device env i (report_update now evt v) s)" "dm_ok (update_device env i (\<lambda>d. Some (seen now lqi rssi d)) s)"
    "dm_ok (update_device env i (set_property name w) s)" "dm_ok (update_device env i (merge_properties kvs) s)"
    "dm_ok (update_device env i (\<lambda>d. Some (d\<lparr>dev_FriendlyName := n\<rparr>)) s)"
  by (rule update_store_ok[OF assms], auto dest: report_update_address)+

lemmas section_ok = update_sections_ok lookup_ok remove_one_ok forget_ok debounce_ok join_write_ok HandleJoin_ok HandleLeave_ok
  announce_write_ok HandleAttributeReport_ok HandleClusterCommand_ok rebuild_ok interview_ok

lemma dm_step_ok: "dm_step env s s' \<Longrightarrow> dm_ok s \<Longrightarrow> dm_ok s'"
proof (induction rule: dm_step.induct)
  case (index a s sh)
  then show ?case by (intro update_index_ok is_ieee_hexstr)
next
  case (reindex ds s)
  then show ?case using index_devices_ok by (auto simp: dm_ok_def)
next
  case (save a d s)
  then show ?case by (intro save_device_ok)
next
  case (delete s i)
  then show ?case by (intro store_ok filed_Delete dm_ok_store)
next
  case (join_rd a now sh s dev s')
  then show ?case using join_read_ok by blast
next
  case (ann_read a now sh s dev s')
  then show ?case using announce_read_ok by blast
next
  case (remove order i s l r s' l')
  then show ?case using RemoveDevice_ok[of s order i l] by simp
next
  case (stop s ieees)
  then show ?case unfolding CancelAllInterviews_def by (induction ieees arbitrary: s) (simp_all add: cancel_ok)
qed (simp_all add: section_ok emit_ok cancel_ok del: emit_simps cancel_simps)

lemma dm_reach_ok: "(dm_step env)\<^sup>*\<^sup>* s s' \<Longrightarrow> dm_ok s \<Longrightarrow> dm_ok s'"
  by (induction rule: rtranclp_induct) (auto intro: dm_step_ok)

lemma dm_init_ok: "filed st \<Longrightarrow> dm_ok (RebuildAddrIndex (NewDeviceManager st))"
  by (rule rebuild_ok) (simp add: dm_ok_def NewDeviceManager_def)

text \<open>
  C3: starting from a database in order, every interleaving of the atomic sections of joins, leaves, announces, reports, commands, index
  rebuilds, removals and interviews keeps the database filed by address (each device under its own address, which is
  the hex form of eight bytes, in a sorted bucket), keeps the debounce cache within its cap, and lets the
  address index point to well-formed addresses only.
\<close>

theorem dm_invariant:
  assumes "filed st" "(dm_step env)\<^sup>*\<^sup>* (RebuildAddrIndex (NewDeviceManager st)) s"
  shows "bucket_ok (b_devices (dm_store s)) \<and> length (dm_lastJoin s) \<le> 50
     \<and> (\<forall>k d. GetDevice k (dm_store s) = Inr d \<longrightarrow> dev_IEEEAddress d = k \<and> is_ieee k)
     \<and> (\<forall>a k. dm_addrIndex s a = Some k \<longrightarrow> is_ieee k)"
proof -
  have ok: "dm_ok s" using dm_reach_ok[OF assms(2) dm_init_ok[OF assms(1)]] .
  then show ?thesis using filed_Get[OF dm_ok_store[OF ok]]
    by (auto simp: dm_ok_def filed_def lastJoinCacheCap_def)
qed

definition demo_env :: dm_env where
  "demo_env = \<lparr>e_js = (\<lambda>_. 0), e_fp = zero_fp, e_registry = Map.empty, e_db = None, e_localIEEE = replicate 8 0\<rparr>"

theorem dm_invariant_witness:
  "\<exists>s. (dm_step demo_env)\<^sup>*\<^sup>* (RebuildAddrIndex (NewDeviceManager NewBoltStore)) s
     \<and> dm_addrIndex s 0x1234 = Some (hexstr (replicate 8 1)) \<and> is_ieee (hexstr (replicate 8 1))"
proof -
  let ?init = "RebuildAddrIndex (NewDeviceManager NewBoltStore)"
  let ?s = "HandleJoin demo_env 5 0x1234 (replicate 8 1) ?init"
  have "dm_step demo_env ?init ?s" by (rule dm_step.join) simp
  then have r: "(dm_step demo_env)\<^sup>*\<^sup>* ?init ?s" by (rule r_into_rtranclp)
  have f: "filed NewBoltStore" by (simp add: filed_def NewBoltStore_def bucket_ok_def)
  have i: "dm_addrIndex ?s 0x1234 = Some (hexstr (replicate 8 1))"
    by (auto simp: join_defs updateAddrIndex_def Let_def split: sum.split option.split store_error.split prod.split)
  from dm_invariant[OF f r] i r show ?thesis by blast
qed

section \<open>Departures\<close>

lemma Get_put: "b_ok st \<Longrightarrow> GetDevice k (st\<lparr>b_devices := bucket_put i d (b_devices st)\<rparr>) = (if k = i then Inr d else GetDevice k st)"
  by (simp add: GetDevice_def bucket_put_map)

lemma Update_other: "k \<noteq> i \<Longrightarrow> GetDevice k (snd (UpdateDevice js i f st)) = GetDevice k st"
  by (auto simp: UpdateDevice_def GetDevice_def bucket_put_map split: option.split)

lemma Update_b_ok [simp]: "b_ok (snd (UpdateDevice js i f st)) = b_ok st" "b_ok (snd (SaveDevice js d st)) = b_ok st"
  by (auto simp: UpdateDevice_def SaveDevice_def split: option.split)

lemma cancel_cancelled: "dm_interviewCancels s i = Some g \<Longrightarrow> g \<in> set (dm_cancelled (cancel_interview i s))"
  by (simp add: cancel_interview_def)

text \<open>
  C32: a device that leaves is forgotten. It is no longer in the store and no other device is touched; its interview is
  cancelled and its debounce entry is gone, so that it can rejoin at once; the departure is announced; and an
  interview that was still running does not bring it back when it saves its result.
\<close>

theorem leave_forgets:
  assumes "b_ok (dm_store s)" "s' = HandleLeave order a s"
  shows "GetDevice (hexstr a) (dm_store s') = Inl ErrNotFound
     \<and> (\<forall>k. k \<noteq> hexstr a \<longrightarrow> GetDevice k (dm_store s') = GetDevice k (dm_store s))
     \<and> dm_interviewCancels s' (hexstr a) = None
     \<and> (\<forall>gen. dm_interviewCancels s (hexstr a) = Some gen \<longrightarrow> gen \<in> set (dm_cancelled s'))
     \<and> map_of (dm_lastJoin s') (hexstr a) = None
     \<and> dm_events s' = dm_events s @ [\<lparr>ev_Type = EventDeviceLeft, ev_Data = GMap [(''ieee'', GStr (hexstr a))]\<rparr>]
     \<and> GetDevice (hexstr a) (dm_store (interview_save env (hexstr a) dev s')) = Inl ErrNotFound"
proof -
  have st: "DeleteDevice (hexstr a) (dm_store s) = (Inr (), dm_store s')"
    using assms by (simp add: HandleLeave_def Let_def DeleteDevice_def)
  note g = bolt_store.get_delete[OF assms(1) st]
  have "UpdateDevice (e_js env) (hexstr a) (interview_merge dev) (dm_store s') = (Inl ErrNotFound, dm_store s')"
    by (rule bolt_store.no_resurrection[OF assms(1) st])
  then show ?thesis using g assms(2)
    by (auto simp: HandleLeave_def Let_def interview_save_def delete_conv' cancel_cancelled)
qed

theorem leave_forgets_witness:
  "GetDevice (hexstr (replicate 8 1)) (dm_store (interview_save demo_env (hexstr (replicate 8 1)) (new_device [])
     (HandleLeave [0x1234] (replicate 8 1) (HandleJoin demo_env 5 0x1234 (replicate 8 1) (NewDeviceManager NewBoltStore)))))
   = Inl ErrNotFound"
proof -
  let ?s = "HandleJoin demo_env 5 0x1234 (replicate 8 1) (NewDeviceManager NewBoltStore)"
  have "b_ok (dm_store ?s)"
    by (auto simp: join_defs updateAddrIndex_def Let_def NewDeviceManager_def NewBoltStore_def SaveDevice_def GetDevice_def
        split: option.split)
  from leave_forgets[OF this refl] show ?thesis by blast
qed

text \<open>
  the address index keeps a stale entry. When a device has changed its short address between two joins and then
  leaves, the removal loop stops at the first of its two entries: one of the old addresses still resolves to the
  device that is gone. (The entry disappears only with the next rebuild, or when another device gets the address.)
\<close>

theorem leave_keeps_stale_address:
  assumes "x \<noteq> y" "length a = 8" "set order = dom (dm_addrIndex s)"
    "s = HandleJoin env t2 y a (HandleJoin env t1 x a s0)" "s' = HandleLeave order a s"
  shows "\<exists>z \<in> {x, y}. lookupIEEE z s' = hexstr a \<and> lookupOrRebuild z s' = (hexstr a, s')"
proof -
  have j: "dm_addrIndex (HandleJoin env t w a s1) = (dm_addrIndex s1)(w \<mapsto> hexstr a)" for t w s1
    by (auto simp: join_defs updateAddrIndex_def Let_def split: sum.split option.split store_error.split prod.split)
  have i: "dm_addrIndex s x = Some (hexstr a)" "dm_addrIndex s y = Some (hexstr a)"
    using assms(1,4) by (simp_all add: j)
  then have "x \<in> set order" using assms(3) by auto
  then obtain b where b: "List.find (\<lambda>w. dm_addrIndex s w = Some (hexstr a)) order = Some b"
    using i(1) by (metis (mono_tags, lifting) find_None_iff option.exhaust)
  then have "dm_addrIndex s' = (dm_addrIndex s)(b := None)"
    using assms(5) by (simp add: HandleLeave_def Let_def remove_one_def removeFromAddrIndex_def)
  moreover define z where "z = (if b = x then y else x)"
  ultimately have z: "z \<in> {x, y}" "lookupIEEE z s' = hexstr a"
    using i assms(1) by (auto simp: lookupIEEE_def)
  moreover have "hexstr a \<noteq> []" using is_ieee_nonempty[OF is_ieee_hexstr[OF assms(2)]] .
  ultimately show ?thesis by (auto simp: lookupOrRebuild_def)
qed

theorem leave_keeps_stale_address_witness:
  "\<exists>z \<in> {0x10, 0x20}. lookupIEEE z (HandleLeave [0x10, 0x20] (replicate 8 7)
      (HandleJoin demo_env 9 0x20 (replicate 8 7) (HandleJoin demo_env 5 0x10 (replicate 8 7) (NewDeviceManager NewBoltStore))))
    = hexstr (replicate 8 7)"
proof -
  have j: "dm_addrIndex (HandleJoin env t w a s1) = (dm_addrIndex s1)(w \<mapsto> hexstr a)" for env t w a s1
    by (auto simp: join_defs updateAddrIndex_def Let_def split: sum.split option.split store_error.split prod.split)
  let ?s = "HandleJoin demo_env 9 0x20 (replicate 8 7) (HandleJoin demo_env 5 0x10 (replicate 8 7) (NewDeviceManager NewBoltStore))"
  have o: "set [0x10, 0x20 :: u16] = dom (dm_addrIndex ?s)" by (auto simp: j NewDeviceManager_def)
  have "\<exists>z \<in> {0x10, 0x20}. lookupIEEE z (HandleLeave [0x10, 0x20] (replicate 8 7) ?s) = hexstr (replicate 8 7)
      \<and> lookupOrRebuild z (HandleLeave [0x10, 0x20] (replicate 8 7) ?s) = (hexstr (replicate 8 7), HandleLeave [0x10, 0x20] (replicate 8 7) ?s)"
    by (rule leave_keeps_stale_address[OF _ _ o refl refl]) simp_all
  then show ?thesis by blast
qed

section \<open>Reports\<close>

text \<open>The fields a report must not touch.\<close>

definition static :: "Device \<Rightarrow> u16 \<times> Endpoint list \<times> bool \<times> int" where
  "static d = (dev_ShortAddress d, dev_Endpoints d, dev_Interviewed d, dev_JoinedAt d)"

definition statics :: "bolt \<Rightarrow> string \<Rightarrow> (u16 \<times> Endpoint list \<times> bool \<times> int) option" where
  "statics st k = (case GetDevice k st of Inr d \<Rightarrow> Some (static d) | Inl e \<Rightarrow> None)"

lemma json_device_static: "json_device js d = Some d' \<Longrightarrow> static d' = static d"
  by (auto simp: json_device_def static_def split: option.splits)

lemma Update_statics:
  assumes "\<And>d d1. f d = Some d1 \<Longrightarrow> static d1 = static d"
  shows "statics (snd (UpdateDevice js i f st)) = statics st"
proof
  fix k
  show "statics (snd (UpdateDevice js i f st)) k = statics st k"
    using assms json_device_static
    by (auto simp: statics_def UpdateDevice_def GetDevice_def bucket_put_map split: option.splits)
qed

lemma seen_static: "static (seen now q r d) = static d"
  by (simp add: seen_def static_def Let_def)

lemma report_update_static: "report_update now evt v d = Some d1 \<Longrightarrow> static d1 = static d"
  by (auto simp: report_update_def Let_def seen_static split: gval.splits) (auto simp: static_def seen_def Let_def)

lemma lookup_eq: "lookupOrRebuild a s = (i, s1) \<Longrightarrow> dm_store s1 = dm_store s"
  using lookup_simps(1)[of a s] by simp

lemma update_and_get_frame:
  assumes "\<And>d d1. f d = Some d1 \<Longrightarrow> static d1 = static d" "update_and_get env i f s = (dev, s2)"
  shows "statics (dm_store s2) = statics (dm_store s) \<and> (\<forall>k. k \<noteq> i \<longrightarrow> GetDevice k (dm_store s2) = GetDevice k (dm_store s))"
  using assms Update_statics[OF assms(1)] Update_other by (auto simp: update_and_get_def Let_def split: if_splits)

lemma emitStandard_frame:
  "statics (dm_store (emitStandardProperty env i dev evt v s)) = statics (dm_store s)
   \<and> (\<forall>k. k \<noteq> i \<longrightarrow> GetDevice k (dm_store (emitStandardProperty env i dev evt v s)) = GetDevice k (dm_store s))"
  by (auto simp: emitStandardProperty_def Let_def Update_other static_def intro!: Update_statics split: option.split)

lemma save_properties_frame:
  "statics (dm_store (save_properties env i d pvs s)) = statics (dm_store s)
   \<and> (\<forall>k. k \<noteq> i \<longrightarrow> GetDevice k (dm_store (save_properties env i d pvs s)) = GetDevice k (dm_store s))"
  by (auto simp: save_properties_def Let_def Update_other static_def intro!: Update_statics)

text \<open>
  attribute reports and cluster commands, with all the properties they carry, touch the store only at the device
  they come from, and there never its short address, its endpoints, its interview status or its join time; the device
  that resolves from the source address is the only one concerned.
\<close>

theorem reports_frame:
  "statics (dm_store (HandleAttributeReport env now evt s)) = statics (dm_store s)
   \<and> statics (dm_store (HandleClusterCommand env now cmd s)) = statics (dm_store s)
   \<and> (\<forall>k. k \<noteq> fst (lookupOrRebuild (rpt_SrcAddr evt) s) \<longrightarrow>
        GetDevice k (dm_store (HandleAttributeReport env now evt s)) = GetDevice k (dm_store s))
   \<and> (\<forall>k. k \<noteq> fst (lookupOrRebuild (cc_SrcAddr cmd) s) \<longrightarrow>
        GetDevice k (dm_store (HandleClusterCommand env now cmd s)) = GetDevice k (dm_store s))"
proof -
  let ?f = "report_update now evt (decode_report evt)" and ?g = "\<lambda>d. Some (seen now (cc_LQI cmd) (cc_RSSI cmd) d)"
  obtain i s1 where l: "lookupOrRebuild (rpt_SrcAddr evt) s = (i, s1)" by (metis prod.collapse)
  obtain dev s2 where u: "update_and_get env i ?f s1 = (dev, s2)" by (metis prod.collapse)
  obtain i' t1 where l': "lookupOrRebuild (cc_SrcAddr cmd) s = (i', t1)" by (metis prod.collapse)
  obtain dev' t2 where u': "update_and_get env i' ?g t1 = (dev', t2)" by (metis prod.collapse)
  note F = update_and_get_frame[OF report_update_static u, unfolded lookup_eq[OF l]]
  have G: "statics (dm_store t2) = statics (dm_store s) \<and> (\<forall>k. k \<noteq> i' \<longrightarrow> GetDevice k (dm_store t2) = GetDevice k (dm_store s))"
    using update_and_get_frame[OF _ u', unfolded lookup_eq[OF l']] seen_static by fastforce
  have R: "statics (dm_store (HandleAttributeReport env now evt s)) = statics (dm_store s)
    \<and> (\<forall>k. k \<noteq> i \<longrightarrow> GetDevice k (dm_store (HandleAttributeReport env now evt s)) = GetDevice k (dm_store s))"
    unfolding HandleAttributeReport_def Let_def l u prod.case
    by (auto simp: processProperties_def F save_properties_frame emitStandard_frame split: option.split prod.split)
  have C: "statics (dm_store (HandleClusterCommand env now cmd s)) = statics (dm_store s)
    \<and> (\<forall>k. k \<noteq> i' \<longrightarrow> GetDevice k (dm_store (HandleClusterCommand env now cmd s)) = GetDevice k (dm_store s))"
    unfolding HandleClusterCommand_def Let_def l' u' prod.case
    by (auto simp: processClusterCommandProperties_def G save_properties_frame split: option.split prod.split)
  show ?thesis using R C by (simp add: l l')
qed

theorem reports_frame_witness:
  "GetDevice ''B'' (dm_store (HandleAttributeReport demo_env 5 \<lparr>rpt_SrcAddr = 1, rpt_SrcEP = 1, rpt_ClusterID = 6, rpt_AttrID = 0,
       rpt_DataType = 0x10, rpt_Value = [1], rpt_LQI = 9, rpt_RSSI = 0\<rparr> (NewDeviceManager NewBoltStore)))
   = Inl ErrNotFound"
proof -
  let ?e = "\<lparr>rpt_SrcAddr = 1, rpt_SrcEP = 1, rpt_ClusterID = 6, rpt_AttrID = 0,
       rpt_DataType = 0x10, rpt_Value = [1], rpt_LQI = 9, rpt_RSSI = 0\<rparr> :: AttributeReportEvent"
  have "fst (lookupOrRebuild 1 (NewDeviceManager NewBoltStore)) = []"
    by (simp add: lookupOrRebuild_def lookupIEEE_def NewDeviceManager_def NewBoltStore_def ListDevices_def)
  then have "GetDevice ''B'' (dm_store (HandleAttributeReport demo_env 5 ?e (NewDeviceManager NewBoltStore))) = GetDevice ''B'' NewBoltStore"
    using reports_frame[of demo_env 5 ?e "NewDeviceManager NewBoltStore"] by (simp add: NewDeviceManager_def)
  then show ?thesis by (simp add: GetDevice_def NewBoltStore_def)
qed

end
