(* ===== verification/Interview_Theorems.thy ===== *)
theory Interview_Theorems
  imports DM_Theorems
begin

text \<open>
  The properties of interviews and of device configuration: what an interview writes and keeps, the lost update of an
  announce that overlaps it, the debounce, the requests of \<^verbatim>\<open>configureDevice\<close>, and the size of
  reportable changes.
\<close>

section \<open>What an interview writes\<close>

lemma json_device_fields:
  assumes "json_device js d = Some d'"
  shows "static d' = static d" "dev_LastSeen d' = dev_LastSeen d" "dev_LQI d' = dev_LQI d" "dev_RSSI d' = dev_RSSI d"
    "dev_Manufacturer d' = json_string (dev_Manufacturer d)" "dev_Model d' = json_string (dev_Model d)"
  using assms json_device_static[OF assms] by (auto simp: json_device_def split: option.splits)

text \<open>A device whose properties are JSON values already marshals whatever its other fields are.\<close>

lemma json_device_normal:
  assumes "json_device js d = Some d" "dev_Properties d1 = dev_Properties d"
  shows "\<exists>d2. json_device js d1 = Some d2 \<and> dev_Properties d2 = dev_Properties d"
proof -
  let ?g = "\<lambda>kv. map_option (Pair (fst kv)) (json_value js (snd kv))"
  obtain ps where ps: "those (map ?g (dev_Properties d)) = Some ps" using assms(1) by (auto simp: json_device_def split: option.splits)
  then have "dev_Properties d = ps" using arg_cong[OF assms(1), of "map_option dev_Properties"] by (simp add: json_device_def)
  then show ?thesis using ps assms(2) by (simp add: json_device_def)
qed

lemma interview_merge_fields:
  assumes "interview_merge dev d = Some d1"
  shows "dev_Properties d1 = dev_Properties d" "dev_LastSeen d1 = dev_LastSeen d" "dev_LQI d1 = dev_LQI d"
    "dev_RSSI d1 = dev_RSSI d" "dev_ShortAddress d1 = dev_ShortAddress d" "dev_JoinedAt d1 = dev_JoinedAt d"
    "dev_Interviewed d1" "dev_Endpoints d1 = dev_Endpoints dev"
    "dev_Manufacturer dev = [] \<Longrightarrow> dev_Manufacturer d1 = dev_Manufacturer d"
    "dev_Model dev = [] \<Longrightarrow> dev_Model d1 = dev_Model d"
  using assms by (auto simp: interview_merge_def Let_def)

lemma interview_save_Get:
  assumes "b_ok (dm_store s)" "GetDevice i (dm_store s) = Inr d" "json_device (e_js env) d = Some d"
  shows "\<exists>d1 d2. interview_merge dev d = Some d1 \<and> json_device (e_js env) d1 = Some d2
    \<and> dev_Properties d2 = dev_Properties d \<and> GetDevice i (dm_store (interview_save env i dev s)) = Inr d2"
proof -
  obtain d1 where m: "interview_merge dev d = Some d1" by (simp add: interview_merge_def Let_def)
  obtain d2 where j: "json_device (e_js env) d1 = Some d2" "dev_Properties d2 = dev_Properties d"
    using json_device_normal[OF assms(3)] interview_merge_fields(1)[OF m] by blast
  have "UpdateDevice (e_js env) i (interview_merge dev) (dm_store s) = (Inr (), (dm_store s)\<lparr>b_devices := bucket_put i d2 (b_devices (dm_store s))\<rparr>)"
    using assms m j by (auto simp: UpdateDevice_def GetDevice_def split: option.splits)
  then have "GetDevice i (dm_store (interview_save env i dev s)) = Inr d2"
    using assms(1) by (simp add: interview_save_def Get_put)
  then show ?thesis using m j by blast
qed

text \<open>
  C29: an interview merges, it does not overwrite. However much was reported while it ran, saving its result to the
  device as it is stored by then sets the endpoints and the interview status and keeps everything the reports wrote:
  properties, last-seen time, link quality, signal strength, and the short address of a rejoin; and an empty
  manufacturer or model never erases a known one.
\<close>

theorem interview_keeps_reports:
  assumes "b_ok (dm_store s)" "GetDevice i (dm_store s) = Inr d"
    "\<And>w. f32_exp w \<noteq> 255 \<Longrightarrow> f64_exp (e_js env w) \<noteq> 2047" "json_device (e_js env) raw = Some d"
  shows "\<exists>d2. GetDevice i (dm_store (interview_save env i dev s)) = Inr d2
     \<and> dev_Interviewed d2 \<and> dev_Endpoints d2 = dev_Endpoints dev \<and> dev_Properties d2 = dev_Properties d
     \<and> dev_LastSeen d2 = dev_LastSeen d \<and> dev_LQI d2 = dev_LQI d \<and> dev_RSSI d2 = dev_RSSI d
     \<and> dev_ShortAddress d2 = dev_ShortAddress d \<and> dev_JoinedAt d2 = dev_JoinedAt d
     \<and> (dev_Manufacturer dev = [] \<longrightarrow> dev_Manufacturer d2 = dev_Manufacturer d)
     \<and> (dev_Model dev = [] \<longrightarrow> dev_Model d2 = dev_Model d)"
proof -
  have n: "json_device (e_js env) d = Some d" using assms(3,4) by (rule json_device_idem)
  obtain d1 d2 where m: "interview_merge dev d = Some d1" "json_device (e_js env) d1 = Some d2"
    "dev_Properties d2 = dev_Properties d" "GetDevice i (dm_store (interview_save env i dev s)) = Inr d2"
    using interview_save_Get[OF assms(1,2) n] by blast
  show ?thesis
    using m json_device_fields[OF m(2)] interview_merge_fields[OF m(1)] json_device_fields(5,6)[OF n]
    by (auto simp: static_def)
qed

definition demo_device :: Device where
  "demo_device = new_device (hexstr (replicate 8 1))"

definition demo_dm :: "byte \<Rightarrow> dm" where
  "demo_dm lqi = NewDeviceManager (NewBoltStore\<lparr>b_devices := [(hexstr (replicate 8 1), demo_device\<lparr>dev_LQI := lqi\<rparr>)]\<rparr>)"

lemma demo_dm_simps:
  "b_ok (dm_store (demo_dm q))" "GetDevice (hexstr (replicate 8 1)) (dm_store (demo_dm q)) = Inr (demo_device\<lparr>dev_LQI := q\<rparr>)"
  "dev_IEEEAddress (demo_device\<lparr>dev_LQI := q\<rparr>) = hexstr (replicate 8 1)"
  "json_device (e_js demo_env) (demo_device\<lparr>dev_LQI := q\<rparr>) = Some (demo_device\<lparr>dev_LQI := q\<rparr>)"
  "\<not> dev_Interviewed (demo_device\<lparr>dev_LQI := q\<rparr>)"
proof -
  have e: "json_string [] = []" by (simp add: json_string_def bytes_of_def string_of_def)
  show "b_ok (dm_store (demo_dm q))" "GetDevice (hexstr (replicate 8 1)) (dm_store (demo_dm q)) = Inr (demo_device\<lparr>dev_LQI := q\<rparr>)"
    "dev_IEEEAddress (demo_device\<lparr>dev_LQI := q\<rparr>) = hexstr (replicate 8 1)"
    "json_device (e_js demo_env) (demo_device\<lparr>dev_LQI := q\<rparr>) = Some (demo_device\<lparr>dev_LQI := q\<rparr>)"
    "\<not> dev_Interviewed (demo_device\<lparr>dev_LQI := q\<rparr>)"
    by (simp_all add: demo_dm_def NewDeviceManager_def NewBoltStore_def GetDevice_def demo_device_def new_device_def json_device_def e)
qed

theorem interview_keeps_reports_witness:
  "\<exists>d2. GetDevice (hexstr (replicate 8 1)) (dm_store (interview_save demo_env (hexstr (replicate 8 1)) demo_device (demo_dm 7))) = Inr d2
     \<and> dev_Interviewed d2 \<and> dev_LQI d2 = 7"
proof -
  have f: "f64_exp (e_js demo_env w) \<noteq> 2047" for w by (simp add: demo_env_def f64_exp_def)
  from interview_keeps_reports[OF demo_dm_simps(1,2) f demo_dm_simps(4), of demo_device 7] show ?thesis by auto
qed

text \<open>
  C30: an announce that overlaps the end of an interview undoes it. \<^verbatim>\<open>HandleAnnounce\<close> writes back the whole device it
  read before; an interview that saves in between is lost: the device is stored as not interviewed, with the endpoints it
  had before, although the interview had completed.
\<close>

theorem announce_loses_interview:
  assumes "b_ok (dm_store s)" "GetDevice (hexstr a) (dm_store s) = Inr d" "dev_IEEEAddress d = hexstr a"
    "json_device (e_js env) d = Some d" "\<not> dev_Interviewed d"
    "announce_read now sh a s = (dev, s1)" "s2 = interview_save env (hexstr a) found s1" "s3 = announce_write env now sh a dev s2"
  shows "(\<exists>d2. GetDevice (hexstr a) (dm_store s2) = Inr d2 \<and> dev_Interviewed d2 \<and> dev_Endpoints d2 = dev_Endpoints found)
     \<and> (\<exists>d3. GetDevice (hexstr a) (dm_store s3) = Inr d3 \<and> \<not> dev_Interviewed d3 \<and> dev_Endpoints d3 = dev_Endpoints d)"
proof -
  let ?d' = "d\<lparr>dev_ShortAddress := sh, dev_LastSeen := now\<rparr>"
  have r: "dev = Some ?d'" "dm_store s1 = dm_store s"
    using assms(2,6) by (auto simp: announce_read_def Let_def updateAddrIndex_def)
  have b: "b_ok (dm_store s1)" "GetDevice (hexstr a) (dm_store s1) = Inr d" using r assms(1,2) by simp_all
  from interview_save_Get[OF b assms(4), of found] obtain d1 d2 where m: "interview_merge found d = Some d1"
    "json_device (e_js env) d1 = Some d2" "GetDevice (hexstr a) (dm_store s2) = Inr d2"
    unfolding assms(7) by blast
  have 1: "dev_Interviewed d2 \<and> dev_Endpoints d2 = dev_Endpoints found"
    using json_device_fields(1)[OF m(2)] interview_merge_fields(7,8)[OF m(1)] by (simp add: static_def)
  obtain d3 where d3: "json_device (e_js env) ?d' = Some d3" using json_device_normal[OF assms(4), of ?d'] by auto
  have b2: "b_ok (dm_store s2)" using b(1) by (simp add: assms(7) interview_save_def)
  have "dm_store s3 = (dm_store s2)\<lparr>b_devices := bucket_put (hexstr a) d3 (b_devices (dm_store s2))\<rparr>"
    using b2 d3 assms(3) unfolding assms(8) r announce_write_def option.case Let_def
    by (simp add: start_defs SaveDevice_def)
  then have "GetDevice (hexstr a) (dm_store s3) = Inr d3" using b2 by (simp add: Get_put)
  moreover have "\<not> dev_Interviewed d3 \<and> dev_Endpoints d3 = dev_Endpoints d"
    using json_device_fields(1)[OF d3] assms(5) by (simp add: static_def)
  ultimately show ?thesis using m(3) 1 by blast
qed

theorem announce_loses_interview_witness:
  "\<exists>dev s1 d3. announce_read 5 0x10 (replicate 8 1) (demo_dm 0) = (dev, s1)
     \<and> GetDevice (hexstr (replicate 8 1)) (dm_store (announce_write demo_env 5 0x10 (replicate 8 1) dev
          (interview_save demo_env (hexstr (replicate 8 1)) demo_device s1))) = Inr d3 \<and> \<not> dev_Interviewed d3"
proof -
  obtain dev s1 where r: "announce_read 5 0x10 (replicate 8 1) (demo_dm 0) = (dev, s1)" by (metis prod.collapse)
  from announce_loses_interview[OF demo_dm_simps r refl refl, of demo_device] show ?thesis using r by blast
qed

section \<open>The debounce\<close>

lemma record_join_self: "map_of (record_join i now lj) i = Some now"
proof -
  have u: "map_of (AList.update i now lj) i = Some now" by (simp add: update_conv')
  then have "(i, now) \<in> set (AList.update i now lj)" by (rule map_of_SomeD)
  have "map_of xs i = Some now \<Longrightarrow> map_of (filter (\<lambda>kt. \<not> 60000000000 < now - snd kt) xs) i = Some now" for xs :: "(string \<times> int) list"
    by (induction xs) (auto split: if_splits)
  with u show ?thesis by (auto simp: record_join_def Let_def)
qed

text \<open>
  rapid announces start one interview. When an announce starts an interview of a device, the entry it leaves in the
  debounce cache survives the eviction of stale entries and the hard cap, so that a second announce of the same
  device within three seconds starts none, even if the first interview has ended by then.
\<close>

theorem announce_debounce:
  assumes "s1 = HandleAnnounce env t1 sh1 a s" "dm_started s1 = dm_started s @ [hexstr a]" "t2 - t1 < 3000000000"
  shows "dm_started (HandleAnnounce env t2 sh2 a s1) = dm_started s1
     \<and> dm_started (HandleAnnounce env t2 sh2 a (interview_end (hexstr a) gen s1)) = dm_started s1"
proof -
  have st: "dm_lastJoin (announce_start i now u) = record_join i now (dm_lastJoin u)"
    if "dm_started (announce_start i now u) \<noteq> dm_started u" for i now u
    using that by (auto simp: start_defs split: if_splits)
  obtain dev u where r: "announce_read t1 sh1 a s = (dev, u)" by (metis prod.collapse)
  then have u: "dm_started u = dm_started s" "dm_lastJoin u = dm_lastJoin s"
    by (auto simp: announce_read_def Let_def updateAddrIndex_def)
  have s1: "s1 = announce_write env t1 sh1 a dev u" using assms(1) r by (simp add: HandleAnnounce_def)
  then obtain d where "dev = Some d" using assms(2) u by (cases dev) (auto simp: announce_write_def)
  then obtain w where w: "s1 = announce_start (hexstr a) t1 w" "dm_started w = dm_started s"
    using s1 u by (simp add: announce_write_def Let_def)
  then have lj: "map_of (dm_lastJoin s1) (hexstr a) = Some t1"
    using st[of "hexstr a" t1 w] assms(2) record_join_self by simp
  have again: "dm_started (HandleAnnounce env t2 sh2 a v) = dm_started v"
    if "map_of (dm_lastJoin v) (hexstr a) = Some t1" for v
    using that assms(3)
    by (auto simp: HandleAnnounce_def announce_read_def announce_write_def start_defs updateAddrIndex_def
        joinDebounceDuration_def Let_def split: option.split sum.split store_error.split prod.split)
  show ?thesis using again[OF lj] again[of "interview_end (hexstr a) gen s1"] lj by (auto simp: interview_end_def)
qed

theorem announce_debounce_witness:
  "\<exists>s1. s1 = HandleAnnounce demo_env 5 0x10 (replicate 8 1) (demo_dm 0) \<and> dm_started s1 = [hexstr (replicate 8 1)]
     \<and> dm_started (HandleAnnounce demo_env 2000000005 0x11 (replicate 8 1) s1) = [hexstr (replicate 8 1)]"
proof -
  let ?s1 = "HandleAnnounce demo_env 5 0x10 (replicate 8 1) (demo_dm 0)"
  have "dm_started ?s1 = dm_started (demo_dm 0) @ [hexstr (replicate 8 1)]" "dm_started (demo_dm 0) = []"
    by (simp_all add: HandleAnnounce_def announce_read_def announce_write_def start_defs updateAddrIndex_def
        demo_dm_def NewDeviceManager_def NewBoltStore_def GetDevice_def Let_def)
  with announce_debounce[OF refl this(1), of 2000000005 "0x11"] show ?thesis by simp
qed

section \<open>Configuring a device\<close>

text \<open>The bind requests among what was sent.\<close>

definition binds :: "link \<Rightarrow> bytes list" where
  "binds l = map snd (filter (\<lambda>p. fst p = zbossCmdZDOBindReq) (l_sent l))"

lemma try_must: "l_sent (try_request (must e c p) l) = l_sent l @ [(c, p)]"
  by (auto simp: try_request_def must_def request_def split: outcome.splits)

lemma bind_cluster_sent:
  "binds (bind_cluster ci di dev ep c l) = binds l @ (if hasOutCluster ep c then
      [bind_payload \<lparr>br_TargetShortAddr = dev_ShortAddress dev, br_SrcIEEE = di, br_SrcEP = ep_ID ep, br_ClusterID = c,
         br_DstIEEE = ci, br_DstEP = 1\<rparr>] else [])"
  "length (l_sent (bind_cluster ci di dev ep c l)) = length (l_sent l) + (if hasOutCluster ep c then 1 else 0)"
  by (simp_all add: binds_def bind_cluster_def Bind_def try_must)

lemma report_cluster_sent:
  "binds (report_cluster dev ep r l) = binds l"
  "length (l_sent (report_cluster dev ep r l)) = length (l_sent l) + (if hasInCluster ep (re_Cluster r) then 1 else 0)"
proof -
  have "\<exists>p. l_sent (report_cluster dev ep r l) = l_sent l @ (if hasInCluster ep (re_Cluster r) then [(zbossCmdAPSDEDataReq, p)] else [])"
    by (auto simp: report_cluster_def ConfigureReporting_def try_request_def link_zclSeq_def must_def request_def Let_def
        split: outcome.splits)
  then obtain p where p: "l_sent (report_cluster dev ep r l) =
      l_sent l @ (if hasInCluster ep (re_Cluster r) then [(zbossCmdAPSDEDataReq, p)] else [])" ..
  show "binds (report_cluster dev ep r l) = binds l"
    "length (l_sent (report_cluster dev ep r l)) = length (l_sent l) + (if hasInCluster ep (re_Cluster r) then 1 else 0)"
    by (simp_all add: binds_def p)
qed

lemma fold_binds:
  "binds (fold (bind_cluster ci di dev ep) cs l) = binds l @ map (\<lambda>c. bind_payload \<lparr>br_TargetShortAddr = dev_ShortAddress dev,
      br_SrcIEEE = di, br_SrcEP = ep_ID ep, br_ClusterID = c, br_DstIEEE = ci, br_DstEP = 1\<rparr>) (filter (hasOutCluster ep) cs)"
  "length (l_sent (fold (bind_cluster ci di dev ep) cs l)) = length (l_sent l) + length (filter (hasOutCluster ep) cs)"
  by (induction cs arbitrary: l) (simp_all add: bind_cluster_sent)

lemma fold_reports:
  "binds (fold (report_cluster dev ep) rs l) = binds l"
  "length (l_sent (fold (report_cluster dev ep) rs l)) = length (l_sent l) + length (filter (\<lambda>r. hasInCluster ep (re_Cluster r)) rs)"
  by (induction rs arbitrary: l) (simp_all add: report_cluster_sent)

text \<open>
  configuring a device asks for exactly what its definition says and its endpoints offer. On every endpoint, in order,
  each cluster of the bind list that is an output cluster there is bound from that endpoint to the coordinator's
  endpoint 1, then each reporting entry whose cluster is an input cluster is configured; requests that fail do not
  stop the others, and nothing else is sent.
\<close>

theorem configure_requests:
  assumes "length di = 8" "dev_IEEEAddress dev = hexstr di"
  shows "binds (configureDevice ci dev def l) = binds l @ concat (map (\<lambda>ep. map (\<lambda>c. bind_payload
        \<lparr>br_TargetShortAddr = dev_ShortAddress dev, br_SrcIEEE = di, br_SrcEP = ep_ID ep, br_ClusterID = c, br_DstIEEE = ci, br_DstEP = 1\<rparr>)
        (filter (hasOutCluster ep) (dd_Bind def))) (dev_Endpoints dev))
     \<and> length (l_sent (configureDevice ci dev def l)) = length (l_sent l)
        + sum_list (map (\<lambda>ep. length (filter (hasOutCluster ep) (dd_Bind def))
            + length (filter (\<lambda>r. hasInCluster ep (re_Cluster r)) (dd_Reporting def))) (dev_Endpoints dev))"
proof -
  let ?step = "\<lambda>ep l. fold (report_cluster dev ep) (dd_Reporting def) (fold (bind_cluster ci di dev ep) (dd_Bind def) l)"
  have p: "ParseIEEE (dev_IEEEAddress dev) = Inr di" using assms by (simp add: ParseIEEE_def hexstr_no_colon)
  have e: "configureDevice ci dev def l = fold ?step (dev_Endpoints dev) l" by (simp add: configureDevice_def p)
  have "binds (fold ?step xs l) = binds l @ concat (map (\<lambda>ep. map (\<lambda>c. bind_payload
      \<lparr>br_TargetShortAddr = dev_ShortAddress dev, br_SrcIEEE = di, br_SrcEP = ep_ID ep, br_ClusterID = c, br_DstIEEE = ci, br_DstEP = 1\<rparr>)
      (filter (hasOutCluster ep) (dd_Bind def))) xs)
    \<and> length (l_sent (fold ?step xs l)) = length (l_sent l)
      + sum_list (map (\<lambda>ep. length (filter (hasOutCluster ep) (dd_Bind def))
          + length (filter (\<lambda>r. hasInCluster ep (re_Cluster r)) (dd_Reporting def))) xs)" for xs l
    by (induction xs arbitrary: l) (simp_all add: fold_binds fold_reports)
  then show ?thesis unfolding e by blast
qed

definition demo_endpoint :: Endpoint where
  "demo_endpoint = \<lparr>ep_ID = 1, ep_ProfileID = 0x0104, ep_DeviceID = 0, ep_InClusters = [0], ep_OutClusters = [6]\<rparr>"

theorem configure_requests_witness:
  "binds (configureDevice (replicate 8 2) (demo_device\<lparr>dev_Endpoints := [demo_endpoint]\<rparr>) (demo_def ''A'' ''x'') (demo_link [])) =
     [bind_payload \<lparr>br_TargetShortAddr = 0, br_SrcIEEE = replicate 8 1, br_SrcEP = 1, br_ClusterID = 6, br_DstIEEE = replicate 8 2, br_DstEP = 1\<rparr>]"
proof -
  let ?d = "demo_device\<lparr>dev_Endpoints := [demo_endpoint]\<rparr>"
  have h: "length (replicate 8 (1 :: byte)) = 8" "dev_IEEEAddress ?d = hexstr (replicate 8 1)"
    by (simp_all add: demo_device_def new_device_def)
  have "hasOutCluster demo_endpoint 6" "dev_ShortAddress ?d = 0"
    by (simp_all add: hasOutCluster_def demo_endpoint_def demo_device_def new_device_def)
  with configure_requests[OF h, of "replicate 8 2" "demo_def ''A'' ''x''" "demo_link []"] show ?thesis
    by (simp add: demo_def_def binds_def demo_link_def) (simp add: demo_endpoint_def)
qed

text \<open>
  the reportable change is as wide as its data type for every type of 8, 16, 32, 48 and 64 bits that a definition can
  name; for the 24-bit and 40-bit types, which \<^verbatim>\<open>encodeReportChange\<close> leaves to its default, it never is.
\<close>

theorem report_change_size:
  "list_all (\<lambda>t. int (length (encodeReportChange t v)) = TypeSize t)
     [TypeBool, TypeUint8, TypeInt8, TypeEnum8, TypeBitmap8, TypeUint16, TypeInt16, TypeEnum16, TypeBitmap16,
      TypeUint32, TypeInt32, TypeBitmap32, TypeFloat32, TypeUint48, TypeFloat64]
   \<and> list_all (\<lambda>t. int (length (encodeReportChange t v)) \<noteq> TypeSize t) [TypeUint24, TypeInt24, TypeBitmap24, TypeUint40]"
  by (simp add: encodeReportChange_def TypeSize_def)

section \<open>A whole interview\<close>

lemma discover_ids: "set (map ep_ID (fst (discover sh eps l))) \<subseteq> set eps"
proof (induction sh eps l rule: discover.induct)
  case (2 short ep eps l)
  obtain r l1 where r: "SimpleDescriptor_query short ep l = (r, l1)" by (metis prod.collapse)
  obtain es l2 where d: "discover short eps l1 = (es, l2)" by (metis prod.collapse)
  have "set (map ep_ID es) \<subseteq> set eps" using 2 r d by (cases r) (auto simp: r)
  then show ?case by (cases r) (auto simp: r d)
qed simp

lemma attempts_cancels: "dm_interviewCancels (fst (interview_attempts env i as s l)) = dm_interviewCancels s"
  by (induction env i as s l rule: interview_attempts.induct)
    (auto simp: interview_save_def split: sum.split prod.split attempt_result.split)

text \<open>The number of requests for the active endpoints so far, and the link after \<open>n\<close> of them in a row.\<close>

definition ep_queries :: "link \<Rightarrow> nat" where
  "ep_queries l = length (filter ((=) zbossCmdZDOActiveEPReq) (cmds l))"

primrec ep_tries :: "u16 \<Rightarrow> nat \<Rightarrow> link \<Rightarrow> link" where
  "ep_tries sh 0 l = l"
| "ep_tries sh (Suc n) l = ep_tries sh n (snd (ActiveEndpoints sh l))"

lemma queries_request: "request c p l = (ou, l') \<Longrightarrow> ep_queries l' = ep_queries l + (if c = zbossCmdZDOActiveEPReq then 1 else 0)"
  by (auto simp: request_def ep_queries_def)

lemma queries_must: "must e c p l = (r, l') \<Longrightarrow> ep_queries l' = ep_queries l + (if c = zbossCmdZDOActiveEPReq then 1 else 0)"
  using queries_request[of c p l] by (cases "request c p l") (auto simp: must_def split: outcome.splits)

lemma queries_ActiveEndpoints: "ActiveEndpoints sh l = (r, l') \<Longrightarrow> ep_queries l' = ep_queries l + 1"
  using queries_must[of ZdoRequest zbossCmdZDOActiveEPReq "le_put 2 sh" l]
  by (auto simp: ActiveEndpoints_def andThen_def split: prod.splits sum.splits)

lemma queries_SimpleDescriptor: "SimpleDescriptor_query sh ep l = (r, l') \<Longrightarrow> ep_queries l' = ep_queries l"
  using queries_must[of ZdoRequest zbossCmdZDOSimpleDescReq "le_put 2 sh @ [ep]" l]
  by (auto simp: SimpleDescriptor_query_def andThen_def split: prod.splits sum.splits)

lemma queries_discover: "discover sh eps l = (es, l') \<Longrightarrow> ep_queries l' = ep_queries l"
proof (induction sh eps l arbitrary: es l' rule: discover.induct)
  case (2 sh ep eps l)
  obtain r l1 where r: "SimpleDescriptor_query sh ep l = (r, l1)" by (metis prod.collapse)
  obtain es1 l2 where d: "discover sh eps l1 = (es1, l2)" by (metis prod.collapse)
  have "ep_queries l2 = ep_queries l1" using 2(1,2) r d by (cases r) auto
  then show ?case using 2(3) queries_SimpleDescriptor[OF r] by (cases r) (auto simp: r d)
qed simp

lemma queries_read: "readBasicAttributes an fresh ep d l = (d', l') \<Longrightarrow> ep_queries l' = ep_queries l"
proof -
  assume a: "readBasicAttributes an fresh ep d l = (d', l')"
  obtain r where r: "ReadAttributes an (dev_ShortAddress d) ep 0 [4, 5] l = (r, l')"
    using a by (auto simp: readBasicAttributes_def split: prod.splits)
  have q: "ep_queries (snd (link_zclSeq l)) = ep_queries l" by (simp add: link_zclSeq_def ep_queries_def)
  show ?thesis using r q
    by (auto simp: ReadAttributes_def andThen_def split: prod.splits sum.splits dest!: queries_must)
qed

lemma queries_configure: "ep_queries (configureDevice ci dev def l) = ep_queries l"
proof -
  have b: "ep_queries (bind_cluster ci di dev ep c l) = ep_queries l" for di ep c l
    by (simp add: bind_cluster_def Bind_def ep_queries_def try_must)
  have r: "ep_queries (report_cluster dev ep e l) = ep_queries l" for ep e l
    by (simp add: report_cluster_def ConfigureReporting_def try_request_def link_zclSeq_def must_def request_def ep_queries_def Let_def
        split: outcome.splits)
  have fb: "ep_queries (fold (bind_cluster ci di dev ep) cs l) = ep_queries l" for di ep cs l
    by (induction cs arbitrary: l) (simp_all add: b)
  have fr: "ep_queries (fold (report_cluster dev ep) es l) = ep_queries l" for ep es l
    by (induction es arbitrary: l) (simp_all add: r)
  have "ep_queries (fold (\<lambda>ep l. fold (report_cluster dev ep) (dd_Reporting def)
      (fold (bind_cluster ci di dev ep) (dd_Bind def) l)) eps l) = ep_queries l" for di eps l
    by (induction eps arbitrary: l) (simp_all add: fb fr)
  then show ?thesis by (simp add: configureDevice_def split: sum.split)
qed

section \<open>One attempt\<close>

lemma attempt_fails:
  assumes "ActiveEndpoints (dev_ShortAddress d) l = (Inl e, l1)"
  shows "interview_attempt env a final d l =
     (if at_overEP a \<or> \<not> final \<and> at_overWait a then GiveUp else Retry, l1)"
  using assms by (simp add: interview_attempt_def)

lemma attempt_answered:
  assumes "ActiveEndpoints (dev_ShortAddress d) l = (Inr eps, l1)"
  shows "\<exists>dev l4. interview_attempt env a final d l = (if at_overSave a then GiveUp else Interviewed dev, l4)
     \<and> set (map ep_ID (dev_Endpoints dev)) \<subseteq> set eps \<and> ep_queries l4 = ep_queries l1"
proof -
  obtain dev1 l2 where 1: "(case eps of [] \<Rightarrow> (d, l1) | ep # _ \<Rightarrow> readBasicAttributes (at_answer a) (at_fresh a) ep d l1) = (dev1, l2)"
    by (metis prod.collapse)
  define df where "df = (case e_db env of None \<Rightarrow> None | Some db \<Rightarrow> Lookup db (dev_Manufacturer dev1) (dev_Model dev1))"
  obtain es l3 where 2: "discover (dev_ShortAddress (friendly df dev1)) eps l2 = (es, l3)" by (metis prod.collapse)
  define l4 where "l4 = (case df of None \<Rightarrow> l3 | Some x \<Rightarrow> configureDevice (e_localIEEE env) ((friendly df dev1)\<lparr>dev_Endpoints := es\<rparr>) x l3)"
  have "ep_queries l2 = ep_queries l1" using 1 queries_read by (auto split: list.splits)
  then have "ep_queries l4 = ep_queries l1" using queries_discover[OF 2] by (simp add: l4_def queries_configure split: option.split)
  moreover have "set (map ep_ID es) \<subseteq> set eps" using discover_ids[of "dev_ShortAddress (friendly df dev1)" eps l2] 2 by simp
  moreover have "interview_attempt env a final d l = (if at_overSave a then GiveUp else Interviewed ((friendly df dev1)\<lparr>dev_Endpoints := es\<rparr>), l4)"
    unfolding interview_attempt_def assms prod.case sum.case 1 Let_def df_def[symmetric] 2 l4_def[symmetric] ..
  ultimately show ?thesis by (intro exI[of _ "(friendly df dev1)\<lparr>dev_Endpoints := es\<rparr>"] exI[of _ l4]) simp
qed

lemma attempt_queries: "interview_attempt env a final d l = (r, l') \<Longrightarrow> ep_queries l' = ep_queries l + 1"
proof -
  assume a: "interview_attempt env a final d l = (r, l')"
  obtain x l1 where x: "ActiveEndpoints (dev_ShortAddress d) l = (x, l1)" by (metis prod.collapse)
  show ?thesis
  proof (cases x)
    case (Inl e)
    then show ?thesis using a attempt_fails[OF x[unfolded Inl], of env a final] queries_ActiveEndpoints[OF x] by simp
  next
    case (Inr eps)
    obtain dev l4 where "interview_attempt env a final d l = (if at_overSave a then GiveUp else Interviewed dev, l4)"
      "ep_queries l4 = ep_queries l1" using attempt_answered[OF x[unfolded Inr], of env a final] by blast
    then show ?thesis using a queries_ActiveEndpoints[OF x] by simp
  qed
qed

section \<open>All attempts\<close>

lemma attempts_bound: "ep_queries (snd (interview_attempts env i as s l)) \<le> ep_queries l + length as"
proof (induction env i as s l rule: interview_attempts.induct)
  case (2 env i a as s l)
  show ?case
  proof (cases "GetDevice i (dm_store s)")
    case (Inr d)
    obtain r l1 where r: "interview_attempt env a (as = []) d l = (r, l1)" by (metis prod.collapse)
    show ?thesis using 2[OF Inr r[symmetric]] attempt_queries[OF r] by (cases r) (auto simp: Inr r)
  qed simp
qed simp

lemma attempts_answered:
  assumes "GetDevice i (dm_store s) = Inr d" "n < length as"
    "\<And>j. j < n \<Longrightarrow> isl (fst (ActiveEndpoints (dev_ShortAddress d) (ep_tries (dev_ShortAddress d) j l))) \<and> \<not> at_overEP (as ! j) \<and> \<not> at_overWait (as ! j)"
    "ActiveEndpoints (dev_ShortAddress d) (ep_tries (dev_ShortAddress d) n l) = (Inr eps, l1)" "\<not> at_overSave (as ! n)"
  shows "\<exists>dev l4. interview_attempts env i as s l = (interview_save env i dev s, l4)
     \<and> set (map ep_ID (dev_Endpoints dev)) \<subseteq> set eps \<and> ep_queries l4 = ep_queries l + Suc n"
  using assms(2-)
proof (induction n arbitrary: as l)
  case 0
  then obtain a as' where as: "as = a # as'" by (cases as) auto
  have q: "ActiveEndpoints (dev_ShortAddress d) l = (Inr eps, l1)" using 0 by simp
  obtain dev l4 where "interview_attempt env a (as' = []) d l = (if at_overSave a then GiveUp else Interviewed dev, l4)"
    "set (map ep_ID (dev_Endpoints dev)) \<subseteq> set eps" "ep_queries l4 = ep_queries l1" using attempt_answered[OF q, of env a "as' = []"] by blast
  then show ?case using 0(4) queries_ActiveEndpoints[OF q] by (auto simp: as assms(1))
next
  case (Suc n)
  obtain a as' where as: "as = a # as'" using Suc.prems(1) by (cases as) auto
  have ne: "as' \<noteq> []" using Suc.prems(1) as by auto
  obtain e l2 where q: "ActiveEndpoints (dev_ShortAddress d) l = (Inl e, l2)" and o: "\<not> at_overEP a" "\<not> at_overWait a"
    using Suc.prems(2)[of 0] by (auto simp: as isl_def) (metis prod.collapse)
  have "\<exists>dev l4. interview_attempts env i as' s l2 = (interview_save env i dev s, l4)
     \<and> set (map ep_ID (dev_Endpoints dev)) \<subseteq> set eps \<and> ep_queries l4 = ep_queries l2 + Suc n"
  proof (rule Suc.IH)
    show "isl (fst (ActiveEndpoints (dev_ShortAddress d) (ep_tries (dev_ShortAddress d) j l2))) \<and> \<not> at_overEP (as' ! j) \<and> \<not> at_overWait (as' ! j)"
      if "j < n" for j using Suc.prems(2)[of "Suc j"] that q by (simp add: as)
  qed (use Suc.prems q as in simp_all)
  then show ?case using attempt_fails[OF q, of env a "as' = []"] o queries_ActiveEndpoints[OF q] ne by (auto simp: as assms(1))
qed

lemma attempts_unanswered:
  assumes "GetDevice i (dm_store s) = Inr d"
    "\<And>j. j < length as \<Longrightarrow> isl (fst (ActiveEndpoints (dev_ShortAddress d) (ep_tries (dev_ShortAddress d) j l)))"
  shows "fst (interview_attempts env i as s l) = s
     \<and> ((\<forall>j. Suc j < length as \<longrightarrow> \<not> at_overEP (as ! j) \<and> \<not> at_overWait (as ! j)) \<longrightarrow>
          ep_queries (snd (interview_attempts env i as s l)) = ep_queries l + length as)"
  using assms(2)
proof (induction as arbitrary: l)
  case (Cons a as)
  obtain e l2 where q: "ActiveEndpoints (dev_ShortAddress d) l = (Inl e, l2)"
    using Cons.prems[of 0] by (auto simp: isl_def) (metis prod.collapse)
  have IH: "fst (interview_attempts env i as s l2) = s
     \<and> ((\<forall>j. Suc j < length as \<longrightarrow> \<not> at_overEP (as ! j) \<and> \<not> at_overWait (as ! j)) \<longrightarrow>
          ep_queries (snd (interview_attempts env i as s l2)) = ep_queries l2 + length as)"
    using Cons.prems[of "Suc _"] q by (intro Cons.IH) simp
  note f = attempt_fails[OF q, of env a "as = []"]
  have "\<not> at_overEP a \<and> \<not> at_overWait a" if "\<forall>j. Suc j < length (a # as) \<longrightarrow> \<not> at_overEP ((a # as) ! j) \<and> \<not> at_overWait ((a # as) ! j)" "as \<noteq> []"
    using that(1)[rule_format, of 0] that(2) by simp
  moreover have "\<forall>j. Suc j < length as \<longrightarrow> \<not> at_overEP (as ! j) \<and> \<not> at_overWait (as ! j)"
    if "\<forall>j. Suc j < length (a # as) \<longrightarrow> \<not> at_overEP ((a # as) ! j) \<and> \<not> at_overWait ((a # as) ! j)"
    using that[rule_format, of "Suc _"] by simp
  ultimately show ?case using IH f queries_ActiveEndpoints[OF q] by (cases "as = []") (auto simp: assms(1))
qed simp

lemma run_interview_parts:
  "fst (run_interview env i e u m) = interview_end i (fst (interview_begin i u)) (fst (interview_attempts env i (map e [1, 2, 3]) (snd (interview_begin i u)) m))"
  "snd (run_interview env i e u m) = snd (interview_attempts env i (map e [1, 2, 3]) (snd (interview_begin i u)) m)"
  by (simp_all add: run_interview_def Let_def split: prod.split del: interview_attempts.simps list.map)

lemma interview_ends_store [simp]: "dm_store (snd (interview_begin i s)) = dm_store s" "dm_store (interview_end i g u) = dm_store u"
  by (auto simp: interview_begin_def interview_end_def Let_def split: option.splits)

lemma interview_bounded:
  "dm_interviewCancels (fst (run_interview env i e u m)) i = None \<and> ep_queries (snd (run_interview env i e u m)) \<le> ep_queries m + 3"
  using attempts_cancels[of env i "map e [1, 2, 3]" "snd (interview_begin i u)" m]
    attempts_bound[of env i "map e [1, 2, 3]" "snd (interview_begin i u)" m]
  unfolding run_interview_parts
  by (auto simp: interview_end_def interview_begin_def Let_def simp del: interview_attempts.simps list.map split: prod.split option.split)

lemma interview_unanswered:
  assumes "GetDevice i (dm_store s) = Inr d"
    "\<forall>j \<in> {1, 2, 3}. isl (fst (ActiveEndpoints (dev_ShortAddress d) (ep_tries (dev_ShortAddress d) (j - 1) m)))"
  shows "dm_store (fst (run_interview env i e s m)) = dm_store s
     \<and> ((\<forall>j \<in> {1, 2}. \<not> at_overEP (e j) \<and> \<not> at_overWait (e j)) \<longrightarrow> ep_queries (snd (run_interview env i e s m)) = ep_queries m + 3)"
proof -
  let ?s1 = "snd (interview_begin i s)"
  have t: "isl (fst (ActiveEndpoints (dev_ShortAddress d) (ep_tries (dev_ShortAddress d) j m)))" if "j < length (map e [1, 2, 3])" for j
    using that assms(2)[rule_format, of "Suc j"] by (auto simp: less_Suc_eq numeral_3_eq_3 numeral_2_eq_2)
  have c: "\<forall>j. Suc j < length (map e [1, 2, 3]) \<longrightarrow> \<not> at_overEP (map e [1, 2, 3] ! j) \<and> \<not> at_overWait (map e [1, 2, 3] ! j)"
    if "\<forall>j \<in> {1, 2}. \<not> at_overEP (e j) \<and> \<not> at_overWait (e j)"
    using that by (auto simp: less_Suc_eq numeral_3_eq_3 numeral_2_eq_2)
  have "GetDevice i (dm_store ?s1) = Inr d" using assms(1) by simp
  then have "fst (interview_attempts env i (map e [1, 2, 3]) ?s1 m) = ?s1
      \<and> ((\<forall>j. Suc j < length (map e [1, 2, 3]) \<longrightarrow> \<not> at_overEP (map e [1, 2, 3] ! j) \<and> \<not> at_overWait (map e [1, 2, 3] ! j)) \<longrightarrow>
           ep_queries (snd (interview_attempts env i (map e [1, 2, 3]) ?s1 m)) = ep_queries m + length (map e [1, 2, 3]))"
    using t by (rule attempts_unanswered)
  then show ?thesis using c unfolding run_interview_parts length_map by (simp del: list.map interview_attempts.simps)
qed

text \<open>
  C31: an interview completes with the first of its three attempts in which the device answers. When the requests for the active
  endpoints of the attempts before the \<open>k\<close>-th fail (\<open>k\<close> from 1 to 3) and that of the \<open>k\<close>-th gets endpoints, and the context does not end,
  then the device is marked as interviewed, with endpoints that are among those it announced, it keeps the properties and the
  address it has in the store, and \<open>k\<close> requests for the active endpoints were sent. In no case more than three are sent, and the cancellation
  entry is removed, so that a later announce can start another interview. When all three fail, nothing is stored.
\<close>

theorem interview_completes:
  assumes "b_ok (dm_store s)" "GetDevice i (dm_store s) = Inr d"
    "\<And>w. f32_exp w \<noteq> 255 \<Longrightarrow> f64_exp (e_js env w) \<noteq> 2047" "json_device (e_js env) raw = Some d"
    "sh = dev_ShortAddress d" "k \<in> {1, 2, 3}"
    "\<And>j. 1 \<le> j \<Longrightarrow> j < k \<Longrightarrow> isl (fst (ActiveEndpoints sh (ep_tries sh (j - 1) l))) \<and> \<not> at_overEP (envs j) \<and> \<not> at_overWait (envs j)"
    "ActiveEndpoints sh (ep_tries sh (k - 1) l) = (Inr eps, l1)" "\<not> at_overSave (envs k)"
  shows "(\<exists>d2. GetDevice i (dm_store (fst (run_interview env i envs s l))) = Inr d2
       \<and> dev_Interviewed d2 \<and> set (map ep_ID (dev_Endpoints d2)) \<subseteq> set eps
       \<and> dev_Properties d2 = dev_Properties d \<and> dev_ShortAddress d2 = dev_ShortAddress d)
     \<and> ep_queries (snd (run_interview env i envs s l)) = ep_queries l + k
     \<and> (\<forall>envs' s' l'. dm_interviewCancels (fst (run_interview env i envs' s' l')) i = None
          \<and> ep_queries (snd (run_interview env i envs' s' l')) \<le> ep_queries l' + 3)
     \<and> (\<forall>envs' l'. (\<forall>j \<in> {1, 2, 3}. isl (fst (ActiveEndpoints sh (ep_tries sh (j - 1) l')))) \<longrightarrow>
          dm_store (fst (run_interview env i envs' s l')) = dm_store s
          \<and> ((\<forall>j \<in> {1, 2}. \<not> at_overEP (envs' j) \<and> \<not> at_overWait (envs' j)) \<longrightarrow>
               ep_queries (snd (run_interview env i envs' s l')) = ep_queries l' + 3))"
proof -
  let ?s1 = "snd (interview_begin i s)"
  have nth: "j < 3 \<Longrightarrow> map envs [1, 2, 3] ! j = envs (Suc j)" for j
    by (auto simp: less_Suc_eq numeral_3_eq_3 numeral_2_eq_2)
  have g1: "GetDevice i (dm_store ?s1) = Inr d" using assms(2) by simp
  have "\<exists>dev l4. interview_attempts env i (map envs [1, 2, 3]) ?s1 l = (interview_save env i dev ?s1, l4)
     \<and> set (map ep_ID (dev_Endpoints dev)) \<subseteq> set eps \<and> ep_queries l4 = ep_queries l + Suc (k - 1)"
  proof (rule attempts_answered[OF g1])
    show "isl (fst (ActiveEndpoints (dev_ShortAddress d) (ep_tries (dev_ShortAddress d) j l))) \<and> \<not> at_overEP (map envs [1, 2, 3] ! j) \<and> \<not> at_overWait (map envs [1, 2, 3] ! j)"
      if "j < k - 1" for j
    proof -
      have j: "j < 3" "Suc j < k" using that assms(6) by auto
      show ?thesis using assms(7)[of "Suc j"] j(2) unfolding nth[OF j(1)] assms(5)[symmetric] by simp
    qed
    have "k - 1 < 3" "Suc (k - 1) = k" using assms(6) by auto
    then show "\<not> at_overSave (map envs [1, 2, 3] ! (k - 1))" "k - 1 < length (map envs [1, 2, 3])"
      using assms(9) nth[of "k - 1"] by simp_all
  qed (use assms(5,8) in simp)
  then obtain dev l4 where a: "interview_attempts env i (map envs [1, 2, 3]) ?s1 l = (interview_save env i dev ?s1, l4)"
    "set (map ep_ID (dev_Endpoints dev)) \<subseteq> set eps" "ep_queries l4 = ep_queries l + k" using assms(6) by auto
  have n: "json_device (e_js env) d = Some d" using assms(3,4) by (rule json_device_idem)
  obtain d1 d2 where m: "interview_merge dev d = Some d1" "json_device (e_js env) d1 = Some d2"
    "dev_Properties d2 = dev_Properties d" "GetDevice i (dm_store (interview_save env i dev ?s1)) = Inr d2"
    using interview_save_Get[of ?s1 i d env dev] assms(1) g1 n by auto
  have "dev_Interviewed d2 \<and> set (map ep_ID (dev_Endpoints d2)) \<subseteq> set eps \<and> dev_ShortAddress d2 = dev_ShortAddress d"
    using a(2) json_device_fields(1)[OF m(2)] interview_merge_fields[OF m(1)] by (auto simp: static_def)
  then show ?thesis using m(3,4) a(1,3) interview_bounded interview_unanswered[OF assms(2)] assms(5)
    by (auto simp: run_interview_parts simp del: list.map interview_attempts.simps)
qed

definition ok_env :: "nat \<Rightarrow> attempt_env" where
  "ok_env k = \<lparr>at_answer = None, at_fresh = Inl ErrNotFound, at_overEP = False, at_overWait = False, at_overSave = False\<rparr>"

theorem interview_completes_witness:
  "\<exists>d2 l'. GetDevice (hexstr (replicate 8 1)) (dm_store (fst (run_interview demo_env (hexstr (replicate 8 1)) ok_env (demo_dm 7)
        (demo_link [None, None, Some (demo_frame 0 0 [1, 1])])))) = Inr d2 \<and> dev_Interviewed d2 \<and> dev_ShortAddress d2 = 0
     \<and> l' = snd (run_interview demo_env (hexstr (replicate 8 1)) ok_env (demo_dm 7) (demo_link [None, None, Some (demo_frame 0 0 [1, 1])]))
     \<and> ep_queries l' = 3"
proof -
  let ?l = "demo_link [None, None, Some (demo_frame 0 0 [1, 1])]"
  have f: "f64_exp (e_js demo_env w) \<noteq> 2047" for w by (simp add: demo_env_def f64_exp_def)
  have a: "\<exists>l1. ActiveEndpoints 0 (ep_tries 0 2 ?l) = (Inr [1], l1)"
    "isl (fst (ActiveEndpoints 0 (ep_tries 0 0 ?l)))" "isl (fst (ActiveEndpoints 0 (ep_tries 0 1 ?l)))"
    by (simp_all add: numeral_2_eq_2 ActiveEndpoints_def andThen_def must_def request_def outcome_of_def demo_link_def demo_frame_def parse_active_eps_def)
  obtain l1 where a1: "ActiveEndpoints 0 (ep_tries 0 (3 - 1) ?l) = (Inr [1], l1)" using a(1) by auto
  have q: "ep_queries ?l = 0" by (simp add: ep_queries_def demo_link_def)
  have fails: "isl (fst (ActiveEndpoints 0 (ep_tries 0 (j - 1) ?l))) \<and> \<not> at_overEP (ok_env j) \<and> \<not> at_overWait (ok_env j)"
    if "1 \<le> j" "j < 3" for j
  proof -
    have "j = 1 \<or> j = 2" using that by linarith
    then show ?thesis using a(2,3) by (auto simp: ok_env_def)
  qed
  have sh: "0 = dev_ShortAddress (demo_device\<lparr>dev_LQI := 7\<rparr>)" by (simp add: demo_device_def new_device_def)
  have o: "\<not> at_overSave (ok_env 3)" by (simp add: ok_env_def)
  have "(3 :: nat) \<in> {1, 2, 3}" by simp
  from interview_completes[where envs = ok_env and env = demo_env, OF demo_dm_simps(1,2)[of 7] f demo_dm_simps(4)[of 7] sh this fails a1 o]
  show ?thesis using sh q by auto
qed

end
