(* ===== verification/Coordinator.thy ===== *)
theory Coordinator
  imports NCP_Reset Interview_Theorems
begin

text \<open>
  The coordinator: \<^verbatim>\<open>internal/coordinator/coordinator.go\<close>, \<^verbatim>\<open>binding.go\<close> and
  \<^verbatim>\<open>attribute_reader.go\<close>. Starting or resuming the network over the NCP operations and the store, the
  attribute and command operations, and the wiring of the NCP's indications to the device manager.
  \<^verbatim>\<open>IEEE_Address\<close> has the address parsing.
\<close>

section \<open>State\<close>

record Config =
  cf_Channel :: byte
  cf_PanID :: u16
  cf_ExtPanID :: bytes

record NCPConfig =
  nc_Type :: string
  nc_Port :: string
  nc_Baud :: u64

record coord =
  co_n :: ncp
  co_link :: link
  co_dm :: dm
  co_localIEEE :: bytes

text \<open>What the NCP resets and the formations meet during a start.\<close>

record start_env =
  se_wr :: "nat \<Rightarrow> nat \<Rightarrow> bool"   \<comment> \<open>the writes of reset 0 (resuming), 1 (forming) and 2 (factory)\<close>
  se_resume :: "nat \<Rightarrow> reset_env"
  se_reset :: "nat \<Rightarrow> reset_env"
  se_factory :: "nat \<Rightarrow> reset_env"
  se_form :: "(nat \<Rightarrow> bool) \<times> bytes option"
  se_reform :: "(nat \<Rightarrow> bool) \<times> bytes option"

datatype start_fail =
    ResumeReset reset_error | ResumeInit init_error | NcpReset reset_error | NcpInit init_error
  | FactoryResetFailed reset_error | InitAfterFactory init_error | FormFailed form_error | StartNetworkFailed start_error

text \<open>An NCP action on the coordinator's link, and a reset.\<close>

definition on_link :: "('e, 'a) act \<Rightarrow> coord \<Rightarrow> ('e + 'a) \<times> coord" where
  "on_link m c = (let (r, l) = m (co_link c) in (r, c\<lparr>co_link := l\<rparr>))"

definition on_reset :: "(ncp \<Rightarrow> link \<Rightarrow> (reset_error + unit) \<times> ncp \<times> link) \<Rightarrow> coord \<Rightarrow> (reset_error + unit) \<times> coord" where
  "on_reset m c = (let (r, n, l) = m (co_n c) (co_link c) in (r, c\<lparr>co_n := n, co_link := l\<rparr>))"

section \<open>Starting the network\<close>

definition canResumeNetwork :: "Config \<Rightarrow> bolt \<Rightarrow> bool" where
  "canResumeNetwork cfg st =
     (case GetNetworkState st of
        Inl e \<Rightarrow> False
      | Inr ns \<Rightarrow> ns_Formed ns \<and> ns_Channel ns = cf_Channel cfg \<and> ns_PanID ns = cf_PanID cfg
                  \<and> ns_ExtPanID ns = hexstr (cf_ExtPanID cfg))"

definition cacheLocalIEEE :: "coord \<Rightarrow> coord" where
  "cacheLocalIEEE c =
     (case on_link GetLocalIEEE c of
        (Inl e, c1) \<Rightarrow> c1
      | (Inr ieee, c1) \<Rightarrow> c1\<lparr>co_localIEEE := ieee\<rparr>)"

definition network_state_of :: "Config \<Rightarrow> NCPInfo \<Rightarrow> NetworkState" where
  "network_state_of cfg info =
     \<lparr>ns_Channel = cf_Channel cfg, ns_PanID = cf_PanID cfg, ns_ExtPanID = hexstr (cf_ExtPanID cfg),
      ns_NetworkKey = (case NetworkKey info of Some k \<Rightarrow> if length k = 16 then hexstr k else [] | None \<Rightarrow> []),
      ns_Formed = True\<rparr>"

definition saveNetworkState :: "Config \<Rightarrow> coord \<Rightarrow> coord" where
  "saveNetworkState cfg c =
     c\<lparr>co_dm := (co_dm c)\<lparr>dm_store := snd (SaveNetworkState (network_state_of cfg (GetNCPInfo (co_link c))) (dm_store (co_dm c)))\<rparr>\<rparr>"

definition emit_started :: "coord \<Rightarrow> coord" where
  "emit_started c = c\<lparr>co_dm := (co_dm c)\<lparr>dm_events := dm_events (co_dm c) @ [\<lparr>ev_Type = EventNetworkState, ev_Data = GStr ''started''\<rparr>]\<rparr>\<rparr>"

text \<open>Forming: \<open>form_network\<close> is what follows a decision against resuming.\<close>

definition form_network :: "Config \<Rightarrow> start_env \<Rightarrow> coord \<Rightarrow> (start_fail + unit) \<times> coord" where
  "form_network cfg env c =
    (let ncfg = \<lparr>cfg_Channel = cf_Channel cfg, cfg_PanID = cf_PanID cfg, cfg_ExtPanID = cf_ExtPanID cfg\<rparr>;
         finish = (\<lambda>c. case on_link StartNetwork c of
             (Inl e, c1) \<Rightarrow> (Inl (StartNetworkFailed e), c1)
           | (Inr u, c1) \<Rightarrow> (Inr (), emit_started (cacheLocalIEEE (saveNetworkState cfg c1))))
     in case on_reset (Reset (se_wr env 1) (se_reset env)) c of
       (Inl e, c1) \<Rightarrow> (Inl (NcpReset e), c1)
     | (Inr u, c1) \<Rightarrow>
       (case on_link Init c1 of
          (Inl e, c2) \<Rightarrow> (Inl (NcpInit e), c2)
        | (Inr u, c2) \<Rightarrow>
          (case on_link (FormNetwork (fst (se_form env)) (snd (se_form env)) ncfg) c2 of
             (Inr u, c3) \<Rightarrow> finish c3
           | (Inl e, c3) \<Rightarrow>
               (case on_reset (FactoryReset (se_wr env 2) (se_factory env)) c3 of
                  (Inl e, c4) \<Rightarrow> (Inl (FactoryResetFailed e), c4)
                | (Inr u, c4) \<Rightarrow>
                  (case on_link Init c4 of
                     (Inl e, c5) \<Rightarrow> (Inl (InitAfterFactory e), c5)
                   | (Inr u, c5) \<Rightarrow>
                     (case on_link (FormNetwork (fst (se_reform env)) (snd (se_reform env)) ncfg) c5 of
                        (Inl e, c6) \<Rightarrow> (Inl (FormFailed e), c6)
                      | (Inr u, c6) \<Rightarrow> finish c6))))))"

definition Start :: "Config \<Rightarrow> start_env \<Rightarrow> coord \<Rightarrow> (start_fail + unit) \<times> coord" where
  "Start cfg env c =
    (if canResumeNetwork cfg (dm_store (co_dm c)) then
       (case on_reset (Reset (se_wr env 0) (se_resume env)) c of
          (Inl e, c1) \<Rightarrow> (Inl (ResumeReset e), c1)
        | (Inr u, c1) \<Rightarrow>
          (case on_link Init c1 of
             (Inl e, c2) \<Rightarrow> (Inl (ResumeInit e), c2)
           | (Inr u, c2) \<Rightarrow>
             (case on_link StartNetwork c2 of
                (Inr u, c3) \<Rightarrow> (Inr (), emit_started (cacheLocalIEEE c3))
              | (Inl e, c3) \<Rightarrow> form_network cfg env c3)))
     else form_network cfg env c)"

definition Stop :: "string list \<Rightarrow> coord \<Rightarrow> coord" where
  "Stop ieees c = c\<lparr>co_dm := CancelAllInterviews ieees (co_dm c)\<rparr>"

definition Coord_PermitJoin :: "byte \<Rightarrow> coord \<Rightarrow> (unit + unit) \<times> coord" where
  "Coord_PermitJoin duration c =
     (case on_link (PermitJoin duration) c of
        (Inl e, c1) \<Rightarrow> (Inl (), c1)
      | (Inr f, c1) \<Rightarrow> (Inr (), c1\<lparr>co_dm := emit EventPermitJoin [(''duration'', GU8 duration)] (co_dm c1)\<rparr>))"

definition Coord_NetworkInfo :: "Config \<Rightarrow> NCPConfig \<Rightarrow> coord \<Rightarrow> gval" where
  "Coord_NetworkInfo cfg nc c =
     GMap [(''channel'', GU8 (cf_Channel cfg)), (''pan_id'', GStr (''0x'' @ hex4 (cf_PanID cfg))),
       (''ext_pan_id'', GStr (hexstr (cf_ExtPanID cfg))), (''ncp_type'', GStr (nc_Type nc)), (''port'', GStr (nc_Port nc)),
       (''baud'', GInt (nc_Baud nc)), (''coordinator_ieee'', GStr (hexstr (co_localIEEE c))),
       (''fw_version'', GU32 (FWVersion (GetNCPInfo (co_link c)))), (''stack_version'', GStr (StackVersion (GetNCPInfo (co_link c)))),
       (''protocol_version'', GU32 (ProtocolVersion (GetNCPInfo (co_link c))))]"

section \<open>Operations on devices\<close>

definition bind_request :: "u16 \<Rightarrow> string \<Rightarrow> byte \<Rightarrow> u16 \<Rightarrow> string \<Rightarrow> byte \<Rightarrow> ieee_error + BindRequest" where
  "bind_request target srcIEEE srcEP cluster dstIEEE dstEP =
     (case ParseIEEE srcIEEE of
        Inl e \<Rightarrow> Inl e
      | Inr src \<Rightarrow>
          (case ParseIEEE dstIEEE of
             Inl e \<Rightarrow> Inl e
           | Inr dst \<Rightarrow> Inr \<lparr>br_TargetShortAddr = target, br_SrcIEEE = src, br_SrcEP = srcEP, br_ClusterID = cluster,
                           br_DstIEEE = dst, br_DstEP = dstEP\<rparr>))"

datatype bind_error = BindAddress ieee_error | BindFailed

definition bind_with :: "(BindRequest \<Rightarrow> (unit, zbossFrame) act) \<Rightarrow> ieee_error + BindRequest \<Rightarrow> coord \<Rightarrow> (bind_error + unit) \<times> coord" where
  "bind_with op r c =
     (case r of
        Inl e \<Rightarrow> (Inl (BindAddress e), c)
      | Inr b \<Rightarrow> (case on_link (op b) c of (Inl e, c1) \<Rightarrow> (Inl BindFailed, c1) | (Inr f, c1) \<Rightarrow> (Inr (), c1)))"

definition Coord_Bind :: "u16 \<Rightarrow> string \<Rightarrow> byte \<Rightarrow> u16 \<Rightarrow> string \<Rightarrow> byte \<Rightarrow> coord \<Rightarrow> (bind_error + unit) \<times> coord" where
  "Coord_Bind target srcIEEE srcEP cluster dstIEEE dstEP c =
     bind_with Bind (bind_request target srcIEEE srcEP cluster dstIEEE dstEP) c"

definition Coord_Unbind :: "u16 \<Rightarrow> string \<Rightarrow> byte \<Rightarrow> u16 \<Rightarrow> string \<Rightarrow> byte \<Rightarrow> coord \<Rightarrow> (bind_error + unit) \<times> coord" where
  "Coord_Unbind target srcIEEE srcEP cluster dstIEEE dstEP c =
     bind_with Unbind (bind_request target srcIEEE srcEP cluster dstIEEE dstEP) c"

datatype attr_outcome = AttrValue gval | AttrNone | AttrStatus byte | AttrDecode zcl_error

record AttributeResult =
  res_AttrID :: u16
  res_AttrName :: string
  res_TypeID :: byte
  res_TypeName :: string
  res_Status :: byte
  res_Outcome :: attr_outcome

text \<open>The value or error of a result: \<^verbatim>\<open>Value\<close> and \<^verbatim>\<open>Error\<close> are never both set.\<close>

definition attribute_result :: "registry \<Rightarrow> u16 \<Rightarrow> AttributeResponse \<Rightarrow> AttributeResult" where
  "attribute_result reg cid r =
     (let name = (case Registry_Get reg cid of
                    None \<Rightarrow> []
                  | Some cl \<Rightarrow> (case FindAttribute cl (ar_AttrID r) of None \<Rightarrow> [] | Some a \<Rightarrow> ad_Name a))
      in \<lparr>res_AttrID = ar_AttrID r, res_AttrName = (if name = [] then ''0x'' @ hex4 (ar_AttrID r) else name),
          res_TypeID = ar_DataType r, res_TypeName = TypeName (ar_DataType r), res_Status = ar_Status r,
          res_Outcome = (if ar_Status r \<noteq> 0 then AttrStatus (ar_Status r)
                         else if ar_Value r \<noteq> [] then
                           (case DecodeValue (ar_DataType r) (ar_Value r) of Inl e \<Rightarrow> AttrDecode e | Inr (v, n) \<Rightarrow> AttrValue v)
                         else AttrNone)\<rparr>)"

definition Coord_ReadAttributes ::
  "registry \<Rightarrow> bytes option \<Rightarrow> u16 \<Rightarrow> byte \<Rightarrow> u16 \<Rightarrow> u16 list \<Rightarrow> coord \<Rightarrow> (unit + AttributeResult list) \<times> coord" where
  "Coord_ReadAttributes reg answer short ep cid ids c =
     (case on_link (ReadAttributes answer short ep cid ids) c of
        (Inl e, c1) \<Rightarrow> (Inl e, c1)
      | (Inr rs, c1) \<Rightarrow> (Inr (map (attribute_result reg cid) rs), c1))"

datatype write_error = WriteEncode zcl_error | WriteFailed

definition WriteAttribute :: "go_fp \<Rightarrow> u16 \<Rightarrow> byte \<Rightarrow> u16 \<Rightarrow> u16 \<Rightarrow> byte \<Rightarrow> gval \<Rightarrow> coord \<Rightarrow> (write_error + unit) \<times> coord" where
  "WriteAttribute fp short ep cid aid dataType v c =
     (case EncodeValue fp dataType v of
        Inl e \<Rightarrow> (Inl (WriteEncode e), c)
      | Inr bs \<Rightarrow>
          (case on_link (WriteAttributes short ep cid [\<lparr>rec_AttrID = aid, rec_DataType = dataType, rec_Value = bs\<rparr>]) c of
             (Inl e, c1) \<Rightarrow> (Inl WriteFailed, c1)
           | (Inr f, c1) \<Rightarrow> (Inr (), c1)))"

definition SendClusterCommand :: "u16 \<Rightarrow> byte \<Rightarrow> u16 \<Rightarrow> byte \<Rightarrow> bytes \<Rightarrow> coord \<Rightarrow> (unit + zbossFrame) \<times> coord" where
  "SendClusterCommand short ep cid cmd payload c = on_link (SendCommand short ep cid cmd payload) c"

definition Coord_ConfigureReporting ::
  "u16 \<Rightarrow> byte \<Rightarrow> u16 \<Rightarrow> u16 \<Rightarrow> byte \<Rightarrow> u16 \<Rightarrow> u16 \<Rightarrow> bytes \<Rightarrow> coord \<Rightarrow> (unit + zbossFrame) \<times> coord" where
  "Coord_ConfigureReporting short ep cid aid dataType mn mx change c =
     on_link (ConfigureReporting short ep cid aid dataType mn mx change) c"

section \<open>Indications\<close>

text \<open>Every handler but that of NCP resets is set, and leads to the device manager.\<close>

definition registerIndicationHandlers :: "ncp \<Rightarrow> ncp" where
  "registerIndicationHandlers n =
     setNwkAddrUpdate True (OnClusterCommand True (OnAttributeReport True
       (OnDeviceAnnounce True (OnDeviceLeft True (OnDeviceJoined True n)))))"

text \<open>
  So the driver reports everything but resets: the flag \<open>n_resetInd\<close> that the reset of the driver itself waits for is the
  only trace of a reset that the NCP makes on its own.
\<close>

lemma registered_handlers:
  "n_handlers (registerIndicationHandlers n) =
     \<lparr>h_onJoined = True, h_onLeft = True, h_onAnnounce = True, h_onReport = True, h_onClusterCmd = True,
      h_onNwkAddrUpdate = True, h_onReset = h_onReset (n_handlers n)\<rparr>"
  by (cases "n_handlers n") (simp add: registerIndicationHandlers_def setNwkAddrUpdate_def OnClusterCommand_def OnAttributeReport_def
    OnDeviceAnnounce_def OnDeviceLeft_def OnDeviceJoined_def)

definition New :: "ncp \<Rightarrow> link \<Rightarrow> bolt \<Rightarrow> coord" where
  "New backend l st = \<lparr>co_n = registerIndicationHandlers backend, co_link = l, co_dm = RebuildAddrIndex (NewDeviceManager st),
     co_localIEEE = replicate 8 0\<rparr>"

definition dispatch :: "dm_env \<Rightarrow> int \<Rightarrow> u16 list \<Rightarrow> effect \<Rightarrow> dm \<Rightarrow> dm" where
  "dispatch env now order e s =
     (case e of
        OnJoined short ieee \<Rightarrow> HandleJoin env now short ieee s
      | OnLeft short ieee \<Rightarrow> HandleLeave order ieee s
      | OnAnnounce short ieee cap \<Rightarrow> HandleAnnounce env now short ieee s
      | OnReport evt \<Rightarrow> HandleAttributeReport env now evt s
      | OnClusterCmd evt \<Rightarrow> HandleClusterCommand env now evt s
      | OnNwkAddrUpdate a \<Rightarrow> RebuildAddrIndex s
      | OnReset \<Rightarrow> s
      | GoOTANoImage a ep sq \<Rightarrow> s)"

section \<open>A network is not formed twice\<close>

abbreviation sent :: "coord \<Rightarrow> u16 list" where
  "sent c \<equiv> cmds (co_link c)"

lemma on_link_simps [simp]:
  "co_dm (snd (on_link m c)) = co_dm c" "co_localIEEE (snd (on_link m c)) = co_localIEEE c" "co_n (snd (on_link m c)) = co_n c"
  by (simp_all add: on_link_def split: prod.split)

lemma on_link_eq: "on_link m c = (r, c') \<Longrightarrow> m (co_link c) = (r, co_link c') \<and> co_dm c' = co_dm c"
  by (auto simp: on_link_def split: prod.splits)

lemma on_reset_eq: "on_reset m c = (r, c') \<Longrightarrow> m (co_n c) (co_link c) = (r, co_n c', co_link c') \<and> co_dm c' = co_dm c"
  by (auto simp: on_reset_def split: prod.splits)

lemma reset_sent:
  assumes "on_reset (Reset wr env) c = (r, c')"
  shows "set (sent c') \<subseteq> insert zbossCmdGetModuleVersion (set (sent c))"
proof -
  have "Reset wr env (co_n c) (co_link c) = (r, co_n c', co_link c')" using on_reset_eq[OF assms] by simp
  from reconnect_spec[OF this[unfolded Reset_def resetAndReconnect_def]]
  obtain k where "sent c' = sent c @ replicate k zbossCmdGetModuleVersion" by auto
  then show ?thesis by (cases k) (auto simp: set_replicate_conv_if)
qed

lemma sends_policies: "sends (set_policies ps) {replicate (length ps) zbossCmdSetTCPolicy}"
proof (induction ps)
  case Nil
  show ?case by (rule sendsI) (auto simp: ret_def)
next
  case (Cons p ps)
  have "sends (set_policies (p # ps)) {cs @ ds | cs ds. cs \<in> {[zbossCmdSetTCPolicy]} \<and> ds \<in> {replicate (length ps) zbossCmdSetTCPolicy}}"
    unfolding set_policies.simps setTCPolicy_def by (rule sends_andThen) (auto intro: sends_must Cons)
  then show ?case by (rule sends_mono) auto
qed

lemma sends_store_info: "sends (store_info p) {[]}"
  by (rule sendsI) (auto simp: store_info_def split: option.split)

lemma sends_Init: "sends Init {zbossCmdGetModuleVersion # replicate 6 zbossCmdSetTCPolicy}"
  unfolding Init_def
  by (rule sends_mono, (rule sends_andThen sends_must sends_store_info sends_policies)+) (auto simp: tcPolicies_def eval_nat_numeral)

lemma sends_ret: "sends (ret x) {[]}"
  by (rule sendsI) (auto simp: ret_def)

lemma sends_Start: "sends StartNetwork {[zbossCmdNwkStartWithoutForm, zbossCmdAFSetSimpleDesc]}"
  unfolding StartNetwork_def by (rule sends_mono, (rule sends_andThen sends_must sends_ret)+) auto

lemma sends_Local: "sends GetLocalIEEE {[zbossCmdGetLocalIEEE]}"
  unfolding GetLocalIEEE_def by (rule sends_mono, (rule sends_andThen sends_must sends_ret)+) auto

lemma on_link_sent:
  assumes "sends m S" "on_link m c = (r, c')"
  shows "\<exists>cs \<in> S. set (sent c') \<subseteq> set (sent c) \<union> set cs"
proof -
  obtain cs k where "cs \<in> S" "sent c' = sent c @ take k cs"
    using assms on_link_eq[OF assms(2)] unfolding sends_def by blast
  then show ?thesis using set_take_subset[of k cs] by (intro bexI[of _ cs]) auto
qed

lemma cache_sent: "set (sent (cacheLocalIEEE c)) \<subseteq> insert zbossCmdGetLocalIEEE (set (sent c)) \<and> co_dm (cacheLocalIEEE c) = co_dm c"
proof -
  obtain r c1 where o: "on_link GetLocalIEEE c = (r, c1)" by (metis prod.collapse)
  then show ?thesis using on_link_sent[OF sends_Local o] on_link_eq[OF o] by (auto simp: cacheLocalIEEE_def split: sum.split)
qed

text \<open>
  C10: a network that can be resumed is not formed again. When the store says that a network with the configured channel, PAN
  id and extended PAN id was formed, and the NCP answers the reset, the initialisation and the start, then starting the
  coordinator sends no formation command and no network key: paired devices keep their network; and the stored
  network state stays as it is.
\<close>

theorem resume_does_not_form:
  assumes "canResumeNetwork cfg (dm_store (co_dm c))" "on_reset (Reset (se_wr env 0) (se_resume env)) c = (Inr (), c1)"
    "on_link Init c1 = (Inr (), c2)" "on_link StartNetwork c2 = (Inr (), c3)" "Start cfg env c = (r, c')"
  shows "r = Inr () \<and> set (sent c') \<subseteq> set (sent c) \<union> {zbossCmdGetModuleVersion, zbossCmdSetTCPolicy, zbossCmdNwkStartWithoutForm,
        zbossCmdAFSetSimpleDesc, zbossCmdGetLocalIEEE}
     \<and> dm_store (co_dm c') = dm_store (co_dm c)
     \<and> (zbossCmdNwkFormation \<in> set (sent c') \<longrightarrow> zbossCmdNwkFormation \<in> set (sent c))
     \<and> (zbossCmdSetNwkKey \<in> set (sent c') \<longrightarrow> zbossCmdSetNwkKey \<in> set (sent c))"
proof -
  have c': "r = Inr ()" "c' = emit_started (cacheLocalIEEE c3)" using assms by (simp_all add: Start_def)
  have "dm_store (co_dm c') = dm_store (co_dm c)"
    using cache_sent[of c3] on_link_eq[OF assms(4)] on_link_eq[OF assms(3)] on_reset_eq[OF assms(2)] by (simp add: c' emit_started_def)
  moreover have s: "set (sent c') \<subseteq> set (sent c) \<union> {zbossCmdGetModuleVersion, zbossCmdSetTCPolicy, zbossCmdNwkStartWithoutForm,
      zbossCmdAFSetSimpleDesc, zbossCmdGetLocalIEEE}"
    using cache_sent[of c3] on_link_sent[OF sends_Start assms(4)] on_link_sent[OF sends_Init assms(3)] reset_sent[OF assms(2)]
    by (simp add: c' emit_started_def) blast
  ultimately show ?thesis using c'(1) by auto
qed

definition demo_config :: Config where
  "demo_config = \<lparr>cf_Channel = 15, cf_PanID = 0x1A62, cf_ExtPanID = replicate 8 0xDD\<rparr>"

definition demo_formed :: NetworkState where
  "demo_formed = \<lparr>ns_Channel = 15, ns_PanID = 0x1A62, ns_ExtPanID = hexstr (replicate 8 0xDD), ns_NetworkKey = [], ns_Formed = True\<rparr>"

definition demo_coord :: "NetworkState option \<Rightarrow> zbossFrame option list \<Rightarrow> coord" where
  "demo_coord ns rs = New (new_ncp all_handlers) (demo_link rs) \<lparr>b_ok = True, b_devices = [], b_network = ns\<rparr>"

definition demo_reset :: "nat \<Rightarrow> reset_env" where
  "demo_reset k = \<lparr>rs_cancelled = False, rs_open = True, rs_wr = (\<lambda>_. True), rs_evs = [LLRx 1, LLRecv], rs_readyCancelled = False\<rparr>"

definition demo_start :: start_env where
  "demo_start = \<lparr>se_wr = (\<lambda>_ _. True), se_resume = demo_reset, se_reset = demo_reset, se_factory = demo_reset,
     se_form = ((\<lambda>_. False), Some (replicate 16 7)), se_reform = ((\<lambda>_. False), Some (replicate 16 7))\<rparr>"

lemma demo_reset_runs:
  assumes "l_replies (co_link c) = Some (demo_frame 0 0 p) # rs"
  shows "\<exists>c'. on_reset (Reset wr demo_reset) c = (Inr (), c') \<and> l_replies (co_link c') = rs \<and> co_dm c' = co_dm c"
proof -
  have "[1..<31] = 1 # [2..<31 :: nat]" by (simp add: upt_rec)
  then show ?thesis using assms
    by (simp add: on_reset_def Reset_def resetAndReconnect_def demo_reset_def request_def outcome_of_def demo_frame_def Let_def)
qed

lemma demo_must:
  "l_replies l = Some (demo_frame 0 0 p) # rs \<Longrightarrow>
   must e k pl l = (Inr (demo_frame 0 0 p), l\<lparr>l_replies := rs, l_sent := l_sent l @ [(k, pl)]\<rparr>)"
  by (simp add: must_def request_def outcome_of_def demo_frame_def)

lemma demo_init_runs:
  assumes "l_replies (co_link c) = replicate 7 (Some (demo_frame 0 0 [])) @ rs"
  shows "\<exists>c'. on_link Init c = (Inr (), c') \<and> l_replies (co_link c') = rs \<and> co_dm c' = co_dm c"
proof -
  have "zf_Payload (demo_frame 0 0 []) = []" "module_info [] = None" by (simp_all add: demo_frame_def module_info_def)
  then show ?thesis using assms
    by (simp add: on_link_def Init_def andThen_def demo_must store_info_def tcPolicies_def setTCPolicy_def ret_def
        numeral_eq_Suc del: le_put.simps)
qed

lemma demo_start_runs:
  assumes "l_replies (co_link c) = Some (demo_frame 0 0 []) # Some (demo_frame 0 0 []) # rs"
  shows "\<exists>c'. on_link StartNetwork c = (Inr (), c') \<and> l_replies (co_link c') = rs \<and> co_dm c' = co_dm c"
  using assms by (simp add: on_link_def StartNetwork_def andThen_def demo_must ret_def)

theorem resume_does_not_form_witness:
  "\<exists>c'. Start demo_config demo_start (demo_coord (Some demo_formed) (replicate 11 (Some (demo_frame 0 0 [])))) = (Inr (), c')
     \<and> zbossCmdNwkFormation \<notin> set (sent c') \<and> GetNetworkState (dm_store (co_dm c')) = Inr demo_formed"
proof -
  let ?c = "demo_coord (Some demo_formed) (replicate 11 (Some (demo_frame 0 0 [])))"
  have r: "l_replies (co_link ?c) = Some (demo_frame 0 0 []) # replicate 7 (Some (demo_frame 0 0 [])) @
      [Some (demo_frame 0 0 []), Some (demo_frame 0 0 []), Some (demo_frame 0 0 [])]"
    by (simp add: demo_coord_def New_def demo_link_def eval_nat_numeral)
  have can: "canResumeNetwork demo_config (dm_store (co_dm ?c))"
    by (simp add: canResumeNetwork_def demo_coord_def New_def RebuildAddrIndex_def ListDevices_def NewDeviceManager_def GetNetworkState_def demo_formed_def demo_config_def)
  obtain c1 where c1: "on_reset (Reset (se_wr demo_start 0) (se_resume demo_start)) ?c = (Inr (), c1)"
    "l_replies (co_link c1) = replicate 7 (Some (demo_frame 0 0 [])) @ [Some (demo_frame 0 0 []), Some (demo_frame 0 0 []), Some (demo_frame 0 0 [])]"
    using demo_reset_runs[OF r] by (auto simp: demo_start_def)
  obtain c2 where c2: "on_link Init c1 = (Inr (), c2)"
    "l_replies (co_link c2) = [Some (demo_frame 0 0 []), Some (demo_frame 0 0 []), Some (demo_frame 0 0 [])]"
    using demo_init_runs[OF c1(2)] by auto
  obtain c3 where c3: "on_link StartNetwork c2 = (Inr (), c3)" using demo_start_runs[OF c2(2)] by auto
  obtain out c' where s: "Start demo_config demo_start ?c = (out, c')" by (metis prod.collapse)
  from resume_does_not_form[OF can c1(1) c2(1) c3 s] show ?thesis
    using s by (auto simp: demo_coord_def New_def RebuildAddrIndex_def ListDevices_def demo_link_def NewDeviceManager_def GetNetworkState_def)
qed

section \<open>What a start leaves behind\<close>

lemma form_network_store:
  assumes "form_network cfg env c = (Inr (), c')"
  shows "\<exists>i. dm_store (co_dm c') = snd (SaveNetworkState (network_state_of cfg i) (dm_store (co_dm c)))"
proof -
  have fin: "\<exists>i. dm_store (co_dm c2) = snd (SaveNetworkState (network_state_of cfg i) (dm_store (co_dm c1)))"
    if run: "(case on_link StartNetwork c1 of (Inl e, c) \<Rightarrow> (Inl (StartNetworkFailed e), c)
       | (Inr u, c) \<Rightarrow> (Inr (), emit_started (cacheLocalIEEE (saveNetworkState cfg c)))) = (Inr (), c2)" for c1 c2
  proof -
    obtain c3 where "on_link StartNetwork c1 = (Inr (), c3)" "c2 = emit_started (cacheLocalIEEE (saveNetworkState cfg c3))"
      using run by (auto split: prod.splits sum.splits)
    then show ?thesis using cache_sent[of "saveNetworkState cfg c3"] on_link_eq[of StartNetwork c1 _ c3]
      by (auto simp: emit_started_def saveNetworkState_def)
  qed
  obtain c1 where c1: "on_reset (Reset (se_wr env 1) (se_reset env)) c = (Inr (), c1)" "co_dm c1 = co_dm c"
    using assms by (auto simp: form_network_def Let_def split: prod.splits sum.splits dest: on_reset_eq)
  obtain c2 where c2: "on_link Init c1 = (Inr (), c2)" "co_dm c2 = co_dm c"
    using assms c1 by (auto simp: form_network_def Let_def split: prod.splits sum.splits dest: on_link_eq)
  let ?ncfg = "\<lparr>cfg_Channel = cf_Channel cfg, cfg_PanID = cf_PanID cfg, cfg_ExtPanID = cf_ExtPanID cfg\<rparr>"
  obtain r c3 where c3: "on_link (FormNetwork (fst (se_form env)) (snd (se_form env)) ?ncfg) c2 = (r, c3)" "co_dm c3 = co_dm c"
    using c2(2) by (metis prod.collapse on_link_eq)
  show ?thesis
  proof (cases r)
    case (Inr u)
    then show ?thesis using assms c1 c2 c3 fin[of c3 c'] by (simp add: form_network_def Let_def)
  next
    case (Inl e)
    obtain c4 where c4: "on_reset (FactoryReset (se_wr env 2) (se_factory env)) c3 = (Inr (), c4)" "co_dm c4 = co_dm c"
      using assms c1 c2 c3 Inl by (auto simp: form_network_def Let_def split: prod.splits sum.splits dest: on_reset_eq)
    obtain c5 where c5: "on_link Init c4 = (Inr (), c5)" "co_dm c5 = co_dm c"
      using assms c1 c2 c3 Inl c4 by (auto simp: form_network_def Let_def split: prod.splits sum.splits dest: on_link_eq)
    obtain c6 where c6: "on_link (FormNetwork (fst (se_reform env)) (snd (se_reform env)) ?ncfg) c5 = (Inr (), c6)" "co_dm c6 = co_dm c"
      using assms c1 c2 c3 Inl c4 c5 by (auto simp: form_network_def Let_def split: prod.splits sum.splits dest: on_link_eq)
    show ?thesis using assms c1 c2 c3 Inl c4 c5 c6 fin[of c6 c'] by (simp add: form_network_def Let_def)
  qed
qed

lemma saved_resumable:
  "canResumeNetwork cfg (snd (SaveNetworkState (network_state_of cfg i) st)) \<longleftrightarrow> b_ok st"
  by (auto simp: canResumeNetwork_def SaveNetworkState_def GetNetworkState_def network_state_of_def)

lemma start_resumable:
  assumes "Start cfg env c = (Inr (), c')"
  shows "canResumeNetwork cfg (dm_store (co_dm c')) \<longleftrightarrow> b_ok (dm_store (co_dm c))"
proof (cases "canResumeNetwork cfg (dm_store (co_dm c))")
  case False
  then show ?thesis using assms form_network_store[of cfg env c c'] saved_resumable by (auto simp: Start_def)
next
  case can: True
  then have ok: "b_ok (dm_store (co_dm c))" by (auto simp: canResumeNetwork_def GetNetworkState_def split: if_splits)
  obtain c1 where c1: "on_reset (Reset (se_wr env 0) (se_resume env)) c = (Inr (), c1)" "co_dm c1 = co_dm c"
    using assms can by (auto simp: Start_def split: prod.splits sum.splits dest: on_reset_eq)
  obtain c2 where c2: "on_link Init c1 = (Inr (), c2)" "co_dm c2 = co_dm c"
    using assms can c1 by (auto simp: Start_def split: prod.splits sum.splits dest: on_link_eq)
  obtain r c3 where c3: "on_link StartNetwork c2 = (r, c3)" "co_dm c3 = co_dm c"
    using c2(2) by (metis prod.collapse on_link_eq)
  show ?thesis
  proof (cases r)
    case (Inr u)
    then have "c' = emit_started (cacheLocalIEEE c3)" using assms can c1 c2 c3 by (simp add: Start_def)
    then show ?thesis using can ok c3(2) cache_sent[of c3] by (simp add: emit_started_def)
  next
    case (Inl e)
    then have "form_network cfg env c3 = (Inr (), c')" using assms can c1 c2 c3 by (simp add: Start_def)
    then show ?thesis using form_network_store[of cfg env c3 c'] saved_resumable ok c3(2) by auto
  qed
qed

text \<open>
  C9: every successful start can be resumed, exactly when the store works: whether the network was resumed, formed, or formed
  after a factory reset, and whatever was stored before, the next start with the same configuration will resume the network
  and not form it. If the store failed, the start still succeeds and the next one forms the network anew, with a
  new key.
\<close>

theorem started_is_resumable:
  assumes "Start cfg env c = (Inr (), c')"
  shows "canResumeNetwork cfg (dm_store (co_dm c')) \<longleftrightarrow> b_ok (dm_store (co_dm c))"
  using assms by (rule start_resumable)

lemma demo_form_runs:
  assumes "l_replies (co_link c) = replicate 9 (Some (demo_frame 0 0 [])) @ rs"
  shows "\<exists>c'. on_link (FormNetwork (\<lambda>_. False) (Some k) ncfg) c = (Inr (), c') \<and> l_replies (co_link c') = rs \<and> co_dm c' = co_dm c"
  using assms
  by (simp add: on_link_def FormNetwork_def andThen_def demo_must form_attempts.simps request_def outcome_of_def demo_frame_def
      ignore_def store_key_def ret_def numeral_eq_Suc del: le_put.simps)

lemma demo_starts:
  assumes "l_replies (co_link c) = replicate 20 (Some (demo_frame 0 0 []))" "\<not> canResumeNetwork demo_config (dm_store (co_dm c))"
  shows "\<exists>c'. Start demo_config demo_start c = (Inr (), c')"
proof -
  let ?ok = "Some (demo_frame 0 0 [])"
  have r: "l_replies (co_link c) = ?ok # replicate 7 ?ok @ replicate 9 ?ok @ [?ok, ?ok, ?ok]"
    by (simp add: assms(1) numeral_eq_Suc)
  obtain c1 where c1: "on_reset (Reset (se_wr demo_start 1) (se_reset demo_start)) c = (Inr (), c1)"
    "l_replies (co_link c1) = replicate 7 ?ok @ replicate 9 ?ok @ [?ok, ?ok, ?ok]"
    using demo_reset_runs[OF r] by (auto simp: demo_start_def)
  obtain c2 where c2: "on_link Init c1 = (Inr (), c2)" "l_replies (co_link c2) = replicate 9 ?ok @ [?ok, ?ok, ?ok]"
    using demo_init_runs[OF c1(2)] by auto
  obtain c3 where c3: "on_link (FormNetwork (fst (se_form demo_start)) (snd (se_form demo_start))
      \<lparr>cfg_Channel = cf_Channel demo_config, cfg_PanID = cf_PanID demo_config, cfg_ExtPanID = cf_ExtPanID demo_config\<rparr>) c2 = (Inr (), c3)"
    "l_replies (co_link c3) = [?ok, ?ok, ?ok]"
    using demo_form_runs[OF c2(2)] by (auto simp: demo_start_def)
  obtain c4 where c4: "on_link StartNetwork c3 = (Inr (), c4)" using demo_start_runs[OF c3(2)] by auto
  show ?thesis using assms(2) c1 c2 c3 c4 by (simp add: Start_def form_network_def Let_def)
qed

theorem started_is_resumable_witness:
  "\<exists>c'. Start demo_config demo_start (demo_coord None (replicate 20 (Some (demo_frame 0 0 [])))) = (Inr (), c')
     \<and> canResumeNetwork demo_config (dm_store (co_dm c'))"
proof -
  let ?c = "demo_coord None (replicate 20 (Some (demo_frame 0 0 [])))"
  have r: "l_replies (co_link ?c) = replicate 20 (Some (demo_frame 0 0 []))" by (simp add: demo_coord_def New_def demo_link_def)
  have can: "\<not> canResumeNetwork demo_config (dm_store (co_dm ?c))" "b_ok (dm_store (co_dm ?c))"
    by (simp_all add: canResumeNetwork_def demo_coord_def New_def RebuildAddrIndex_def ListDevices_def NewDeviceManager_def GetNetworkState_def)
  show ?thesis using demo_starts[OF r can(1)] started_is_resumable can(2) by blast
qed

end
