(* ===== verification/MQTT_Bridge.thy ===== *)
theory MQTT_Bridge
  imports MQTT_Discovery Coordinator
begin

text \<open>
  The MQTT bridge: \<^verbatim>\<open>internal/mqtt/bridge.go\<close>. The bridge reads devices from the store (a snapshot is an argument)
  and sends commands through the coordinator. What it publishes and subscribes to is recorded in order; that the
  broker delivers it is outside. Contexts of delayed discoveries are named by their generation. The MQTT client is a
  third-party package: it calls the connect handler once the broker has accepted the connection, at any time,
  and goes on trying after a first attempt has timed out (\<^verbatim>\<open>SetConnectRetry\<close>).
\<close>

section \<open>State\<close>

record bridge =
  br_client :: bool                                        \<comment> \<open>the client is assigned\<close>
  br_prefix :: string
  br_eventCh :: "Event list"
  br_states :: "string \<rightharpoonup> (string \<times> gval) list"
  br_topicNames :: "string \<rightharpoonup> string"
  br_pendingDiscovery :: "string \<rightharpoonup> u64"
  br_discoveryGen :: "string \<rightharpoonup> u64"
  br_nextDiscGen :: u64
  br_cancelled :: "u64 list"                               \<comment> \<open>contexts of discoveries that are cancelled\<close>
  br_stopped :: bool                                       \<comment> \<open>the bridge's context is cancelled, and with it all of them\<close>
  br_launched :: "Event list"                              \<comment> \<open>delayed discoveries started with \<^verbatim>\<open>go\<close>\<close>
  br_out :: "(string \<times> payload \<times> bool) list"               \<comment> \<open>topic, payload, retained\<close>
  br_subs :: "(string \<times> string) list"                      \<comment> \<open>topic, address in the callback\<close>

record mqtt_env =
  me_js :: js32
  me_fp :: go_fp
  me_rfc3339 :: "int \<Rightarrow> string"   \<comment> \<open>\<^verbatim>\<open>Format(time.RFC3339)\<close>, which depends on the time zone\<close>

datatype connect_outcome = ConnOk | ConnTimeout | ConnFailed
datatype bridge_error = ErrConnectTimeout | ErrConnect

definition new_bridge :: "string \<Rightarrow> bridge" where
  "new_bridge px = \<lparr>br_client = False, br_prefix = px, br_eventCh = [], br_states = Map.empty, br_topicNames = Map.empty,
     br_pendingDiscovery = Map.empty, br_discoveryGen = Map.empty, br_nextDiscGen = 0, br_cancelled = [], br_stopped = False, br_launched = [],
     br_out = [], br_subs = []\<rparr>"

definition NewBridge :: "string \<Rightarrow> connect_outcome \<Rightarrow> (bridge_error + unit) \<times> bridge" where
  "NewBridge px out =
     (case out of
        ConnTimeout \<Rightarrow> (Inl ErrConnectTimeout, new_bridge px)
      | ConnFailed \<Rightarrow> (Inl ErrConnect, new_bridge px)
      | ConnOk \<Rightarrow> (Inr (), (new_bridge px)\<lparr>br_client := True\<rparr>))"

section \<open>Values\<close>

text \<open>\<^verbatim>\<open>data[k].(string)\<close> and its likes, with the zero value when the assertion fails.\<close>

definition str_of :: "(string \<times> gval) list \<Rightarrow> string \<Rightarrow> string" where
  "str_of kvs k = (case map_of kvs k of Some (GStr s) \<Rightarrow> s | _ \<Rightarrow> [])"

definition u16_of :: "(string \<times> gval) list \<Rightarrow> string \<Rightarrow> u16" where
  "u16_of kvs k = (case map_of kvs k of Some (GU16 w) \<Rightarrow> w | _ \<Rightarrow> 0)"

definition val_of :: "(string \<times> gval) list \<Rightarrow> string \<Rightarrow> gval" where
  "val_of kvs k = (case map_of kvs k of Some v \<Rightarrow> v | None \<Rightarrow> GNil)"

definition mapAttributeToProperty :: "u16 \<Rightarrow> string \<Rightarrow> string" where
  "mapAttributeToProperty clusterID attrName =
     (if clusterID = 0x0006 \<and> attrName \<in> {''OnOff'', ''on_off''} then ''state''
      else if clusterID = 0x0008 \<and> attrName \<in> {''CurrentLevel'', ''current_level''} then ''brightness''
      else if clusterID = 0x0402 \<and> attrName \<in> {''MeasuredValue'', ''measured_value''} then ''temperature''
      else if clusterID = 0x0405 \<and> attrName \<in> {''MeasuredValue'', ''measured_value''} then ''humidity''
      else if clusterID = 0x0403 \<and> attrName \<in> {''MeasuredValue'', ''measured_value''} then ''pressure''
      else if clusterID = 0x0400 \<and> attrName \<in> {''MeasuredValue'', ''measured_value''} then ''illuminance''
      else if clusterID = 0x0406 \<and> attrName \<in> {''Occupancy'', ''occupancy''} then ''occupancy''
      else if clusterID = 0x0500 \<and> attrName \<in> {''ZoneStatus'', ''zone_status''} then ''zone_status''
      else if clusterID = 0x0001 \<and> attrName \<in> {''BatteryPercentageRemaining'', ''battery_percentage_remaining''} then ''battery''
      else [])"

fun toBool :: "gval \<Rightarrow> bool" where
  "toBool (GBool b) = b"
| "toBool (GU8 n) = (n \<noteq> 0)"
| "toBool (GU16 n) = (n \<noteq> 0)"
| "toBool (GU32 n) = (n \<noteq> 0)"
| "toBool (GInt n) = (n \<noteq> 0)"
| "toBool (GI64 n) = (n \<noteq> 0)"
| "toBool (GF64 n) = (\<not> f64_is_zero n)"
| "toBool _ = False"

fun toFloat64 :: "go_fp \<Rightarrow> gval \<Rightarrow> u64 option" where
  "toFloat64 fp (GF64 n) = Some n"
| "toFloat64 fp (GF32 n) = Some (f32_to_f64 fp n)"
| "toFloat64 fp (GInt n) = Some (f64_of_int (sint n))"
| "toFloat64 fp (GI64 n) = Some (f64_of_int (sint n))"
| "toFloat64 fp (GU8 n) = Some (f64_of_int (uint n))"
| "toFloat64 fp (GU16 n) = Some (f64_of_int (uint n))"
| "toFloat64 fp _ = None"

section \<open>Publishing\<close>

definition publish :: "string \<Rightarrow> payload \<Rightarrow> bool \<Rightarrow> bridge \<Rightarrow> bridge" where
  "publish topic p retained b = b\<lparr>br_out := br_out b @ [(topic, p, retained)]\<rparr>"

definition cachedTopicName :: "bolt \<Rightarrow> string \<Rightarrow> bridge \<Rightarrow> string \<times> bridge" where
  "cachedTopicName st ieee b =
     (case br_topicNames b ieee of
        Some name \<Rightarrow> (name, b)
      | None \<Rightarrow>
          (case GetDevice ieee st of
             Inl e \<Rightarrow> (ieee, b)
           | Inr dev \<Rightarrow> (deviceTopicName dev, b\<lparr>br_topicNames := (br_topicNames b)(ieee \<mapsto> deviceTopicName dev)\<rparr>)))"

text \<open>The accumulated properties of a device.\<close>

definition br_state :: "string \<Rightarrow> bridge \<Rightarrow> (string \<times> gval) list" where
  "br_state ieee b = (case br_states b ieee of Some m \<Rightarrow> m | None \<Rightarrow> [])"

definition updateState :: "mqtt_env \<Rightarrow> bolt \<Rightarrow> string \<Rightarrow> string \<Rightarrow> gval \<Rightarrow> (string \<times> gval) list \<Rightarrow> (string \<times> gval) list" where
  "updateState env st ieee prop v m =
     (let m1 = AList.update prop v m in
      case GetDevice ieee st of
        Inl e \<Rightarrow> m1
      | Inr dev \<Rightarrow> AList.update ''last_seen'' (GStr (me_rfc3339 env (dev_LastSeen dev))) (AList.update ''linkquality'' (GU8 (dev_LQI dev)) m1))"

definition updateAndPublishState :: "mqtt_env \<Rightarrow> bolt \<Rightarrow> string \<Rightarrow> string \<Rightarrow> gval \<Rightarrow> bridge \<Rightarrow> bridge" where
  "updateAndPublishState env st ieee prop v b =
     (let m = updateState env st ieee prop v (br_state ieee b);
          b1 = b\<lparr>br_states := (br_states b)(ieee \<mapsto> m)\<rparr>;
          (name, b2) = cachedTopicName st ieee b1
      in publish (br_prefix b2 @ ''/'' @ name) (mustJSON (me_js env) (GMap m)) True b2)"

definition publishBridgeState :: "string \<Rightarrow> bridge \<Rightarrow> bridge" where
  "publishBridgeState state b = publish (br_prefix b @ ''/bridge/state'') (Text state) True b"

definition publish_all :: "discoveryMsg list \<Rightarrow> bridge \<Rightarrow> bridge" where
  "publish_all ms b = fold (\<lambda>m. publish (msg_Topic m) (msg_Payload m) True) ms b"

definition publishDeviceDiscovery :: "mqtt_env \<Rightarrow> Device \<Rightarrow> bridge \<Rightarrow> bridge" where
  "publishDeviceDiscovery env dev b = publish_all (buildDiscovery (me_js env) dev (br_prefix b)) b"

definition cache_topic :: "Device \<Rightarrow> bridge \<Rightarrow> bridge" where
  "cache_topic dev b = b\<lparr>br_topicNames := (br_topicNames b)(dev_IEEEAddress dev \<mapsto> deviceTopicName dev)\<rparr>"

definition publishAllDiscovery :: "mqtt_env \<Rightarrow> bolt \<Rightarrow> bridge \<Rightarrow> bridge" where
  "publishAllDiscovery env st b =
     (case ListDevices st of
        Inl e \<Rightarrow> b
      | Inr devs \<Rightarrow> fold (\<lambda>dev b. if dev_Interviewed dev then publishDeviceDiscovery env dev (cache_topic dev b) else b) devs b)"

definition subscribeDeviceCommands :: "Device \<Rightarrow> bridge \<Rightarrow> bridge" where
  "subscribeDeviceCommands dev b =
     b\<lparr>br_subs := br_subs b @ [(br_prefix b @ ''/'' @ deviceTopicName dev @ ''/set'', dev_IEEEAddress dev)]\<rparr>"

definition subscribeCommands :: "bolt \<Rightarrow> bridge \<Rightarrow> bridge" where
  "subscribeCommands st b =
     (case ListDevices st of
        Inl e \<Rightarrow> b
      | Inr devs \<Rightarrow> fold (\<lambda>dev b. if dev_Interviewed dev then subscribeDeviceCommands dev b else b) devs b)"

text \<open>The connect handler. \<open>None\<close> is the run-time panic of a call on the nil client, which ends the process.\<close>

definition onConnect :: "mqtt_env \<Rightarrow> bolt \<Rightarrow> bridge \<Rightarrow> bridge option" where
  "onConnect env st b =
     (if \<not> br_client b then None
      else Some (subscribeCommands st (publishAllDiscovery env st (publishBridgeState ''online'' b))))"

section \<open>Events\<close>

text \<open>The subscriber drops an event when 256 are waiting.\<close>

definition enqueueEvent :: "Event \<Rightarrow> bridge \<Rightarrow> bridge" where
  "enqueueEvent ev b = (if length (br_eventCh b) < 256 then b\<lparr>br_eventCh := br_eventCh b @ [ev]\<rparr> else b)"

definition normalize :: "string \<Rightarrow> gval \<Rightarrow> gval" where
  "normalize prop v =
     (if prop = ''state'' then (case v of GBool b \<Rightarrow> GStr (if b then ''ON'' else ''OFF'') | _ \<Rightarrow> v)
      else if prop = ''occupancy'' \<or> prop = ''zone_status'' then GBool (toBool v)
      else v)"

definition mqtt_attributeReport :: "mqtt_env \<Rightarrow> bolt \<Rightarrow> Event \<Rightarrow> bridge \<Rightarrow> bridge" where
  "mqtt_attributeReport env st ev b =
     (case ev_Data ev of
        GMap data \<Rightarrow>
          (let ieee = str_of data ''ieee'';
               propName = mapAttributeToProperty (u16_of data ''cluster_id'') (str_of data ''attr_name'')
           in if ieee = [] \<or> propName = [] then b
              else updateAndPublishState env st ieee propName (normalize propName (val_of data ''value''))
                     (if propName = ''brightness'' then updateAndPublishState env st ieee ''color_mode'' (GStr ''brightness'') b else b))
      | _ \<Rightarrow> b)"

definition handlePropertyUpdate :: "mqtt_env \<Rightarrow> bolt \<Rightarrow> Event \<Rightarrow> bridge \<Rightarrow> bridge" where
  "handlePropertyUpdate env st ev b =
     (case ev_Data ev of
        GMap data \<Rightarrow>
          (let ieee = str_of data ''ieee''; prop = str_of data ''property''
           in if ieee = [] \<or> prop = [] then b else updateAndPublishState env st ieee prop (val_of data ''value'') b)
      | _ \<Rightarrow> b)"

definition handleDeviceLeft :: "bolt \<Rightarrow> Event \<Rightarrow> bridge \<Rightarrow> bridge" where
  "handleDeviceLeft st ev b =
     (case ev_Data ev of
        GMap data \<Rightarrow>
          (let ieee = str_of data ''ieee'' in
           if ieee = [] then b
           else let (name, b1) = cachedTopicName st ieee b;
                    b2 = publish (br_prefix b1 @ ''/'' @ name) (Text []) True b1;
                    b3 = publish_all (buildRemoveDiscovery (new_device ieee)) b2
                in b3\<lparr>br_states := (br_states b3)(ieee := None), br_topicNames := (br_topicNames b3)(ieee := None)\<rparr>)
      | _ \<Rightarrow> b)"

definition mqtt_handleEvent :: "mqtt_env \<Rightarrow> bolt \<Rightarrow> Event \<Rightarrow> bridge \<Rightarrow> bridge" where
  "mqtt_handleEvent env st ev b =
     (if ev_Type ev = EventAttributeReport then mqtt_attributeReport env st ev b
      else if ev_Type ev = EventPropertyUpdate then handlePropertyUpdate env st ev b
      else if ev_Type ev = EventDeviceAnnounce then b\<lparr>br_launched := br_launched b @ [ev]\<rparr>
      else if ev_Type ev = EventDeviceLeft then handleDeviceLeft st ev b
      else b)"

text \<open>One turn of the event loop; after the context is cancelled the loop may take events until it takes the end.\<close>

definition event_turn :: "mqtt_env \<Rightarrow> bolt \<Rightarrow> bridge \<Rightarrow> bridge" where
  "event_turn env st b = (case br_eventCh b of [] \<Rightarrow> b | ev # evs \<Rightarrow> mqtt_handleEvent env st ev (b\<lparr>br_eventCh := evs\<rparr>))"

section \<open>Delayed discovery\<close>

text \<open>The registration of a delayed discovery, one tick of its loop and its deferred end are atomic.\<close>

definition disc_begin :: "string \<Rightarrow> bridge \<Rightarrow> u64 \<times> bridge" where
  "disc_begin ieee b =
     (let b1 = (case br_pendingDiscovery b ieee of Some prev \<Rightarrow> b\<lparr>br_cancelled := prev # br_cancelled b\<rparr> | None \<Rightarrow> b);
          gen = br_nextDiscGen b1 + 1
      in (gen, b1\<lparr>br_nextDiscGen := gen, br_pendingDiscovery := (br_pendingDiscovery b1)(ieee \<mapsto> gen),
                  br_discoveryGen := (br_discoveryGen b1)(ieee \<mapsto> gen)\<rparr>))"

definition disc_end :: "string \<Rightarrow> u64 \<Rightarrow> bridge \<Rightarrow> bridge" where
  "disc_end ieee gen b =
     (let b1 = (if (case br_discoveryGen b ieee of Some g \<Rightarrow> g | None \<Rightarrow> 0) = gen
                then b\<lparr>br_pendingDiscovery := (br_pendingDiscovery b)(ieee := None),
                       br_discoveryGen := (br_discoveryGen b)(ieee := None)\<rparr> else b)
      in b1\<lparr>br_cancelled := gen # br_cancelled b1\<rparr>)"

text \<open>A tick says whether the loop is over.\<close>

definition disc_tick :: "mqtt_env \<Rightarrow> bolt \<Rightarrow> string \<Rightarrow> bridge \<Rightarrow> bool \<times> bridge" where
  "disc_tick env st ieee b =
     (case GetDevice ieee st of
        Inl e \<Rightarrow> (True, b)
      | Inr dev \<Rightarrow>
          if dev_Interviewed dev
          then (True, subscribeDeviceCommands dev (publishDeviceDiscovery env dev (b\<lparr>br_topicNames := (br_topicNames b)(ieee \<mapsto> deviceTopicName dev)\<rparr>)))
          else (False, b))"

text \<open>The loop: at most 36 ticks, each with what the store holds then; fewer when the context is cancelled.\<close>

fun disc_loop :: "mqtt_env \<Rightarrow> string \<Rightarrow> bolt list \<Rightarrow> bridge \<Rightarrow> bridge" where
  "disc_loop env ieee [] b = b"
| "disc_loop env ieee (st # sts) b =
     (let (over, b1) = disc_tick env st ieee b in if over then b1 else disc_loop env ieee sts b1)"

definition delayedDiscovery :: "mqtt_env \<Rightarrow> bolt list \<Rightarrow> Event \<Rightarrow> bridge \<Rightarrow> bridge" where
  "delayedDiscovery env sts ev b =
     (case ev_Data ev of
        GMap data \<Rightarrow>
          (let ieee = str_of data ''ieee'' in
           if ieee = [] then b
           else let (gen, b1) = disc_begin ieee b in disc_end ieee gen (disc_loop env ieee (take 36 sts) b1))
      | _ \<Rightarrow> b)"

section \<open>Commands\<close>

definition findEndpointWithCluster :: "Device \<Rightarrow> u16 \<Rightarrow> byte" where
  "findEndpointWithCluster dev cid =
     (case List.find (\<lambda>ep. cid \<in> set (ep_InClusters ep)) (dev_Endpoints dev) of
        Some ep \<Rightarrow> ep_ID ep
      | None \<Rightarrow> (case dev_Endpoints dev of [] \<Rightarrow> 1 | ep # _ \<Rightarrow> ep_ID ep))"

text \<open>\<^verbatim>\<open>strings.ToUpper\<close> as far as a comparison with ON, OFF and TOGGLE shows: no letter outside ASCII has one of
  their letters as its upper case.\<close>

definition ascii_upper :: "string \<Rightarrow> string" where
  "ascii_upper s = map (\<lambda>c. if 97 \<le> (of_char c :: nat) \<and> (of_char c :: nat) \<le> 122 then char_of ((of_char c :: nat) - 32) else c) s"

definition on_off_command :: "string \<Rightarrow> (byte \<times> string option) option" where
  "on_off_command s =
     (if ascii_upper s = ''ON'' then Some (0x01, Some ''ON'')
      else if ascii_upper s = ''OFF'' then Some (0x00, Some ''OFF'')
      else if ascii_upper s = ''TOGGLE'' then Some (0x02, None)
      else None)"

definition state_command :: "mqtt_env \<Rightarrow> string \<Rightarrow> Device \<Rightarrow> (string \<times> gval) list \<Rightarrow> coord \<times> bridge \<Rightarrow> coord \<times> bridge" where
  "state_command env ieee dev cmd cb =
     (case map_of cmd ''state'' of
        Some (GStr s) \<Rightarrow>
          (case on_off_command s of
             None \<Rightarrow> cb
           | Some (k, shown) \<Rightarrow>
               (case SendClusterCommand (dev_ShortAddress dev) (findEndpointWithCluster dev 0x0006) 0x0006 k [] (fst cb) of
                  (Inl e, c1) \<Rightarrow> (c1, snd cb)
                | (Inr f, c1) \<Rightarrow>
                    (c1, case shown of None \<Rightarrow> snd cb
                         | Some t \<Rightarrow> updateAndPublishState env (dm_store (co_dm c1)) ieee ''state'' (GStr t) (snd cb))))
      | _ \<Rightarrow> cb)"

definition f64_gt254 :: "u64 \<Rightarrow> bool" where
  "f64_gt254 w \<longleftrightarrow> \<not> f64_neg w \<and> \<not> f64_is_nan w \<and> 0x406FC00000000000 < w"

text \<open>A JSON number is finite, so that the conversion to \<^verbatim>\<open>uint8\<close> truncates a value from 0 to 254.\<close>

definition brightness_level :: "u64 \<Rightarrow> byte" where
  "brightness_level f =
     (let f1 = (if f64_lt0 f then 0 else f); f2 = (if f64_gt254 f1 then 0x406FC00000000000 else f1) in word_of_int (f64_trunc f2))"

definition brightness_command :: "mqtt_env \<Rightarrow> string \<Rightarrow> Device \<Rightarrow> (string \<times> gval) list \<Rightarrow> coord \<times> bridge \<Rightarrow> coord \<times> bridge" where
  "brightness_command env ieee dev cmd cb =
     (case toFloat64 (me_fp env) (val_of cmd ''brightness'') of
        None \<Rightarrow> cb
      | Some f \<Rightarrow>
          let level = brightness_level f in
          (case SendClusterCommand (dev_ShortAddress dev) (findEndpointWithCluster dev 0x0008) 0x0008 0x04 [level, 0x05, 0x00] (fst cb) of
             (Inl e, c1) \<Rightarrow> (c1, snd cb)
           | (Inr f, c1) \<Rightarrow>
               (c1, updateAndPublishState env (dm_store (co_dm c1)) ieee ''color_mode'' (GStr ''brightness'')
                      (updateAndPublishState env (dm_store (co_dm c1)) ieee ''brightness'' (GU8 level) (snd cb)))))"

text \<open>\<open>cmd\<close> is the parsed payload, \<open>None\<close> when it is not a JSON object.\<close>

definition handleCommand :: "mqtt_env \<Rightarrow> string \<Rightarrow> (string \<times> gval) list option \<Rightarrow> coord \<times> bridge \<Rightarrow> coord \<times> bridge" where
  "handleCommand env ieee cmd cb =
     (case GetDevice ieee (dm_store (co_dm (fst cb))) of
        Inl e \<Rightarrow> cb
      | Inr dev \<Rightarrow>
          if dev_Endpoints dev = [] then cb
          else (case cmd of
                  None \<Rightarrow> cb
                | Some kvs \<Rightarrow> brightness_command env ieee dev kvs (state_command env ieee dev kvs cb)))"

text \<open>The last message is waited for; whether it arrives in time is only logged.\<close>

definition publishBridgeStateSynchronous :: "string \<Rightarrow> bridge \<Rightarrow> bridge" where
  "publishBridgeStateSynchronous state b = publish (br_prefix b @ ''/bridge/state'') (Text state) True b"

definition bridge_Stop :: "bridge \<Rightarrow> bridge" where
  "bridge_Stop b = publishBridgeStateSynchronous ''offline'' (b\<lparr>br_stopped := True\<rparr>)"

end
