(* ===== verification/MQTT_Theorems.thy ===== *)
theory MQTT_Theorems
  imports MQTT_Bridge
begin

text \<open>
  Properties of the MQTT bridge: the state it publishes, what the broker retains, delayed discoveries under every
  interleaving, and commands.
\<close>

section \<open>Frames\<close>

lemma publish_simps [simp]:
  "br_client (publish t p r b) = br_client b" "br_prefix (publish t p r b) = br_prefix b" "br_eventCh (publish t p r b) = br_eventCh b"
  "br_states (publish t p r b) = br_states b" "br_topicNames (publish t p r b) = br_topicNames b"
  "br_pendingDiscovery (publish t p r b) = br_pendingDiscovery b" "br_discoveryGen (publish t p r b) = br_discoveryGen b"
  "br_nextDiscGen (publish t p r b) = br_nextDiscGen b" "br_cancelled (publish t p r b) = br_cancelled b"
  "br_out (publish t p r b) = br_out b @ [(t, p, r)]" "br_subs (publish t p r b) = br_subs b"
  by (simp_all add: publish_def)

lemma publish_all_out: "br_out (publish_all ms b) = br_out b @ map (\<lambda>m. (msg_Topic m, msg_Payload m, True)) ms"
  by (induction ms arbitrary: b) (simp_all add: publish_all_def)

lemma publish_all_simps [simp]:
  "br_client (publish_all ms b) = br_client b" "br_prefix (publish_all ms b) = br_prefix b"
  "br_states (publish_all ms b) = br_states b" "br_topicNames (publish_all ms b) = br_topicNames b"
  "br_subs (publish_all ms b) = br_subs b"
  by (induction ms arbitrary: b, simp_all add: publish_all_def)

text \<open>The part of the state that delayed discoveries work on.\<close>

definition disc_part :: "bridge \<Rightarrow> (string \<rightharpoonup> u64) \<times> (string \<rightharpoonup> u64) \<times> u64 \<times> u64 list" where
  "disc_part b = (br_pendingDiscovery b, br_discoveryGen b, br_nextDiscGen b, br_cancelled b)"

lemma disc_part_publish [simp]: "disc_part (publish t p r b) = disc_part b"
  by (simp add: disc_part_def)

lemma disc_part_publish_all [simp]: "disc_part (publish_all ms b) = disc_part b"
  unfolding publish_all_def by (induction ms arbitrary: b) simp_all

lemma disc_part_upd [simp]:
  "disc_part (b\<lparr>br_topicNames := x\<rparr>) = disc_part b" "disc_part (b\<lparr>br_states := y\<rparr>) = disc_part b"
  "disc_part (b\<lparr>br_eventCh := z\<rparr>) = disc_part b" "disc_part (b\<lparr>br_launched := u\<rparr>) = disc_part b"
  "disc_part (b\<lparr>br_subs := v\<rparr>) = disc_part b"
  by (simp_all add: disc_part_def)

lemma cachedTopicName_cases:
  "cachedTopicName st ieee b = (n, b') \<Longrightarrow> b' = b \<or> b' = b\<lparr>br_topicNames := (br_topicNames b)(ieee \<mapsto> n)\<rparr>"
  by (auto simp: cachedTopicName_def split: option.splits sum.splits)

lemma updateAndPublish_spec:
  fixes b :: bridge
  assumes "m = updateState env st ieee prop v (br_state ieee b)"
  obtains n b' where "cachedTopicName st ieee (b\<lparr>br_states := (br_states b)(ieee \<mapsto> m)\<rparr>) = (n, b')"
    "updateAndPublishState env st ieee prop v b = publish (br_prefix b @ ''/'' @ n) (mustJSON (me_js env) (GMap m)) True b'"
    "br_states b' = (br_states b)(ieee \<mapsto> m)" "br_prefix b' = br_prefix b" "br_out b' = br_out b" "disc_part b' = disc_part b"
    "br_subs b' = br_subs b" "br_client b' = br_client b"
proof -
  obtain n b' where c: "cachedTopicName st ieee (b\<lparr>br_states := (br_states b)(ieee \<mapsto> m)\<rparr>) = (n, b')" by (metis prod.collapse)
  have "b' = b\<lparr>br_states := (br_states b)(ieee \<mapsto> m)\<rparr> \<or>
    b' = b\<lparr>br_states := (br_states b)(ieee \<mapsto> m), br_topicNames := (br_topicNames b)(ieee \<mapsto> n)\<rparr>"
    using cachedTopicName_cases[OF c] by auto
  then have f: "br_states b' = (br_states b)(ieee \<mapsto> m)" "br_prefix b' = br_prefix b" "br_out b' = br_out b" "disc_part b' = disc_part b"
    "br_subs b' = br_subs b" "br_client b' = br_client b" by (auto simp: disc_part_def)
  show thesis using c f assms by (intro that[of n b']) (simp_all add: updateAndPublishState_def Let_def)
qed

section \<open>A value that JSON cannot hold\<close>

lemma those_None: "None \<in> set xs \<Longrightarrow> those xs = None"
  by (induction xs) (auto split: option.split)

lemma json_map_None:
  assumes "map_of m k = Some v" "json_value js v = None"
  shows "mustJSON js (GMap m) = Json (GMap [])"
proof -
  have "(k, v) \<in> set m" using assms(1) by (rule map_of_SomeD)
  then have "None \<in> set (map (\<lambda>kv. map_option (Pair (fst kv)) (json_value js (snd kv))) m)"
    using assms(2) by (force simp: image_iff)
  then show ?thesis by (simp add: mustJSON_def those_None)
qed

lemma updateState_keeps:
  assumes "map_of m k = Some w" "prop \<noteq> k" "k \<noteq> ''linkquality''" "k \<noteq> ''last_seen''"
  shows "map_of (updateState env st ieee prop v m) k = Some w"
  using assms by (simp add: updateState_def Let_def update_conv' split: sum.split)

lemma updateState_sets: "prop \<noteq> ''linkquality'' \<Longrightarrow> prop \<noteq> ''last_seen'' \<Longrightarrow> map_of (updateState env st ieee prop v m) prop = Some v"
  by (simp add: updateState_def Let_def update_conv' split: sum.split)

definition poisoned :: "mqtt_env \<Rightarrow> string \<Rightarrow> string \<Rightarrow> bridge \<Rightarrow> bool" where
  "poisoned env ieee k b \<longleftrightarrow> (\<exists>v. map_of (br_state ieee b) k = Some v \<and> json_value (me_js env) v = None)"

lemma poisoned_update:
  assumes "poisoned env ieee k b" "prop \<noteq> k" "k \<noteq> ''linkquality''" "k \<noteq> ''last_seen''"
  shows "poisoned env ieee k (updateAndPublishState env st ieee prop v b)
     \<and> (\<exists>t. br_out (updateAndPublishState env st ieee prop v b) = br_out b @ [(t, Json (GMap []), True)])"
proof -
  obtain w where w: "map_of (br_state ieee b) k = Some w" "json_value (me_js env) w = None" using assms(1) by (auto simp: poisoned_def)
  note k = updateState_keeps[OF w(1) assms(2-4), of env st ieee v]
  obtain n b' where u: "updateAndPublishState env st ieee prop v b =
      publish (br_prefix b @ ''/'' @ n) (mustJSON (me_js env) (GMap (updateState env st ieee prop v (br_state ieee b)))) True b'"
    "br_states b' = (br_states b)(ieee \<mapsto> updateState env st ieee prop v (br_state ieee b))" "br_out b' = br_out b"
    using updateAndPublish_spec[OF refl] by metis
  show ?thesis using u k w(2) json_map_None[OF k w(2)] by (auto simp: poisoned_def br_state_def)
qed

text \<open>
  one value that JSON cannot hold blocks the state of its device. Once a report has put a NaN or an infinity (which
  a float attribute can carry) under a property, every later update of any other property is published as an
  empty object: the device's state is lost to the subscribers, and what they retained is overwritten, until that
  very property is reported again.
\<close>

theorem nan_blocks_state:
  assumes "json_value (me_js env) x = None" "k \<noteq> ''linkquality''" "k \<noteq> ''last_seen''" "k \<notin> fst ` set kvs"
    "b1 = updateAndPublishState env st ieee k x b"
    "b2 = fold (\<lambda>(prop, v). updateAndPublishState env st' ieee prop v) kvs b1"
  shows "\<exists>ts. length ts = length kvs \<and> br_out b2 = br_out b1 @ map (\<lambda>t. (t, Json (GMap []), True)) ts"
proof -
  have p: "poisoned env ieee k b1"
  proof -
    obtain n b' where "updateAndPublishState env st ieee k x b =
        publish (br_prefix b @ ''/'' @ n) (mustJSON (me_js env) (GMap (updateState env st ieee k x (br_state ieee b)))) True b'"
      "br_states b' = (br_states b)(ieee \<mapsto> updateState env st ieee k x (br_state ieee b))"
      using updateAndPublish_spec[OF refl] by metis
    then show ?thesis using assms(1,5) updateState_sets[OF assms(2,3)] by (simp add: poisoned_def br_state_def)
  qed
  show ?thesis using assms(4) p unfolding assms(6)
  proof (induction kvs arbitrary: b1)
    case (Cons kv kvs)
    obtain pr w where kv: "kv = (pr, w)" by (cases kv)
    have n: "pr \<noteq> k" using Cons.prems(1) kv by auto
    from poisoned_update[OF Cons.prems(2) n assms(2,3), of st' w] obtain t where
      t: "poisoned env ieee k (updateAndPublishState env st' ieee pr w b1)"
      "br_out (updateAndPublishState env st' ieee pr w b1) = br_out b1 @ [(t, Json (GMap []), True)]" by blast
    obtain ts where "length ts = length kvs"
      "br_out (fold (\<lambda>(prop, v). updateAndPublishState env st' ieee prop v) kvs (updateAndPublishState env st' ieee pr w b1)) =
       br_out (updateAndPublishState env st' ieee pr w b1) @ map (\<lambda>t. (t, Json (GMap []), True)) ts"
      using Cons.IH[OF _ t(1)] Cons.prems(1) by auto
    then show ?case using t(2) kv by (intro exI[of _ "t # ts"]) simp
  qed simp
qed

section \<open>What the broker retains\<close>

text \<open>The broker keeps the last retained message of a topic; an empty one clears it.\<close>

definition retained :: "(string \<times> payload \<times> bool) list \<Rightarrow> string \<Rightarrow> payload option" where
  "retained out = foldl (\<lambda>m (t, p, r). if r then m(t := if p = Text [] then None else Some p) else m) Map.empty out"

lemma retained_snoc [simp]:
  "retained (out @ [(t, p, True)]) = (retained out)(t := if p = Text [] then None else Some p)"
  by (simp add: retained_def)

lemma retained_clear:
  "retained (out @ map (\<lambda>m. (msg_Topic m, msg_Payload m, True)) (buildRemoveDiscovery dev)) t =
     (if t \<in> msg_Topic ` set (buildRemoveDiscovery dev) then None else retained out t)"
proof -
  have "retained (out @ map (\<lambda>m. (msg_Topic m, msg_Payload m, True)) ms) t = (if t \<in> msg_Topic ` set ms then None else retained out t)"
    if "msg_Payload ` set ms \<subseteq> {Text []}" for ms
    using that
  proof (induction ms rule: rev_induct)
    case (snoc m ms)
    have "retained ((out @ map (\<lambda>m. (msg_Topic m, msg_Payload m, True)) ms) @ [(msg_Topic m, msg_Payload m, True)]) t =
        (if t \<in> msg_Topic ` set (ms @ [m]) then None else retained out t)"
      unfolding retained_snoc using snoc by auto
    then show ?case by simp
  qed simp
  moreover have "msg_Payload ` set (buildRemoveDiscovery dev) \<subseteq> {Text []}" by (auto simp: buildRemoveDiscovery_def)
  ultimately show ?thesis by blast
qed

text \<open>
  C36: a departure clears what the bridge publishes for the device under its present name. Afterwards nothing is retained under the state
  topic that the bridge would publish it on next, nor under any discovery topic that the device can have had, under whatever name and with whatever
  endpoints, and the bridge has forgotten its state and its topic name. Every other topic keeps what it had: those of
  other devices, but also the state retained under a former name when the device was renamed and announced again.
\<close>

theorem leave_clears_broker:
  assumes "ev_Data ev = GMap data" "str_of data ''ieee'' = ieee" "ieee \<noteq> []" "b' = handleDeviceLeft st ev b"
    "dev_IEEEAddress dev = ieee" "stt = br_prefix b @ ''/'' @ fst (cachedTopicName st ieee b)"
  shows "retained (br_out b') stt = None
     \<and> retained (br_out b') ` msg_Topic ` set (buildDiscovery js dev px) \<subseteq> {None}
     \<and> (t \<noteq> stt \<and> t \<notin> msg_Topic ` set (buildRemoveDiscovery dev) \<longrightarrow> retained (br_out b') t = retained (br_out b) t)
     \<and> br_states b' ieee = None \<and> br_topicNames b' ieee = None"
proof -
  obtain n b1 where c: "cachedTopicName st ieee b = (n, b1)" by (metis prod.collapse)
  then have b1: "br_prefix b1 = br_prefix b" "br_out b1 = br_out b" using cachedTopicName_cases by fastforce+
  have id: "deviceIdentifier (new_device ieee) = deviceIdentifier dev" using assms(5) by (simp add: deviceIdentifier_def new_device_def)
  have rm: "buildRemoveDiscovery (new_device ieee) = buildRemoveDiscovery dev" by (simp add: buildRemoveDiscovery_def id)
  have b': "br_out b' = (br_out b @ [(stt, Text [], True)]) @ map (\<lambda>m. (msg_Topic m, msg_Payload m, True)) (buildRemoveDiscovery dev)"
    "br_states b' ieee = None" "br_topicNames b' ieee = None"
    using assms(1-4,6) c b1 by (simp_all add: handleDeviceLeft_def Let_def publish_all_out rm)
  have r: "retained (br_out b') t = (if t \<in> msg_Topic ` set (buildRemoveDiscovery dev) then None else if t = stt then None else retained (br_out b) t)" for t
    unfolding b'(1) retained_clear by simp
  have "retained (br_out b') ` msg_Topic ` set (buildDiscovery js dev px) \<subseteq> {None}"
    using discovery_topics[of js dev px] unfolding remove_topics[symmetric] by (auto simp: r)
  then show ?thesis using b'(2,3) r by simp
qed

section \<open>One discovery per device\<close>

text \<open>
  Delayed discoveries of any number of announces, interleaved with everything else the bridge does. \<open>k\<close> counts
  the discoveries begun; \<open>run\<close> holds those that have not ended, by address and generation.
\<close>

inductive disc_reach :: "mqtt_env \<Rightarrow> nat \<Rightarrow> bridge \<Rightarrow> (string \<times> u64) list \<Rightarrow> bool" for env where
  start: "disc_reach env 0 (snd (NewBridge px out)) []"
| begins: "disc_reach env k b run \<Longrightarrow> disc_begin ieee b = (gen, b') \<Longrightarrow> disc_reach env (Suc k) b' ((ieee, gen) # run)"
| tick: "disc_reach env k b run \<Longrightarrow> disc_reach env k (snd (disc_tick env st ieee b)) run"
| ends: "disc_reach env k b run \<Longrightarrow> (ieee, gen) \<in> set run \<Longrightarrow> disc_reach env k (disc_end ieee gen b) (remove1 (ieee, gen) run)"
| event: "disc_reach env k b run \<Longrightarrow> disc_reach env k (event_turn env st b) run"
| enq: "disc_reach env k b run \<Longrightarrow> disc_reach env k (enqueueEvent ev b) run"
| conn: "disc_reach env k b run \<Longrightarrow> onConnect env st b = Some b' \<Longrightarrow> disc_reach env k b' run"
| cmd: "disc_reach env k b run \<Longrightarrow> disc_reach env k (snd (handleCommand env ieee kvs (c, b))) run"

lemma disc_part_update [simp]: "disc_part (updateAndPublishState env st ieee pn v b) = disc_part b"
  by (metis updateAndPublish_spec[OF refl] disc_part_publish)

lemma disc_part_cached: "cachedTopicName st ieee b = (n, b') \<Longrightarrow> disc_part b' = disc_part b"
  using cachedTopicName_cases[of st ieee b n b'] by auto

lemma disc_part_discovery [simp]: "disc_part (publishDeviceDiscovery env dev b) = disc_part b"
  by (simp add: publishDeviceDiscovery_def)

lemma disc_part_fold: "(\<And>x b. disc_part (f x b) = disc_part b) \<Longrightarrow> disc_part (fold f xs b) = disc_part b"
  by (induction xs arbitrary: b) simp_all

lemma disc_part_all [simp]: "disc_part (publishAllDiscovery env st b) = disc_part b" "disc_part (subscribeCommands st b) = disc_part b"
  by (auto simp: publishAllDiscovery_def subscribeCommands_def cache_topic_def subscribeDeviceCommands_def split: sum.split intro!: disc_part_fold)

lemma disc_part_event: "disc_part (event_turn env st b) = disc_part b"
proof -
  have "disc_part (handleDeviceLeft st ev b) = disc_part b" for ev b
    by (auto simp: handleDeviceLeft_def Let_def split: gval.split prod.split dest: disc_part_cached)
  then show ?thesis
    by (auto simp: event_turn_def mqtt_handleEvent_def mqtt_attributeReport_def handlePropertyUpdate_def Let_def
        split: list.split gval.split)
qed

lemma disc_part_cmd: "disc_part (snd (handleCommand env ieee kvs (c, b))) = disc_part b"
proof -
  have "disc_part (snd (state_command env ieee dev m cb)) = disc_part (snd cb)" for dev m cb
    by (auto simp: state_command_def split: option.split gval.split sum.split prod.split)
  moreover have "disc_part (snd (brightness_command env ieee dev m cb)) = disc_part (snd cb)" for dev m cb
    by (auto simp: brightness_command_def Let_def split: option.split sum.split prod.split)
  ultimately show ?thesis by (auto simp: handleCommand_def split: sum.split option.split)
qed

definition disc_inv :: "nat \<Rightarrow> (string \<rightharpoonup> u64) \<times> (string \<rightharpoonup> u64) \<times> u64 \<times> u64 list \<Rightarrow> (string \<times> u64) list \<Rightarrow> bool" where
  "disc_inv k d run \<longleftrightarrow> (case d of (pend, gens, nxt, canc) \<Rightarrow>
     pend = gens \<and> nxt = word_of_nat k \<and> distinct (map snd run)
     \<and> (\<forall>g \<in> snd ` set run \<union> set canc. 0 < unat g \<and> unat g \<le> k)
     \<and> (\<forall>i g. pend i = Some g \<longleftrightarrow> (i, g) \<in> set run \<and> g \<notin> set canc)
     \<and> (\<forall>i g. pend i = Some g \<longrightarrow> map_of run i = Some g))"

text \<open>The bookkeeping on sets: \<open>P\<close> the registered discoveries, \<open>R\<close> the running and \<open>C\<close> the cancelled ones.\<close>

lemma live_begin:
  assumes iff: "\<And>i g. P i = Some g \<longleftrightarrow> (i, g) \<in> R \<and> g \<notin> C" and inj: "\<And>i j g. (i, g) \<in> R \<Longrightarrow> (j, g) \<in> R \<Longrightarrow> i = j"
    and new: "\<And>i. (i, gen) \<notin> R" "gen \<notin> C"
  shows "(P(ieee \<mapsto> gen)) i = Some g \<longleftrightarrow> (i, g) \<in> insert (ieee, gen) R \<and> g \<notin> C \<union> set_option (P ieee)"
proof (cases "P ieee")
  case None
  then show ?thesis using iff[of i g] iff[of ieee g] new by (cases "i = ieee") auto
next
  case (Some x)
  then have x: "(ieee, x) \<in> R" "x \<noteq> gen" using iff new by auto
  have one: "g = x" if "(ieee, g) \<in> R" "g \<notin> C" using that iff[of ieee g] Some by simp
  have other: "g \<noteq> x" if "(i, g) \<in> R" "i \<noteq> ieee" using that inj[OF x(1), of i] by blast
  show ?thesis
  proof (cases "i = ieee")
    case True
    then show ?thesis using one x(2) new(2) Some by auto
  next
    case False
    then show ?thesis using other iff[of i g] Some by auto
  qed
qed

lemma live_end:
  assumes iff: "\<And>i g. P i = Some g \<longleftrightarrow> (i, g) \<in> R \<and> g \<notin> C" and inj: "\<And>i j g. (i, g) \<in> R \<Longrightarrow> (j, g) \<in> R \<Longrightarrow> i = j"
    and r: "(ieee, gen) \<in> R"
  shows "(if P ieee = Some gen then P(ieee := None) else P) i = Some g \<longleftrightarrow> (i, g) \<in> {x \<in> R. snd x \<noteq> gen} \<and> g \<notin> insert gen C"
  using iff[of i g] inj[OF r, of i] iff[of ieee gen] iff[of ieee g] by (cases "i = ieee") auto

lemma disc_inv_iff:
  "disc_inv k (disc_part b) run \<longleftrightarrow> br_pendingDiscovery b = br_discoveryGen b \<and> br_nextDiscGen b = word_of_nat k \<and> distinct (map snd run)
     \<and> (\<forall>g \<in> snd ` set run \<union> set (br_cancelled b). 0 < unat g \<and> unat g \<le> k)
     \<and> (\<forall>i g. br_pendingDiscovery b i = Some g \<longleftrightarrow> (i, g) \<in> set run \<and> g \<notin> set (br_cancelled b))
     \<and> (\<forall>i g. br_pendingDiscovery b i = Some g \<longrightarrow> map_of run i = Some g)"
  by (simp add: disc_inv_def disc_part_def)

lemma map_of_remove1: "map_of xs i = Some g \<Longrightarrow> (i, g) \<noteq> (j, h) \<Longrightarrow> map_of (remove1 (j, h) xs) i = Some g"
  by (induction xs) (auto split: if_splits)

lemma run_inj: "distinct (map snd run) \<Longrightarrow> (i, g) \<in> set run \<Longrightarrow> (j, g) \<in> set run \<Longrightarrow> i = j"
  by (metis distinct_map inj_onD snd_conv fst_conv)

lemma disc_begin_fields:
  assumes "disc_begin ieee b = (gen, b')"
  shows "gen = br_nextDiscGen b + 1 \<and> br_nextDiscGen b' = gen \<and> br_pendingDiscovery b' = (br_pendingDiscovery b)(ieee \<mapsto> gen)
    \<and> br_discoveryGen b' = (br_discoveryGen b)(ieee \<mapsto> gen)
    \<and> set (br_cancelled b') = set (br_cancelled b) \<union> set_option (br_pendingDiscovery b ieee)"
  using assms by (auto simp: disc_begin_def Let_def split: option.splits)

lemma disc_inv_begin:
  assumes "disc_inv k (disc_part b) run" "disc_begin ieee b = (gen, b')" "Suc k < 2 ^ 64"
  shows "disc_inv (Suc k) (disc_part b') ((ieee, gen) # run)"
proof -
  note I = assms(1)[unfolded disc_inv_iff] and F = disc_begin_fields[OF assms(2)]
  have gen: "gen = word_of_nat (Suc k)" using I F by simp
  then have u: "unat gen = Suc k" using assms(3) unfolding gen by (subst unat_of_nat) simp
  have fresh: False if "gen \<in> snd ` set run \<union> set (br_cancelled b)"
  proof -
    have "unat gen \<le> k" using I that by blast
    then show False using u by simp
  qed
  have new: "(i, gen) \<notin> set run" "gen \<notin> set (br_cancelled b)" for i
    using fresh imageI[of "(i, gen)" "set run" snd] by auto
  have a: "br_pendingDiscovery b i = Some g \<longleftrightarrow> (i, g) \<in> set run \<and> g \<notin> set (br_cancelled b)" for i g using I by blast
  note j = run_inj[OF conjunct1[OF conjunct2[OF conjunct2[OF I]]]]
  have f: "br_pendingDiscovery b' = (br_pendingDiscovery b)(ieee \<mapsto> gen)"
    "set (br_cancelled b') = set (br_cancelled b) \<union> set_option (br_pendingDiscovery b ieee)" using F by auto
  have iff: "br_pendingDiscovery b' i = Some g \<longleftrightarrow> (i, g) \<in> set ((ieee, gen) # run) \<and> g \<notin> set (br_cancelled b')" for i g
    unfolding f list.set by (rule live_begin[OF a j new])
  have old: "g \<in> snd ` set run" if "br_pendingDiscovery b ieee = Some g" for g using I that by force
  have bnd: "\<forall>g \<in> snd ` set ((ieee, gen) # run) \<union> set (br_cancelled b'). 0 < unat g \<and> unat g \<le> Suc k"
    using I F u old by (auto simp: le_Suc_eq)
  show ?thesis unfolding disc_inv_iff
  proof (intro conjI)
    show "br_pendingDiscovery b' = br_discoveryGen b'" using I F by simp
    show "br_nextDiscGen b' = word_of_nat (Suc k)" using F gen by simp
    show "distinct (map snd ((ieee, gen) # run))" using fresh I by auto
    show "\<forall>i g. br_pendingDiscovery b' i = Some g \<longleftrightarrow> (i, g) \<in> set ((ieee, gen) # run) \<and> g \<notin> set (br_cancelled b')"
      using iff by blast
    show "\<forall>i g. br_pendingDiscovery b' i = Some g \<longrightarrow> map_of ((ieee, gen) # run) i = Some g" using I f(1) by auto
  qed (rule bnd)
qed

lemma disc_inv_end:
  assumes "disc_inv k (disc_part b) run" "(ieee, gen) \<in> set run"
  shows "disc_inv k (disc_part (disc_end ieee gen b)) (remove1 (ieee, gen) run)"
proof -
  note I = assms(1)[unfolded disc_inv_iff]
  then have d: "distinct (map snd run)" "distinct run" by (auto simp: distinct_map)
  have "gen \<in> snd ` set run" using assms(2) by force
  then have "0 < unat gen" using I by blast
  then have d3: "gen \<noteq> 0" by auto
  have s: "set (remove1 (ieee, gen) run) = {x \<in> set run. snd x \<noteq> gen}"
    using run_inj[OF d(1)] assms(2) d(2) by (auto simp: set_remove1_eq)
  have "inj_on snd (set run)" using d(1) by (simp add: distinct_map)
  then have "inj_on snd (set (remove1 (ieee, gen) run))" by (rule inj_on_subset) (rule set_remove1_subset)
  then have ds: "distinct (map snd (remove1 (ieee, gen) run))" using d(2) by (simp add: distinct_map)
  have P: "br_pendingDiscovery (disc_end ieee gen b) = (if br_pendingDiscovery b ieee = Some gen then (br_pendingDiscovery b)(ieee := None) else br_pendingDiscovery b)"
    "br_discoveryGen (disc_end ieee gen b) = br_pendingDiscovery (disc_end ieee gen b)"
    "br_nextDiscGen (disc_end ieee gen b) = br_nextDiscGen b" "set (br_cancelled (disc_end ieee gen b)) = insert gen (set (br_cancelled b))"
    using I d3 by (auto simp: disc_end_def Let_def split: option.splits)
  have a: "br_pendingDiscovery b i = Some g \<longleftrightarrow> (i, g) \<in> set run \<and> g \<notin> set (br_cancelled b)" for i g using I by blast
  note j = run_inj[OF conjunct1[OF conjunct2[OF conjunct2[OF I]]]]
  have iff: "br_pendingDiscovery (disc_end ieee gen b) i = Some g \<longleftrightarrow>
      (i, g) \<in> set (remove1 (ieee, gen) run) \<and> g \<notin> set (br_cancelled (disc_end ieee gen b))" for i g
    unfolding P(1,4) s by (rule live_end[OF a j assms(2)])
  have "\<forall>g \<in> snd ` set (remove1 (ieee, gen) run) \<union> set (br_cancelled (disc_end ieee gen b)). 0 < unat g \<and> unat g \<le> k"
    using I assms(2) unfolding P s by force
  moreover have "map_of (remove1 (ieee, gen) run) i = Some g" if "br_pendingDiscovery (disc_end ieee gen b) i = Some g" for i g
    using that I unfolding P(1) by (intro map_of_remove1) (auto split: if_splits)
  ultimately show ?thesis unfolding disc_inv_iff using I P(2,3) ds iff by simp
qed

lemma disc_reach_inv: "disc_reach env k b run \<Longrightarrow> k < 2 ^ 64 \<Longrightarrow> disc_inv k (disc_part b) run"
proof (induction rule: disc_reach.induct)
  case (start px out)
  show ?case by (cases out) (simp_all add: NewBridge_def new_bridge_def disc_inv_def disc_part_def)
next
  case (begins k b run ieee gen b')
  then show ?case using disc_inv_begin by simp
next
  case (tick k b run st ieee)
  have "disc_part (snd (disc_tick env st ieee b)) = disc_part b"
    by (auto simp: disc_tick_def subscribeDeviceCommands_def split: sum.split)
  then show ?case using tick by simp
next
  case (ends k b run ieee gen)
  then show ?case using disc_inv_end by simp
next
  case (event k b run st)
  then show ?case by (simp add: disc_part_event)
next
  case (enq k b run ev)
  then show ?case by (simp add: enqueueEvent_def)
next
  case (conn k b run st b')
  then have "disc_part b' = disc_part b" by (auto simp: onConnect_def publishBridgeState_def split: if_splits)
  then show ?case using conn by simp
next
  case (cmd k b run ieee kvs c)
  then show ?case by (simp add: disc_part_cmd)
qed

text \<open>
  C13: however announces, discoveries, events, commands and reconnections interleave, at most one delayed discovery of a
  device is alive (its context not cancelled), it is the one last begun among those of the device that have not ended, and it is the
  registered one, so no cancel function is lost and a discovery that ends never removes the registration of its successor. A further announce
  cancels every discovery of the device that has not ended, and its own is then the one alive and registered.
  (The bound is that of the generation counter.)
\<close>

theorem single_discovery:
  assumes "disc_reach env k b run" "Suc k < 2 ^ 64"
  shows "(br_pendingDiscovery b ieee = Some gen \<longleftrightarrow> (ieee, gen) \<in> set run \<and> gen \<notin> set (br_cancelled b))
     \<and> card {g. (ieee, g) \<in> set run \<and> g \<notin> set (br_cancelled b)} \<le> 1
     \<and> br_discoveryGen b = br_pendingDiscovery b
     \<and> (br_pendingDiscovery b ieee = Some gen \<longrightarrow> map_of run ieee = Some gen)
     \<and> (\<forall>new b'. disc_begin ieee b = (new, b') \<longrightarrow> (\<forall>g. (ieee, g) \<notin> set run \<or> g \<noteq> new) \<and> new \<notin> set (br_cancelled b')
          \<and> br_pendingDiscovery b' ieee = Some new \<and> (\<forall>g. (ieee, g) \<in> set run \<longrightarrow> g \<in> set (br_cancelled b')))"
proof -
  have "k < 2 ^ 64" using assms(2) by simp
  note inv = disc_reach_inv[OF assms(1) this]
  note I = inv[unfolded disc_inv_iff]
  then have a: "br_pendingDiscovery b i = Some g \<longleftrightarrow> (i, g) \<in> set run \<and> g \<notin> set (br_cancelled b)" for i g by blast
  have "{g. (ieee, g) \<in> set run \<and> g \<notin> set (br_cancelled b)} = set_option (br_pendingDiscovery b ieee)"
    unfolding a[symmetric] by auto
  moreover have "card (set_option x) \<le> 1" for x :: "u64 option" by (cases x) simp_all
  ultimately have 1: "card {g. (ieee, g) \<in> set run \<and> g \<notin> set (br_cancelled b)} \<le> 1" by metis
  have 2: "(\<forall>g. (ieee, g) \<notin> set run \<or> g \<noteq> new) \<and> new \<notin> set (br_cancelled b') \<and> br_pendingDiscovery b' ieee = Some new
      \<and> (\<forall>g. (ieee, g) \<in> set run \<longrightarrow> g \<in> set (br_cancelled b'))" if n: "disc_begin ieee b = (new, b')" for new b'
  proof -
    note J = disc_inv_begin[OF inv n assms(2), unfolded disc_inv_iff] and F = disc_begin_fields[OF n]
    have p: "br_pendingDiscovery b' ieee = Some new" using F by simp
    then have "new \<notin> set (br_cancelled b')" using J by blast
    moreover have "(ieee, g) \<notin> set run \<or> g \<noteq> new" for g using J by (auto simp: image_iff)
    ultimately show ?thesis using p J by fastforce
  qed
  have 3: "br_pendingDiscovery b ieee = Some gen \<Longrightarrow> map_of run ieee = Some gen" "br_discoveryGen b = br_pendingDiscovery b" using I by simp_all
  show ?thesis by (intro conjI allI impI a 1 3) (use 2 in \<open>blast+\<close>)
qed

theorem single_discovery_witness:
  "\<exists>env b. disc_reach env 2 b [(''0A'', 2), (''0A'', 1)] \<and> br_pendingDiscovery b ''0A'' = Some 2 \<and> 1 \<in> set (br_cancelled b)"
proof -
  let ?b0 = "snd (NewBridge ''zb'' ConnOk)"
  obtain g1 b1 where b1: "disc_begin ''0A'' ?b0 = (g1, b1)" by (metis prod.collapse)
  obtain g2 b2 where b2: "disc_begin ''0A'' b1 = (g2, b2)" by (metis prod.collapse)
  have g: "g1 = 1" "g2 = 2"
    using disc_begin_fields[OF b1] disc_begin_fields[OF b2] by (auto simp: NewBridge_def new_bridge_def)
  have r: "disc_reach undefined 2 b2 [(''0A'', 2), (''0A'', 1)]"
    using disc_reach.begins[OF disc_reach.begins[OF disc_reach.start b1] b2] g by (simp add: numeral_2_eq_2)
  have "br_pendingDiscovery b2 ''0A'' = Some 2" using disc_begin_fields[OF b2] g by simp
  moreover have "1 \<in> set (br_cancelled b2)" using disc_begin_fields[OF b2] disc_begin_fields[OF b1] g by simp
  ultimately show ?thesis using r single_discovery[OF r, of "''0A''" 2] by blast
qed

section \<open>Commands\<close>

lemma f64_trunc_254: "f64_trunc 0x406FC00000000000 = 254"
  by (simp add: f64_trunc_def f64_neg_def f64_mant_def f64_e2_def f64_exp_nat f64_frac_nat scale_trunc_def bit_iff_odd)

lemma brightness_range:
  assumes "\<not> f64_is_nan f"
  shows "uint (brightness_level f) = max 0 (min 254 (f64_trunc f))"
proof -
  have u: "uint (word_of_int i :: byte) = i" if "0 \<le> i" "i \<le> 254" for i using that by (simp add: uint_word_of_int)
  have c: "\<not> f64_neg 0x406FC00000000000" by (simp add: f64_neg_def bit_iff_odd)
  have z: "f64_trunc 0 = 0" "\<not> f64_gt254 0" "\<not> f64_is_nan 0"
    by (simp_all add: f64_trunc_def f64_mant_def f64_exp_nat f64_frac_nat scale_trunc_def f64_neg_def f64_gt254_def f64_is_nan_def)
  consider (neg) "f64_neg f" "\<not> f64_is_zero f" | (zero) "f64_neg f" "f64_is_zero f" | (big) "f64_gt254 f" | (ok) "\<not> f64_neg f" "\<not> f64_gt254 f" by blast
  then show ?thesis
  proof cases
    case neg
    then have "f64_trunc f \<le> 0" by (simp add: f64_trunc_def)
    then show ?thesis using neg assms z by (simp add: brightness_level_def f64_lt0_def Let_def)
  next
    case zero
    then have "f64_trunc f = 0" by (simp add: f64_trunc_def f64_is_zero_def f64_mant_def scale_trunc_def)
    then show ?thesis using zero by (simp add: brightness_level_def f64_lt0_def f64_gt254_def Let_def)
  next
    case big
    then have "254 \<le> f64_trunc f" using f64_trunc_mono[of "0x406FC00000000000" f] c f64_trunc_254 by (simp add: f64_gt254_def order.strict_implies_order)
    then show ?thesis using big f64_trunc_254 u[of 254] by (simp add: brightness_level_def f64_lt0_def f64_gt254_def Let_def)
  next
    case ok
    then have "f \<le> 0x406FC00000000000" using assms by (simp add: f64_gt254_def)
    then have "0 \<le> f64_trunc f \<and> f64_trunc f \<le> 254" using f64_trunc_mono[OF _ ok(1) c] f64_trunc_254 by simp
    then show ?thesis using ok u[of "f64_trunc f"] by (simp add: brightness_level_def f64_lt0_def Let_def)
  qed
qed

lemma must_sent: "must e k p l = (r, l') \<Longrightarrow> l_sent l' = l_sent l @ [(k, p)]"
  by (auto simp: must_def request_def split: outcome.splits)

lemma send_spec:
  assumes "SendClusterCommand short ep cid k pl c = (r, c')"
  shows "\<exists>sq. l_sent (co_link c') = l_sent (co_link c) @
       [(zbossCmdAPSDEDataReq, buildAPSDEDataReq short ep 1 cid zclProfileHA 30 (zclBuildClusterCommand sq k pl))]
     \<and> co_dm c' = co_dm c"
proof -
  have "SendCommand short ep cid k pl (co_link c) = (r, co_link c')" "co_dm c' = co_dm c"
    using on_link_eq[OF assms[unfolded SendClusterCommand_def]] by auto
  then show ?thesis using must_sent by (fastforce simp: SendCommand_def link_zclSeq_def Let_def)
qed

text \<open>The request for a command: cluster \<open>cid\<close> of the device, on the endpoint that serves it.\<close>

definition cluster_request :: "Device \<Rightarrow> u16 \<Rightarrow> byte \<Rightarrow> bytes \<Rightarrow> byte \<Rightarrow> u16 \<times> bytes" where
  "cluster_request dev cid k pl sq = (zbossCmdAPSDEDataReq,
     buildAPSDEDataReq (dev_ShortAddress dev) (findEndpointWithCluster dev cid) 1 cid zclProfileHA 30 (zclBuildClusterCommand sq k pl))"

text \<open>What a command asks for, by the names and identifiers of the ZCL's On/Off cluster: \<open>spelled s u\<close> says that \<open>s\<close> is the word
  \<open>u\<close>, with any of its letters in lower case. The level is the integer part of the number, limited to 0 and 254.\<close>

definition spelled :: "string \<Rightarrow> string \<Rightarrow> bool" where
  "spelled s u \<longleftrightarrow> list_all2 (\<lambda>c d. c = d \<or> CHR ''A'' \<le> d \<and> d \<le> CHR ''Z'' \<and> (of_char c :: nat) = of_char d + 32) s u"

definition zcl_on_off :: "(string \<times> byte \<times> string option) list" where
  "zcl_on_off = [(''OFF'', 0, Some ''OFF''), (''ON'', 1, Some ''ON''), (''TOGGLE'', 2, None)]"

definition wanted_switch :: "(string \<times> gval) list \<Rightarrow> (byte \<times> string option) option" where
  "wanted_switch kvs =
     (case map_of kvs ''state'' of
        Some (GStr s) \<Rightarrow> map_option snd (List.find (\<lambda>w. spelled s (fst w)) zcl_on_off)
      | _ \<Rightarrow> None)"

definition wanted_level :: "go_fp \<Rightarrow> (string \<times> gval) list \<Rightarrow> byte option" where
  "wanted_level fp kvs = map_option (\<lambda>f. word_of_int (max 0 (min 254 (f64_trunc f)))) (toFloat64 fp (val_of kvs ''brightness''))"

lemma spelled_upper:
  assumes "list_all (\<lambda>d. \<not> (97 \<le> (of_char d :: nat) \<and> (of_char d :: nat) \<le> 122)) u"
  shows "ascii_upper s = u \<longleftrightarrow> spelled s u"
proof -
  let ?up = "\<lambda>c. if 97 \<le> (of_char c :: nat) \<and> (of_char c :: nat) \<le> 122 then char_of ((of_char c :: nat) - 32) else c"
  let ?R = "\<lambda>c d. c = d \<or> CHR ''A'' \<le> d \<and> d \<le> CHR ''Z'' \<and> (of_char c :: nat) = of_char d + 32"
  have c: "?up c = d \<longleftrightarrow> ?R c d" if "\<not> (97 \<le> (of_char d :: nat) \<and> (of_char d :: nat) \<le> 122)" for c d
    using that by (auto simp: char_of_eq_iff take_bit_nat_eq_self less_eq_char_def)
  show ?thesis using assms unfolding spelled_def ascii_upper_def
  proof (induction u arbitrary: s)
    case (Cons d u)
    show ?case
    proof (cases s)
      case (Cons e s')
      have "map ?up s' = u \<longleftrightarrow> list_all2 ?R s' u" by (rule Cons.IH) (use Cons.prems in simp)
      then show ?thesis using c[of d e] Cons.prems Cons by simp
    qed simp
  qed simp
qed

lemma on_off_spelled: "on_off_command s = map_option snd (List.find (\<lambda>w. spelled s (fst w)) zcl_on_off)"
proof -
  have u: "spelled s ''ON'' \<longleftrightarrow> ascii_upper s = ''ON''" "spelled s ''OFF'' \<longleftrightarrow> ascii_upper s = ''OFF''"
    "spelled s ''TOGGLE'' \<longleftrightarrow> ascii_upper s = ''TOGGLE''"
    by (subst spelled_upper; simp)+
  show ?thesis by (simp add: on_off_command_def zcl_on_off_def u)
qed

text \<open>A request of the coordinator, with whether the NCP accepted it.\<close>

lemma send_traced:
  assumes "SendClusterCommand (dev_ShortAddress dev) (findEndpointWithCluster dev cid) cid k pl c = (r, c')"
  shows "\<exists>sq. traced (co_link c) [(cluster_request dev cid k pl sq, \<not> isl r)] (co_link c') \<and> co_dm c' = co_dm c"
proof -
  let ?p = "\<lambda>sq. buildAPSDEDataReq (dev_ShortAddress dev) (findEndpointWithCluster dev cid) 1 cid zclProfileHA 30 (zclBuildClusterCommand sq k pl)"
  have m: "SendCommand (dev_ShortAddress dev) (findEndpointWithCluster dev cid) cid k pl (co_link c) = (r, co_link c')" "co_dm c' = co_dm c"
    using on_link_eq[OF assms[unfolded SendClusterCommand_def]] by auto
  obtain sq l where z: "link_zclSeq (co_link c) = (sq, l)" by (metis prod.collapse)
  then have "must () zbossCmdAPSDEDataReq (?p sq) l = (r, co_link c')" using m(1) by (simp add: SendCommand_def)
  then obtain ou where o: "request zbossCmdAPSDEDataReq (?p sq) l = (ou, co_link c')" "\<not> isl r \<longleftrightarrow> (\<exists>f. ou = Reply f)"
    by (cases "request zbossCmdAPSDEDataReq (?p sq) l") (auto simp: must_def split: outcome.splits)
  have "traced (co_link c) [(cluster_request dev cid k pl sq, \<not> isl r)] (co_link c')"
    using request_traced[OF o(1)] z unfolding o(2) by (auto simp: link_zclSeq_def traced_def cluster_request_def)
  then show ?thesis using m(2) by blast
qed

text \<open>The two parts of a command: what is sent, and what is shown when it was accepted.\<close>

definition switch_trace :: "Device \<Rightarrow> (byte \<times> string option) option \<Rightarrow> byte \<Rightarrow> bool \<Rightarrow> request_trace" where
  "switch_trace dev sw sq ok = (case sw of None \<Rightarrow> [] | Some (k, t) \<Rightarrow> [(cluster_request dev 0x0006 k [] sq, ok)])"

definition level_trace :: "Device \<Rightarrow> byte option \<Rightarrow> byte \<Rightarrow> bool \<Rightarrow> request_trace" where
  "level_trace dev lv sq ok = (case lv of None \<Rightarrow> [] | Some v \<Rightarrow> [(cluster_request dev 0x0008 0x04 [v, 5, 0] sq, ok)])"

definition show_switch :: "mqtt_env \<Rightarrow> bolt \<Rightarrow> string \<Rightarrow> (byte \<times> string option) option \<Rightarrow> bool \<Rightarrow> bridge \<Rightarrow> bridge" where
  "show_switch env st ieee sw ok b =
     (case sw of Some (k, Some t) \<Rightarrow> if ok then updateAndPublishState env st ieee ''state'' (GStr t) b else b | _ \<Rightarrow> b)"

definition show_level :: "mqtt_env \<Rightarrow> bolt \<Rightarrow> string \<Rightarrow> byte option \<Rightarrow> bool \<Rightarrow> bridge \<Rightarrow> bridge" where
  "show_level env st ieee lv ok b =
     (case lv of
        Some v \<Rightarrow> if ok then updateAndPublishState env st ieee ''color_mode'' (GStr ''brightness'')
                         (updateAndPublishState env st ieee ''brightness'' (GU8 v) b) else b
      | None \<Rightarrow> b)"

lemma state_command_spec:
  assumes "state_command env ieee dev kvs (c, b) = (c', b')"
  shows "\<exists>sq ok. traced (co_link c) (switch_trace dev (wanted_switch kvs) sq ok) (co_link c') \<and> co_dm c' = co_dm c
    \<and> b' = show_switch env (dm_store (co_dm c)) ieee (wanted_switch kvs) ok b"
proof (cases "wanted_switch kvs")
  case None
  then have "c' = c \<and> b' = b" using assms by (auto simp: state_command_def wanted_switch_def on_off_spelled split: option.splits gval.splits)
  then show ?thesis using None by (simp add: switch_trace_def show_switch_def traced_Nil)
next
  case (Some kt)
  obtain k t where kt: "kt = (k, t)" by (cases kt)
  obtain s where s: "map_of kvs ''state'' = Some (GStr s)" "on_off_command s = Some (k, t)"
    using Some kt by (auto simp: wanted_switch_def on_off_spelled split: option.splits gval.splits)
  obtain r c1 where r: "SendClusterCommand (dev_ShortAddress dev) (findEndpointWithCluster dev 0x0006) 0x0006 k [] c = (r, c1)"
    by (metis prod.collapse)
  obtain sq where q: "traced (co_link c) [(cluster_request dev 0x0006 k [] sq, \<not> isl r)] (co_link c1)" "co_dm c1 = co_dm c"
    using send_traced[OF r] by blast
  have "c' = c1" "b' = show_switch env (dm_store (co_dm c)) ieee (Some (k, t)) (\<not> isl r) b"
    using assms s r q(2) by (auto simp: state_command_def show_switch_def split: sum.splits option.splits)
  then show ?thesis using q Some kt by (auto simp: switch_trace_def)
qed

lemma brightness_command_spec:
  assumes "brightness_command env ieee dev kvs (c, b) = (c', b')"
    "\<And>f. toFloat64 (me_fp env) (val_of kvs ''brightness'') = Some f \<Longrightarrow> \<not> f64_is_nan f"
  shows "\<exists>sq ok. traced (co_link c) (level_trace dev (wanted_level (me_fp env) kvs) sq ok) (co_link c') \<and> co_dm c' = co_dm c
    \<and> b' = show_level env (dm_store (co_dm c)) ieee (wanted_level (me_fp env) kvs) ok b"
proof (cases "toFloat64 (me_fp env) (val_of kvs ''brightness'')")
  case None
  then show ?thesis using assms by (simp add: brightness_command_def wanted_level_def level_trace_def show_level_def traced_Nil)
next
  case (Some f)
  have lv: "brightness_level f = word_of_int (max 0 (min 254 (f64_trunc f)))"
    using brightness_range[OF assms(2)[OF Some]] by (metis word_of_int_uint)
  obtain r c1 where r: "SendClusterCommand (dev_ShortAddress dev) (findEndpointWithCluster dev 0x0008) 0x0008 0x04
      [brightness_level f, 0x05, 0x00] c = (r, c1)" by (metis prod.collapse)
  obtain sq where q: "traced (co_link c) [(cluster_request dev 0x0008 0x04 [brightness_level f, 5, 0] sq, \<not> isl r)] (co_link c1)" "co_dm c1 = co_dm c"
    using send_traced[OF r] by blast
  have "c' = c1" "b' = show_level env (dm_store (co_dm c)) ieee (Some (brightness_level f)) (\<not> isl r) b"
    using assms(1) Some r q(2) by (auto simp: brightness_command_def show_level_def Let_def split: sum.splits)
  then show ?thesis using q Some by (auto simp: level_trace_def wanted_level_def lv)
qed

lemma find_serves:
  assumes "ep \<in> set (dev_Endpoints dev)" "cid \<in> set (ep_InClusters ep)"
  shows "\<exists>ep \<in> set (dev_Endpoints dev). ep_ID ep = findEndpointWithCluster dev cid \<and> cid \<in> set (ep_InClusters ep)"
proof -
  have "List.find (\<lambda>ep. cid \<in> set (ep_InClusters ep)) (dev_Endpoints dev) \<noteq> None" using assms by (auto simp: find_None_iff)
  then obtain e where e: "List.find (\<lambda>ep. cid \<in> set (ep_InClusters ep)) (dev_Endpoints dev) = Some e" by blast
  from e have "e \<in> set (dev_Endpoints dev)" "cid \<in> set (ep_InClusters e)" by (auto simp: find_Some_iff)
  then show ?thesis using e by (auto simp: findEndpointWithCluster_def)
qed

text \<open>
  C11: a command from the broker becomes exactly the requests it asks for. Its state (the name of a command of the On/Off cluster, in any case of
  letters) gives one request with that command's identifier, and its brightness one move-to-level request with the integer part of the number,
  limited to 0 and 254; in this order and nothing else, whatever the NCP answers. Each
  goes to an endpoint that serves the cluster, if the device has one. What is shown to the broker follows the answers: \<open>ON\<close> or
  \<open>OFF\<close> exactly if the first request was accepted, the level and then the colour mode exactly if the second was, nothing else; the
  store is not changed. (JSON has no NaN.)
\<close>

theorem mqtt_command:
  assumes "GetDevice ieee (dm_store (co_dm c)) = Inr dev" "dev_Endpoints dev \<noteq> []" "handleCommand env ieee (Some kvs) (c, b) = (c', b')"
    "\<And>f. toFloat64 (me_fp env) (val_of kvs ''brightness'') = Some f \<Longrightarrow> \<not> f64_is_nan f"
    "sw = wanted_switch kvs" "lv = wanted_level (me_fp env) kvs" "st = dm_store (co_dm c)"
  shows "(\<exists>sq1 sq2 ok1 ok2. traced (co_link c) (switch_trace dev sw sq1 ok1 @ level_trace dev lv sq2 ok2) (co_link c')
       \<and> b' = show_level env st ieee lv ok2 (show_switch env st ieee sw ok1 b))
    \<and> ((\<exists>ep \<in> set (dev_Endpoints dev). cid \<in> set (ep_InClusters ep)) \<longrightarrow>
        (\<exists>ep \<in> set (dev_Endpoints dev). ep_ID ep = findEndpointWithCluster dev cid \<and> cid \<in> set (ep_InClusters ep)))
    \<and> co_dm c' = co_dm c"
proof -
  obtain c1 b1 where s: "state_command env ieee dev kvs (c, b) = (c1, b1)" by (metis prod.collapse)
  then have t: "brightness_command env ieee dev kvs (c1, b1) = (c', b')" using assms by (simp add: handleCommand_def)
  obtain sq1 ok1 where 1: "traced (co_link c) (switch_trace dev sw sq1 ok1) (co_link c1)" "co_dm c1 = co_dm c"
    "b1 = show_switch env st ieee sw ok1 b" using state_command_spec[OF s] assms(5,7) by blast
  obtain sq2 ok2 where 2: "traced (co_link c1) (level_trace dev lv sq2 ok2) (co_link c')" "co_dm c' = co_dm c1"
    "b' = show_level env (dm_store (co_dm c1)) ieee lv ok2 b1" using brightness_command_spec[OF t assms(4)] assms(6) by blast
  show ?thesis using traced_append[OF 1(1) 2(1)] 1(2,3) 2(2,3) assms(7) find_serves[of _ dev cid] by auto
qed

section \<open>Discovery and state\<close>

definition payload_field :: "string \<Rightarrow> payload \<Rightarrow> gval option" where
  "payload_field k p = (case p of Json (GMap kvs) \<Rightarrow> map_of kvs k | _ \<Rightarrow> None)"

lemma those_all: "(\<And>x. x \<in> set xs \<Longrightarrow> f x = Some (g x)) \<Longrightarrow> those (map f xs) = Some (map g xs)"
  by (induction xs) auto

lemma json_map_ok:
  assumes "\<And>k v. (k, v) \<in> set kvs \<Longrightarrow> json_value js v \<noteq> None"
  shows "json_value js (GMap kvs) = Some (GMap (map (\<lambda>kv. (fst kv, the (json_value js (snd kv)))) kvs))"
proof -
  have "those (map (\<lambda>kv. map_option (Pair (fst kv)) (json_value js (snd kv))) kvs) = Some (map (\<lambda>kv. (fst kv, the (json_value js (snd kv)))) kvs)"
  proof (rule those_all)
    fix x assume "x \<in> set kvs"
    then have "json_value js (snd x) \<noteq> None" using assms[of "fst x" "snd x"] by simp
    then show "map_option (Pair (fst x)) (json_value js (snd x)) = Some (fst x, the (json_value js (snd x)))" by auto
  qed
  then show ?thesis by simp
qed

lemma map_of_json: "map_of (map (\<lambda>kv. (fst kv, the (json_value js (snd kv)))) kvs) k = map_option (\<lambda>v. the (json_value js v)) (map_of kvs k)"
  by (induction kvs) auto

lemma json_strs: "json_value js (GList (map GStr ss)) = Some (GList (map (\<lambda>s. GStr (json_string s)) ss))"
  using those_all[of ss "\<lambda>s. json_value js (GStr s)" "\<lambda>s. GStr (json_string s)"] by (simp add: o_def)

lemma json_str_field: "(k, v) \<in> set (str_field k' s) \<Longrightarrow> json_value js v \<noteq> None"
  by (auto simp: str_field_def split: if_splits)

lemma json_device_ok: "json_value js (haDevice_json d) \<noteq> None"
proof -
  have "json_value js v \<noteq> None" if "(k, v) \<in> set ([(''identifiers'', GList (map GStr (ha_Identifiers d)))]
     @ str_field ''manufacturer'' (ha_Manufacturer d) @ str_field ''model'' (ha_Model d) @ [(''name'', GStr (ha_DevName d))])" for k v
    using that json_str_field[of k v] json_strs by (auto simp del: json_value.simps(17))
  then show ?thesis unfolding haDevice_json_def by (subst json_map_ok) simp_all
qed

text \<open>Every discovery payload is an object and carries its topics.\<close>

lemma discovery_payload:
  "payload_field ''state_topic'' (mustJSON js (haDiscovery_json h)) = Some (GStr (json_string (ha_StateTopic h)))"
  "payload_field ''command_topic'' (mustJSON js (haDiscovery_json h)) =
     (if ha_CommandTopic h = [] then None else Some (GStr (json_string (ha_CommandTopic h))))"
proof -
  obtain kvs where kvs: "haDiscovery_json h = GMap kvs" by (simp add: haDiscovery_json_def)
  have ok: "json_value js v \<noteq> None" if "(k, v) \<in> set kvs" for k v
    using that kvs json_str_field[of k v] json_strs json_device_ok unfolding haDiscovery_json_def
    by (auto simp del: json_value.simps(17) split: if_splits)
  have "mustJSON js (haDiscovery_json h) = Json (GMap (map (\<lambda>kv. (fst kv, the (json_value js (snd kv)))) kvs))"
    unfolding kvs mustJSON_def by (subst json_map_ok[OF ok]) simp_all
  moreover have "map_of kvs ''state_topic'' = Some (GStr (ha_StateTopic h))"
    "map_of kvs ''command_topic'' = (if ha_CommandTopic h = [] then None else Some (GStr (ha_CommandTopic h)))"
    using kvs by (auto simp: haDiscovery_json_def str_field_def)
  ultimately show "payload_field ''state_topic'' (mustJSON js (haDiscovery_json h)) = Some (GStr (json_string (ha_StateTopic h)))"
    "payload_field ''command_topic'' (mustJSON js (haDiscovery_json h)) =
     (if ha_CommandTopic h = [] then None else Some (GStr (json_string (ha_CommandTopic h))))"
    by (simp_all add: payload_field_def map_of_json)
qed

lemma buildDiscovery_payloads:
  assumes "m \<in> set (buildDiscovery js dev px)"
  shows "payload_field ''state_topic'' (msg_Payload m) = Some (GStr (json_string (px @ ''/'' @ deviceTopicName dev)))
     \<and> payload_field ''command_topic'' (msg_Payload m) \<in> {None, Some (GStr (json_string (px @ ''/'' @ deviceTopicName dev @ ''/set'')))}"
proof -
  have f: "payload_field k (msg_Payload (buildSensor js nid dn st av dvc ob sf dc un sc vt)) =
      payload_field k (mustJSON js (haDiscovery_json (no_discovery\<lparr>ha_Name := dn @ '' '' @ sf, ha_UniqueID := nid @ ''_'' @ ob, ha_StateTopic := st,
         ha_AvailabilityTopic := av, ha_ValueTemplate := vt, ha_UnitOfMeasurement := un,
         ha_DeviceClass := dc, ha_StateClass := sc, ha_Device := dvc\<rparr>)))" for k nid dn st av dvc ob sf dc un sc vt
    by (simp add: buildSensor_def)
  have s: "payload_field ''state_topic'' (msg_Payload (buildSensor js nid dn st av dvc ob sf dc un sc vt)) = Some (GStr (json_string st))"
    "payload_field ''command_topic'' (msg_Payload (buildSensor js nid dn st av dvc ob sf dc un sc vt)) = None" for nid dn st av dvc ob sf dc un sc vt
    unfolding f discovery_payload by (simp_all add: no_discovery_def)
  have b: "payload_field ''state_topic'' (msg_Payload (buildBinarySensor js nid dn st av dvc ob sf dc vt)) = Some (GStr (json_string st))"
    "payload_field ''command_topic'' (msg_Payload (buildBinarySensor js nid dn st av dvc ob sf dc vt)) = None" for nid dn st av dvc ob sf dc vt
    unfolding buildBinarySensor_def discoveryMsg.select_convs discovery_payload by (simp_all add: no_discovery_def)
  have l: "payload_field ''state_topic'' (msg_Payload (buildLight js nid dn st av dvc px dev)) = Some (GStr (json_string st))"
    "payload_field ''command_topic'' (msg_Payload (buildLight js nid dn st av dvc px dev)) = Some (GStr (json_string (px @ ''/'' @ deviceTopicName dev @ ''/set'')))"
    "payload_field ''state_topic'' (msg_Payload (buildSwitch js nid dn st av dvc px dev)) = Some (GStr (json_string st))"
    "payload_field ''command_topic'' (msg_Payload (buildSwitch js nid dn st av dvc px dev)) = Some (GStr (json_string (px @ ''/'' @ deviceTopicName dev @ ''/set'')))"
    for nid dn st av dvc
    unfolding buildLight_def buildSwitch_def discoveryMsg.select_convs discovery_payload by (simp_all add: no_discovery_def)
  define Q where "Q m \<longleftrightarrow> payload_field ''state_topic'' (msg_Payload m) = Some (GStr (json_string (px @ ''/'' @ deviceTopicName dev)))
     \<and> payload_field ''command_topic'' (msg_Payload m) \<in> {None, Some (GStr (json_string (px @ ''/'' @ deviceTopicName dev @ ''/set'')))}" for m :: discoveryMsg
  have q: "Q (buildSensor js nid dn (px @ ''/'' @ deviceTopicName dev) av dvc ob sf dc un sc vt)"
    "Q (buildBinarySensor js nid dn (px @ ''/'' @ deviceTopicName dev) av dvc ob sf dc vt)"
    "Q (buildLight js nid dn (px @ ''/'' @ deviceTopicName dev) av dvc px dev)"
    "Q (buildSwitch js nid dn (px @ ''/'' @ deviceTopicName dev) av dvc px dev)" for nid dn av dvc ob sf dc un sc vt
    by (simp_all only: Q_def s b l) simp_all
  have i: "list_all Q (if c then xs else ys) = (if c then list_all Q xs else list_all Q ys)" for c xs ys by simp
  have "list_all Q (buildDiscovery js dev px)"
    unfolding buildDiscovery_def Let_def i list_all_append list.pred_inject by (simp only: q if_cancel simp_thms list.pred_inject)
  then show ?thesis using assms unfolding list_all_iff Q_def by blast
qed

text \<open>
  C33: what is announced is what is published. When a delayed discovery finds its device interviewed, every message it
  publishes names as state topic the very topic on which each later state of the device is published, also if the
  device is renamed or removed in between, and the bridge subscribes to the very command topic that the light or
  switch announces.
\<close>

theorem discovery_matches_state:
  assumes "GetDevice ieee st = Inr dev" "dev_Interviewed dev" "dev_IEEEAddress dev = ieee" "disc_tick env st ieee b = (ov, b1)"
    "b2 = updateAndPublishState env st' ieee pn v b1" "stt = br_prefix b @ ''/'' @ deviceTopicName dev"
  shows "ov \<and> (\<exists>ms p. br_out b2 = br_out b @ map (\<lambda>m. (msg_Topic m, msg_Payload m, True)) ms @ [(stt, p, True)]
      \<and> ms = buildDiscovery (me_js env) dev (br_prefix b)
      \<and> payload_field ''state_topic'' ` msg_Payload ` set ms \<subseteq> {Some (GStr (json_string stt))}
      \<and> payload_field ''command_topic'' ` msg_Payload ` set ms \<subseteq> {None, Some (GStr (json_string (stt @ ''/set'')))})
    \<and> br_subs b2 = br_subs b @ [(stt @ ''/set'', ieee)]"
proof -
  let ?ms = "buildDiscovery (me_js env) dev (br_prefix b)"
  have b1: "ov" "br_out b1 = br_out b @ map (\<lambda>m. (msg_Topic m, msg_Payload m, True)) ?ms"
    "br_subs b1 = br_subs b @ [(stt @ ''/set'', ieee)]" "br_topicNames b1 ieee = Some (deviceTopicName dev)" "br_prefix b1 = br_prefix b"
    using assms(1-4,6) by (auto simp: disc_tick_def subscribeDeviceCommands_def publishDeviceDiscovery_def publish_all_out)
  obtain n b' where c: "cachedTopicName st' ieee (b1\<lparr>br_states := (br_states b1)(ieee \<mapsto> updateState env st' ieee pn v (br_state ieee b1))\<rparr>) = (n, b')"
    "b2 = publish (br_prefix b1 @ ''/'' @ n) (mustJSON (me_js env) (GMap (updateState env st' ieee pn v (br_state ieee b1)))) True b'"
    "br_out b' = br_out b1" "br_subs b' = br_subs b1"
    using updateAndPublish_spec[OF refl] assms(5) by metis
  have "n = deviceTopicName dev" using c(1) b1(4) by (simp add: cachedTopicName_def)
  then have "br_out b2 = br_out b @ map (\<lambda>m. (msg_Topic m, msg_Payload m, True)) ?ms @
      [(stt, mustJSON (me_js env) (GMap (updateState env st' ieee pn v (br_state ieee b1))), True)]" "br_subs b2 = br_subs b1"
    using c b1 assms(6) by simp_all
  moreover have "payload_field ''state_topic'' ` msg_Payload ` set ?ms \<subseteq> {Some (GStr (json_string stt))}"
    "payload_field ''command_topic'' ` msg_Payload ` set ?ms \<subseteq> {None, Some (GStr (json_string (stt @ ''/set'')))}"
    using assms(6) by (auto dest!: buildDiscovery_payloads)
  ultimately show ?thesis using b1(1,3) by (intro conjI exI[of _ ?ms] exI) simp_all
qed

section \<open>Instances\<close>

definition demo_mqtt :: mqtt_env where
  "demo_mqtt = \<lparr>me_js = (\<lambda>_. 0), me_fp = zero_fp, me_rfc3339 = (\<lambda>_. ''2024-01-01T00:00:00Z'')\<rparr>"

definition demo_lamp :: Device where
  "demo_lamp = (new_device ''0A'')\<lparr>dev_ShortAddress := 0x1234, dev_FriendlyName := ''Lamp'', dev_Interviewed := True,
     dev_Endpoints := [\<lparr>ep_ID = 1, ep_ProfileID = 0x0104, ep_DeviceID = 0, ep_InClusters = [0], ep_OutClusters = []\<rparr>,
       \<lparr>ep_ID = 11, ep_ProfileID = 0x0104, ep_DeviceID = 0x0101, ep_InClusters = [6, 8], ep_OutClusters = []\<rparr>]\<rparr>"

definition demo_bolt :: bolt where
  "demo_bolt = \<lparr>b_ok = True, b_devices = [(''0A'', demo_lamp)], b_network = None\<rparr>"

lemma demo_get: "GetDevice ''0A'' demo_bolt = Inr demo_lamp" "dev_Interviewed demo_lamp" "dev_IEEEAddress demo_lamp = ''0A''"
  "dev_Endpoints demo_lamp \<noteq> []"
  by (simp_all add: demo_bolt_def GetDevice_def demo_lamp_def new_device_def)

lemma demo_name: "deviceTopicName demo_lamp = ''lamp''"
  by code_simp

theorem nan_blocks_state_witness:
  "\<exists>t. br_out (updateAndPublishState demo_mqtt demo_bolt ''0A'' ''humidity'' (GU8 50)
          (updateAndPublishState demo_mqtt demo_bolt ''0A'' ''pressure'' (GF64 0x7FF8000000000000) (new_bridge ''zb''))) =
     br_out (updateAndPublishState demo_mqtt demo_bolt ''0A'' ''pressure'' (GF64 0x7FF8000000000000) (new_bridge ''zb''))
       @ [(t, Json (GMap []), True)]"
proof -
  have n: "json_value (me_js demo_mqtt) (GF64 0x7FF8000000000000) = None" by (simp add: f64_exp_nat)
  have k: "''pressure'' \<noteq> ''linkquality''" "''pressure'' \<noteq> ''last_seen''" "''pressure'' \<notin> fst ` set [(''humidity'', GU8 50)]" by simp_all
  obtain ts where "length ts = length [(''humidity'', GU8 50)]"
    "br_out (fold (\<lambda>(prop, v). updateAndPublishState demo_mqtt demo_bolt ''0A'' prop v) [(''humidity'', GU8 50)]
        (updateAndPublishState demo_mqtt demo_bolt ''0A'' ''pressure'' (GF64 0x7FF8000000000000) (new_bridge ''zb''))) =
     br_out (updateAndPublishState demo_mqtt demo_bolt ''0A'' ''pressure'' (GF64 0x7FF8000000000000) (new_bridge ''zb''))
       @ map (\<lambda>t. (t, Json (GMap []), True)) ts"
    using nan_blocks_state[OF n k refl refl] by blast
  then show ?thesis by (cases ts) auto
qed

theorem leave_clears_broker_witness:
  "retained (br_out (handleDeviceLeft demo_bolt \<lparr>ev_Type = EventDeviceLeft, ev_Data = GMap [(''ieee'', GStr ''0A'')]\<rparr>
      (snd (disc_tick demo_mqtt demo_bolt ''0A'' (new_bridge ''zb''))))) ''zb/lamp'' = None"
proof -
  obtain ov b where t: "disc_tick demo_mqtt demo_bolt ''0A'' (new_bridge ''zb'') = (ov, b)" by (metis prod.collapse)
  have "br_prefix b = ''zb''" "br_topicNames b ''0A'' = Some ''lamp''"
    using t by (auto simp: disc_tick_def demo_get demo_name subscribeDeviceCommands_def publishDeviceDiscovery_def new_bridge_def)
  then have s: "''zb/lamp'' = br_prefix b @ ''/'' @ fst (cachedTopicName demo_bolt ''0A'' b)" by (simp add: cachedTopicName_def)
  have e: "ev_Data \<lparr>ev_Type = EventDeviceLeft, ev_Data = GMap [(''ieee'', GStr ''0A'')]\<rparr> = GMap [(''ieee'', GStr ''0A'')]"
    "str_of [(''ieee'', GStr ''0A'')] ''ieee'' = ''0A''" "''0A'' \<noteq> []" by (simp_all add: str_of_def)
  from leave_clears_broker[OF e refl demo_get(3) s, of "\<lambda>_. 0" "''zb''" "[]"] show ?thesis unfolding t snd_conv by blast
qed

theorem discovery_matches_state_witness:
  "\<exists>(ms :: discoveryMsg list) p. br_out (updateAndPublishState demo_mqtt demo_bolt ''0A'' ''state'' (GStr ''ON'') (snd (disc_tick demo_mqtt demo_bolt ''0A'' (new_bridge ''zb'')))) =
      map (\<lambda>m. (msg_Topic m, msg_Payload m, True)) ms @ [(''zb/lamp'', p, True)] \<and> ms \<noteq> []
      \<and> payload_field ''state_topic'' ` msg_Payload ` set ms \<subseteq> {Some (GStr (json_string ''zb/lamp''))}"
proof -
  obtain ov b where t: "disc_tick demo_mqtt demo_bolt ''0A'' (new_bridge ''zb'') = (ov, b)" by (metis prod.collapse)
  have s: "''zb/lamp'' = br_prefix (new_bridge ''zb'') @ ''/'' @ deviceTopicName demo_lamp" by (simp add: new_bridge_def demo_name)
  have n: "buildDiscovery (me_js demo_mqtt) demo_lamp (br_prefix (new_bridge ''zb'')) \<noteq> []"
    using demo_get by (simp add: buildDiscovery_def Let_def)
  have o: "br_out (new_bridge ''zb'') = []" by (simp add: new_bridge_def)
  obtain ms p where "br_out (updateAndPublishState demo_mqtt demo_bolt ''0A'' ''state'' (GStr ''ON'') b) =
      map (\<lambda>m. (msg_Topic m, msg_Payload m, True)) ms @ [(''zb/lamp'', p, True)]"
    "ms = buildDiscovery (me_js demo_mqtt) demo_lamp (br_prefix (new_bridge ''zb''))"
    "payload_field ''state_topic'' ` msg_Payload ` set ms \<subseteq> {Some (GStr (json_string ''zb/lamp''))}"
    using discovery_matches_state[OF demo_get(1-3) t refl s, of demo_bolt "''state''" "GStr ''ON''"]
    unfolding o append_Nil by (elim exE conjE) (rule that)
  then show ?thesis using n unfolding t snd_conv by (intro exI[of _ ms] exI[of _ p] conjI) simp_all
qed

theorem mqtt_command_witness:
  "\<exists>c' b' sq1 sq2 ok1 ok2. handleCommand demo_mqtt ''0A'' (Some [(''state'', GStr ''oN''), (''brightness'', GF64 0x4060000000000000)])
       (New (new_ncp all_handlers) (demo_link [Some (demo_frame 0 0 [])]) demo_bolt, new_bridge ''zb'') = (c', b')
     \<and> traced (demo_link [Some (demo_frame 0 0 [])]) [(cluster_request demo_lamp 6 1 [] sq1, ok1), (cluster_request demo_lamp 8 4 [128, 5, 0] sq2, ok2)] (co_link c')
     \<and> b' = show_level demo_mqtt demo_bolt ''0A'' (Some 128) ok2 (show_switch demo_mqtt demo_bolt ''0A'' (Some (1, Some ''ON'')) ok1 (new_bridge ''zb''))
     \<and> findEndpointWithCluster demo_lamp 6 = 11"
proof -
  let ?c = "New (new_ncp all_handlers) (demo_link [Some (demo_frame 0 0 [])]) demo_bolt"
  let ?k = "[(''state'', GStr ''oN''), (''brightness'', GF64 0x4060000000000000)]"
  have d: "dm_store (co_dm ?c) = demo_bolt" by (simp add: New_def RebuildAddrIndex_def NewDeviceManager_def split: sum.split)
  then have g: "GetDevice ''0A'' (dm_store (co_dm ?c)) = Inr demo_lamp" using demo_get(1) by simp
  obtain c' b' where h: "handleCommand demo_mqtt ''0A'' (Some ?k) (?c, new_bridge ''zb'') = (c', b')" by (metis prod.collapse)
  have sp: "spelled ''oN'' ''ON''" "\<not> spelled ''oN'' ''OFF''" by code_simp+
  then have w: "Some (1, Some ''ON'') = wanted_switch ?k" by (simp add: wanted_switch_def zcl_on_off_def)
  have f: "f64_trunc 0x4060000000000000 = 128" "\<not> f64_is_nan 0x4060000000000000"
    by (simp_all add: f64_trunc_def f64_neg_def f64_mant_def f64_e2_def f64_exp_nat f64_frac_nat scale_trunc_def bit_iff_odd f64_is_nan_def)
  have l: "Some 128 = wanted_level (me_fp demo_mqtt) ?k" by (simp add: wanted_level_def val_of_def f)
  have n: "\<not> f64_is_nan x" if "toFloat64 (me_fp demo_mqtt) (val_of ?k ''brightness'') = Some x" for x using that f by (simp add: val_of_def)
  have "co_link ?c = demo_link [Some (demo_frame 0 0 [])]" by (simp add: New_def)
  moreover have "findEndpointWithCluster demo_lamp 6 = 11" by (simp add: findEndpointWithCluster_def demo_lamp_def)
  ultimately show ?thesis using mqtt_command[OF g demo_get(4) h n w l d[symmetric], of 6] h by (auto simp: switch_trace_def level_trace_def)
qed

end
