(* ===== verification/ZCL_Clusters.thy ===== *)
theory ZCL_Clusters
  imports ZCL_Registry ZCL_Types
begin

text \<open>
  The standard clusters, \<^verbatim>\<open>internal/zcl/clusters/\<close>, one definition per variable, in the order in which
  \<^verbatim>\<open>registerStandardClusters\<close> of \<^verbatim>\<open>cmd/zigbee-home/main.go\<close> registers them.
\<close>

abbreviation attr :: "u16 \<Rightarrow> string \<Rightarrow> byte \<Rightarrow> byte \<Rightarrow> AttributeDef" where
  "attr i n t a \<equiv> \<lparr>ad_ID = i, ad_Name = n, ad_Type = t, ad_Access = a\<rparr>"

abbreviation cmd :: "byte \<Rightarrow> string \<Rightarrow> CommandDirection \<Rightarrow> CommandDef" where
  "cmd i n d \<equiv> \<lparr>cd_ID = i, cd_Name = n, cd_Direction = d\<rparr>"

section \<open>Definitions\<close>

definition Basic :: ClusterDef where
  "Basic = \<lparr>cl_ID = 0x0000, cl_Name = ''Basic'',
     cl_Attributes = [
       attr 0x0000 ''ZCLVersion'' TypeUint8 AccessRead,
       attr 0x0001 ''ApplicationVersion'' TypeUint8 AccessRead,
       attr 0x0002 ''StackVersion'' TypeUint8 AccessRead,
       attr 0x0003 ''HWVersion'' TypeUint8 AccessRead,
       attr 0x0004 ''ManufacturerName'' TypeCharStr AccessRead,
       attr 0x0005 ''ModelIdentifier'' TypeCharStr AccessRead,
       attr 0x0006 ''DateCode'' TypeCharStr AccessRead,
       attr 0x0007 ''PowerSource'' TypeEnum8 AccessRead,
       attr 0x4000 ''SWBuildID'' TypeCharStr AccessRead],
     cl_Commands = [
       cmd 0x00 ''ResetToFactoryDefaults'' ToServer]\<rparr>"

definition PowerConfiguration :: ClusterDef where
  "PowerConfiguration = \<lparr>cl_ID = 0x0001, cl_Name = ''Power Configuration'',
     cl_Attributes = [
       attr 0x0000 ''MainsVoltage'' TypeUint16 AccessRead,
       attr 0x0001 ''MainsFrequency'' TypeUint8 AccessRead,
       attr 0x0020 ''BatteryVoltage'' TypeUint8 (AccessRead OR AccessReport),
       attr 0x0021 ''BatteryPercentageRemaining'' TypeUint8 (AccessRead OR AccessReport),
       attr 0x0030 ''BatteryManufacturer'' TypeCharStr (AccessRead OR AccessWrite),
       attr 0x0031 ''BatterySize'' TypeEnum8 (AccessRead OR AccessWrite),
       attr 0x0033 ''BatteryQuantity'' TypeUint8 (AccessRead OR AccessWrite),
       attr 0x0034 ''BatteryRatedVoltage'' TypeUint8 (AccessRead OR AccessWrite),
       attr 0x0035 ''BatteryAlarmMask'' TypeBitmap8 (AccessRead OR AccessWrite),
       attr 0x0036 ''BatteryVoltageMinThreshold'' TypeUint8 (AccessRead OR AccessWrite)],
     cl_Commands = []\<rparr>"

definition DeviceTemperatureConfiguration :: ClusterDef where
  "DeviceTemperatureConfiguration = \<lparr>cl_ID = 0x0002, cl_Name = ''Device Temperature Configuration'',
     cl_Attributes = [
       attr 0x0000 ''CurrentTemperature'' TypeInt16 AccessRead,
       attr 0x0001 ''MinTempExperienced'' TypeInt16 AccessRead,
       attr 0x0002 ''MaxTempExperienced'' TypeInt16 AccessRead,
       attr 0x0003 ''OverTempTotalDwell'' TypeUint16 AccessRead,
       attr 0x0010 ''DeviceTempAlarmMask'' TypeBitmap8 (AccessRead OR AccessWrite),
       attr 0x0011 ''LowTempThreshold'' TypeInt16 (AccessRead OR AccessWrite),
       attr 0x0012 ''HighTempThreshold'' TypeInt16 (AccessRead OR AccessWrite),
       attr 0x0013 ''LowTempDwellTripPoint'' TypeUint24 (AccessRead OR AccessWrite),
       attr 0x0014 ''HighTempDwellTripPoint'' TypeUint24 (AccessRead OR AccessWrite)],
     cl_Commands = []\<rparr>"

definition Identify :: ClusterDef where
  "Identify = \<lparr>cl_ID = 0x0003, cl_Name = ''Identify'',
     cl_Attributes = [
       attr 0x0000 ''IdentifyTime'' TypeUint16 (AccessRead OR AccessWrite)],
     cl_Commands = [
       cmd 0x00 ''Identify'' ToServer,
       cmd 0x01 ''IdentifyQuery'' ToServer,
       cmd 0x40 ''TriggerEffect'' ToServer]\<rparr>"

definition Groups :: ClusterDef where
  "Groups = \<lparr>cl_ID = 0x0004, cl_Name = ''Groups'',
     cl_Attributes = [
       attr 0x0000 ''NameSupport'' TypeBitmap8 AccessRead],
     cl_Commands = [
       cmd 0x00 ''AddGroup'' ToServer,
       cmd 0x01 ''ViewGroup'' ToServer,
       cmd 0x02 ''GetGroupMembership'' ToServer,
       cmd 0x03 ''RemoveGroup'' ToServer,
       cmd 0x04 ''RemoveAllGroups'' ToServer,
       cmd 0x05 ''AddGroupIfIdentifying'' ToServer]\<rparr>"

definition Scenes :: ClusterDef where
  "Scenes = \<lparr>cl_ID = 0x0005, cl_Name = ''Scenes'',
     cl_Attributes = [
       attr 0x0000 ''SceneCount'' TypeUint8 AccessRead,
       attr 0x0001 ''CurrentScene'' TypeUint8 AccessRead,
       attr 0x0002 ''CurrentGroup'' TypeUint16 AccessRead,
       attr 0x0003 ''SceneValid'' TypeBool AccessRead,
       attr 0x0004 ''NameSupport'' TypeBitmap8 AccessRead],
     cl_Commands = [
       cmd 0x00 ''AddScene'' ToServer,
       cmd 0x01 ''ViewScene'' ToServer,
       cmd 0x02 ''RemoveScene'' ToServer,
       cmd 0x03 ''RemoveAllScenes'' ToServer,
       cmd 0x04 ''StoreScene'' ToServer,
       cmd 0x05 ''RecallScene'' ToServer,
       cmd 0x06 ''GetSceneMembership'' ToServer]\<rparr>"

definition OnOff :: ClusterDef where
  "OnOff = \<lparr>cl_ID = 0x0006, cl_Name = ''On/Off'',
     cl_Attributes = [
       attr 0x0000 ''OnOff'' TypeBool (AccessRead OR AccessReport),
       attr 0x4000 ''GlobalSceneControl'' TypeBool AccessRead,
       attr 0x4001 ''OnTime'' TypeUint16 (AccessRead OR AccessWrite),
       attr 0x4002 ''OffWaitTime'' TypeUint16 (AccessRead OR AccessWrite),
       attr 0x4003 ''StartUpOnOff'' TypeEnum8 (AccessRead OR AccessWrite)],
     cl_Commands = [
       cmd 0x00 ''Off'' ToServer,
       cmd 0x01 ''On'' ToServer,
       cmd 0x02 ''Toggle'' ToServer,
       cmd 0x40 ''OffWithEffect'' ToServer,
       cmd 0x41 ''OnWithRecallGlobalScene'' ToServer,
       cmd 0x42 ''OnWithTimedOff'' ToServer]\<rparr>"

definition OnOffSwitchConfiguration :: ClusterDef where
  "OnOffSwitchConfiguration = \<lparr>cl_ID = 0x0007, cl_Name = ''On/Off Switch Configuration'',
     cl_Attributes = [
       attr 0x0000 ''SwitchType'' TypeEnum8 AccessRead,
       attr 0x0010 ''SwitchActions'' TypeEnum8 (AccessRead OR AccessWrite)],
     cl_Commands = []\<rparr>"

definition LevelControl :: ClusterDef where
  "LevelControl = \<lparr>cl_ID = 0x0008, cl_Name = ''Level Control'',
     cl_Attributes = [
       attr 0x0000 ''CurrentLevel'' TypeUint8 (AccessRead OR AccessReport),
       attr 0x0001 ''RemainingTime'' TypeUint16 AccessRead,
       attr 0x000F ''Options'' TypeBitmap8 (AccessRead OR AccessWrite),
       attr 0x0010 ''OnOffTransitionTime'' TypeUint16 (AccessRead OR AccessWrite),
       attr 0x0011 ''OnLevel'' TypeUint8 (AccessRead OR AccessWrite),
       attr 0x4000 ''StartUpCurrentLevel'' TypeUint8 (AccessRead OR AccessWrite)],
     cl_Commands = [
       cmd 0x00 ''MoveToLevel'' ToServer,
       cmd 0x01 ''Move'' ToServer,
       cmd 0x02 ''Step'' ToServer,
       cmd 0x03 ''Stop'' ToServer,
       cmd 0x04 ''MoveToLevelWithOnOff'' ToServer,
       cmd 0x05 ''MoveWithOnOff'' ToServer,
       cmd 0x06 ''StepWithOnOff'' ToServer,
       cmd 0x07 ''StopWithOnOff'' ToServer]\<rparr>"

definition Alarms :: ClusterDef where
  "Alarms = \<lparr>cl_ID = 0x0009, cl_Name = ''Alarms'',
     cl_Attributes = [
       attr 0x0000 ''AlarmCount'' TypeUint16 AccessRead],
     cl_Commands = [
       cmd 0x00 ''ResetAlarm'' ToServer,
       cmd 0x01 ''ResetAllAlarms'' ToServer,
       cmd 0x02 ''GetAlarm'' ToServer,
       cmd 0x03 ''ResetAlarmLog'' ToServer,
       cmd 0x00 ''Alarm'' ToClient,
       cmd 0x01 ''GetAlarmResponse'' ToClient]\<rparr>"

definition Time :: ClusterDef where
  "Time = \<lparr>cl_ID = 0x000A, cl_Name = ''Time'',
     cl_Attributes = [
       attr 0x0000 ''Time'' TypeUTC (AccessRead OR AccessWrite),
       attr 0x0001 ''TimeStatus'' TypeBitmap8 (AccessRead OR AccessWrite),
       attr 0x0002 ''TimeZone'' TypeInt32 (AccessRead OR AccessWrite),
       attr 0x0007 ''LocalTime'' TypeUint32 AccessRead],
     cl_Commands = []\<rparr>"

definition RSSILocation :: ClusterDef where
  "RSSILocation = \<lparr>cl_ID = 0x000B, cl_Name = ''RSSI Location'',
     cl_Attributes = [
       attr 0x0000 ''LocationType'' TypeBitmap8 AccessRead,
       attr 0x0001 ''LocationMethod'' TypeEnum8 AccessRead,
       attr 0x0002 ''LocationAge'' TypeUint16 AccessRead,
       attr 0x0003 ''QualityMeasure'' TypeUint8 AccessRead,
       attr 0x0004 ''NumberOfDevices'' TypeUint8 AccessRead,
       attr 0x0010 ''Coordinate1'' TypeInt16 (AccessRead OR AccessWrite),
       attr 0x0011 ''Coordinate2'' TypeInt16 (AccessRead OR AccessWrite),
       attr 0x0012 ''Coordinate3'' TypeInt16 (AccessRead OR AccessWrite),
       attr 0x0013 ''Power'' TypeInt16 (AccessRead OR AccessWrite),
       attr 0x0014 ''PathLossExponent'' TypeUint16 (AccessRead OR AccessWrite),
       attr 0x0015 ''ReportingPeriod'' TypeUint16 (AccessRead OR AccessWrite),
       attr 0x0016 ''CalculationPeriod'' TypeUint16 (AccessRead OR AccessWrite),
       attr 0x0017 ''NumberRSSIMeasurements'' TypeUint8 (AccessRead OR AccessWrite)],
     cl_Commands = []\<rparr>"

definition AnalogInput :: ClusterDef where
  "AnalogInput = \<lparr>cl_ID = 0x000C, cl_Name = ''Analog Input (Basic)'',
     cl_Attributes = [
       attr 0x001C ''Description'' TypeCharStr (AccessRead OR AccessWrite),
       attr 0x0041 ''MaxPresentValue'' TypeFloat32 (AccessRead OR AccessWrite),
       attr 0x0045 ''MinPresentValue'' TypeFloat32 (AccessRead OR AccessWrite),
       attr 0x0051 ''OutOfService'' TypeBool (AccessRead OR AccessWrite),
       attr 0x0055 ''PresentValue'' TypeFloat32 (AccessRead OR AccessWrite OR AccessReport),
       attr 0x0067 ''Reliability'' TypeEnum8 (AccessRead OR AccessWrite),
       attr 0x006A ''Resolution'' TypeFloat32 (AccessRead OR AccessWrite),
       attr 0x006F ''StatusFlags'' TypeBitmap8 (AccessRead OR AccessReport),
       attr 0x0075 ''EngineeringUnits'' TypeEnum16 (AccessRead OR AccessWrite),
       attr 0x0100 ''ApplicationType'' TypeUint32 AccessRead],
     cl_Commands = []\<rparr>"

definition AnalogOutput :: ClusterDef where
  "AnalogOutput = \<lparr>cl_ID = 0x000D, cl_Name = ''Analog Output (Basic)'',
     cl_Attributes = [
       attr 0x001C ''Description'' TypeCharStr (AccessRead OR AccessWrite),
       attr 0x0041 ''MaxPresentValue'' TypeFloat32 (AccessRead OR AccessWrite),
       attr 0x0045 ''MinPresentValue'' TypeFloat32 (AccessRead OR AccessWrite),
       attr 0x0051 ''OutOfService'' TypeBool (AccessRead OR AccessWrite),
       attr 0x0055 ''PresentValue'' TypeFloat32 (AccessRead OR AccessWrite OR AccessReport),
       attr 0x0067 ''Reliability'' TypeEnum8 (AccessRead OR AccessWrite),
       attr 0x0068 ''RelinquishDefault'' TypeFloat32 (AccessRead OR AccessWrite),
       attr 0x006A ''Resolution'' TypeFloat32 (AccessRead OR AccessWrite),
       attr 0x006F ''StatusFlags'' TypeBitmap8 (AccessRead OR AccessReport),
       attr 0x0075 ''EngineeringUnits'' TypeEnum16 (AccessRead OR AccessWrite),
       attr 0x0100 ''ApplicationType'' TypeUint32 AccessRead],
     cl_Commands = []\<rparr>"

definition AnalogValue :: ClusterDef where
  "AnalogValue = \<lparr>cl_ID = 0x000E, cl_Name = ''Analog Value (Basic)'',
     cl_Attributes = [
       attr 0x001C ''Description'' TypeCharStr (AccessRead OR AccessWrite),
       attr 0x0051 ''OutOfService'' TypeBool (AccessRead OR AccessWrite),
       attr 0x0055 ''PresentValue'' TypeFloat32 (AccessRead OR AccessWrite OR AccessReport),
       attr 0x0067 ''Reliability'' TypeEnum8 (AccessRead OR AccessWrite),
       attr 0x0068 ''RelinquishDefault'' TypeFloat32 (AccessRead OR AccessWrite),
       attr 0x006F ''StatusFlags'' TypeBitmap8 (AccessRead OR AccessReport),
       attr 0x0075 ''EngineeringUnits'' TypeEnum16 (AccessRead OR AccessWrite),
       attr 0x0100 ''ApplicationType'' TypeUint32 AccessRead],
     cl_Commands = []\<rparr>"

definition BinaryInput :: ClusterDef where
  "BinaryInput = \<lparr>cl_ID = 0x000F, cl_Name = ''Binary Input (Basic)'',
     cl_Attributes = [
       attr 0x0004 ''ActiveText'' TypeCharStr (AccessRead OR AccessWrite),
       attr 0x001C ''Description'' TypeCharStr (AccessRead OR AccessWrite),
       attr 0x002E ''InactiveText'' TypeCharStr (AccessRead OR AccessWrite),
       attr 0x0051 ''OutOfService'' TypeBool (AccessRead OR AccessWrite),
       attr 0x0054 ''Polarity'' TypeEnum8 AccessRead,
       attr 0x0055 ''PresentValue'' TypeBool (AccessRead OR AccessWrite OR AccessReport),
       attr 0x0067 ''Reliability'' TypeEnum8 (AccessRead OR AccessWrite),
       attr 0x006F ''StatusFlags'' TypeBitmap8 (AccessRead OR AccessReport),
       attr 0x0100 ''ApplicationType'' TypeUint32 AccessRead],
     cl_Commands = []\<rparr>"

definition BinaryOutput :: ClusterDef where
  "BinaryOutput = \<lparr>cl_ID = 0x0010, cl_Name = ''Binary Output (Basic)'',
     cl_Attributes = [
       attr 0x0004 ''ActiveText'' TypeCharStr (AccessRead OR AccessWrite),
       attr 0x001C ''Description'' TypeCharStr (AccessRead OR AccessWrite),
       attr 0x002E ''InactiveText'' TypeCharStr (AccessRead OR AccessWrite),
       attr 0x0042 ''MinimumOffTime'' TypeUint32 (AccessRead OR AccessWrite),
       attr 0x0043 ''MinimumOnTime'' TypeUint32 (AccessRead OR AccessWrite),
       attr 0x0051 ''OutOfService'' TypeBool (AccessRead OR AccessWrite),
       attr 0x0054 ''Polarity'' TypeEnum8 AccessRead,
       attr 0x0055 ''PresentValue'' TypeBool (AccessRead OR AccessWrite OR AccessReport),
       attr 0x0067 ''Reliability'' TypeEnum8 (AccessRead OR AccessWrite),
       attr 0x0068 ''RelinquishDefault'' TypeBool (AccessRead OR AccessWrite),
       attr 0x006F ''StatusFlags'' TypeBitmap8 (AccessRead OR AccessReport),
       attr 0x0100 ''ApplicationType'' TypeUint32 AccessRead],
     cl_Commands = []\<rparr>"

definition BinaryValue :: ClusterDef where
  "BinaryValue = \<lparr>cl_ID = 0x0011, cl_Name = ''Binary Value (Basic)'',
     cl_Attributes = [
       attr 0x0004 ''ActiveText'' TypeCharStr (AccessRead OR AccessWrite),
       attr 0x001C ''Description'' TypeCharStr (AccessRead OR AccessWrite),
       attr 0x002E ''InactiveText'' TypeCharStr (AccessRead OR AccessWrite),
       attr 0x0042 ''MinimumOffTime'' TypeUint32 (AccessRead OR AccessWrite),
       attr 0x0043 ''MinimumOnTime'' TypeUint32 (AccessRead OR AccessWrite),
       attr 0x0051 ''OutOfService'' TypeBool (AccessRead OR AccessWrite),
       attr 0x0055 ''PresentValue'' TypeBool (AccessRead OR AccessWrite OR AccessReport),
       attr 0x0067 ''Reliability'' TypeEnum8 (AccessRead OR AccessWrite),
       attr 0x0068 ''RelinquishDefault'' TypeBool (AccessRead OR AccessWrite),
       attr 0x006F ''StatusFlags'' TypeBitmap8 (AccessRead OR AccessReport),
       attr 0x0100 ''ApplicationType'' TypeUint32 AccessRead],
     cl_Commands = []\<rparr>"

definition MultistateInput :: ClusterDef where
  "MultistateInput = \<lparr>cl_ID = 0x0012, cl_Name = ''Multistate Input (Basic)'',
     cl_Attributes = [
       attr 0x000E ''StateText'' TypeArray (AccessRead OR AccessWrite),
       attr 0x001C ''Description'' TypeCharStr (AccessRead OR AccessWrite),
       attr 0x004A ''NumberOfStates'' TypeUint16 (AccessRead OR AccessWrite),
       attr 0x0051 ''OutOfService'' TypeBool (AccessRead OR AccessWrite),
       attr 0x0055 ''PresentValue'' TypeUint16 (AccessRead OR AccessWrite OR AccessReport),
       attr 0x0067 ''Reliability'' TypeEnum8 (AccessRead OR AccessWrite),
       attr 0x006F ''StatusFlags'' TypeBitmap8 (AccessRead OR AccessReport),
       attr 0x0100 ''ApplicationType'' TypeUint32 AccessRead],
     cl_Commands = []\<rparr>"

definition MultistateOutput :: ClusterDef where
  "MultistateOutput = \<lparr>cl_ID = 0x0013, cl_Name = ''Multistate Output (Basic)'',
     cl_Attributes = [
       attr 0x000E ''StateText'' TypeArray (AccessRead OR AccessWrite),
       attr 0x001C ''Description'' TypeCharStr (AccessRead OR AccessWrite),
       attr 0x004A ''NumberOfStates'' TypeUint16 (AccessRead OR AccessWrite),
       attr 0x0051 ''OutOfService'' TypeBool (AccessRead OR AccessWrite),
       attr 0x0055 ''PresentValue'' TypeUint16 (AccessRead OR AccessWrite OR AccessReport),
       attr 0x0067 ''Reliability'' TypeEnum8 (AccessRead OR AccessWrite),
       attr 0x0068 ''RelinquishDefault'' TypeUint16 (AccessRead OR AccessWrite),
       attr 0x006F ''StatusFlags'' TypeBitmap8 (AccessRead OR AccessReport),
       attr 0x0100 ''ApplicationType'' TypeUint32 AccessRead],
     cl_Commands = []\<rparr>"

definition MultistateValue :: ClusterDef where
  "MultistateValue = \<lparr>cl_ID = 0x0014, cl_Name = ''Multistate Value (Basic)'',
     cl_Attributes = [
       attr 0x000E ''StateText'' TypeArray (AccessRead OR AccessWrite),
       attr 0x001C ''Description'' TypeCharStr (AccessRead OR AccessWrite),
       attr 0x004A ''NumberOfStates'' TypeUint16 (AccessRead OR AccessWrite),
       attr 0x0051 ''OutOfService'' TypeBool (AccessRead OR AccessWrite),
       attr 0x0055 ''PresentValue'' TypeUint16 (AccessRead OR AccessWrite OR AccessReport),
       attr 0x0067 ''Reliability'' TypeEnum8 (AccessRead OR AccessWrite),
       attr 0x0068 ''RelinquishDefault'' TypeUint16 (AccessRead OR AccessWrite),
       attr 0x006F ''StatusFlags'' TypeBitmap8 (AccessRead OR AccessReport),
       attr 0x0100 ''ApplicationType'' TypeUint32 AccessRead],
     cl_Commands = []\<rparr>"

definition Commissioning :: ClusterDef where
  "Commissioning = \<lparr>cl_ID = 0x0015, cl_Name = ''Commissioning'',
     cl_Attributes = [
       attr 0x0000 ''ShortAddress'' TypeUint16 (AccessRead OR AccessWrite),
       attr 0x0001 ''ExtendedPANId'' TypeEUI64 (AccessRead OR AccessWrite),
       attr 0x0002 ''PANId'' TypeUint16 (AccessRead OR AccessWrite),
       attr 0x0003 ''ChannelMask'' TypeBitmap32 (AccessRead OR AccessWrite),
       attr 0x0004 ''ProtocolVersion'' TypeUint8 (AccessRead OR AccessWrite),
       attr 0x0005 ''StackProfile'' TypeUint8 (AccessRead OR AccessWrite),
       attr 0x0006 ''StartupControl'' TypeEnum8 (AccessRead OR AccessWrite),
       attr 0x0010 ''TrustCenterAddress'' TypeEUI64 (AccessRead OR AccessWrite),
       attr 0x0021 ''NetworkKeyType'' TypeEnum8 (AccessRead OR AccessWrite)],
     cl_Commands = [
       cmd 0x00 ''RestartDevice'' ToServer,
       cmd 0x01 ''SaveStartupParameters'' ToServer,
       cmd 0x02 ''RestoreStartupParameters'' ToServer,
       cmd 0x03 ''ResetStartupParameters'' ToServer]\<rparr>"

definition OTAUpgrade :: ClusterDef where
  "OTAUpgrade = \<lparr>cl_ID = 0x0019, cl_Name = ''OTA Upgrade'',
     cl_Attributes = [
       attr 0x0000 ''UpgradeServerID'' TypeEUI64 AccessRead,
       attr 0x0002 ''CurrentFileVersion'' TypeUint32 AccessRead,
       attr 0x0004 ''DownloadedFileVersion'' TypeUint32 AccessRead,
       attr 0x0006 ''ImageUpgradeStatus'' TypeEnum8 AccessRead],
     cl_Commands = [
       cmd 0x01 ''QueryNextImageRequest'' ToServer,
       cmd 0x03 ''ImageBlockRequest'' ToServer,
       cmd 0x06 ''UpgradeEndRequest'' ToServer,
       cmd 0x02 ''QueryNextImageResponse'' ToClient,
       cmd 0x05 ''ImageBlockResponse'' ToClient,
       cmd 0x07 ''UpgradeEndResponse'' ToClient]\<rparr>"

definition PowerProfile :: ClusterDef where
  "PowerProfile = \<lparr>cl_ID = 0x001A, cl_Name = ''Power Profile'',
     cl_Attributes = [
       attr 0x0000 ''TotalProfileNum'' TypeUint8 AccessRead,
       attr 0x0001 ''MultipleScheduling'' TypeBool AccessRead,
       attr 0x0002 ''EnergyFormatting'' TypeBitmap8 AccessRead,
       attr 0x0003 ''EnergyRemote'' TypeBool AccessRead,
       attr 0x0004 ''ScheduleMode'' TypeBitmap8 (AccessRead OR AccessWrite)],
     cl_Commands = [
       cmd 0x00 ''PowerProfileRequest'' ToServer,
       cmd 0x01 ''PowerProfileStateRequest'' ToServer,
       cmd 0x02 ''GetPowerProfilePriceResponse'' ToServer,
       cmd 0x03 ''GetOverallSchedulePriceResponse'' ToServer,
       cmd 0x04 ''EnergyPhasesScheduleNotification'' ToServer,
       cmd 0x05 ''EnergyPhasesScheduleResponse'' ToServer,
       cmd 0x06 ''PowerProfileScheduleConstraintsRequest'' ToServer,
       cmd 0x07 ''EnergyPhasesScheduleStateRequest'' ToServer,
       cmd 0x00 ''PowerProfileNotification'' ToClient,
       cmd 0x01 ''PowerProfileResponse'' ToClient,
       cmd 0x02 ''PowerProfileStateResponse'' ToClient,
       cmd 0x03 ''GetPowerProfilePrice'' ToClient,
       cmd 0x04 ''PowerProfileStateNotification'' ToClient,
       cmd 0x05 ''GetOverallSchedulePrice'' ToClient,
       cmd 0x06 ''EnergyPhasesScheduleRequest'' ToClient,
       cmd 0x07 ''EnergyPhasesScheduleStateResponse'' ToClient,
       cmd 0x08 ''EnergyPhasesScheduleStateNotification'' ToClient,
       cmd 0x09 ''PowerProfileScheduleConstraintsNotification'' ToClient,
       cmd 0x0A ''PowerProfileScheduleConstraintsResponse'' ToClient]\<rparr>"

definition ApplianceControl :: ClusterDef where
  "ApplianceControl = \<lparr>cl_ID = 0x001B, cl_Name = ''Appliance Control'',
     cl_Attributes = [
       attr 0x0000 ''StartTime'' TypeUint16 AccessRead,
       attr 0x0001 ''FinishTime'' TypeUint16 AccessRead,
       attr 0x0002 ''RemainingTime'' TypeUint16 AccessRead],
     cl_Commands = [
       cmd 0x00 ''ExecutionOfACommand'' ToServer,
       cmd 0x01 ''SignalState'' ToServer,
       cmd 0x02 ''WriteFunctions'' ToServer,
       cmd 0x03 ''OverloadPauseResume'' ToServer,
       cmd 0x04 ''OverloadPause'' ToServer,
       cmd 0x05 ''OverloadWarning'' ToServer,
       cmd 0x00 ''SignalStateResponse'' ToClient,
       cmd 0x01 ''SignalStateNotification'' ToClient]\<rparr>"

definition PollControl :: ClusterDef where
  "PollControl = \<lparr>cl_ID = 0x0020, cl_Name = ''Poll Control'',
     cl_Attributes = [
       attr 0x0000 ''CheckInInterval'' TypeUint32 (AccessRead OR AccessWrite),
       attr 0x0001 ''LongPollInterval'' TypeUint32 AccessRead,
       attr 0x0002 ''ShortPollInterval'' TypeUint16 AccessRead,
       attr 0x0003 ''FastPollTimeout'' TypeUint16 (AccessRead OR AccessWrite),
       attr 0x0004 ''CheckInIntervalMin'' TypeUint32 AccessRead,
       attr 0x0005 ''LongPollIntervalMin'' TypeUint32 AccessRead,
       attr 0x0006 ''FastPollTimeoutMax'' TypeUint16 AccessRead],
     cl_Commands = [
       cmd 0x00 ''CheckInResponse'' ToServer,
       cmd 0x01 ''FastPollStop'' ToServer,
       cmd 0x02 ''SetLongPollInterval'' ToServer,
       cmd 0x03 ''SetShortPollInterval'' ToServer,
       cmd 0x00 ''CheckIn'' ToClient]\<rparr>"

definition GreenPower :: ClusterDef where
  "GreenPower = \<lparr>cl_ID = 0x0021, cl_Name = ''Green Power'',
     cl_Attributes = [
       attr 0x0000 ''MaxSinkTableEntries'' TypeUint8 AccessRead,
       attr 0x0001 ''SinkTable'' TypeOctetStr AccessRead,
       attr 0x0002 ''CommunicationMode'' TypeBitmap8 (AccessRead OR AccessWrite),
       attr 0x0003 ''CommissioningExitMode'' TypeBitmap8 (AccessRead OR AccessWrite),
       attr 0x0004 ''CommissioningWindow'' TypeUint16 (AccessRead OR AccessWrite),
       attr 0x0005 ''SecurityLevel'' TypeBitmap8 (AccessRead OR AccessWrite),
       attr 0x0006 ''Functionality'' TypeBitmap24 AccessRead,
       attr 0x0007 ''ActiveFunctionality'' TypeBitmap24 AccessRead,
       attr 0x0010 ''MaxProxyTableEntries'' TypeUint8 AccessRead,
       attr 0x0011 ''ProxyTable'' TypeOctetStr AccessRead,
       attr 0x0016 ''SharedSecurityKeyType'' TypeBitmap8 (AccessRead OR AccessWrite),
       attr 0x0022 ''LinkKey'' TypeOctetStr (AccessRead OR AccessWrite)],
     cl_Commands = [
       cmd 0x00 ''GPNotification'' ToServer,
       cmd 0x01 ''GPPairingSearch'' ToServer,
       cmd 0x04 ''GPCommissioningNotification'' ToServer,
       cmd 0x00 ''GPNotificationResponse'' ToClient,
       cmd 0x01 ''GPPairing'' ToClient,
       cmd 0x02 ''GPProxyCommissioningMode'' ToClient,
       cmd 0x06 ''GPResponse'' ToClient]\<rparr>"

definition ShadeConfiguration :: ClusterDef where
  "ShadeConfiguration = \<lparr>cl_ID = 0x0100, cl_Name = ''Shade Configuration'',
     cl_Attributes = [
       attr 0x0000 ''PhysicalClosedLimit'' TypeUint16 AccessRead,
       attr 0x0001 ''MotorStepSize'' TypeUint8 AccessRead,
       attr 0x0002 ''Status'' TypeBitmap8 (AccessRead OR AccessWrite),
       attr 0x0010 ''ClosedLimit'' TypeUint16 (AccessRead OR AccessWrite),
       attr 0x0011 ''Mode'' TypeEnum8 (AccessRead OR AccessWrite)],
     cl_Commands = []\<rparr>"

definition DoorLock :: ClusterDef where
  "DoorLock = \<lparr>cl_ID = 0x0101, cl_Name = ''Door Lock'',
     cl_Attributes = [
       attr 0x0000 ''LockState'' TypeEnum8 (AccessRead OR AccessReport),
       attr 0x0001 ''LockType'' TypeEnum8 AccessRead,
       attr 0x0002 ''ActuatorEnabled'' TypeBool AccessRead,
       attr 0x0003 ''DoorState'' TypeEnum8 (AccessRead OR AccessReport)],
     cl_Commands = [
       cmd 0x00 ''LockDoor'' ToServer,
       cmd 0x01 ''UnlockDoor'' ToServer,
       cmd 0x02 ''Toggle'' ToServer]\<rparr>"

definition WindowCovering :: ClusterDef where
  "WindowCovering = \<lparr>cl_ID = 0x0102, cl_Name = ''Window Covering'',
     cl_Attributes = [
       attr 0x0000 ''WindowCoveringType'' TypeEnum8 AccessRead,
       attr 0x0003 ''CurrentPositionLiftPercent'' TypeUint8 (AccessRead OR AccessReport),
       attr 0x0004 ''CurrentPositionTiltPercent'' TypeUint8 (AccessRead OR AccessReport),
       attr 0x0007 ''ConfigStatus'' TypeBitmap8 AccessRead,
       attr 0x0008 ''CurrentPositionLiftPercentage'' TypeUint16 (AccessRead OR AccessReport),
       attr 0x0009 ''CurrentPositionTiltPercentage'' TypeUint16 (AccessRead OR AccessReport),
       attr 0x0017 ''Mode'' TypeBitmap8 (AccessRead OR AccessWrite)],
     cl_Commands = [
       cmd 0x00 ''UpOpen'' ToServer,
       cmd 0x01 ''DownClose'' ToServer,
       cmd 0x02 ''Stop'' ToServer,
       cmd 0x04 ''GoToLiftValue'' ToServer,
       cmd 0x05 ''GoToLiftPercentage'' ToServer,
       cmd 0x07 ''GoToTiltValue'' ToServer,
       cmd 0x08 ''GoToTiltPercentage'' ToServer]\<rparr>"

definition BarrierControl :: ClusterDef where
  "BarrierControl = \<lparr>cl_ID = 0x0103, cl_Name = ''Barrier Control'',
     cl_Attributes = [
       attr 0x0001 ''MovingState'' TypeEnum8 AccessRead,
       attr 0x0002 ''SafetyStatus'' TypeBitmap16 AccessRead,
       attr 0x0003 ''Capabilities'' TypeBitmap8 AccessRead,
       attr 0x000A ''BarrierPosition'' TypeUint8 AccessRead],
     cl_Commands = [
       cmd 0x00 ''GoToPercent'' ToServer,
       cmd 0x01 ''Stop'' ToServer]\<rparr>"

definition PumpConfigurationAndControl :: ClusterDef where
  "PumpConfigurationAndControl = \<lparr>cl_ID = 0x0200, cl_Name = ''Pump Configuration and Control'',
     cl_Attributes = [
       attr 0x0000 ''MaxPressure'' TypeInt16 AccessRead,
       attr 0x0001 ''MaxSpeed'' TypeUint16 AccessRead,
       attr 0x0002 ''MaxFlow'' TypeUint16 AccessRead,
       attr 0x0003 ''MinConstPressure'' TypeInt16 AccessRead,
       attr 0x0004 ''MaxConstPressure'' TypeInt16 AccessRead,
       attr 0x0005 ''MinCompPressure'' TypeInt16 AccessRead,
       attr 0x0006 ''MaxCompPressure'' TypeInt16 AccessRead,
       attr 0x0007 ''MinConstSpeed'' TypeUint16 AccessRead,
       attr 0x0008 ''MaxConstSpeed'' TypeUint16 AccessRead,
       attr 0x0009 ''MinConstFlow'' TypeUint16 AccessRead,
       attr 0x000A ''MaxConstFlow'' TypeUint16 AccessRead,
       attr 0x000B ''MinConstTemp'' TypeInt16 AccessRead,
       attr 0x000C ''MaxConstTemp'' TypeInt16 AccessRead,
       attr 0x0010 ''PumpStatus'' TypeBitmap16 (AccessRead OR AccessReport),
       attr 0x0011 ''EffectiveOperationMode'' TypeEnum8 AccessRead,
       attr 0x0012 ''EffectiveControlMode'' TypeEnum8 AccessRead,
       attr 0x0013 ''Capacity'' TypeInt16 (AccessRead OR AccessReport),
       attr 0x0014 ''Speed'' TypeUint16 AccessRead,
       attr 0x0020 ''OperationMode'' TypeEnum8 (AccessRead OR AccessWrite),
       attr 0x0021 ''ControlMode'' TypeEnum8 (AccessRead OR AccessWrite),
       attr 0x0022 ''AlarmMask'' TypeBitmap16 AccessRead],
     cl_Commands = []\<rparr>"

definition Thermostat :: ClusterDef where
  "Thermostat = \<lparr>cl_ID = 0x0201, cl_Name = ''Thermostat'',
     cl_Attributes = [
       attr 0x0000 ''LocalTemperature'' TypeInt16 (AccessRead OR AccessReport),
       attr 0x0003 ''AbsMinHeatSetpointLimit'' TypeInt16 AccessRead,
       attr 0x0004 ''AbsMaxHeatSetpointLimit'' TypeInt16 AccessRead,
       attr 0x0005 ''AbsMinCoolSetpointLimit'' TypeInt16 AccessRead,
       attr 0x0006 ''AbsMaxCoolSetpointLimit'' TypeInt16 AccessRead,
       attr 0x0011 ''OccupiedCoolingSetpoint'' TypeInt16 (AccessRead OR AccessWrite),
       attr 0x0012 ''OccupiedHeatingSetpoint'' TypeInt16 (AccessRead OR AccessWrite),
       attr 0x001B ''ControlSequenceOfOperation'' TypeEnum8 (AccessRead OR AccessWrite),
       attr 0x001C ''SystemMode'' TypeEnum8 (AccessRead OR AccessWrite),
       attr 0x001E ''RunningMode'' TypeEnum8 AccessRead,
       attr 0x0029 ''RunningState'' TypeBitmap16 AccessRead],
     cl_Commands = [
       cmd 0x00 ''SetpointRaiseLower'' ToServer]\<rparr>"

definition FanControl :: ClusterDef where
  "FanControl = \<lparr>cl_ID = 0x0202, cl_Name = ''Fan Control'',
     cl_Attributes = [
       attr 0x0000 ''FanMode'' TypeEnum8 (AccessRead OR AccessWrite),
       attr 0x0001 ''FanModeSequence'' TypeEnum8 (AccessRead OR AccessWrite)],
     cl_Commands = []\<rparr>"

definition ThermostatUserInterfaceConfiguration :: ClusterDef where
  "ThermostatUserInterfaceConfiguration = \<lparr>cl_ID = 0x0204, cl_Name = ''Thermostat User Interface Configuration'',
     cl_Attributes = [
       attr 0x0000 ''TemperatureDisplayMode'' TypeEnum8 (AccessRead OR AccessWrite),
       attr 0x0001 ''KeypadLockout'' TypeEnum8 (AccessRead OR AccessWrite),
       attr 0x0002 ''ScheduleProgrammingVisibility'' TypeEnum8 (AccessRead OR AccessWrite)],
     cl_Commands = []\<rparr>"

definition ColorControl :: ClusterDef where
  "ColorControl = \<lparr>cl_ID = 0x0300, cl_Name = ''Color Control'',
     cl_Attributes = [
       attr 0x0000 ''CurrentHue'' TypeUint8 (AccessRead OR AccessReport),
       attr 0x0001 ''CurrentSaturation'' TypeUint8 (AccessRead OR AccessReport),
       attr 0x0002 ''RemainingTime'' TypeUint16 AccessRead,
       attr 0x0003 ''CurrentX'' TypeUint16 (AccessRead OR AccessReport),
       attr 0x0004 ''CurrentY'' TypeUint16 (AccessRead OR AccessReport),
       attr 0x0007 ''ColorTemperatureMireds'' TypeUint16 (AccessRead OR AccessReport),
       attr 0x0008 ''ColorMode'' TypeEnum8 AccessRead,
       attr 0x000F ''Options'' TypeBitmap8 (AccessRead OR AccessWrite),
       attr 0x4001 ''EnhancedCurrentHue'' TypeUint16 AccessRead,
       attr 0x4002 ''EnhancedColorMode'' TypeEnum8 AccessRead,
       attr 0x400A ''ColorCapabilities'' TypeBitmap16 AccessRead,
       attr 0x400B ''ColorTempPhysicalMinMireds'' TypeUint16 AccessRead,
       attr 0x400C ''ColorTempPhysicalMaxMireds'' TypeUint16 AccessRead,
       attr 0x400D ''CoupleColorTempToLevelMinMireds'' TypeUint16 AccessRead,
       attr 0x4010 ''StartUpColorTemperatureMireds'' TypeUint16 (AccessRead OR AccessWrite)],
     cl_Commands = [
       cmd 0x00 ''MoveToHue'' ToServer,
       cmd 0x01 ''MoveHue'' ToServer,
       cmd 0x02 ''StepHue'' ToServer,
       cmd 0x03 ''MoveToSaturation'' ToServer,
       cmd 0x04 ''MoveSaturation'' ToServer,
       cmd 0x05 ''StepSaturation'' ToServer,
       cmd 0x06 ''MoveToHueAndSaturation'' ToServer,
       cmd 0x07 ''MoveToColor'' ToServer,
       cmd 0x08 ''MoveColor'' ToServer,
       cmd 0x09 ''StepColor'' ToServer,
       cmd 0x0A ''MoveToColorTemperature'' ToServer,
       cmd 0x47 ''StopMoveStep'' ToServer,
       cmd 0x4B ''MoveColorTemperature'' ToServer,
       cmd 0x4C ''StepColorTemperature'' ToServer]\<rparr>"

definition BallastConfiguration :: ClusterDef where
  "BallastConfiguration = \<lparr>cl_ID = 0x0301, cl_Name = ''Ballast Configuration'',
     cl_Attributes = [
       attr 0x0000 ''PhysicalMinLevel'' TypeUint8 AccessRead,
       attr 0x0001 ''PhysicalMaxLevel'' TypeUint8 AccessRead,
       attr 0x0002 ''BallastStatus'' TypeBitmap8 AccessRead,
       attr 0x0010 ''MinLevel'' TypeUint8 (AccessRead OR AccessWrite),
       attr 0x0011 ''MaxLevel'' TypeUint8 (AccessRead OR AccessWrite),
       attr 0x0014 ''PowerOnLevel'' TypeUint8 (AccessRead OR AccessWrite),
       attr 0x0015 ''PowerOnFadeTime'' TypeUint16 (AccessRead OR AccessWrite),
       attr 0x0016 ''IntrinsicBallastFactor'' TypeUint8 (AccessRead OR AccessWrite),
       attr 0x0017 ''BallastFactorAdjustment'' TypeUint8 (AccessRead OR AccessWrite),
       attr 0x0020 ''LampQuantity'' TypeUint8 AccessRead,
       attr 0x0030 ''LampType'' TypeCharStr (AccessRead OR AccessWrite),
       attr 0x0031 ''LampManufacturer'' TypeCharStr (AccessRead OR AccessWrite),
       attr 0x0032 ''LampRatedHours'' TypeUint24 (AccessRead OR AccessWrite),
       attr 0x0033 ''LampBurnHours'' TypeUint24 (AccessRead OR AccessWrite),
       attr 0x0034 ''LampAlarmMode'' TypeBitmap8 (AccessRead OR AccessWrite),
       attr 0x0035 ''LampBurnHoursTripPoint'' TypeUint24 (AccessRead OR AccessWrite)],
     cl_Commands = []\<rparr>"

definition IlluminanceMeasurement :: ClusterDef where
  "IlluminanceMeasurement = \<lparr>cl_ID = 0x0400, cl_Name = ''Illuminance Measurement'',
     cl_Attributes = [
       attr 0x0000 ''MeasuredValue'' TypeUint16 (AccessRead OR AccessReport),
       attr 0x0001 ''MinMeasuredValue'' TypeUint16 AccessRead,
       attr 0x0002 ''MaxMeasuredValue'' TypeUint16 AccessRead,
       attr 0x0003 ''Tolerance'' TypeUint16 AccessRead,
       attr 0x0004 ''LightSensorType'' TypeEnum8 AccessRead],
     cl_Commands = []\<rparr>"

definition IlluminanceLevelSensing :: ClusterDef where
  "IlluminanceLevelSensing = \<lparr>cl_ID = 0x0401, cl_Name = ''Illuminance Level Sensing'',
     cl_Attributes = [
       attr 0x0000 ''LevelStatus'' TypeEnum8 (AccessRead OR AccessReport),
       attr 0x0001 ''LightSensorType'' TypeEnum8 AccessRead,
       attr 0x0010 ''IlluminanceTargetLevel'' TypeUint16 (AccessRead OR AccessWrite)],
     cl_Commands = []\<rparr>"

definition TemperatureMeasurement :: ClusterDef where
  "TemperatureMeasurement = \<lparr>cl_ID = 0x0402, cl_Name = ''Temperature Measurement'',
     cl_Attributes = [
       attr 0x0000 ''MeasuredValue'' TypeInt16 (AccessRead OR AccessReport),
       attr 0x0001 ''MinMeasuredValue'' TypeInt16 AccessRead,
       attr 0x0002 ''MaxMeasuredValue'' TypeInt16 AccessRead,
       attr 0x0003 ''Tolerance'' TypeUint16 AccessRead],
     cl_Commands = []\<rparr>"

definition PressureMeasurement :: ClusterDef where
  "PressureMeasurement = \<lparr>cl_ID = 0x0403, cl_Name = ''Pressure Measurement'',
     cl_Attributes = [
       attr 0x0000 ''MeasuredValue'' TypeInt16 (AccessRead OR AccessReport),
       attr 0x0001 ''MinMeasuredValue'' TypeInt16 AccessRead,
       attr 0x0002 ''MaxMeasuredValue'' TypeInt16 AccessRead,
       attr 0x0003 ''Tolerance'' TypeUint16 AccessRead,
       attr 0x0010 ''ScaledValue'' TypeInt16 (AccessRead OR AccessReport),
       attr 0x0014 ''Scale'' TypeInt8 AccessRead],
     cl_Commands = []\<rparr>"

definition FlowMeasurement :: ClusterDef where
  "FlowMeasurement = \<lparr>cl_ID = 0x0404, cl_Name = ''Flow Measurement'',
     cl_Attributes = [
       attr 0x0000 ''MeasuredValue'' TypeUint16 (AccessRead OR AccessReport),
       attr 0x0001 ''MinMeasuredValue'' TypeUint16 AccessRead,
       attr 0x0002 ''MaxMeasuredValue'' TypeUint16 AccessRead,
       attr 0x0003 ''Tolerance'' TypeUint16 AccessRead],
     cl_Commands = []\<rparr>"

definition RelativeHumidity :: ClusterDef where
  "RelativeHumidity = \<lparr>cl_ID = 0x0405, cl_Name = ''Relative Humidity'',
     cl_Attributes = [
       attr 0x0000 ''MeasuredValue'' TypeUint16 (AccessRead OR AccessReport),
       attr 0x0001 ''MinMeasuredValue'' TypeUint16 AccessRead,
       attr 0x0002 ''MaxMeasuredValue'' TypeUint16 AccessRead,
       attr 0x0003 ''Tolerance'' TypeUint16 AccessRead],
     cl_Commands = []\<rparr>"

definition OccupancySensing :: ClusterDef where
  "OccupancySensing = \<lparr>cl_ID = 0x0406, cl_Name = ''Occupancy Sensing'',
     cl_Attributes = [
       attr 0x0000 ''Occupancy'' TypeBitmap8 (AccessRead OR AccessReport),
       attr 0x0001 ''OccupancySensorType'' TypeEnum8 AccessRead,
       attr 0x0002 ''OccupancySensorTypeBitmap'' TypeBitmap8 AccessRead,
       attr 0x0010 ''PIROccupiedToUnoccupiedDelay'' TypeUint16 (AccessRead OR AccessWrite),
       attr 0x0011 ''PIRUnoccupiedToOccupiedDelay'' TypeUint16 (AccessRead OR AccessWrite),
       attr 0x0012 ''PIRUnoccupiedToOccupiedThreshold'' TypeUint8 (AccessRead OR AccessWrite)],
     cl_Commands = []\<rparr>"

definition SoilMoisture :: ClusterDef where
  "SoilMoisture = \<lparr>cl_ID = 0x0408, cl_Name = ''Soil Moisture'',
     cl_Attributes = [
       attr 0x0000 ''MeasuredValue'' TypeUint16 (AccessRead OR AccessReport),
       attr 0x0001 ''MinMeasuredValue'' TypeUint16 AccessRead,
       attr 0x0002 ''MaxMeasuredValue'' TypeUint16 AccessRead,
       attr 0x0003 ''Tolerance'' TypeUint16 AccessRead],
     cl_Commands = []\<rparr>"

definition PHMeasurement :: ClusterDef where
  "PHMeasurement = \<lparr>cl_ID = 0x0409, cl_Name = ''pH Measurement'',
     cl_Attributes = [
       attr 0x0000 ''MeasuredValue'' TypeUint16 (AccessRead OR AccessReport),
       attr 0x0001 ''MinMeasuredValue'' TypeUint16 AccessRead,
       attr 0x0002 ''MaxMeasuredValue'' TypeUint16 AccessRead,
       attr 0x0003 ''Tolerance'' TypeUint16 AccessRead],
     cl_Commands = []\<rparr>"

definition CarbonMonoxide :: ClusterDef where
  "CarbonMonoxide = \<lparr>cl_ID = 0x040C, cl_Name = ''Carbon Monoxide (CO) Measurement'',
     cl_Attributes = [
       attr 0x0000 ''MeasuredValue'' TypeFloat32 (AccessRead OR AccessReport),
       attr 0x0001 ''MinMeasuredValue'' TypeFloat32 AccessRead,
       attr 0x0002 ''MaxMeasuredValue'' TypeFloat32 AccessRead,
       attr 0x0003 ''Tolerance'' TypeFloat32 AccessRead],
     cl_Commands = []\<rparr>"

definition CarbonDioxide :: ClusterDef where
  "CarbonDioxide = \<lparr>cl_ID = 0x040D, cl_Name = ''Carbon Dioxide (CO2) Measurement'',
     cl_Attributes = [
       attr 0x0000 ''MeasuredValue'' TypeFloat32 (AccessRead OR AccessReport),
       attr 0x0001 ''MinMeasuredValue'' TypeFloat32 AccessRead,
       attr 0x0002 ''MaxMeasuredValue'' TypeFloat32 AccessRead,
       attr 0x0003 ''Tolerance'' TypeFloat32 AccessRead],
     cl_Commands = []\<rparr>"

definition PM25Measurement :: ClusterDef where
  "PM25Measurement = \<lparr>cl_ID = 0x042A, cl_Name = ''PM2.5 Measurement'',
     cl_Attributes = [
       attr 0x0000 ''MeasuredValue'' TypeFloat32 (AccessRead OR AccessReport),
       attr 0x0001 ''MinMeasuredValue'' TypeFloat32 AccessRead,
       attr 0x0002 ''MaxMeasuredValue'' TypeFloat32 AccessRead,
       attr 0x0003 ''Tolerance'' TypeFloat32 AccessRead],
     cl_Commands = []\<rparr>"

definition FormaldehydeMeasurement :: ClusterDef where
  "FormaldehydeMeasurement = \<lparr>cl_ID = 0x042B, cl_Name = ''Formaldehyde Measurement'',
     cl_Attributes = [
       attr 0x0000 ''MeasuredValue'' TypeFloat32 (AccessRead OR AccessReport),
       attr 0x0001 ''MinMeasuredValue'' TypeFloat32 AccessRead,
       attr 0x0002 ''MaxMeasuredValue'' TypeFloat32 AccessRead,
       attr 0x0003 ''Tolerance'' TypeFloat32 AccessRead],
     cl_Commands = []\<rparr>"

definition IASZone :: ClusterDef where
  "IASZone = \<lparr>cl_ID = 0x0500, cl_Name = ''IAS Zone'',
     cl_Attributes = [
       attr 0x0000 ''ZoneState'' TypeEnum8 AccessRead,
       attr 0x0001 ''ZoneType'' TypeEnum16 AccessRead,
       attr 0x0002 ''ZoneStatus'' TypeBitmap16 (AccessRead OR AccessReport),
       attr 0x0010 ''IASCIEAddress'' TypeEUI64 (AccessRead OR AccessWrite),
       attr 0x0011 ''ZoneID'' TypeUint8 AccessRead],
     cl_Commands = [
       cmd 0x00 ''ZoneEnrollResponse'' ToServer,
       cmd 0x00 ''ZoneStatusChangeNotification'' ToClient,
       cmd 0x01 ''ZoneEnrollRequest'' ToClient]\<rparr>"

definition IASACE :: ClusterDef where
  "IASACE = \<lparr>cl_ID = 0x0501, cl_Name = ''IAS ACE'',
     cl_Attributes = [],
     cl_Commands = [
       cmd 0x00 ''Arm'' ToServer,
       cmd 0x01 ''Bypass'' ToServer,
       cmd 0x02 ''Emergency'' ToServer,
       cmd 0x03 ''Fire'' ToServer,
       cmd 0x04 ''Panic'' ToServer,
       cmd 0x05 ''GetZoneIDMap'' ToServer,
       cmd 0x06 ''GetZoneInformation'' ToServer,
       cmd 0x07 ''GetPanelStatus'' ToServer,
       cmd 0x08 ''GetBypassedZoneList'' ToServer,
       cmd 0x09 ''GetZoneStatus'' ToServer,
       cmd 0x00 ''ArmResponse'' ToClient,
       cmd 0x01 ''GetZoneIDMapResponse'' ToClient,
       cmd 0x02 ''GetZoneInformationResponse'' ToClient,
       cmd 0x03 ''ZoneStatusChanged'' ToClient,
       cmd 0x04 ''PanelStatusChanged'' ToClient,
       cmd 0x05 ''GetPanelStatusResponse'' ToClient,
       cmd 0x06 ''SetBypassedZoneList'' ToClient,
       cmd 0x07 ''BypassResponse'' ToClient,
       cmd 0x08 ''GetZoneStatusResponse'' ToClient]\<rparr>"

definition IASWD :: ClusterDef where
  "IASWD = \<lparr>cl_ID = 0x0502, cl_Name = ''IAS Warning Device'',
     cl_Attributes = [
       attr 0x0000 ''MaxDuration'' TypeUint16 (AccessRead OR AccessWrite)],
     cl_Commands = [
       cmd 0x00 ''StartWarning'' ToServer,
       cmd 0x01 ''Squawk'' ToServer]\<rparr>"

definition Metering :: ClusterDef where
  "Metering = \<lparr>cl_ID = 0x0702, cl_Name = ''Metering'',
     cl_Attributes = [
       attr 0x0000 ''CurrentSummationDelivered'' TypeUint48 (AccessRead OR AccessReport),
       attr 0x0001 ''CurrentSummationReceived'' TypeUint48 AccessRead,
       attr 0x0002 ''CurrentMaxDemandDelivered'' TypeUint48 AccessRead,
       attr 0x0003 ''CurrentMaxDemandReceived'' TypeUint48 AccessRead,
       attr 0x0006 ''PowerFactor'' TypeInt8 AccessRead,
       attr 0x0200 ''Status'' TypeBitmap8 AccessRead,
       attr 0x0300 ''UnitOfMeasure'' TypeEnum8 AccessRead,
       attr 0x0301 ''Multiplier'' TypeUint24 AccessRead,
       attr 0x0302 ''Divisor'' TypeUint24 AccessRead,
       attr 0x0303 ''SummationFormatting'' TypeBitmap8 AccessRead,
       attr 0x0306 ''MeteringDeviceType'' TypeBitmap8 AccessRead,
       attr 0x0400 ''InstantaneousDemand'' TypeInt24 (AccessRead OR AccessReport),
       attr 0x0401 ''CurrentDayConsumptionDelivered'' TypeUint24 AccessRead,
       attr 0x0402 ''CurrentDayConsumptionReceived'' TypeUint24 AccessRead,
       attr 0x0403 ''PreviousDayConsumptionDelivered'' TypeUint24 AccessRead,
       attr 0x0404 ''PreviousDayConsumptionReceived'' TypeUint24 AccessRead],
     cl_Commands = []\<rparr>"

definition ApplianceIdentification :: ClusterDef where
  "ApplianceIdentification = \<lparr>cl_ID = 0x0B00, cl_Name = ''Appliance Identification'',
     cl_Attributes = [
       attr 0x0000 ''BasicIdentification'' TypeUint48 AccessRead,
       attr 0x0010 ''CompanyName'' TypeCharStr AccessRead,
       attr 0x0011 ''CompanyId'' TypeUint16 AccessRead,
       attr 0x0012 ''BrandName'' TypeCharStr AccessRead,
       attr 0x0013 ''BrandId'' TypeUint16 AccessRead,
       attr 0x0014 ''Model'' TypeOctetStr AccessRead,
       attr 0x0015 ''PartNumber'' TypeOctetStr AccessRead,
       attr 0x0016 ''ProductRevision'' TypeOctetStr AccessRead,
       attr 0x0017 ''SoftwareRevision'' TypeOctetStr AccessRead,
       attr 0x0018 ''ProductTypeName'' TypeOctetStr AccessRead,
       attr 0x0019 ''ProductTypeId'' TypeUint16 AccessRead,
       attr 0x001A ''CECEDSpecificationVersion'' TypeUint8 AccessRead],
     cl_Commands = []\<rparr>"

definition MeterIdentification :: ClusterDef where
  "MeterIdentification = \<lparr>cl_ID = 0x0B01, cl_Name = ''Meter Identification'',
     cl_Attributes = [
       attr 0x0000 ''CompanyName'' TypeCharStr AccessRead,
       attr 0x0001 ''MeterTypeID'' TypeUint16 AccessRead,
       attr 0x0004 ''DataQualityID'' TypeUint16 AccessRead,
       attr 0x000C ''POD'' TypeCharStr AccessRead,
       attr 0x000D ''AvailablePower'' TypeInt24 AccessRead,
       attr 0x000E ''PowerThreshold'' TypeInt24 AccessRead],
     cl_Commands = []\<rparr>"

definition ApplianceEventsAndAlerts :: ClusterDef where
  "ApplianceEventsAndAlerts = \<lparr>cl_ID = 0x0B02, cl_Name = ''Appliance Events and Alerts'',
     cl_Attributes = [],
     cl_Commands = [
       cmd 0x00 ''GetAlerts'' ToServer,
       cmd 0x00 ''GetAlertsResponse'' ToClient,
       cmd 0x01 ''AlertsNotification'' ToClient,
       cmd 0x02 ''EventNotification'' ToClient]\<rparr>"

definition ApplianceStatistics :: ClusterDef where
  "ApplianceStatistics = \<lparr>cl_ID = 0x0B03, cl_Name = ''Appliance Statistics'',
     cl_Attributes = [
       attr 0x0000 ''LogMaxSize'' TypeUint32 AccessRead,
       attr 0x0001 ''LogQueueMaxSize'' TypeUint8 AccessRead],
     cl_Commands = [
       cmd 0x00 ''LogNotification'' ToClient,
       cmd 0x01 ''LogResponse'' ToClient,
       cmd 0x02 ''LogQueueResponse'' ToClient,
       cmd 0x03 ''StatisticsAvailable'' ToClient,
       cmd 0x00 ''LogRequest'' ToServer,
       cmd 0x01 ''LogQueueRequest'' ToServer]\<rparr>"

definition ElectricalMeasurement :: ClusterDef where
  "ElectricalMeasurement = \<lparr>cl_ID = 0x0B04, cl_Name = ''Electrical Measurement'',
     cl_Attributes = [
       attr 0x0000 ''MeasurementType'' TypeBitmap32 AccessRead,
       attr 0x0505 ''RMSVoltage'' TypeUint16 (AccessRead OR AccessReport),
       attr 0x0508 ''RMSCurrent'' TypeUint16 (AccessRead OR AccessReport),
       attr 0x050B ''ActivePower'' TypeInt16 (AccessRead OR AccessReport),
       attr 0x050E ''PowerFactor'' TypeInt8 AccessRead,
       attr 0x0600 ''ACVoltageMultiplier'' TypeUint16 AccessRead,
       attr 0x0601 ''ACVoltageDivisor'' TypeUint16 AccessRead,
       attr 0x0602 ''ACCurrentMultiplier'' TypeUint16 AccessRead,
       attr 0x0603 ''ACCurrentDivisor'' TypeUint16 AccessRead,
       attr 0x0604 ''ACPowerMultiplier'' TypeUint16 AccessRead,
       attr 0x0605 ''ACPowerDivisor'' TypeUint16 AccessRead],
     cl_Commands = []\<rparr>"

definition Diagnostics :: ClusterDef where
  "Diagnostics = \<lparr>cl_ID = 0x0B05, cl_Name = ''Diagnostics'',
     cl_Attributes = [
       attr 0x0000 ''NumberOfResets'' TypeUint16 AccessRead,
       attr 0x0001 ''PersistentMemoryWrites'' TypeUint16 AccessRead,
       attr 0x0100 ''MacRxBcast'' TypeUint32 AccessRead,
       attr 0x0101 ''MacTxBcast'' TypeUint32 AccessRead,
       attr 0x0102 ''MacRxUcast'' TypeUint32 AccessRead,
       attr 0x0103 ''MacTxUcast'' TypeUint32 AccessRead,
       attr 0x0104 ''MacTxUcastRetry'' TypeUint16 AccessRead,
       attr 0x0105 ''MacTxUcastFail'' TypeUint16 AccessRead,
       attr 0x0106 ''APSRxBcast'' TypeUint16 AccessRead,
       attr 0x0107 ''APSTxBcast'' TypeUint16 AccessRead,
       attr 0x0108 ''APSRxUcast'' TypeUint16 AccessRead,
       attr 0x0109 ''APSTxUcastSuccess'' TypeUint16 AccessRead,
       attr 0x010A ''APSTxUcastRetry'' TypeUint16 AccessRead,
       attr 0x010B ''APSTxUcastFail'' TypeUint16 AccessRead,
       attr 0x010C ''RouteDiscInitiated'' TypeUint16 AccessRead,
       attr 0x010D ''NeighborAdded'' TypeUint16 AccessRead,
       attr 0x010E ''NeighborRemoved'' TypeUint16 AccessRead,
       attr 0x010F ''NeighborStale'' TypeUint16 AccessRead,
       attr 0x0110 ''JoinIndication'' TypeUint16 AccessRead,
       attr 0x0111 ''ChildMoved'' TypeUint16 AccessRead,
       attr 0x0112 ''NWKFCFailure'' TypeUint16 AccessRead,
       attr 0x0113 ''APSFCFailure'' TypeUint16 AccessRead,
       attr 0x0114 ''APSUnauthorizedKey'' TypeUint16 AccessRead,
       attr 0x0115 ''NWKDecryptFailures'' TypeUint16 AccessRead,
       attr 0x0116 ''APSDecryptFailures'' TypeUint16 AccessRead,
       attr 0x0117 ''PacketBufferAllocateFailures'' TypeUint16 AccessRead,
       attr 0x0118 ''RelayedUcast'' TypeUint16 AccessRead,
       attr 0x0119 ''PhyToMACQueueLimitReached'' TypeUint16 AccessRead,
       attr 0x011A ''PacketValidateDropCount'' TypeUint16 AccessRead,
       attr 0x011B ''AverageMACRetryPerAPSMessageSent'' TypeUint16 AccessRead,
       attr 0x011C ''LastMessageLQI'' TypeUint8 AccessRead,
       attr 0x011D ''LastMessageRSSI'' TypeInt8 AccessRead],
     cl_Commands = []\<rparr>"

definition TouchlinkCommissioning :: ClusterDef where
  "TouchlinkCommissioning = \<lparr>cl_ID = 0x1000, cl_Name = ''Touchlink Commissioning'',
     cl_Attributes = [],
     cl_Commands = [
       cmd 0x00 ''ScanRequest'' ToServer,
       cmd 0x02 ''DeviceInformationRequest'' ToServer,
       cmd 0x06 ''IdentifyRequest'' ToServer,
       cmd 0x07 ''ResetToFactoryNewRequest'' ToServer,
       cmd 0x10 ''NetworkStartRequest'' ToServer,
       cmd 0x12 ''NetworkJoinRouterRequest'' ToServer,
       cmd 0x14 ''NetworkJoinEndDeviceRequest'' ToServer,
       cmd 0x16 ''NetworkUpdateRequest'' ToServer,
       cmd 0x01 ''ScanResponse'' ToClient,
       cmd 0x03 ''DeviceInformationResponse'' ToClient,
       cmd 0x11 ''NetworkStartResponse'' ToClient,
       cmd 0x13 ''NetworkJoinRouterResponse'' ToClient,
       cmd 0x15 ''NetworkJoinEndDeviceResponse'' ToClient]\<rparr>"

section \<open>Registration\<close>

definition standard_clusters :: "ClusterDef list" where
  "standard_clusters = [
     Basic, PowerConfiguration, DeviceTemperatureConfiguration, Identify,
     Groups, Scenes, OnOff, OnOffSwitchConfiguration,
     LevelControl, Alarms, Time, RSSILocation,
     AnalogInput, AnalogOutput, AnalogValue, BinaryInput,
     BinaryOutput, BinaryValue, MultistateInput, MultistateOutput,
     MultistateValue, Commissioning, OTAUpgrade, PowerProfile,
     ApplianceControl, PollControl, GreenPower, ShadeConfiguration,
     DoorLock, WindowCovering, BarrierControl, PumpConfigurationAndControl,
     Thermostat, FanControl, ThermostatUserInterfaceConfiguration, ColorControl,
     BallastConfiguration, IlluminanceMeasurement, IlluminanceLevelSensing, TemperatureMeasurement,
     PressureMeasurement, FlowMeasurement, RelativeHumidity, OccupancySensing,
     SoilMoisture, PHMeasurement, CarbonMonoxide, CarbonDioxide,
     PM25Measurement, FormaldehydeMeasurement, IASZone, IASACE,
     IASWD, Metering, ApplianceIdentification, MeterIdentification,
     ApplianceEventsAndAlerts, ApplianceStatistics, ElectricalMeasurement, Diagnostics,
     TouchlinkCommissioning]"

definition registerStandardClusters :: "registry \<Rightarrow> registry" where
  "registerStandardClusters r = foldl Register r standard_clusters"

section \<open>The tables are in order\<close>

lemma standard_ids: "distinct (map cl_ID standard_clusters)"
  by code_simp

lemma standard_ok: "list_all cluster_ok standard_clusters"
  by code_simp

lemma foldl_Register_fresh:
  "distinct (map cl_ID cs) \<Longrightarrow> (\<And>c. c \<in> set cs \<Longrightarrow> r (cl_ID c) = None) \<Longrightarrow>
   foldl Register r cs i = (case List.find (\<lambda>c. cl_ID c = i) cs of Some c \<Rightarrow> Some c | None \<Rightarrow> r i)"
proof (induction cs arbitrary: r)
  case (Cons c cs)
  have "Register r c = r(cl_ID c \<mapsto> c)" using Cons.prems by (simp add: Register_def)
  moreover have "foldl Register (r(cl_ID c \<mapsto> c)) cs i = (case List.find (\<lambda>c. cl_ID c = i) cs of Some c \<Rightarrow> Some c | None \<Rightarrow> (r(cl_ID c \<mapsto> c)) i)"
    using Cons.prems by (intro Cons.IH) (auto simp: image_iff)
  moreover have "cl_ID c = i \<Longrightarrow> List.find (\<lambda>c. cl_ID c = i) cs = None" using Cons.prems(1)
    by (simp add: find_None_iff) (metis imageI)
  ultimately show ?case by (auto split: option.split)
qed simp

lemma find_id: "distinct (map cl_ID cs) \<Longrightarrow> c \<in> set cs \<Longrightarrow> List.find (\<lambda>d. cl_ID d = cl_ID c) cs = Some c"
  by (induction cs) (auto simp: image_iff)

lemma standard_get: "registerStandardClusters Map.empty i = List.find (\<lambda>c. cl_ID c = i) standard_clusters"
  by (simp add: registerStandardClusters_def foldl_Register_fresh[OF standard_ids] split: option.split)

text \<open>
  the standard clusters. The 61 definitions are well formed (no attribute id twice, no command id twice in a direction)
  and have distinct ids, so that no registration merges into another: each is found under its id exactly as
  written, and nothing else is found.
\<close>

theorem standard_registry:
  "list_all cluster_ok standard_clusters \<and> length standard_clusters = 61
   \<and> ran (registerStandardClusters Map.empty) = set standard_clusters
   \<and> (Registry_Get (registerStandardClusters Map.empty) i = Some c \<longleftrightarrow> c \<in> set standard_clusters \<and> cl_ID c = i)"
proof -
  have g: "Registry_Get (registerStandardClusters Map.empty) i = Some c \<longleftrightarrow> c \<in> set standard_clusters \<and> cl_ID c = i" for i c
    unfolding Registry_Get_def standard_get using find_id[OF standard_ids] by (auto simp: find_Some_iff)
  then have "ran (registerStandardClusters Map.empty) = set standard_clusters" by (auto simp: ran_def Registry_Get_def)
  moreover have "length standard_clusters = 61" by (simp add: standard_clusters_def)
  ultimately show ?thesis using g standard_ok by blast
qed

text \<open>What custom definitions loaded later add cannot change a standard attribute.\<close>

lemma standard_attr_stays:
  assumes "List.find (\<lambda>d. ad_ID d = a) (concat (map cl_Attributes (filter (\<lambda>c. cl_ID c = i) standard_clusters))) = Some x"
  shows "registry_attr (foldl Register (registerStandardClusters Map.empty) customs) i a = Some x"
  using assms registry_attr_find[of "standard_clusters @ customs" i a]
  by (simp add: registerStandardClusters_def find_append)

end
