(* ===== verification/Gateway.thy ===== *)
theory Gateway
  imports MQTT_Theorems ZCL_Clusters
begin

text \<open>
  The components together: from the bytes on the serial line through the driver, the coordinator, the device manager
  and the event bus to what the MQTT bridge makes the broker retain.
\<close>

section \<open>Events on their way to the bridge\<close>










section \<open>The names of attributes\<close>

lemma attr_name_registry: "attr_name env cid aid = (case registry_attr (e_registry env) cid aid of None \<Rightarrow> ''0x'' @ hex4 aid | Some a \<Rightarrow> ad_Name a)"
  by (simp add: attr_name_def registry_attr_def split: option.split)

text \<open>The registry of the running program: the standard clusters, then those of the definition files.\<close>

definition standard_env :: "dm_env \<Rightarrow> bool" where
  "standard_env env \<longleftrightarrow> (\<exists>customs. e_registry env = foldl Register (registerStandardClusters Map.empty) customs)"

lemma filter_id: "distinct (map cl_ID cs) \<Longrightarrow> c \<in> set cs \<Longrightarrow> filter (\<lambda>d. cl_ID d = cl_ID c) cs = [c]"
  by (induction cs) (auto simp: filter_empty_conv image_iff)

lemma standard_name:
  assumes "standard_env env" "c \<in> set standard_clusters" "FindAttribute c a = Some x"
  shows "attr_name env (cl_ID c) a = ad_Name x"
proof -
  have "List.find (\<lambda>d. ad_ID d = a) (concat (map cl_Attributes (filter (\<lambda>d. cl_ID d = cl_ID c) standard_clusters))) = Some x"
    using assms(3) by (simp add: FindAttribute_def filter_id[OF standard_ids assms(2)])
  then show ?thesis using assms(1) standard_attr_stays by (auto simp: standard_env_def attr_name_registry)
qed

lemma standard_members:
  "OnOff \<in> set standard_clusters" "LevelControl \<in> set standard_clusters" "ColorControl \<in> set standard_clusters"
  "TemperatureMeasurement \<in> set standard_clusters" "PressureMeasurement \<in> set standard_clusters"
  "RelativeHumidity \<in> set standard_clusters" "OccupancySensing \<in> set standard_clusters"
  "IlluminanceMeasurement \<in> set standard_clusters" "PowerConfiguration \<in> set standard_clusters"
  "IASZone \<in> set standard_clusters" "ElectricalMeasurement \<in> set standard_clusters" "Metering \<in> set standard_clusters"
  "AnalogInput \<in> set standard_clusters" "MultistateInput \<in> set standard_clusters"
  by (simp_all add: standard_clusters_def)

lemma standard_names:
  assumes "standard_env env"
  shows "attr_name env 0x0006 0x0000 = ''OnOff''" "attr_name env 0x0008 0x0000 = ''CurrentLevel''"
    "attr_name env 0x0300 0x0000 = ''CurrentHue''" "attr_name env 0x0300 0x0001 = ''CurrentSaturation''"
    "attr_name env 0x0402 0x0000 = ''MeasuredValue''" "attr_name env 0x0403 0x0000 = ''MeasuredValue''"
    "attr_name env 0x0405 0x0000 = ''MeasuredValue''" "attr_name env 0x0406 0x0000 = ''Occupancy''"
    "attr_name env 0x0400 0x0000 = ''MeasuredValue''" "attr_name env 0x0001 0x0021 = ''BatteryPercentageRemaining''"
    "attr_name env 0x0500 0x0002 = ''ZoneStatus''" "attr_name env 0x0B04 0x050B = ''ActivePower''"
    "attr_name env 0x0702 0x0000 = ''CurrentSummationDelivered''" "attr_name env 0x000C 0x0055 = ''PresentValue''"
    "attr_name env 0x0012 0x0055 = ''PresentValue''"
  using standard_name[OF assms standard_members(1), of 0] standard_name[OF assms standard_members(2), of 0]
    standard_name[OF assms standard_members(3), of 0] standard_name[OF assms standard_members(3), of 1]
    standard_name[OF assms standard_members(4), of 0] standard_name[OF assms standard_members(5), of 0]
    standard_name[OF assms standard_members(6), of 0] standard_name[OF assms standard_members(7), of 0]
    standard_name[OF assms standard_members(8), of 0] standard_name[OF assms standard_members(9), of "0x0021"]
    standard_name[OF assms standard_members(10), of 2] standard_name[OF assms standard_members(11), of "0x050B"]
    standard_name[OF assms standard_members(12), of 0] standard_name[OF assms standard_members(13), of "0x0055"]
    standard_name[OF assms standard_members(14), of "0x0055"]
  by (simp_all add: OnOff_def LevelControl_def ColorControl_def TemperatureMeasurement_def PressureMeasurement_def RelativeHumidity_def
      OccupancySensing_def IlluminanceMeasurement_def PowerConfiguration_def IASZone_def ElectricalMeasurement_def Metering_def
      AnalogInput_def MultistateInput_def FindAttribute_def)

text \<open>
  the names of the registry, the properties of the coordinator and those of the bridge fit together. With the standard
  clusters registered first, whatever custom definitions follow, every report that the coordinator turns into a
  standard property of a light or sensor (brightness, temperature, pressure, humidity, occupancy, illuminance,
  battery, alarm) reaches the bridge's state under the same name, and the on/off state under \<open>state\<close>; colours,
  power, energy and analog values reach it only as property updates. No report is published as \<open>analog\<close>, the name
  that the discovery message of an analog input reads.
\<close>

theorem property_names_agree:
  assumes "standard_env env"
  shows "map (\<lambda>((cid, aid), p). (p, mapAttributeToProperty cid (attr_name env cid aid))) standardPropertyMap =
     [(''on_off'', ''state''), (''brightness'', ''brightness''), (''hue'', []), (''saturation'', []), (''temperature'', ''temperature''),
      (''pressure'', ''pressure''), (''humidity'', ''humidity''), (''occupancy'', ''occupancy''), (''illuminance'', ''illuminance''),
      (''battery'', ''battery''), (''zone_status'', ''zone_status''), (''power'', []), (''energy'', []), (''analog_value'', []),
      (''multistate_value'', [])]
   \<and> ''analog'' \<notin> snd ` set standardPropertyMap \<and> mapAttributeToProperty c n \<noteq> ''analog''"
  by (simp add: standardPropertyMap_def standard_names[OF assms] mapAttributeToProperty_def)

theorem property_names_agree_witness:
  "attr_name (demo_env\<lparr>e_registry := registerStandardClusters Map.empty\<rparr>) 6 0 = ''OnOff'' \<and>
   map (\<lambda>((cid, aid), p). mapAttributeToProperty cid (attr_name (demo_env\<lparr>e_registry := registerStandardClusters Map.empty\<rparr>) cid aid))
     standardPropertyMap ! 0 = ''state''"
proof -
  have e: "standard_env (demo_env\<lparr>e_registry := registerStandardClusters Map.empty\<rparr>)"
    unfolding standard_env_def by (intro exI[of _ "[]"]) simp
  show ?thesis using property_names_agree[OF e] standard_names(1)[OF e] by (simp add: standardPropertyMap_def)
qed

section \<open>From the radio to the broker\<close>
















end
