(* ===== verification/Web_Hub.thy ===== *)
theory Web_Hub
  imports Event_Bus Store "HOL-Library.Sublist"
begin

text \<open>
  The WebSocket hub: \<^verbatim>\<open>internal/web/handlers_ws.go\<close>. Clients are numbers; each has its channel of outgoing messages.
  The hub's goroutine, the handlers and the write pumps are interleaved step by step; what a connection does with a
  message is outside, its read error is a step of its own.
\<close>

section \<open>Channels of the clients\<close>

record wschan =
  ws_queue :: "gval list"
  ws_closed :: bool

definition make_chan :: wschan where
  "make_chan = \<lparr>ws_queue = [], ws_closed = False\<rparr>"

text \<open>\<open>None\<close> is a run-time panic: closing a closed channel, or sending on one.\<close>

definition close_chan :: "wschan \<Rightarrow> wschan option" where
  "close_chan c = (if ws_closed c then None else Some (c\<lparr>ws_closed := True\<rparr>))"

text \<open>A send with a default: the flag says that the message was taken.\<close>

definition try_send :: "gval \<Rightarrow> wschan \<Rightarrow> (bool \<times> wschan) option" where
  "try_send m c =
     (if ws_closed c then None
      else if length (ws_queue c) < 64 then Some (True, c\<lparr>ws_queue := ws_queue c @ [m]\<rparr>)
      else Some (False, c))"

section \<open>The hub\<close>

record WSHub =
  hb_clients :: "nat list"          \<comment> \<open>the keys of the map, in the order in which the runtime visits them\<close>
  hb_chan :: "nat \<Rightarrow> wschan"        \<comment> \<open>the \<^verbatim>\<open>send\<close> channel of each client\<close>
  hb_broadcast :: "Event list"
  hb_done :: bool
  hb_running :: bool                \<comment> \<open>\<^verbatim>\<open>Run\<close> has not returned\<close>

definition NewWSHub :: WSHub where
  "NewWSHub = \<lparr>hb_clients = [], hb_chan = (\<lambda>_. make_chan), hb_broadcast = [], hb_done = False, hb_running = True\<rparr>"

definition maxWSClients :: nat where
  "maxWSClients = 100"

definition Broadcast :: "Event \<Rightarrow> WSHub \<Rightarrow> WSHub" where
  "Broadcast ev h = (if length (hb_broadcast h) < 256 then h\<lparr>hb_broadcast := hb_broadcast h @ [ev]\<rparr> else h)"

definition hub_Stop :: "WSHub \<Rightarrow> WSHub" where
  "hub_Stop h = h\<lparr>hb_done := True\<rparr>"

definition set_chan :: "nat \<Rightarrow> wschan \<Rightarrow> WSHub \<Rightarrow> WSHub" where
  "set_chan c ch h = h\<lparr>hb_chan := (hb_chan h)(c := ch)\<rparr>"

definition hub_close :: "nat \<Rightarrow> WSHub \<Rightarrow> WSHub option" where
  "hub_close c h = map_option (\<lambda>ch. set_chan c ch h) (close_chan (hb_chan h c))"

text \<open>The cases of \<^verbatim>\<open>Run\<close>'s select.\<close>

fun close_all :: "nat list \<Rightarrow> WSHub \<Rightarrow> WSHub option" where
  "close_all [] h = Some h"
| "close_all (c # cs) h = Option.bind (hub_close c h) (\<lambda>h1. close_all cs (h1\<lparr>hb_clients := remove1 c (hb_clients h1)\<rparr>))"

definition hub_shutdown :: "WSHub \<Rightarrow> WSHub option" where
  "hub_shutdown h = map_option (\<lambda>h1. h1\<lparr>hb_running := False\<rparr>) (close_all (hb_clients h) h)"

definition hub_register :: "nat \<Rightarrow> WSHub \<Rightarrow> WSHub option" where
  "hub_register c h =
     (if maxWSClients \<le> length (hb_clients h) then hub_close c h
      else Some (h\<lparr>hb_clients := List.insert c (hb_clients h)\<rparr>))"

definition hub_unregister :: "nat \<Rightarrow> WSHub \<Rightarrow> WSHub option" where
  "hub_unregister c h =
     (if c \<in> set (hb_clients h) then hub_close c (h\<lparr>hb_clients := remove1 c (hb_clients h)\<rparr>) else Some h)"

text \<open>\<^verbatim>\<open>json.Marshal\<close> of an event fails when its data do not fit into JSON.\<close>

definition marshal_event :: "js32 \<Rightarrow> Event \<Rightarrow> gval option" where
  "marshal_event js ev = json_value js (GMap [(''type'', GStr (ev_Type ev)), (''data'', ev_Data ev)])"

text \<open>The loop that sends; it collects the clients that are too slow.\<close>

fun send_all :: "gval \<Rightarrow> nat list \<Rightarrow> WSHub \<Rightarrow> (nat list \<times> WSHub) option" where
  "send_all m [] h = Some ([], h)"
| "send_all m (c # cs) h =
     (case try_send m (hb_chan h c) of
        None \<Rightarrow> None
      | Some (ok, ch) \<Rightarrow>
          (case send_all m cs (set_chan c ch h) of
             None \<Rightarrow> None
           | Some (slow, h1) \<Rightarrow> Some ((if ok then slow else c # slow), h1)))"

definition hub_broadcast :: "js32 \<Rightarrow> WSHub \<Rightarrow> WSHub option" where
  "hub_broadcast js h =
     (case hb_broadcast h of
        [] \<Rightarrow> Some h
      | ev # evs \<Rightarrow>
          let h1 = h\<lparr>hb_broadcast := evs\<rparr> in
          (case marshal_event js ev of
             None \<Rightarrow> Some h1
           | Some m \<Rightarrow> Option.bind (send_all m (hb_clients h1) h1) (\<lambda>(slow, h2). close_all slow h2)))"

text \<open>The write pump takes a message; at the end of a closed channel it closes the connection.\<close>

definition pump_take :: "nat \<Rightarrow> WSHub \<Rightarrow> (gval \<times> WSHub) option" where
  "pump_take c h =
     (case ws_queue (hb_chan h c) of
        [] \<Rightarrow> None
      | m # ms \<Rightarrow> Some (m, set_chan c ((hb_chan h c)\<lparr>ws_queue := ms\<rparr>) h))"

section \<open>Interleavings\<close>

text \<open>
  Where the handler of a client is: before it is accepted, at its registration, in its read loop, at its
  unregistration, or over.
\<close>

datatype phase = Fresh | Registering | Reading | Leaving | Over

record hub_sys =
  hs_hub :: WSHub
  hs_phase :: "nat \<Rightarrow> phase"
  hs_got :: "nat \<Rightarrow> gval list"        \<comment> \<open>what the write pump of a client has taken\<close>
  hs_log :: "gval list"               \<comment> \<open>the messages the hub has sent out\<close>
  hs_from :: "nat \<Rightarrow> nat"             \<comment> \<open>how many there were when the client was registered\<close>

definition hub_init :: hub_sys where
  "hub_init = \<lparr>hs_hub = NewWSHub, hs_phase = (\<lambda>_. Fresh), hs_got = (\<lambda>_. []), hs_log = [], hs_from = (\<lambda>_. 0)\<rparr>"

definition set_phase :: "nat \<Rightarrow> phase \<Rightarrow> hub_sys \<Rightarrow> hub_sys" where
  "set_phase c p s = s\<lparr>hs_phase := (hs_phase s)(c := p)\<rparr>"

definition logged :: "js32 \<Rightarrow> WSHub \<Rightarrow> gval list" where
  "logged js h = (case hb_broadcast h of [] \<Rightarrow> [] | ev # _ \<Rightarrow> (case marshal_event js ev of None \<Rightarrow> [] | Some m \<Rightarrow> [m]))"

text \<open>
  A hub operation takes a client's request from its unbuffered channel only while \<^verbatim>\<open>Run\<close> is going on; a handler gives up
  its request once the hub is done. The visiting order of the map is arbitrary.
\<close>

inductive hub_step :: "js32 \<Rightarrow> hub_sys \<Rightarrow> hub_sys \<Rightarrow> bool" for js where
  accept: "hs_phase s c = Fresh \<Longrightarrow> hub_step js s (set_phase c Registering s)"
| register: "hb_running (hs_hub s) \<Longrightarrow> hs_phase s c = Registering \<Longrightarrow> hub_register c (hs_hub s) = Some h \<Longrightarrow>
    hub_step js s (set_phase c Reading (s\<lparr>hs_hub := h, hs_from := (hs_from s)(c := length (hs_log s))\<rparr>))"
| refused: "hb_done (hs_hub s) \<Longrightarrow> hs_phase s c = Registering \<Longrightarrow> hub_step js s (set_phase c Over s)"
| read_error: "hs_phase s c = Reading \<Longrightarrow> hub_step js s (set_phase c Leaving s)"
| unregister: "hb_running (hs_hub s) \<Longrightarrow> hs_phase s c = Leaving \<Longrightarrow> hub_unregister c (hs_hub s) = Some h \<Longrightarrow>
    hub_step js s (set_phase c Over (s\<lparr>hs_hub := h\<rparr>))"
| abandoned: "hb_done (hs_hub s) \<Longrightarrow> hs_phase s c = Leaving \<Longrightarrow> hub_step js s (set_phase c Over s)"
| call: "hub_step js s (s\<lparr>hs_hub := Broadcast ev (hs_hub s)\<rparr>)"
| send: "hb_running (hs_hub s) \<Longrightarrow> hub_broadcast js (hs_hub s) = Some h \<Longrightarrow>
    hub_step js s (s\<lparr>hs_hub := h, hs_log := hs_log s @ logged js (hs_hub s)\<rparr>)"
| pump: "pump_take c (hs_hub s) = Some (m, h) \<Longrightarrow> hs_phase s c \<noteq> Fresh \<Longrightarrow>
    hub_step js s (s\<lparr>hs_hub := h, hs_got := (hs_got s)(c := hs_got s c @ [m])\<rparr>)"
| order: "mset cs = mset (hb_clients (hs_hub s)) \<Longrightarrow> hub_step js s (s\<lparr>hs_hub := (hs_hub s)\<lparr>hb_clients := cs\<rparr>\<rparr>)"
| stop: "hub_step js s (s\<lparr>hs_hub := hub_Stop (hs_hub s)\<rparr>)"
| shutdown: "hb_running (hs_hub s) \<Longrightarrow> hb_done (hs_hub s) \<Longrightarrow> hub_shutdown (hs_hub s) = Some h \<Longrightarrow>
    hub_step js s (s\<lparr>hs_hub := h\<rparr>)"

abbreviation hub_reach :: "js32 \<Rightarrow> hub_sys \<Rightarrow> bool" where
  "hub_reach js \<equiv> (hub_step js)\<^sup>*\<^sup>* hub_init"

section \<open>What the operations do\<close>

definition closed_chan :: "wschan \<Rightarrow> wschan" where
  "closed_chan ch = ch\<lparr>ws_closed := True\<rparr>"

lemma hub_close_open: "\<not> ws_closed (hb_chan h c) \<Longrightarrow> hub_close c h = Some (set_chan c (closed_chan (hb_chan h c)) h)"
  by (simp add: hub_close_def close_chan_def closed_chan_def)

lemma set_chan_simps [simp]:
  "hb_clients (set_chan c ch h) = hb_clients h" "hb_chan (set_chan c ch h) = (hb_chan h)(c := ch)"
  "hb_broadcast (set_chan c ch h) = hb_broadcast h" "hb_done (set_chan c ch h) = hb_done h" "hb_running (set_chan c ch h) = hb_running h"
  by (simp_all add: set_chan_def)

lemma close_all_open:
  assumes "distinct cs" "\<forall>c \<in> set cs. \<not> ws_closed (hb_chan h c)" "distinct (hb_clients h)"
  shows "close_all cs h = Some (h\<lparr>hb_chan := (\<lambda>c. if c \<in> set cs then closed_chan (hb_chan h c) else hb_chan h c),
      hb_clients := filter (\<lambda>c. c \<notin> set cs) (hb_clients h)\<rparr>)"
  using assms
proof (induction cs arbitrary: h)
  case (Cons c cs)
  let ?h = "(set_chan c (closed_chan (hb_chan h c)) h)\<lparr>hb_clients := remove1 c (hb_clients h)\<rparr>"
  have n: "c \<notin> set cs" "\<not> ws_closed (hb_chan h c)" using Cons.prems by simp_all
  have f: "filter (\<lambda>d. d \<notin> set cs) (hb_clients ?h) = filter (\<lambda>d. d \<notin> set (c # cs)) (hb_clients h)"
    using Cons.prems(3) by (simp add: distinct_remove1_removeAll removeAll_filter_not_eq) (metis (lifting))
  have g: "(\<lambda>d. if d \<in> set cs then closed_chan (hb_chan ?h d) else hb_chan ?h d) =
      (\<lambda>d. if d \<in> set (c # cs) then closed_chan (hb_chan h d) else hb_chan h d)"
    using n by (auto simp: fun_eq_iff)
  have e: "?h\<lparr>hb_chan := x, hb_clients := y\<rparr> = h\<lparr>hb_chan := x, hb_clients := y\<rparr>" for x y by (simp add: set_chan_def)
  have "close_all cs ?h = Some (?h\<lparr>hb_chan := (\<lambda>d. if d \<in> set cs then closed_chan (hb_chan ?h d) else hb_chan ?h d),
      hb_clients := filter (\<lambda>d. d \<notin> set cs) (hb_clients ?h)\<rparr>)"
    by (rule Cons.IH) (use Cons.prems in auto)
  then show ?case unfolding f g e using hub_close_open[OF n(2)] by simp
qed simp

definition fits :: "wschan \<Rightarrow> bool" where
  "fits ch \<longleftrightarrow> length (ws_queue ch) < 64"

definition add_msg :: "gval \<Rightarrow> wschan \<Rightarrow> wschan" where
  "add_msg m ch = ch\<lparr>ws_queue := ws_queue ch @ [m]\<rparr>"

lemma send_all_open:
  assumes "distinct cs" "\<forall>c \<in> set cs. \<not> ws_closed (hb_chan h c)"
  shows "send_all m cs h = Some (filter (\<lambda>c. \<not> fits (hb_chan h c)) cs,
      h\<lparr>hb_chan := (\<lambda>c. if c \<in> set cs \<and> fits (hb_chan h c) then add_msg m (hb_chan h c) else hb_chan h c)\<rparr>)"
  using assms
proof (induction cs arbitrary: h)
  case (Cons c cs)
  obtain ok ch where t: "try_send m (hb_chan h c) = Some (ok, ch)" "ok = fits (hb_chan h c)"
    "ch = (if ok then add_msg m (hb_chan h c) else hb_chan h c)"
    using Cons.prems by (auto simp: try_send_def fits_def add_msg_def)
  have n: "c \<notin> set cs" using Cons.prems by simp
  let ?h = "set_chan c ch h"
  have f: "filter (\<lambda>d. \<not> fits (hb_chan ?h d)) cs = filter (\<lambda>d. \<not> fits (hb_chan h d)) cs" using n by (intro filter_cong) auto
  have g: "(\<lambda>d. if d \<in> set cs \<and> fits (hb_chan ?h d) then add_msg m (hb_chan ?h d) else hb_chan ?h d) =
      (\<lambda>d. if d \<in> set (c # cs) \<and> fits (hb_chan h d) then add_msg m (hb_chan h d) else hb_chan h d)"
    using n t(2,3) by (auto simp: fun_eq_iff)
  have e: "?h\<lparr>hb_chan := x\<rparr> = h\<lparr>hb_chan := x\<rparr>" for x by (simp add: set_chan_def)
  have "send_all m cs ?h = Some (filter (\<lambda>d. \<not> fits (hb_chan ?h d)) cs,
      ?h\<lparr>hb_chan := (\<lambda>d. if d \<in> set cs \<and> fits (hb_chan ?h d) then add_msg m (hb_chan ?h d) else hb_chan ?h d)\<rparr>)"
    by (rule Cons.IH) (use Cons.prems in auto)
  then show ?case unfolding f g e using t(1,2) by simp
qed simp

lemma broadcast_open:
  assumes "distinct (hb_clients h)" "\<forall>c \<in> set (hb_clients h). \<not> ws_closed (hb_chan h c)" "hb_broadcast h = ev # evs" "marshal_event js ev = Some m"
  shows "hub_broadcast js h = Some (h\<lparr>hb_broadcast := evs,
      hb_chan := (\<lambda>c. if c \<in> set (hb_clients h) then (if fits (hb_chan h c) then add_msg m (hb_chan h c) else closed_chan (hb_chan h c)) else hb_chan h c),
      hb_clients := filter (\<lambda>c. fits (hb_chan h c)) (hb_clients h)\<rparr>)"
proof -
  let ?h1 = "h\<lparr>hb_broadcast := evs\<rparr>" and ?slow = "filter (\<lambda>c. \<not> fits (hb_chan h c)) (hb_clients h)"
  let ?h2 = "?h1\<lparr>hb_chan := (\<lambda>c. if c \<in> set (hb_clients h) \<and> fits (hb_chan h c) then add_msg m (hb_chan h c) else hb_chan h c)\<rparr>"
  have k: "hb_chan ?h1 = hb_chan h" by simp
  have s: "send_all m (hb_clients h) ?h1 = Some (?slow, ?h2)"
    using send_all_open[of "hb_clients h" ?h1 m] assms(1,2) unfolding k by simp
  have c: "close_all ?slow ?h2 = Some (?h2\<lparr>hb_chan := (\<lambda>c. if c \<in> set ?slow then closed_chan (hb_chan ?h2 c) else hb_chan ?h2 c),
      hb_clients := filter (\<lambda>c. c \<notin> set ?slow) (hb_clients ?h2)\<rparr>)"
    by (rule close_all_open) (use assms(1,2) in auto)
  have f: "(\<lambda>c. if c \<in> set ?slow then closed_chan (hb_chan ?h2 c) else hb_chan ?h2 c) =
      (\<lambda>c. if c \<in> set (hb_clients h) then (if fits (hb_chan h c) then add_msg m (hb_chan h c) else closed_chan (hb_chan h c)) else hb_chan h c)"
    by (auto simp: fun_eq_iff)
  have g: "filter (\<lambda>c. c \<notin> set ?slow) (hb_clients ?h2) = filter (\<lambda>c. fits (hb_chan h c)) (hb_clients h)" by (auto intro: filter_cong)
  show ?thesis using assms(3,4) s c unfolding hub_broadcast_def f g by simp
qed

section \<open>The invariant\<close>

text \<open>
  What holds of a client: its channel is bounded, open as long as the hub knows the client, and what has passed
  through it is an unbroken piece of the hub's messages from its registration on, up to the last one while the hub
  knows it.
\<close>

definition client_ok :: "gval list \<Rightarrow> phase \<Rightarrow> nat \<Rightarrow> gval list \<Rightarrow> bool \<Rightarrow> wschan \<Rightarrow> bool" where
  "client_ok log p from got mem ch \<longleftrightarrow>
     length (ws_queue ch) \<le> 64 \<and>
     (if p \<in> {Fresh, Registering} then \<not> mem \<and> ch = make_chan \<and> got = []
      else prefix (got @ ws_queue ch) (drop from log) \<and>
           (if mem then \<not> ws_closed ch \<and> got @ ws_queue ch = drop from log \<and> from \<le> length log
            else ws_closed ch \<or> (p = Over \<and> ws_queue ch = [])))"

definition hub_inv :: "hub_sys \<Rightarrow> bool" where
  "hub_inv s \<longleftrightarrow>
     (let h = hs_hub s in
      distinct (hb_clients h) \<and> length (hb_clients h) \<le> maxWSClients \<and> (\<not> hb_running h \<longrightarrow> hb_clients h = [] \<and> hb_done h) \<and>
      (\<forall>c. client_ok (hs_log s) (hs_phase s c) (hs_from s c) (hs_got s c) (c \<in> set (hb_clients h)) (hb_chan h c)))"

lemma client_ok_phase:
  "client_ok log p from got mem ch \<Longrightarrow> p \<notin> {Fresh, Registering} \<Longrightarrow> p' \<notin> {Fresh, Registering} \<Longrightarrow> p \<noteq> Over \<Longrightarrow> client_ok log p' from got mem ch"
  by (auto simp: client_ok_def split: if_splits)

lemma client_ok_evict: "client_ok log p from got True ch \<Longrightarrow> client_ok log p from got False (closed_chan ch)"
  by (auto simp: client_ok_def closed_chan_def split: if_splits)

lemma prefix_more: "prefix xs (drop n l) \<Longrightarrow> prefix xs (drop n (l @ m))"
  by (simp add: prefix_prefix)

lemma client_ok_more: "client_ok log p from got False ch \<Longrightarrow> client_ok (log @ m) p from got False ch"
  using prefix_more[of "got @ ws_queue ch" "from" log m] by (auto simp: client_ok_def split: if_splits)

lemma client_ok_add: "client_ok log p from got True ch \<Longrightarrow> fits ch \<Longrightarrow> client_ok (log @ [m]) p from got True (add_msg m ch)"
  by (auto simp: client_ok_def add_msg_def fits_def split: if_splits)

lemma client_ok_mem: "client_ok log p from got True ch \<Longrightarrow> p \<notin> {Fresh, Registering} \<and> \<not> ws_closed ch"
  by (auto simp: client_ok_def split: if_splits)

lemma client_ok_register:
  "client_ok log Registering from got mem ch \<Longrightarrow> client_ok log Reading (length log) got True ch
     \<and> client_ok log Reading (length log) got False (closed_chan ch)"
  by (auto simp: client_ok_def make_chan_def closed_chan_def)

lemma client_ok_refused: "client_ok log Registering from got mem ch \<Longrightarrow> client_ok log Over from got mem ch"
  by (auto simp: client_ok_def make_chan_def)

lemma client_ok_fresh: "client_ok log Fresh from got mem ch \<Longrightarrow> client_ok log Registering from got mem ch"
  by (auto simp: client_ok_def)

lemma client_ok_pump:
  "client_ok log p from got mem ch \<Longrightarrow> ws_queue ch = m # ms \<Longrightarrow> client_ok log p from (got @ [m]) mem (ch\<lparr>ws_queue := ms\<rparr>)"
  by (auto simp: client_ok_def make_chan_def split: if_splits)

lemma hub_invD:
  assumes "hub_inv s"
  shows "distinct (hb_clients (hs_hub s))" "length (hb_clients (hs_hub s)) \<le> maxWSClients"
    "\<not> hb_running (hs_hub s) \<Longrightarrow> hb_clients (hs_hub s) = [] \<and> hb_done (hs_hub s)"
    "client_ok (hs_log s) (hs_phase s c) (hs_from s c) (hs_got s c) (c \<in> set (hb_clients (hs_hub s))) (hb_chan (hs_hub s) c)"
    "\<forall>c \<in> set (hb_clients (hs_hub s)). \<not> ws_closed (hb_chan (hs_hub s) c)"
proof -
  have k: "client_ok (hs_log s) (hs_phase s c) (hs_from s c) (hs_got s c) (c \<in> set (hb_clients (hs_hub s))) (hb_chan (hs_hub s) c)" for c
    using assms by (simp add: hub_inv_def Let_def)
  show "\<forall>c \<in> set (hb_clients (hs_hub s)). \<not> ws_closed (hb_chan (hs_hub s) c)"
  proof
    fix d assume "d \<in> set (hb_clients (hs_hub s))"
    then show "\<not> ws_closed (hb_chan (hs_hub s) d)" using k[of d] client_ok_mem[of "hs_log s" _ _ _ "hb_chan (hs_hub s) d"] by auto
  qed
  show "client_ok (hs_log s) (hs_phase s c) (hs_from s c) (hs_got s c) (c \<in> set (hb_clients (hs_hub s))) (hb_chan (hs_hub s) c)" by (rule k)
qed (use assms in \<open>simp_all add: hub_inv_def Let_def\<close>)

text \<open>One case of the hub's select after the other.\<close>

lemma inv_register:
  assumes "hub_inv s" "hs_phase s c = Registering" "hb_running (hs_hub s)"
  shows "\<exists>h. hub_register c (hs_hub s) = Some h \<and> hub_inv (set_phase c Reading (s\<lparr>hs_hub := h, hs_from := (hs_from s)(c := length (hs_log s))\<rparr>))"
proof -
  note i = hub_invD[OF assms(1)]
  have k: "client_ok (hs_log s) Registering (hs_from s c) (hs_got s c) (c \<in> set (hb_clients (hs_hub s))) (hb_chan (hs_hub s) c)" using i(4)[of c] assms(2) by simp
  then have o: "c \<notin> set (hb_clients (hs_hub s))" "\<not> ws_closed (hb_chan (hs_hub s) c)" by (auto simp: client_ok_def make_chan_def)
  show ?thesis
  proof (cases "maxWSClients \<le> length (hb_clients (hs_hub s))")
    case True
    then show ?thesis using i o k assms(3) client_ok_register[OF k] by (simp add: hub_register_def hub_close_open hub_inv_def set_phase_def Let_def)
  next
    case False
    then show ?thesis using i o k assms(3) client_ok_register[OF k]
      by (auto simp: hub_register_def hub_inv_def set_phase_def Let_def)
  qed
qed

lemma inv_unregister:
  assumes "hub_inv s" "hs_phase s c = Leaving"
  shows "\<exists>h. hub_unregister c (hs_hub s) = Some h \<and> hub_inv (set_phase c Over (s\<lparr>hs_hub := h\<rparr>))"
proof (cases "c \<in> set (hb_clients (hs_hub s))")
  case True
  note i = hub_invD[OF assms(1)]
  have "client_ok (hs_log s) Over (hs_from s c) (hs_got s c) True (hb_chan (hs_hub s) c)"
    by (rule client_ok_phase[where p = Leaving]) (use i(4)[of c] True assms(2) in simp_all)
  note k = client_ok_evict[OF this]
  have r: "length (hb_clients (hs_hub s)) - 1 \<le> maxWSClients" "hb_running (hs_hub s)"
    using i(2) True i(3) by (auto intro: ccontr)
  have h: "hub_unregister c (hs_hub s) = Some (set_chan c (closed_chan (hb_chan (hs_hub s) c)) ((hs_hub s)\<lparr>hb_clients := remove1 c (hb_clients (hs_hub s))\<rparr>))"
    using True i(5) by (simp add: hub_unregister_def hub_close_open)
  show ?thesis unfolding h using k r i(1,4) True
    by (auto simp: hub_inv_def set_phase_def Let_def length_remove1)
next
  case False
  note i = hub_invD[OF assms(1)]
  have "client_ok (hs_log s) Over (hs_from s c) (hs_got s c) False (hb_chan (hs_hub s) c)"
    by (rule client_ok_phase[where p = Leaving]) (use i(4)[of c] False assms(2) in simp_all)
  then show ?thesis using i False by (simp add: hub_unregister_def hub_inv_def set_phase_def Let_def)
qed

lemma inv_shutdown:
  assumes "hub_inv s" "hb_done (hs_hub s)"
  shows "\<exists>h. hub_shutdown (hs_hub s) = Some h \<and> hub_inv (s\<lparr>hs_hub := h\<rparr>) \<and> hb_clients h = [] \<and> \<not> hb_running h
     \<and> hb_chan h = (\<lambda>c. if c \<in> set (hb_clients (hs_hub s)) then closed_chan (hb_chan (hs_hub s) c) else hb_chan (hs_hub s) c)"
proof -
  note i = hub_invD[OF assms(1)]
  have "client_ok (hs_log s) (hs_phase s c) (hs_from s c) (hs_got s c) False
      (if c \<in> set (hb_clients (hs_hub s)) then closed_chan (hb_chan (hs_hub s) c) else hb_chan (hs_hub s) c)" for c
    using i(4)[of c] client_ok_evict by auto
  then show ?thesis using assms close_all_open[OF i(1,5,1)] by (simp add: hub_shutdown_def hub_inv_def Let_def)
qed

lemma inv_broadcast:
  assumes "hub_inv s" "hb_running (hs_hub s)"
  shows "\<exists>h. hub_broadcast js (hs_hub s) = Some h \<and> hub_inv (s\<lparr>hs_hub := h, hs_log := hs_log s @ logged js (hs_hub s)\<rparr>)"
proof -
  note i = hub_invD[OF assms(1)]
  let ?h = "hs_hub s"
  show ?thesis
  proof (cases "logged js ?h")
    case Nil
    then obtain evs where h: "hub_broadcast js ?h = Some (?h\<lparr>hb_broadcast := evs\<rparr>)"
      by (cases "hb_broadcast ?h", simp add: hub_broadcast_def, metis (no_types) WSHub.surjective WSHub.update_convs(3),
          auto simp: logged_def hub_broadcast_def Let_def split: option.splits)
    show ?thesis unfolding h Nil using i assms(2) by (simp add: hub_inv_def Let_def)
  next
    case (Cons m ms)
    then obtain ev evs where b: "hb_broadcast ?h = ev # evs" "marshal_event js ev = Some m" and l: "logged js ?h = [m]"
      by (auto simp: logged_def split: list.splits option.splits)
    note h = broadcast_open[OF i(1,5) b]
    have len: "length (filter (\<lambda>c. fits (hb_chan ?h c)) (hb_clients ?h)) \<le> maxWSClients"
      using i(2) length_filter_le[of _ "hb_clients ?h"] by (meson order_trans)
    have "client_ok (hs_log s @ [m]) (hs_phase s c) (hs_from s c) (hs_got s c) (c \<in> set (filter (\<lambda>c. fits (hb_chan ?h c)) (hb_clients ?h)))
        (if c \<in> set (hb_clients ?h) then (if fits (hb_chan ?h c) then add_msg m (hb_chan ?h c) else closed_chan (hb_chan ?h c)) else hb_chan ?h c)" for c
    proof (cases "c \<in> set (hb_clients ?h)")
      case True
      then show ?thesis using i(4)[of c] client_ok_add client_ok_more[OF client_ok_evict] by auto
    next
      case False
      then show ?thesis using i(4)[of c] client_ok_more by auto
    qed
    then show ?thesis unfolding h l using i(1) assms(2) len by (simp add: hub_inv_def Let_def)
  qed
qed

lemma inv_phase:
  assumes "hub_inv s" "client_ok (hs_log s) p (hs_from s c) (hs_got s c) (c \<in> set (hb_clients (hs_hub s))) (hb_chan (hs_hub s) c)"
  shows "hub_inv (set_phase c p s)"
  using assms by (simp add: hub_inv_def set_phase_def Let_def)

lemma inv_pump:
  assumes "hub_inv s" "pump_take c (hs_hub s) = Some (m, h)"
  shows "hub_inv (s\<lparr>hs_hub := h, hs_got := (hs_got s)(c := hs_got s c @ [m])\<rparr>)"
proof -
  obtain ms where "ws_queue (hb_chan (hs_hub s) c) = m # ms" "h = set_chan c ((hb_chan (hs_hub s) c)\<lparr>ws_queue := ms\<rparr>) (hs_hub s)"
    using assms(2) by (auto simp: pump_take_def split: list.splits)
  then show ?thesis using assms(1) client_ok_pump by (simp add: hub_inv_def Let_def)
qed

lemma hub_step_inv: "hub_step js s s' \<Longrightarrow> hub_inv s \<Longrightarrow> hub_inv s'"
proof (induction rule: hub_step.induct)
  case (accept s c)
  then show ?case using hub_invD(4)[OF accept.prems, of c] by (intro inv_phase) (simp_all add: client_ok_fresh)
next
  case (register s c h)
  then show ?case using inv_register[OF register.prems register.hyps(2,1)] unfolding register.hyps(3) option.inject by (elim exE conjE) simp
next
  case (refused s c)
  then show ?case using hub_invD(4)[OF refused.prems, of c] by (intro inv_phase) (simp_all add: client_ok_refused)
next
  case (read_error s c)
  have "client_ok (hs_log s) Leaving (hs_from s c) (hs_got s c) (c \<in> set (hb_clients (hs_hub s))) (hb_chan (hs_hub s) c)"
    by (rule client_ok_phase[where p = Reading]) (use hub_invD(4)[OF read_error.prems, of c] read_error.hyps in simp_all)
  with read_error.prems show ?case by (rule inv_phase)
next
  case (unregister s c h)
  then show ?case using inv_unregister[OF unregister.prems unregister.hyps(2)] unfolding unregister.hyps(3) option.inject by (elim exE conjE) simp
next
  case (abandoned s c)
  have "client_ok (hs_log s) Over (hs_from s c) (hs_got s c) (c \<in> set (hb_clients (hs_hub s))) (hb_chan (hs_hub s) c)"
    by (rule client_ok_phase[where p = Leaving]) (use hub_invD(4)[OF abandoned.prems, of c] abandoned.hyps in simp_all)
  with abandoned.prems show ?case by (rule inv_phase)
next
  case (call s ev)
  then show ?case by (simp add: hub_inv_def Broadcast_def Let_def)
next
  case (send s h)
  then show ?case using inv_broadcast[OF send.prems send.hyps(1), of js] unfolding send.hyps(2) option.inject by (elim exE conjE) simp
next
  case (pump c s m h)
  then show ?case by (intro inv_pump)
next
  case (order cs s)
  then have "set cs = set (hb_clients (hs_hub s))" "length cs = length (hb_clients (hs_hub s))" "distinct cs = distinct (hb_clients (hs_hub s))"
    by (auto dest: mset_eq_setD mset_eq_length mset_eq_imp_distinct_iff)
  then show ?case using order.prems by (auto simp: hub_inv_def Let_def)
next
  case (stop s)
  then show ?case by (simp add: hub_inv_def hub_Stop_def Let_def)
next
  case (shutdown s h)
  then show ?case using inv_shutdown[OF shutdown.prems shutdown.hyps(2)] unfolding shutdown.hyps(3) option.inject by (elim exE conjE) simp
qed

lemma hub_reach_inv: "hub_reach js s \<Longrightarrow> hub_inv s"
proof (induction rule: rtranclp_induct)
  case base
  show ?case by (simp add: hub_init_def NewWSHub_def hub_inv_def client_ok_def make_chan_def)
qed (rule hub_step_inv)

text \<open>
  C19: the hub never panics. Whatever clients come, are rejected, are too slow, go away or are evicted, and whenever the
  server stops, the hub never closes a channel twice and never sends on a closed one: every case its loop can take
  succeeds. At most 100 clients are registered, with at most 64 messages waiting for each.
\<close>

theorem hub_never_panics:
  assumes "hub_reach js s"
  shows "(hb_running (hs_hub s) \<longrightarrow>
       (hs_phase s c = Registering \<longrightarrow> hub_register c (hs_hub s) \<noteq> None) \<and> (hs_phase s c = Leaving \<longrightarrow> hub_unregister c (hs_hub s) \<noteq> None)
       \<and> hub_broadcast js (hs_hub s) \<noteq> None \<and> (hb_done (hs_hub s) \<longrightarrow> hub_shutdown (hs_hub s) \<noteq> None))
     \<and> length (hb_clients (hs_hub s)) \<le> 100 \<and> length (ws_queue (hb_chan (hs_hub s) c)) \<le> 64"
proof -
  note i = hub_reach_inv[OF assms]
  have "length (ws_queue (hb_chan (hs_hub s) c)) \<le> 64" using hub_invD(4)[OF i, of c] by (simp add: client_ok_def)
  then show ?thesis using inv_register[OF i, of c] inv_unregister[OF i, of c] inv_broadcast[OF i, of js] inv_shutdown[OF i] hub_invD(2)[OF i]
    by (auto simp: maxWSClients_def)
qed

text \<open>
  C20: no client sees a gap. What a client has been given, with what waits for it, is an unbroken piece of the hub's messages
  from its registration on; while the hub keeps the client it is all of them. A client that is too slow loses its
  connection, not single messages. After the hub has stopped every channel of a client it had taken is closed,
  so that its write pump ends.
\<close>

theorem hub_no_gaps:
  assumes "hub_reach js s" "hs_phase s c \<notin> {Fresh, Registering}"
  shows "prefix (hs_got s c @ ws_queue (hb_chan (hs_hub s) c)) (drop (hs_from s c) (hs_log s))
     \<and> (c \<in> set (hb_clients (hs_hub s)) \<longrightarrow> hs_got s c @ ws_queue (hb_chan (hs_hub s) c) = drop (hs_from s c) (hs_log s))
     \<and> (\<not> hb_running (hs_hub s) \<and> hs_phase s c \<noteq> Over \<longrightarrow> ws_closed (hb_chan (hs_hub s) c))"
  using hub_invD(3)[OF hub_reach_inv[OF assms(1)]] hub_invD(4)[OF hub_reach_inv[OF assms(1)], of c] assms(2)
  by (auto simp: client_ok_def)

section \<open>A run\<close>

text \<open>A client is registered, gets a message and is closed at the end.\<close>

definition demo_event :: Event where
  "demo_event = \<lparr>ev_Type = EventPermitJoin, ev_Data = GU8 60\<rparr>"

lemma demo_run:
  assumes "marshal_event js demo_event = Some m"
  obtains s1 s2 where "hub_reach js s1" "hb_clients (hs_hub s1) = [7]" "hs_phase s1 7 = Reading" "ws_queue (hb_chan (hs_hub s1) 7) = [m]"
    "hs_log s1 = [m]" "hs_from s1 7 = 0" "hs_got s1 7 = []" "hb_running (hs_hub s1)"
    "hub_reach js s2" "\<not> hb_running (hs_hub s2)" "hs_phase s2 7 = Reading"
proof -
  let ?s0 = "set_phase 7 Registering hub_init"
  have "hub_step js hub_init ?s0" by (rule hub_step.accept) (simp add: hub_init_def)
  moreover define h1 where "h1 = NewWSHub\<lparr>hb_clients := [7]\<rparr>"
  define t1 where "t1 = set_phase 7 Reading (?s0\<lparr>hs_hub := h1, hs_from := (hs_from ?s0)(7 := length (hs_log ?s0))\<rparr>)"
  have "hub_step js ?s0 t1" unfolding t1_def
    by (rule hub_step.register) (simp_all add: hub_init_def set_phase_def NewWSHub_def hub_register_def maxWSClients_def h1_def)
  moreover define t2 where "t2 = t1\<lparr>hs_hub := Broadcast demo_event (hs_hub t1)\<rparr>"
  have "hub_step js t1 t2" unfolding t2_def by (rule hub_step.call)
  moreover define h3 where "h3 = h1\<lparr>hb_chan := (\<lambda>c. if c = 7 then make_chan\<lparr>ws_queue := [m]\<rparr> else make_chan)\<rparr>"
  have b: "hub_broadcast js (hs_hub t2) = Some h3"
    using assms by (subst broadcast_open[where ev = demo_event and evs = "[]" and m = m])
      (simp_all add: t2_def t1_def h1_def h3_def set_phase_def NewWSHub_def Broadcast_def make_chan_def fits_def add_msg_def fun_eq_iff)
  define s1 where "s1 = t2\<lparr>hs_hub := h3, hs_log := hs_log t2 @ logged js (hs_hub t2)\<rparr>"
  have "hub_step js t2 s1" unfolding s1_def
    by (rule hub_step.send[OF _ b]) (simp add: t2_def t1_def h1_def set_phase_def NewWSHub_def Broadcast_def)
  ultimately have r1: "hub_reach js s1" by (meson converse_rtranclp_into_rtranclp rtranclp.rtrancl_refl)
  have f1: "hb_clients (hs_hub s1) = [7]" "hs_phase s1 7 = Reading" "ws_queue (hb_chan (hs_hub s1) 7) = [m]" "hs_log s1 = [m]"
    "hs_from s1 7 = 0" "hs_got s1 7 = []" "hb_running (hs_hub s1)"
    using assms by (simp_all add: s1_def t2_def t1_def h3_def h1_def set_phase_def hub_init_def NewWSHub_def Broadcast_def logged_def)
  define s2 where "s2 = s1\<lparr>hs_hub := hub_Stop (hs_hub s1)\<rparr>"
  have "hub_step js s1 s2" unfolding s2_def by (rule hub_step.stop)
  with r1 have r2: "hub_reach js s2" by (rule rtranclp.rtrancl_into_rtrancl)
  have d: "hb_done (hs_hub s2)" "hb_running (hs_hub s2)" "hs_phase s2 7 = Reading" using f1 by (simp_all add: s2_def hub_Stop_def)
  obtain h where h: "hub_shutdown (hs_hub s2) = Some h" "\<not> hb_running h" using inv_shutdown[OF hub_reach_inv[OF r2] d(1)] by blast
  have "hub_step js s2 (s2\<lparr>hs_hub := h\<rparr>)" by (rule hub_step.shutdown[OF d(2,1) h(1)])
  with r2 have "hub_reach js (s2\<lparr>hs_hub := h\<rparr>)" by (rule rtranclp.rtrancl_into_rtrancl)
  then show thesis using that[OF r1 f1, of "s2\<lparr>hs_hub := h\<rparr>"] h(2) d(3) by simp
qed

lemma demo_marshal: "\<exists>m. marshal_event js demo_event = Some m"
  by (simp add: marshal_event_def demo_event_def)

theorem hub_never_panics_witness:
  "\<exists>s. hub_reach (\<lambda>_. 0) s \<and> hb_clients (hs_hub s) = [7] \<and> hub_broadcast (\<lambda>_. 0) (hs_hub s) \<noteq> None"
proof -
  obtain m where m: "marshal_event (\<lambda>_. 0) demo_event = Some m" using demo_marshal by blast
  obtain s where s: "hub_reach (\<lambda>_. 0) s" "hb_clients (hs_hub s) = [7]" "hb_running (hs_hub s)" using demo_run[OF m] by metis
  then show ?thesis using hub_never_panics[OF s(1)] by blast
qed

theorem hub_no_gaps_witness:
  "\<exists>s m. hub_reach (\<lambda>_. 0) s \<and> ws_closed (hb_chan (hs_hub s) 7) \<and> marshal_event (\<lambda>_. 0) demo_event = Some m
     \<and> (\<exists>s1. hub_reach (\<lambda>_. 0) s1 \<and> hs_got s1 7 @ ws_queue (hb_chan (hs_hub s1) 7) = [m] \<and> 7 \<in> set (hb_clients (hs_hub s1)))"
proof -
  obtain m where m: "marshal_event (\<lambda>_. 0) demo_event = Some m" using demo_marshal by blast
  obtain s1 s2 where s: "hub_reach (\<lambda>_. 0) s1" "hb_clients (hs_hub s1) = [7]" "hs_phase s1 7 = Reading" "hs_log s1 = [m]" "hs_from s1 7 = 0"
    "hub_reach (\<lambda>_. 0) s2" "\<not> hb_running (hs_hub s2)" "hs_phase s2 7 = Reading" using demo_run[OF m] by metis
  then show ?thesis using hub_no_gaps[OF s(1), of 7] hub_no_gaps[OF s(6), of 7] m by fastforce
qed

end
