(* ===== verification/Go_Json.thy ===== *)
theory Go_Json
  imports Store "HOL-Library.AList"
begin

text \<open>
  \<^verbatim>\<open>encoding/json\<close> as the request handlers and the script files use it: decoding of a parsed JSON value into
  a struct, and the text that is written for a string. The text of a request or of a script's first line is parsed
  outside: \<open>jval\<close> is the value that it has.
\<close>

section \<open>Parsed values\<close>

text \<open>
  A number is known by its natural number, when its literal has digits only, and by its float64, unless that overflows.
\<close>

datatype jval = JNull | JBool bool | JNum "nat option" "u64 option" | JStr string | JArr "jval list" | JObj "(string \<times> jval) list"

section \<open>Decoding into a struct\<close>

text \<open>
  A decoder gets the value of the target so far and says whether the JSON value fits: a misfit is an error, but
  the rest is decoded all the same. A \<^verbatim>\<open>null\<close> leaves a string, a number or a boolean as it is.
\<close>

type_synonym 'a decoder = "jval \<Rightarrow> 'a \<Rightarrow> bool \<times> 'a"

definition dec_str :: "string decoder" where
  "dec_str j old = (case j of JNull \<Rightarrow> (True, old) | JStr s \<Rightarrow> (True, s) | _ \<Rightarrow> (False, old))"

definition dec_bool :: "bool decoder" where
  "dec_bool j old = (case j of JNull \<Rightarrow> (True, old) | JBool b \<Rightarrow> (True, b) | _ \<Rightarrow> (False, old))"

definition dec_uint :: "'a::len word decoder" where
  "dec_uint j old =
     (case j of
        JNull \<Rightarrow> (True, old)
      | JNum (Some n) f \<Rightarrow> if n < 2 ^ LENGTH('a) then (True, of_nat n) else (False, old)
      | _ \<Rightarrow> (False, old))"

definition dec_list :: "'a decoder \<Rightarrow> 'a \<Rightarrow> 'a list decoder" where
  "dec_list d z j old =
     (case j of
        JNull \<Rightarrow> (True, [])
      | JArr vs \<Rightarrow> (let rs = map (\<lambda>v. d v z) vs in (list_all fst rs, map snd rs))
      | _ \<Rightarrow> (False, old))"

text \<open>\<^verbatim>\<open>interface{}\<close>: of equal keys the last one counts.\<close>

fun any_value :: "jval \<Rightarrow> gval option" where
  "any_value JNull = Some GNil"
| "any_value (JBool b) = Some (GBool b)"
| "any_value (JNum n f) = map_option GF64 f"
| "any_value (JStr s) = Some (GStr s)"
| "any_value (JArr vs) = map_option GList (those (map any_value vs))"
| "any_value (JObj kvs) =
     map_option (\<lambda>es. GMap (foldl (\<lambda>m (k, v). AList.update k v m) [] es))
       (those (map (\<lambda>kv. map_option (Pair (fst kv)) (any_value (snd kv))) kvs))"

definition dec_any :: "gval decoder" where
  "dec_any j old = (case any_value j of Some v \<Rightarrow> (True, v) | None \<Rightarrow> (False, old))"

text \<open>Standard base64: line ends are skipped, the padding is required, and nothing follows it.\<close>

definition b64_value :: "char \<Rightarrow> nat option" where
  "b64_value c =
     (let n = (of_char c :: nat) in
      if 65 \<le> n \<and> n \<le> 90 then Some (n - 65) else if 97 \<le> n \<and> n \<le> 122 then Some (n - 71)
      else if 48 \<le> n \<and> n \<le> 57 then Some (n + 4) else if n = 43 then Some 62 else if n = 47 then Some 63 else None)"

fun b64_groups :: "string \<Rightarrow> bytes option" where
  "b64_groups [] = Some []"
| "b64_groups (a # b # c # d # r) =
     (case (b64_value a, b64_value b) of
        (Some x, Some y) \<Rightarrow>
          (if c = CHR ''='' then (if d = CHR ''='' \<and> r = [] then Some [of_nat (x * 4 + y div 16)] else None)
           else case b64_value c of
                  None \<Rightarrow> None
                | Some z \<Rightarrow>
                    if d = CHR ''='' then (if r = [] then Some [of_nat (x * 4 + y div 16), of_nat (y mod 16 * 16 + z div 4)] else None)
                    else (case b64_value d of
                            None \<Rightarrow> None
                          | Some w \<Rightarrow> map_option ((@) [of_nat (x * 4 + y div 16), of_nat (y mod 16 * 16 + z div 4), of_nat (z mod 4 * 64 + w)])
                                        (b64_groups r)))
      | _ \<Rightarrow> None)"
| "b64_groups _ = None"

definition base64_decode :: "string \<Rightarrow> bytes option" where
  "base64_decode s = b64_groups (filter (\<lambda>c. c \<noteq> char_of (10 :: nat) \<and> c \<noteq> char_of (13 :: nat)) s)"

definition dec_bytes :: "bytes decoder" where
  "dec_bytes j old =
     (case j of
        JStr s \<Rightarrow> (case base64_decode s of Some bs \<Rightarrow> (True, bs) | None \<Rightarrow> (False, old))
      | _ \<Rightarrow> dec_list dec_uint 0 j old)"

text \<open>
  A key that is no field's name counts for the field whose name it equals up to case; outside ASCII only the Kelvin sign
  and the long s fold into it.
\<close>

fun fold_key :: "bytes \<Rightarrow> bytes" where
  "fold_key (a # b # c # r) =
     (if a = 0xE2 \<and> b = 0x84 \<and> c = 0xAA then 0x6B # fold_key r
      else if a = 0xC5 \<and> b = 0xBF then 0x73 # fold_key (c # r)
      else (if 65 \<le> a \<and> a \<le> 90 then a + 32 else a) # fold_key (b # c # r))"
| "fold_key [a, b] = (if a = 0xC5 \<and> b = 0xBF then [0x73] else (if 65 \<le> a \<and> a \<le> 90 then a + 32 else a) # fold_key [b])"
| "fold_key [a] = [if 65 \<le> a \<and> a \<le> 90 then a + 32 else a]"
| "fold_key [] = []"

definition field_for :: "(string \<times> 's decoder) list \<Rightarrow> string \<Rightarrow> 's decoder option" where
  "field_for flds k =
     (case map_of flds k of
        Some d \<Rightarrow> Some d
      | None \<Rightarrow> map_option snd (List.find (\<lambda>f. fold_key (bytes_of (fst f)) = fold_key (bytes_of k)) flds))"

definition dec_field :: "(string \<times> 's decoder) list \<Rightarrow> string \<times> jval \<Rightarrow> bool \<times> 's \<Rightarrow> bool \<times> 's" where
  "dec_field flds kv r =
     (case field_for flds (fst kv) of
        None \<Rightarrow> r
      | Some d \<Rightarrow> (let (ok, s) = d (snd kv) (snd r) in (fst r \<and> ok, s)))"

definition dec_struct :: "(string \<times> 's decoder) list \<Rightarrow> 's decoder" where
  "dec_struct flds j s =
     (case j of
        JNull \<Rightarrow> (True, s)
      | JObj kvs \<Rightarrow> fold (dec_field flds) kvs (True, s)
      | _ \<Rightarrow> (False, s))"

text \<open>\<^verbatim>\<open>Decode\<close> of a request body: the body's first value, if it has one.\<close>

definition Decode :: "(string \<times> 's decoder) list \<Rightarrow> jval option \<Rightarrow> 's \<Rightarrow> 's option" where
  "Decode flds body z =
     (case body of
        None \<Rightarrow> None
      | Some j \<Rightarrow> (case dec_struct flds j z of (True, s) \<Rightarrow> Some s | (False, s) \<Rightarrow> None))"

section \<open>The text of a string\<close>

definition lhex :: "nat \<Rightarrow> char" where
  "lhex n = (if n < 10 then char_of (48 + n) else char_of (87 + n))"

definition json_escape :: "byte \<Rightarrow> string" where
  "json_escape b =
     (if b = 0x22 then [char_of (92 :: nat), char_of (34 :: nat)] else if b = 0x5C then [char_of (92 :: nat), char_of (92 :: nat)]
      else if b = 8 then char_of (92 :: nat) # ''b'' else if b = 12 then char_of (92 :: nat) # ''f''
      else if b = 10 then char_of (92 :: nat) # ''n'' else if b = 13 then char_of (92 :: nat) # ''r''
      else if b = 9 then char_of (92 :: nat) # ''t''
      else if b < 0x20 \<or> b = 0x3C \<or> b = 0x3E \<or> b = 0x26
      then char_of (92 :: nat) # ''u00'' @ [lhex (unat b div 16), lhex (unat b mod 16)]
      else [char_of (unat b)])"

function json_chars :: "bytes \<Rightarrow> string" where
  "json_chars [] = []"
| "json_chars (a # r) =
     (let n = utf8_len (a # r) in
      if n = 0 then char_of (92 :: nat) # ''ufffd'' @ json_chars r
      else (if n = 1 then json_escape a
            else if take n (a # r) = [0xE2, 0x80, 0xA8] then char_of (92 :: nat) # ''u2028''
            else if take n (a # r) = [0xE2, 0x80, 0xA9] then char_of (92 :: nat) # ''u2029''
            else string_of (take n (a # r))) @ json_chars (drop n (a # r)))"
  by pat_completeness auto
termination
  by (relation "measure length") (auto simp: Let_def)

definition json_quote :: "string \<Rightarrow> string" where
  "json_quote s = [char_of (34 :: nat)] @ json_chars (bytes_of s) @ [char_of (34 :: nat)]"

section \<open>Facts\<close>

lemma b64_code:
  "n < 64 \<Longrightarrow> (of_char (b64_char n) :: nat) = (if n < 26 then 65 + n else if n < 52 then 71 + n else if n < 62 then n - 4 else if n = 62 then 43 else 47)"
  by (simp add: b64_char_def)

lemma b64_char_value:
  assumes "n < 64"
  shows "b64_value (b64_char n) = Some n" "b64_char n \<noteq> CHR ''=''" "b64_char n \<noteq> char_of (10 :: nat)" "b64_char n \<noteq> char_of (13 :: nat)"
proof -
  show "b64_value (b64_char n) = Some n" using assms by (auto simp: b64_value_def Let_def b64_code)
  have c: "(of_char (b64_char n) :: nat) \<notin> {10, 13, 61}" using assms b64_code[OF assms] by auto
  show "b64_char n \<noteq> CHR ''=''"
  proof
    assume "b64_char n = CHR ''=''"
    then have "(of_char (b64_char n) :: nat) = of_char (CHR ''='')" by simp
    then show False using c by simp
  qed
  show "b64_char n \<noteq> char_of (10 :: nat)" "b64_char n \<noteq> char_of (13 :: nat)" using c by auto
qed

lemma b64_quad:
  fixes x y z w :: nat
  assumes "y < 64" "z < 64" "w < 64" "n = x * 262144 + y * 4096 + z * 64 + w"
  shows "n div 262144 = x" "n div 4096 mod 64 = y" "n div 64 mod 64 = z" "n mod 64 = w"
proof -
  have "n div 4096 = y + 64 * x" "n div 64 = z + 64 * (x * 64 + y)"
    by (rule div_nat_eqI; use assms in simp)+
  then show "n div 4096 mod 64 = y" "n div 64 mod 64 = z" using assms(1,2) by (simp_all only: mod_mult_self2 mod_less)
  show "n div 262144 = x" by (rule div_nat_eqI; use assms in simp)
  have "n = w + 64 * (x * 4096 + y * 64 + z)" using assms(4) by simp
  then show "n mod 64 = w" using assms(3) by (simp only: mod_mult_self2 mod_less)
qed

lemma byte_split: "unat (a :: byte) = unat a div 4 * 4 + unat a mod 4" "unat a div 4 < 64" "unat a div 16 < 16" "unat a div 64 < 4"
  using unsigned_less[of a, where ?'a = nat] by (simp_all add: less_mult_imp_div_less)

text \<open>The groups of the encoding, digit by digit.\<close>

lemma base64_digits:
  fixes a b c :: byte
  defines "x1 \<equiv> unat a div 4" and "x2 \<equiv> unat a mod 4 * 16 + unat b div 16" and "x3 \<equiv> unat b mod 16 * 4 + unat c div 64" and "x4 \<equiv> unat c mod 64"
  shows "base64 (a # b # c # r) = [b64_char x1, b64_char x2, b64_char x3, b64_char x4] @ base64 r"
    "base64 [a, b] = [b64_char x1, b64_char x2, b64_char (unat b mod 16 * 4), CHR ''='' ]"
    "base64 [a] = [b64_char x1, b64_char (unat a mod 4 * 16), CHR ''='', CHR ''='']"
    "x1 < 64" "x2 < 64" "x3 < 64" "x4 < 64" "unat b mod 16 * 4 < 64" "unat a mod 4 * 16 < 64"
    "x1 * 4 + x2 div 16 = unat a" "x2 mod 16 * 16 + x3 div 4 = unat b" "x3 mod 4 * 64 + x4 = unat c"
    "x1 * 4 + unat a mod 4 * 16 div 16 = unat a" "x2 mod 16 * 16 + unat b mod 16 * 4 div 4 = unat b"
proof -
  have sa: "unat a = x1 * 4 + unat a mod 4" and sb: "unat b = unat b div 16 * 16 + unat b mod 16" and sc: "unat c = unat c div 64 * 64 + x4"
    by (simp_all add: x1_def x4_def)
  have m: "unat a mod 4 < 4" "unat b mod 16 < 16" "unat b div 16 < 16" "unat c div 64 < 4" using byte_split by simp_all
  show l: "x1 < 64" "x2 < 64" "x3 < 64" "x4 < 64" "unat b mod 16 * 4 < 64" "unat a mod 4 * 16 < 64"
    using byte_split(2)[of a] m by (simp_all add: x1_def x2_def x3_def x4_def)
  have g: "(p * 4 + q) * 65536 + (e * 16 + f) * 256 + (t * 64 + u) = p * 262144 + (q * 16 + e) * 4096 + (f * 4 + t) * 64 + u" for p q e f t u :: nat
    by simp
  have n3: "unat a * 65536 + unat b * 256 + unat c = x1 * 262144 + x2 * 4096 + x3 * 64 + x4"
    unfolding x2_def x3_def by (subst g[symmetric]) (simp only: sa[symmetric] sb[symmetric] sc[symmetric])
  have n2: "unat a * 65536 + unat b * 256 = x1 * 262144 + x2 * 4096 + (unat b mod 16 * 4) * 64 + 0"
    unfolding x2_def using g[of x1 "unat a mod 4" "unat b div 16" "unat b mod 16" 0 0] by (simp only: sa[symmetric] sb[symmetric]) simp
  have n1: "unat a * 65536 = x1 * 262144 + (unat a mod 4 * 16) * 4096 + 0 * 64 + 0"
    using g[of x1 "unat a mod 4" 0 0 0 0] by (simp only: sa[symmetric]) simp
  show "base64 (a # b # c # r) = [b64_char x1, b64_char x2, b64_char x3, b64_char x4] @ base64 r"
    using b64_quad[OF l(2-4) n3] by (simp add: Let_def)
  show "base64 [a, b] = [b64_char x1, b64_char x2, b64_char (unat b mod 16 * 4), CHR ''='' ]"
    using b64_quad[OF l(2,5) _ n2] by (simp add: Let_def)
  show "base64 [a] = [b64_char x1, b64_char (unat a mod 4 * 16), CHR ''='', CHR ''='']"
    using b64_quad[OF l(6) _ _ n1] by (simp add: Let_def)
  show "x1 * 4 + x2 div 16 = unat a" "x1 * 4 + unat a mod 4 * 16 div 16 = unat a" using sa m by (simp_all add: x2_def)
  show "x2 mod 16 * 16 + x3 div 4 = unat b" "x2 mod 16 * 16 + unat b mod 16 * 4 div 4 = unat b" using sb m by (simp_all add: x2_def x3_def)
  show "x3 mod 4 * 64 + x4 = unat c" using sc m by (simp add: x3_def)
qed

lemma b64_groups_base64: "b64_groups (base64 bs) = Some bs"
proof (induction bs rule: base64.induct)
  case (1 a b c r)
  note d = base64_digits(1,4-7,10-12)
  show ?case unfolding d(1) using 1 d(6-8)
    by (simp add: b64_char_value[OF d(2)] b64_char_value[OF d(3)] b64_char_value[OF d(4)] b64_char_value[OF d(5)])
next
  case (2 a b)
  note d = base64_digits(2,4,5,8,10,14)
  show ?case unfolding d(1) using d(5,6)
    by (simp add: b64_char_value[OF d(2)] b64_char_value[OF d(3)] b64_char_value[OF d(4)])
next
  case (3 a)
  note d = base64_digits(3,4,9,13)
  show ?case unfolding d(1) using d(4) by (simp add: b64_char_value[OF d(2)] b64_char_value[OF d(3)])
qed simp

lemma base64_no_line_ends: "filter (\<lambda>c. c \<noteq> char_of (10 :: nat) \<and> c \<noteq> char_of (13 :: nat)) (base64 bs) = base64 bs"
proof (rule filter_True, rule ballI)
  have pad: "CHR ''='' \<noteq> char_of (10 :: nat)" "CHR ''='' \<noteq> char_of (13 :: nat)" by (simp_all add: char_of_def bit_iff_odd)
  fix c assume "c \<in> set (base64 bs)"
  then show "c \<noteq> char_of (10 :: nat) \<and> c \<noteq> char_of (13 :: nat)"
  proof (induction bs rule: base64.induct)
    case (1 a b d r)
    note g = base64_digits(1,4-7)
    show ?case using 1 unfolding g(1) using b64_char_value(3,4)[OF g(2)] b64_char_value(3,4)[OF g(3)] b64_char_value(3,4)[OF g(4)] b64_char_value(3,4)[OF g(5)]
      by (auto simp del: base64.simps)
  next
    case (2 a b)
    note g = base64_digits(2,4,5,8)
    show ?case using 2 unfolding g(1) using pad b64_char_value(3,4)[OF g(2)] b64_char_value(3,4)[OF g(3)] b64_char_value(3,4)[OF g(4)]
      by (auto simp del: base64.simps)
  next
    case (3 a)
    note g = base64_digits(3,4,9)
    show ?case using 3 unfolding g(1) using pad b64_char_value(3,4)[OF g(2)] b64_char_value(3,4)[OF g(3)] by (auto simp del: base64.simps)
  qed simp
qed

text \<open>Decoding what \<^verbatim>\<open>encoding/json\<close> writes for a byte slice gives the slice back.\<close>

lemma base64_roundtrip: "base64_decode (base64 bs) = Some bs"
  unfolding base64_decode_def base64_no_line_ends by (rule b64_groups_base64)

section \<open>Fields\<close>

definition dec_at :: "('s \<Rightarrow> 'a) \<Rightarrow> (('a \<Rightarrow> 'a) \<Rightarrow> 's \<Rightarrow> 's) \<Rightarrow> 'a decoder \<Rightarrow> 's decoder" where
  "dec_at get upd d j s = (let (ok, x) = d j (get s) in (ok, upd (\<lambda>_. x) s))"

text \<open>What is written for a string has no control characters; a multi-byte character has none either.\<close>

lemma utf8_multi:
  assumes "1 < utf8_len bs" "b \<in> set (take (utf8_len bs) bs)"
  shows "0x80 \<le> b"
proof (cases bs)
  case (Cons a r)
  have u: "0 < utf8_len (a # r)" "utf8_len (a # r) \<noteq> 1" using assms(1) Cons by simp_all
  then have "\<not> a < 0x80" using utf8_len_Cons(1) by auto
  then have a: "0x80 \<le> a" by simp
  from utf8_len_bad[OF u(1)] \<open>\<not> a < 0x80\<close> consider "0xC2 \<le> a" "a \<le> 0xDF" | "0xE0 \<le> a" "a \<le> 0xEF" | "0xF0 \<le> a" "a \<le> 0xF4" by blast
  then show ?thesis
  proof cases
    case 1
    show ?thesis using assms a unfolding Cons utf8_len_Cons(2)[OF 1] by (auto simp: is_cont_def split: list.splits if_splits)
  next
    case 2
    show ?thesis using assms a unfolding Cons utf8_len_Cons(3)[OF 2] by (auto simp: is_cont_def numeral_3_eq_3 split: list.splits if_splits)
  next
    case 3
    show ?thesis using assms a unfolding Cons utf8_len_Cons(4)[OF 3] by (auto simp: is_cont_def numeral_eq_Suc split: list.splits if_splits)
  qed
qed (use assms in \<open>simp add: utf8_len_def\<close>)

lemma lhex_code: "n < 16 \<Longrightarrow> 32 \<le> (of_char (lhex n) :: nat)"
  by (simp add: lhex_def)

lemma json_escape_plain: "c \<in> set (json_escape b) \<Longrightarrow> 32 \<le> (of_char c :: nat)"
proof -
  have h: "unat b div 16 < 16" "unat b mod 16 < 16" using byte_split(3) by simp_all
  have p: "32 \<le> unat b" if "\<not> b < 0x20" using that by (simp add: word_less_nat_alt)
  show "c \<in> set (json_escape b) \<Longrightarrow> 32 \<le> (of_char c :: nat)"
    using lhex_code[OF h(1)] lhex_code[OF h(2)] p unsigned_less[of b, where ?'a = nat]
    by (auto simp: json_escape_def split: if_splits)
qed

lemma json_chars_plain: "c \<in> set (json_chars bs) \<Longrightarrow> 32 \<le> (of_char c :: nat)"
proof (induction bs rule: json_chars.induct)
  case (2 a r)
  define n where "n = utf8_len (a # r)"
  show ?case
  proof (cases "n = 0")
    case True
    then show ?thesis using 2(1)[OF n_def True] "2.prems" by (auto simp: n_def Let_def)
  next
    case False
    have s: "32 \<le> (of_char d :: nat)" if d: "d \<in> set (string_of (take n (a # r)))" "n \<noteq> 1" for d
    proof -
      obtain b where b: "b \<in> set (take n (a # r))" "d = char_of (unat b)" using d(1) by (auto simp: string_of_def)
      have "0x80 \<le> b" using utf8_multi[of "a # r" b] b(1) d(2) False unfolding n_def by simp
      then show ?thesis using b(2) unsigned_less[of b, where ?'a = nat] by (simp add: word_le_nat_alt)
    qed
    have "c \<in> set (json_chars (drop n (a # r))) \<or> c \<in> set (json_escape a) \<or> (c \<in> set (string_of (take n (a # r))) \<and> n \<noteq> 1)
        \<or> c \<in> set (char_of (92 :: nat) # ''u2028'') \<or> c \<in> set (char_of (92 :: nat) # ''u2029'')"
      using "2.prems" False unfolding json_chars.simps n_def[symmetric] Let_def by (simp only: if_False set_append Un_iff) (auto split: if_splits)
    then show ?thesis using 2(2)[OF n_def False] s json_escape_plain by auto
  qed
qed simp

lemma json_quote_plain: "c \<in> set (json_quote s) \<Longrightarrow> 32 \<le> (of_char c :: nat)"
  by (auto simp: json_quote_def dest: json_chars_plain)

end
