(* ===== verification/Automation_Scripts.thy ===== *)
theory Automation_Scripts
  imports Go_Json MQTT_Discovery
begin

text \<open>
  The automation scripts on disk: \<^verbatim>\<open>internal/automation/script.go\<close> and \<^verbatim>\<open>manager.go\<close>. The directory of scripts is a sorted
  list of entries by file name; whether the operating system lets a call succeed is an argument. The JSON value of
  the first line of a script is an argument, too.
\<close>

section \<open>Scripts\<close>

record ScriptMeta =
  sm_Name :: string
  sm_Description :: string
  sm_Enabled :: bool

record Script =
  sc_ID :: string
  sc_Meta :: ScriptMeta
  sc_LuaCode :: string
  sc_BlocklyXML :: string
  sc_FilePath :: string

definition no_meta :: ScriptMeta where
  "no_meta = \<lparr>sm_Name = [], sm_Description = [], sm_Enabled = False\<rparr>"

section \<open>Strings\<close>

abbreviation newline :: char where
  "newline \<equiv> CHR 0x0A"

definition HasPrefix :: "string \<Rightarrow> string \<Rightarrow> bool" where
  "HasPrefix p s \<longleftrightarrow> take (length p) s = p"

definition HasSuffix :: "string \<Rightarrow> string \<Rightarrow> bool" where
  "HasSuffix p s \<longleftrightarrow> length p \<le> length s \<and> drop (length s - length p) s = p"

text \<open>What is before and after the first occurrence of a text.\<close>

fun cut_at :: "string \<Rightarrow> string \<Rightarrow> (string \<times> string) option" where
  "cut_at p [] = (if p = [] then Some ([], []) else None)"
| "cut_at p (c # cs) =
     (if HasPrefix p (c # cs) then Some ([], drop (length p) (c # cs))
      else map_option (\<lambda>(a, b). (c # a, b)) (cut_at p cs))"

definition contains :: "string \<Rightarrow> string \<Rightarrow> bool" where
  "contains p s \<longleftrightarrow> cut_at p s \<noteq> None"

text \<open>\<^verbatim>\<open>strings.Split(s, "\n")\<close> and \<^verbatim>\<open>strings.Join(lines, "\n")\<close>.\<close>

fun split_lines :: "string \<Rightarrow> string list" where
  "split_lines [] = [[]]"
| "split_lines (c # cs) =
     (if c = newline then [] # split_lines cs
      else (case split_lines cs of [] \<Rightarrow> [[c]] | l # ls \<Rightarrow> (c # l) # ls))"

fun join_lines :: "string list \<Rightarrow> string" where
  "join_lines [] = []"
| "join_lines [l] = l"
| "join_lines (l # l' # ls) = l @ newline # join_lines (l' # ls)"

text \<open>\<^verbatim>\<open>strings.TrimSpace(s) == ""\<close>: nothing but characters with the Unicode property White Space.\<close>

definition white_rune :: "bytes \<Rightarrow> bool" where
  "white_rune rn \<longleftrightarrow>
     rn \<in> {[9], [10], [11], [12], [13], [32], [0xC2, 0x85], [0xC2, 0xA0], [0xE1, 0x9A, 0x80], [0xE2, 0x80, 0xA8], [0xE2, 0x80, 0xA9],
           [0xE2, 0x80, 0xAF], [0xE2, 0x81, 0x9F], [0xE3, 0x80, 0x80]} \<or>
     (\<exists>k \<in> set [0x80, 0x81, 0x82, 0x83, 0x84, 0x85, 0x86, 0x87, 0x88, 0x89, 0x8A]. rn = [0xE2, 0x80, k])"

function blank_bytes :: "bytes \<Rightarrow> bool" where
  "blank_bytes [] = True"
| "blank_bytes (a # r) =
     (let n = utf8_len (a # r) in if n = 0 then False else white_rune (take n (a # r)) \<and> blank_bytes (drop n (a # r)))"
  by pat_completeness auto
termination
  by (relation "measure length") (auto simp: Let_def)

definition blank :: "string \<Rightarrow> bool" where
  "blank s = blank_bytes (bytes_of s)"

section \<open>Names of scripts\<close>

definition validScriptID :: "string \<Rightarrow> bool" where
  "validScriptID i \<longleftrightarrow> i \<noteq> [] \<and> i \<noteq> ''.'' \<and> i \<noteq> ''..'' \<and> CHR ''/'' \<notin> set i \<and> CHR 0x5C \<notin> set i \<and> \<not> contains ''..'' i"

text \<open>
  The slug of a name. Runes are put into lower case; each run of runes other than lower-case letters and digits becomes
  one underscore, and underscores at the ends go, among them those of leading and trailing space.
\<close>

definition slug_char :: "char \<Rightarrow> bool" where
  "slug_char c \<longleftrightarrow> topic_safe c \<and> c \<noteq> CHR ''_'' \<and> c \<noteq> CHR ''-''"

fun collapse :: "string \<Rightarrow> string" where
  "collapse [] = []"
| "collapse (c # cs) =
     (if slug_char c then c # collapse cs
      else (case collapse cs of [] \<Rightarrow> [CHR ''_''] | d # ds \<Rightarrow> if d = CHR ''_'' then d # ds else CHR ''_'' # d # ds))"

definition trim_underscores :: "string \<Rightarrow> string" where
  "trim_underscores s = rev (dropWhile (\<lambda>c. c = CHR ''_'') (rev (dropWhile (\<lambda>c. c = CHR ''_'') s)))"

definition slugify :: "string \<Rightarrow> string" where
  "slugify name = take 40 (trim_underscores (collapse (topic_runes (bytes_of name))))"

section \<open>The text of a script\<close>

definition meta_text :: "ScriptMeta \<Rightarrow> string" where
  "meta_text m =
     ''{'' @ json_quote ''name'' @ '':'' @ json_quote (sm_Name m)
     @ (if sm_Description m \<noteq> [] then '','' @ json_quote ''description'' @ '':'' @ json_quote (sm_Description m) else [])
     @ '','' @ json_quote ''enabled'' @ '':'' @ (if sm_Enabled m then ''true'' else ''false'') @ ''}''"

definition blockly_open :: string where
  "blockly_open = ''--[[BLOCKLY_XML''"

definition blockly_close :: string where
  "blockly_close = ''BLOCKLY_XML]]--''"

definition serializeScript :: "Script \<Rightarrow> string" where
  "serializeScript s =
     ''-- '' @ meta_text (sc_Meta s) @ [newline]
     @ (if sc_BlocklyXML s \<noteq> [] then blockly_open @ [newline] @ sc_BlocklyXML s @ [newline] @ blockly_close @ [newline] else [])
     @ (if sc_LuaCode s \<noteq> []
        then [newline] @ sc_LuaCode s @ (if HasSuffix [newline] (sc_LuaCode s) then [] else [newline]) else [])"

definition meta_fields :: "(string \<times> ScriptMeta decoder) list" where
  "meta_fields =
     [(''name'', dec_at sm_Name sm_Name_update dec_str), (''description'', dec_at sm_Description sm_Description_update dec_str),
      (''enabled'', dec_at sm_Enabled sm_Enabled_update dec_bool)]"

text \<open>A syntax error leaves the metadata empty, a misfit what was decoded.\<close>

definition parse_meta :: "(string \<Rightarrow> jval option) \<Rightarrow> string \<Rightarrow> ScriptMeta" where
  "parse_meta js t = (case js t of None \<Rightarrow> no_meta | Some j \<Rightarrow> snd (dec_struct meta_fields j no_meta))"

text \<open>The regular expression: its group after the first opening, up to the first closing after it.\<close>

definition blocklyRe :: "string \<Rightarrow> string option" where
  "blocklyRe content =
     (case cut_at (blockly_open @ [newline]) content of
        None \<Rightarrow> None
      | Some (a, b) \<Rightarrow> map_option fst (cut_at (newline # blockly_close) b))"

text \<open>The lines outside Blockly blocks; the flag says whether the loop is in one.\<close>

fun strip_blockly :: "bool \<Rightarrow> string list \<Rightarrow> string list" where
  "strip_blockly b [] = []"
| "strip_blockly False (l # ls) =
     (if HasPrefix blockly_open l then strip_blockly True ls else l # strip_blockly False ls)"
| "strip_blockly True (l # ls) =
     (if HasPrefix blockly_close l then strip_blockly False ls else strip_blockly True ls)"

definition parse_content :: "(string \<Rightarrow> jval option) \<Rightarrow> string \<Rightarrow> string \<Rightarrow> string \<Rightarrow> Script" where
  "parse_content js i path content =
     (let ls = split_lines content;
          has_meta = HasPrefix ''-- {'' (ls ! 0);
          m = (if has_meta then parse_meta js (drop 3 (ls ! 0)) else no_meta);
          xml = (case blocklyRe content of Some x \<Rightarrow> x | None \<Rightarrow> []);
          lua = strip_blockly False (if has_meta then drop 1 ls else ls)
      in \<lparr>sc_ID = i, sc_Meta = m, sc_LuaCode = join_lines (dropWhile blank lua), sc_BlocklyXML = xml, sc_FilePath = path\<rparr>)"

section \<open>The directory\<close>

datatype entry = File string | Directory

datatype script_error = InvalidScriptID | OsError

text \<open>
  The operating system: whether the directory and a file can be read, whether \<^verbatim>\<open>Stat\<close> answers, whether a removal succeeds,
  and what a write that fails leaves behind (\<open>None\<close> for a write that succeeds).
\<close>

record os_env =
  os_readdir :: bool
  os_read :: "string \<Rightarrow> bool"
  os_stat :: "string \<Rightarrow> bool"
  os_remove :: "string \<Rightarrow> bool"
  os_write :: "string \<Rightarrow> string \<Rightarrow> (string \<times> entry) list option"

record Manager =
  mg_dir :: string
  mg_files :: "(string \<times> entry) list"

definition script_file :: "string \<Rightarrow> string" where
  "script_file i = i @ ''.lua''"

definition script_path :: "Manager \<Rightarrow> string \<Rightarrow> string" where
  "script_path m i = mg_dir m @ ''/'' @ script_file i"

definition parseFile :: "(string \<Rightarrow> jval option) \<Rightarrow> os_env \<Rightarrow> string \<Rightarrow> Manager \<Rightarrow> script_error + Script" where
  "parseFile js os i m =
     (case map_of (mg_files m) (script_file i) of
        Some (File c) \<Rightarrow> if os_read os (script_file i) then Inr (parse_content js i (script_path m i) c) else Inl OsError
      | _ \<Rightarrow> Inl OsError)"

definition Manager_Get :: "(string \<Rightarrow> jval option) \<Rightarrow> os_env \<Rightarrow> string \<Rightarrow> Manager \<Rightarrow> script_error + Script" where
  "Manager_Get js os i m = (if \<not> validScriptID i then Inl InvalidScriptID else parseFile js os i m)"

text \<open>Directories and files without the suffix are left out, and so are files that cannot be read.\<close>

definition Manager_List :: "(string \<Rightarrow> jval option) \<Rightarrow> os_env \<Rightarrow> Manager \<Rightarrow> script_error + Script list" where
  "Manager_List js os m =
     (if \<not> os_readdir os then Inl OsError
      else Inr (List.map_filter
        (\<lambda>(n, e). if e = Directory \<or> \<not> HasSuffix ''.lua'' n then None
                  else (case parseFile js os (take (length n - 4) n) m of Inr s \<Rightarrow> Some s | Inl _ \<Rightarrow> None))
        (mg_files m)))"

text \<open>\<^verbatim>\<open>os.IsNotExist\<close> of what \<^verbatim>\<open>Stat\<close> gives.\<close>

definition not_exist :: "os_env \<Rightarrow> Manager \<Rightarrow> string \<Rightarrow> bool" where
  "not_exist os m i \<longleftrightarrow> os_stat os (script_file i) \<and> map_of (mg_files m) (script_file i) = None"

fun unique_id :: "os_env \<Rightarrow> Manager \<Rightarrow> string \<Rightarrow> string \<Rightarrow> nat list \<Rightarrow> string" where
  "unique_id os m base i [] = i"
| "unique_id os m base i (k # ks) = (if not_exist os m i then i else unique_id os m base (base @ ''_'' @ dec_nat k) ks)"

definition new_id :: "os_env \<Rightarrow> Manager \<Rightarrow> string \<Rightarrow> string" where
  "new_id os m name =
     (let base = (if slugify name = [] then ''script'' else slugify name) in unique_id os m base base [1..<1001])"

definition write_file :: "os_env \<Rightarrow> string \<Rightarrow> string \<Rightarrow> Manager \<Rightarrow> bool \<times> Manager" where
  "write_file os n c m =
     (case os_write os n c of
        None \<Rightarrow> if map_of (mg_files m) n = Some Directory then (False, m) else (True, m\<lparr>mg_files := bucket_put n (File c) (mg_files m)\<rparr>)
      | Some fs \<Rightarrow> (False, m\<lparr>mg_files := fs\<rparr>))"

definition Manager_Save :: "os_env \<Rightarrow> Script \<Rightarrow> Manager \<Rightarrow> (script_error + Script) \<times> Manager" where
  "Manager_Save os s m =
     (let i = (if sc_ID s = [] then new_id os m (sm_Name (sc_Meta s)) else sc_ID s) in
      if sc_ID s \<noteq> [] \<and> \<not> validScriptID i then (Inl InvalidScriptID, m)
      else let s1 = s\<lparr>sc_ID := i, sc_FilePath := script_path m i\<rparr>;
               (ok, m1) = write_file os (script_file i) (serializeScript s1) m
           in if ok then (Inr s1, m1) else (Inl OsError, m1))"

definition Manager_Delete :: "os_env \<Rightarrow> string \<Rightarrow> Manager \<Rightarrow> (script_error + unit) \<times> Manager" where
  "Manager_Delete os i m =
     (if \<not> validScriptID i then (Inl InvalidScriptID, m)
      else if map_of (mg_files m) (script_file i) = None \<or> \<not> os_remove os (script_file i) then (Inl OsError, m)
      else (Inr (), m\<lparr>mg_files := bucket_delete (script_file i) (mg_files m)\<rparr>))"

section \<open>Lines\<close>

lemma split_lines_nonempty [simp]: "split_lines s \<noteq> []"
  by (cases s) (auto split: list.split)

lemma split_lines_append: "newline \<notin> set l \<Longrightarrow> split_lines (l @ newline # r) = l # split_lines r"
  by (induction l) auto

lemma join_split [simp]: "join_lines (split_lines s) = s"
proof (induction s)
  case (Cons c s)
  obtain l ls where "split_lines s = l # ls" using split_lines_nonempty[of s] by (cases "split_lines s") auto
  then show ?case using Cons by (cases ls) auto
qed simp

lemma split_lines_cut: "split_lines (x @ newline # y) = split_lines x @ split_lines y"
proof (induction x)
  case (Cons c x)
  obtain l ls where "split_lines x = l # ls" using split_lines_nonempty[of x] by (cases "split_lines x") auto
  then show ?case using Cons by simp
qed simp

lemma first_line: "split_lines s = takeWhile (\<lambda>c. c \<noteq> newline) s # tl (split_lines s)"
proof (induction s)
  case (Cons c s)
  then show ?case by (cases "split_lines s") auto
qed simp

lemma HasPrefix_iff: "HasPrefix p s \<longleftrightarrow> (\<exists>t. s = p @ t)"
proof
  assume "HasPrefix p s"
  then have "s = p @ drop (length p) s" unfolding HasPrefix_def by (metis append_take_drop_id)
  then show "\<exists>t. s = p @ t" ..
qed (auto simp: HasPrefix_def)

lemma before_newline: "newline \<notin> set l \<Longrightarrow> takeWhile (\<lambda>c. c \<noteq> newline) l = l"
  "newline \<notin> set l \<Longrightarrow> takeWhile (\<lambda>c. c \<noteq> newline) (l @ newline # r) = l"
  by (induction l) auto

lemma prefix_first_line: "newline \<notin> set p \<Longrightarrow> HasPrefix p s \<longleftrightarrow> HasPrefix p (takeWhile (\<lambda>c. c \<noteq> newline) s)"
proof (induction s arbitrary: p)
  case (Cons c s)
  then show ?case by (cases p) (auto simp: HasPrefix_def)
qed (simp add: HasPrefix_def)

lemma prefix_line_end: "newline \<notin> set p \<Longrightarrow> newline \<notin> set l \<Longrightarrow> HasPrefix p (l @ newline # r) \<longleftrightarrow> HasPrefix p l"
  using prefix_first_line[of p "l @ newline # r"] by (simp add: before_newline)

section \<open>The Blockly block\<close>

lemma cut_at_here: "cut_at p (p @ r) = Some ([], r)"
  by (cases "p @ r"; cases p) (auto simp: HasPrefix_def)

text \<open>The closing can only start at the end of a line.\<close>

lemma cut_at_close:
  assumes "newline \<notin> set k" "list_all (\<lambda>l. \<not> HasPrefix k l) (tl (split_lines x))"
  shows "cut_at (newline # k) (x @ newline # k @ r) = Some (x, r)"
  using assms(2)
proof (induction x)
  case Nil
  show ?case using cut_at_here[of "newline # k" r] by simp
next
  case (Cons c x)
  obtain l ls where x: "split_lines x = l # ls" "l = takeWhile (\<lambda>c. c \<noteq> newline) x" using first_line[of x] by auto
  show ?case
  proof (cases "c = newline")
    case True
    then have "\<not> HasPrefix k l" "list_all (\<lambda>l. \<not> HasPrefix k l) (tl (split_lines x))" using Cons.prems x by simp_all
    moreover have "takeWhile (\<lambda>c. c \<noteq> newline) (x @ newline # k @ r) = l" unfolding x(2)
      by (induction x) auto
    ultimately have "\<not> HasPrefix k (x @ newline # k @ r)" using prefix_first_line[OF assms(1), of "x @ newline # k @ r"] by simp
    then show ?thesis using Cons.IH \<open>list_all _ (tl (split_lines x))\<close> True by (simp add: HasPrefix_def)
  next
    case False
    then show ?thesis using Cons x by (simp add: HasPrefix_def)
  qed
qed

text \<open>The opening with its line end does not occur where no line ends in it.\<close>

lemma cut_at_line:
  assumes "newline \<notin> set l" "newline \<notin> set k" "\<not> HasSuffix k l"
  shows "cut_at (k @ [newline]) (l @ newline # r) = map_option (\<lambda>(a, b). (l @ newline # a, b)) (cut_at (k @ [newline]) r)"
proof -
  have no: "\<not> HasPrefix (k @ [newline]) (l @ newline # r)" if "newline \<notin> set l" "\<not> HasSuffix k l" for l
  proof
    assume "HasPrefix (k @ [newline]) (l @ newline # r)"
    then obtain t where t: "l @ newline # r = k @ newline # t" by (auto simp: HasPrefix_iff)
    have "l = k"
      using arg_cong[OF t, of "takeWhile (\<lambda>c. c \<noteq> newline)"] that(1) assms(2) by (simp add: before_newline)
    then show False using that(2) by (simp add: HasSuffix_def)
  qed
  show ?thesis using assms(1,3)
  proof (induction l)
    case Nil
    then show ?case using no[of "[]"] by simp
  next
    case (Cons c l)
    have "\<not> HasSuffix k l"
    proof
      assume "HasSuffix k l"
      then have "HasSuffix k (c # l)" by (auto simp: HasSuffix_def Suc_diff_le)
      then show False using Cons.prems(2) by simp
    qed
    then show ?case using Cons no[of "c # l"] by (cases "cut_at (k @ [newline]) r") auto
  qed
qed

lemma cut_at_last:
  assumes "newline \<notin> set l"
  shows "cut_at (k @ [newline]) l = None"
  using assms
proof (induction l)
  case (Cons c l)
  have "\<not> HasPrefix (k @ [newline]) (c # l)"
  proof
    assume "HasPrefix (k @ [newline]) (c # l)"
    then have "newline \<in> set (take (length (k @ [newline])) (c # l))" by (simp add: HasPrefix_def)
    then show False using Cons.prems by (auto dest: in_set_takeD)
  qed
  then show ?case using Cons by simp
qed simp

lemma contains_iff: "contains p s \<longleftrightarrow> (\<exists>a b. s = a @ p @ b)"
proof (induction s)
  case (Cons c s)
  have "contains p (c # s) \<longleftrightarrow> HasPrefix p (c # s) \<or> contains p s" by (auto simp: contains_def)
  also have "\<dots> \<longleftrightarrow> (\<exists>b. c # s = p @ b) \<or> (\<exists>a b. s = a @ p @ b)" unfolding Cons.IH HasPrefix_iff ..
  also have "\<dots> \<longleftrightarrow> (\<exists>a b. c # s = a @ p @ b)"
  proof
    assume "(\<exists>b. c # s = p @ b) \<or> (\<exists>a b. s = a @ p @ b)"
    then show "\<exists>a b. c # s = a @ p @ b" by (metis append_Cons append_Nil)
  next
    assume "\<exists>a b. c # s = a @ p @ b"
    then obtain a b where "c # s = a @ p @ b" by blast
    then show "(\<exists>b. c # s = p @ b) \<or> (\<exists>a b. s = a @ p @ b)" by (cases a) auto
  qed
  finally show ?case .
qed (simp add: contains_def)

lemma line_in: "l \<in> set (split_lines s) \<Longrightarrow> \<exists>a b. s = a @ l @ b"
proof (induction s arbitrary: l)
  case (Cons c s)
  obtain k ls where s: "split_lines s = k # ls" using split_lines_nonempty[of s] by (cases "split_lines s") auto
  have tail: ?case if "l \<in> set (split_lines s)" using Cons.IH[OF that] by (metis append_Cons)
  show ?case
  proof (cases "c = newline")
    case True
    then have "l = [] \<or> l \<in> set (split_lines s)" using Cons.prems by simp
    then show ?thesis using tail by (metis append_Nil)
  next
    case False
    then have "l = c # k \<or> l \<in> set (split_lines s)" using Cons.prems s by auto
    moreover have "k = takeWhile (\<lambda>c. c \<noteq> newline) s" using first_line[of s] s by simp
    then have "c # s = [] @ (c # k) @ dropWhile (\<lambda>c. c \<noteq> newline) s" by simp
    ultimately show ?thesis using tail by metis
  qed
qed simp

lemma no_marker_line:
  assumes "\<not> contains p s" "l \<in> set (split_lines s)"
  shows "\<not> HasPrefix p l \<and> \<not> HasSuffix p l"
proof -
  obtain a b where s: "s = a @ l @ b" using line_in[OF assms(2)] by blast
  have "\<not> HasPrefix p l" using assms(1) unfolding contains_iff s HasPrefix_iff by (metis append_assoc)
  moreover have "\<not> HasSuffix p l"
  proof
    assume "HasSuffix p l"
    then have "l = take (length l - length p) l @ p" unfolding HasSuffix_def by (metis append_take_drop_id)
    then show False using assms(1) unfolding contains_iff s by (metis append_assoc)
  qed
  ultimately show ?thesis ..
qed

section \<open>The metadata\<close>

text \<open>The value that the text of the metadata has.\<close>

definition meta_value :: "ScriptMeta \<Rightarrow> jval" where
  "meta_value m =
     JObj ([(''name'', JStr (json_string (sm_Name m)))]
       @ (if sm_Description m \<noteq> [] then [(''description'', JStr (json_string (sm_Description m)))] else [])
       @ [(''enabled'', JBool (sm_Enabled m))])"

definition fixed_meta :: "ScriptMeta \<Rightarrow> ScriptMeta" where
  "fixed_meta m = m\<lparr>sm_Name := json_string (sm_Name m), sm_Description := json_string (sm_Description m)\<rparr>"

lemma json_string_Nil: "json_string [] = []"
  by (simp add: json_string_def bytes_of_def string_of_def)

lemma decode_meta: "dec_struct meta_fields (meta_value m) no_meta = (True, fixed_meta m)"
  by (cases m) (simp add: dec_struct_def meta_value_def dec_field_def field_for_def meta_fields_def dec_at_def dec_str_def dec_bool_def
      no_meta_def fixed_meta_def json_string_Nil)

lemma meta_text_plain: "c \<in> set (meta_text m) \<Longrightarrow> 32 \<le> (of_char c :: nat)"
  unfolding meta_text_def by (auto dest: json_quote_plain split: if_splits)

lemma meta_text_ends: "\<exists>t. meta_text m = CHR ''{'' # t" "\<exists>t. meta_text m = t @ [CHR ''}'']"
  by (simp_all add: meta_text_def)

lemma header_line:
  "newline \<notin> set (''-- '' @ meta_text m)" "HasPrefix ''-- {'' (''-- '' @ meta_text m)" "drop 3 (''-- '' @ meta_text m) = meta_text m"
  "\<not> HasSuffix blockly_open (''-- '' @ meta_text m)"
proof -
  have "newline \<notin> set (meta_text m)"
  proof
    assume "newline \<in> set (meta_text m)"
    then have "32 \<le> (of_char newline :: nat)" by (rule meta_text_plain)
    then show False by simp
  qed
  then show "newline \<notin> set (''-- '' @ meta_text m)" by simp
  obtain t where "meta_text m = CHR ''{'' # t" using meta_text_ends(1) by blast
  then show "HasPrefix ''-- {'' (''-- '' @ meta_text m)" by (simp add: HasPrefix_def)
  obtain u where u: "meta_text m = u @ [CHR ''}'']" using meta_text_ends(2) by blast
  show "\<not> HasSuffix blockly_open (''-- '' @ meta_text m)"
  proof
    assume s: "HasSuffix blockly_open (''-- '' @ meta_text m)"
    then have "last (''-- '' @ meta_text m) = last blockly_open"
      unfolding HasSuffix_def by (metis blockly_open_def last_drop length_greater_0_conv list.discI diff_less drop_eq_Nil linorder_not_le)
    then show False by (simp add: u blockly_open_def)
  qed
qed simp

section \<open>Round trip\<close>

definition with_newline :: "string \<Rightarrow> string" where
  "with_newline c = (if HasSuffix [newline] c then c else c @ [newline])"

text \<open>What remains of Lua code in a file: it ends with a line end and starts with a line that is not blank.\<close>

definition stored_code :: "string \<Rightarrow> string" where
  "stored_code c = (if c = [] then [] else join_lines (dropWhile blank (split_lines (with_newline c))))"

lemma strip_outside: "list_all (\<lambda>l. \<not> HasPrefix blockly_open l) ls \<Longrightarrow> strip_blockly False ls = ls"
  by (induction ls) simp_all

lemma strip_inside:
  "list_all (\<lambda>l. \<not> HasPrefix blockly_close l) ls \<Longrightarrow> strip_blockly True (ls @ blockly_close # r) = strip_blockly False r"
  by (induction ls) (simp_all add: HasPrefix_def)

lemma markers: "newline \<notin> set blockly_open" "newline \<notin> set blockly_close" "HasPrefix blockly_open blockly_open" "blank []"
  by (simp_all add: blockly_open_def blockly_close_def HasPrefix_def blank_def bytes_of_def)

lemma with_newline_eq: "with_newline c = c @ (if HasSuffix [newline] c then [] else [newline])"
  by (simp add: with_newline_def)

lemma marker_with_newline:
  assumes "\<not> contains blockly_open c"
  shows "\<not> contains blockly_open (with_newline c)"
proof
  assume "contains blockly_open (with_newline c)"
  then obtain a b where e: "with_newline c = a @ blockly_open @ b" by (auto simp: contains_iff)
  show False
  proof (cases "HasSuffix [newline] c")
    case True
    then show False using e assms by (auto simp: with_newline_def contains_iff)
  next
    case False
    then have w: "c @ [newline] = a @ blockly_open @ b" using e by (simp add: with_newline_def)
    show False
    proof (cases b rule: rev_cases)
      case Nil
      have "last (c @ [newline]) = last blockly_open" unfolding w Nil by (simp add: blockly_open_def)
      then show False by (simp add: blockly_open_def)
    next
      case (snoc b' x)
      then show False using w assms by (auto simp: contains_iff)
    qed
  qed
qed

lemma parse_serialized:
  assumes "js (meta_text (sc_Meta s)) = Some (meta_value (sc_Meta s))"
    "list_all (\<lambda>l. \<not> HasPrefix blockly_close l) (split_lines (sc_BlocklyXML s))" "\<not> contains blockly_open (sc_LuaCode s)"
  shows "parse_content js i path (serializeScript s) =
    \<lparr>sc_ID = i, sc_Meta = fixed_meta (sc_Meta s), sc_LuaCode = stored_code (sc_LuaCode s), sc_BlocklyXML = sc_BlocklyXML s, sc_FilePath = path\<rparr>"
proof -
  define head_line where "head_line = ''-- '' @ meta_text (sc_Meta s)"
  define code where "code = (if sc_LuaCode s = [] then [] else newline # with_newline (sc_LuaCode s))"
  define blk where "blk = (if sc_BlocklyXML s = [] then [] else blockly_open @ newline # sc_BlocklyXML s @ newline # blockly_close @ newline # [])"
  note h = header_line[of "sc_Meta s", folded head_line_def]
  have c: "serializeScript s = head_line @ newline # blk @ code"
    by (simp add: serializeScript_def head_line_def code_def blk_def with_newline_eq)
  note plain = no_marker_line[OF marker_with_newline[OF assms(3)]]
  have code_lines: "list_all (\<lambda>l. \<not> HasPrefix blockly_open l) (split_lines code)"
    using plain by (auto simp: code_def list_all_iff HasPrefix_def blockly_open_def)
  have lua: "join_lines (dropWhile blank (split_lines code)) = stored_code (sc_LuaCode s)"
    using markers(4) by (simp add: code_def stored_code_def)
  have regex_none: "cut_at (blockly_open @ [newline]) code = None"
  proof -
    have "cut_at (blockly_open @ [newline]) (with_newline (sc_LuaCode s)) = None"
    proof (rule ccontr)
      assume "cut_at (blockly_open @ [newline]) (with_newline (sc_LuaCode s)) \<noteq> None"
      then obtain a b where "with_newline (sc_LuaCode s) = a @ blockly_open @ newline # b"
        unfolding contains_def[symmetric] contains_iff by auto
      then show False using marker_with_newline[OF assms(3)] unfolding contains_iff by metis
    qed
    moreover have "\<not> HasSuffix blockly_open []" by (simp add: HasSuffix_def blockly_open_def)
    ultimately show ?thesis using cut_at_line[of "[]" blockly_open "with_newline (sc_LuaCode s)"] markers(1)
      by (auto simp: code_def blockly_open_def)
  qed
  have rest: "split_lines (blk @ code) = (if sc_BlocklyXML s = [] then [] else blockly_open # split_lines (sc_BlocklyXML s) @ [blockly_close]) @ split_lines code"
  proof -
    have "split_lines blockly_open = [blockly_open]" "split_lines blockly_close = [blockly_close]" by (simp_all add: blockly_open_def blockly_close_def)
    then show ?thesis by (simp add: blk_def split_lines_cut)
  qed
  have strip: "strip_blockly False (split_lines (blk @ code)) = split_lines code"
    using strip_inside[OF assms(2), of "split_lines code"] strip_outside[OF code_lines] markers(3) by (simp add: rest)
  have xml: "blocklyRe (serializeScript s) = (if sc_BlocklyXML s = [] then None else Some (sc_BlocklyXML s))"
  proof (cases "sc_BlocklyXML s = []")
    case True
    then show ?thesis using cut_at_line[OF h(1) markers(1) h(4), of "blk @ code"] regex_none by (simp add: c blocklyRe_def blk_def)
  next
    case False
    then have b: "blk @ code = (blockly_open @ [newline]) @ (sc_BlocklyXML s @ newline # blockly_close @ newline # code)" by (simp add: blk_def)
    have "cut_at (newline # blockly_close) (sc_BlocklyXML s @ newline # blockly_close @ newline # code) = Some (sc_BlocklyXML s, newline # code)"
      by (rule cut_at_close[OF markers(2)]) (use assms(2) in \<open>auto simp: list_all_iff dest: list.set_sel(2)[rotated]\<close>)
    then show ?thesis using cut_at_line[OF h(1) markers(1) h(4), of "blk @ code"] cut_at_here[of "blockly_open @ [newline]"] False
      by (simp add: c blocklyRe_def b)
  qed
  have lines: "split_lines (serializeScript s) = head_line # split_lines (blk @ code)" unfolding c by (rule split_lines_append[OF h(1)])
  have meta: "parse_meta js (drop 3 head_line) = fixed_meta (sc_Meta s)" using assms(1) h(3) decode_meta by (simp add: parse_meta_def)
  show ?thesis using h(2) meta xml strip lua by (simp add: parse_content_def lines Let_def)
qed

section \<open>Identifiers\<close>

definition id_char :: "char \<Rightarrow> bool" where
  "id_char c \<longleftrightarrow> slug_char c \<or> c = CHR ''_''"

lemma id_chars_valid:
  assumes "i \<noteq> []" "list_all id_char i"
  shows "validScriptID i"
proof -
  have dot: "\<not> id_char CHR ''.''" "\<not> id_char CHR ''/''" "\<not> id_char CHR 0x5C"
    by (simp_all add: id_char_def slug_char_def topic_safe_def)
  have n: "c \<notin> set i" if "\<not> id_char c" for c using assms(2) that by (auto simp: list_all_iff)
  have "\<not> contains ''..'' i"
  proof
    assume "contains ''..'' i"
    then have "CHR ''.'' \<in> set i" by (auto simp: contains_iff)
    then show False using n[OF dot(1)] by simp
  qed
  then show ?thesis using assms(1) n[OF dot(1)] n[OF dot(2)] n[OF dot(3)] by (auto simp: validScriptID_def)
qed

lemma collapse_chars: "list_all id_char (collapse s)"
  by (induction s) (auto simp: id_char_def split: list.split)

lemma slugify_chars: "list_all id_char (slugify name)"
proof -
  have "set (slugify name) \<subseteq> set (collapse (topic_runes (bytes_of name)))"
    unfolding slugify_def trim_underscores_def by (auto dest!: in_set_takeD set_dropWhileD)
  then show ?thesis using collapse_chars by (auto simp: list_all_iff)
qed

lemma digit_id: "k < 10 \<Longrightarrow> id_char (char_of (48 + k :: nat))"
proof -
  assume k: "k < 10"
  then have c: "(of_char (char_of (48 + k) :: char) :: nat) = 48 + k" by simp
  then have "(of_char (char_of (48 + k) :: char) :: nat) \<noteq> of_char CHR ''_''" "(of_char (char_of (48 + k) :: char) :: nat) \<noteq> of_char CHR ''-''" using k by simp_all
  then have "(char_of (48 + k) :: char) \<noteq> CHR ''_''" "(char_of (48 + k) :: char) \<noteq> CHR ''-''" by metis+
  then show "id_char (char_of (48 + k))" using c k by (simp add: id_char_def slug_char_def topic_safe_def)
qed

lemma dec_nat_chars: "list_all id_char (dec_nat n)"
proof (induction n rule: dec_nat.induct)
  case (1 n)
  show ?case by (subst dec_nat.simps) (use 1 digit_id[of n] digit_id[of "n mod 10"] in auto)
qed

lemma unique_id_chars: "list_all id_char base \<Longrightarrow> list_all id_char i \<Longrightarrow> list_all id_char (unique_id os m base i ks)"
  by (induction ks arbitrary: i) (use dec_nat_chars in \<open>auto simp: id_char_def[of "CHR ''_''"]\<close>)

lemma unique_id_nonempty: "base \<noteq> [] \<Longrightarrow> i \<noteq> [] \<Longrightarrow> unique_id os m base i ks \<noteq> []"
  by (induction ks arbitrary: i) auto

lemma new_id_valid: "validScriptID (new_id os m name)"
proof -
  let ?b = "if slugify name = [] then ''script'' else slugify name"
  have "list_all id_char ''script''" by (simp add: id_char_def slug_char_def topic_safe_def)
  then have "list_all id_char ?b" "?b \<noteq> []" using slugify_chars by simp_all
  then show ?thesis unfolding new_id_def Let_def by (intro id_chars_valid unique_id_chars unique_id_nonempty)
qed

lemma unique_id_first: "ks \<noteq> [] \<Longrightarrow> not_exist os m i \<Longrightarrow> unique_id os m base i ks = i"
  by (cases ks) simp_all

text \<open>The loop ends with a name that is free, or with the last one, untested.\<close>

lemma unique_id_free:
  "not_exist os m (unique_id os m base i ks) \<or>
   (ks \<noteq> [] \<longrightarrow> unique_id os m base i ks = base @ ''_'' @ dec_nat (last ks)) \<and> \<not> not_exist os m i \<and>
   (\<forall>k \<in> set (butlast ks). \<not> not_exist os m (base @ ''_'' @ dec_nat k))"
proof (induction ks arbitrary: i)
  case (Cons k ks)
  then show ?case by (cases ks) auto
qed simp

section \<open>Saving and reading\<close>

lemma save_fields:
  assumes "Manager_Save os s m = (Inr s1, m1)"
  shows "validScriptID (sc_ID s1)" "s1 = s\<lparr>sc_ID := sc_ID s1, sc_FilePath := script_path m (sc_ID s1)\<rparr>"
    "m1 = m\<lparr>mg_files := bucket_put (script_file (sc_ID s1)) (File (serializeScript s1)) (mg_files m)\<rparr>"
    "sc_ID s1 = (if sc_ID s = [] then new_id os m (sm_Name (sc_Meta s)) else sc_ID s)"
proof -
  define i where "i = (if sc_ID s = [] then new_id os m (sm_Name (sc_Meta s)) else sc_ID s)"
  have v: "validScriptID i"
  proof (cases "sc_ID s = []")
    case False
    show ?thesis
    proof (rule ccontr)
      assume "\<not> validScriptID i"
      then have "\<not> validScriptID (sc_ID s)" using False by (simp add: i_def)
      then have "Manager_Save os s m = (Inl InvalidScriptID, m)" using False by (simp add: Manager_Save_def)
      then show False using assms by simp
    qed
  qed (simp add: i_def new_id_valid)
  have "\<not> (sc_ID s \<noteq> [] \<and> \<not> validScriptID i)" using v by blast
  then have "s1 = s\<lparr>sc_ID := i, sc_FilePath := script_path m i\<rparr>"
    "m1 = m\<lparr>mg_files := bucket_put (script_file i) (File (serializeScript s1)) (mg_files m)\<rparr>"
    using assms by (auto simp: Manager_Save_def i_def[symmetric] write_file_def Let_def split: prod.splits if_splits option.splits)
  then show "validScriptID (sc_ID s1)" "s1 = s\<lparr>sc_ID := sc_ID s1, sc_FilePath := script_path m (sc_ID s1)\<rparr>"
    "m1 = m\<lparr>mg_files := bucket_put (script_file (sc_ID s1)) (File (serializeScript s1)) (mg_files m)\<rparr>"
    "sc_ID s1 = (if sc_ID s = [] then new_id os m (sm_Name (sc_Meta s)) else sc_ID s)"
    using v by (simp_all add: i_def)
qed

lemma script_path_files [simp]: "script_path (m\<lparr>mg_files := x\<rparr>) = script_path m"
  by (simp add: script_path_def fun_eq_iff)

lemma script_file_inj [simp]: "script_file i = script_file j \<longleftrightarrow> i = j"
  by (simp add: script_file_def)

text \<open>
  a saved script is read back. Whatever was in the directory, a script that \<open>Save\<close> reports as saved has a valid
  identifier, and reading it gives its metadata, its Blockly text and its code, the code without leading blank lines
  and with a final line end; every other script stays as it was. The code must not contain the opening of a
  Blockly block, the Blockly text no line that starts with its closing.
\<close>

theorem script_roundtrip:
  assumes "Manager_Save os s m = (Inr s1, m1)" "js (meta_text (sc_Meta s)) = Some (meta_value (sc_Meta s))"
    "list_all (\<lambda>l. \<not> HasPrefix blockly_close l) (split_lines (sc_BlocklyXML s))" "\<not> contains blockly_open (sc_LuaCode s)"
    "os_read os (script_file (sc_ID s1))"
  shows "validScriptID (sc_ID s1)
     \<and> Manager_Get js os (sc_ID s1) m1 = Inr (s1\<lparr>sc_Meta := fixed_meta (sc_Meta s), sc_LuaCode := stored_code (sc_LuaCode s)\<rparr>)
     \<and> (j \<noteq> sc_ID s1 \<longrightarrow> Manager_Get js os j m1 = Manager_Get js os j m)"
proof -
  note f = save_fields[OF assms(1)]
  have e: "sc_Meta s1 = sc_Meta s" "sc_LuaCode s1 = sc_LuaCode s" "sc_BlocklyXML s1 = sc_BlocklyXML s" "sc_FilePath s1 = script_path m (sc_ID s1)"
    by (subst f(2); simp)+
  have "parse_content js (sc_ID s1) (script_path m (sc_ID s1)) (serializeScript s1) =
    \<lparr>sc_ID = sc_ID s1, sc_Meta = fixed_meta (sc_Meta s1), sc_LuaCode = stored_code (sc_LuaCode s1), sc_BlocklyXML = sc_BlocklyXML s1,
     sc_FilePath = script_path m (sc_ID s1)\<rparr>"
    by (rule parse_serialized) (use assms(2-4) e in simp_all)
  also have "\<dots> = s1\<lparr>sc_Meta := fixed_meta (sc_Meta s), sc_LuaCode := stored_code (sc_LuaCode s)\<rparr>" using e by (cases s1) simp
  finally have p: "parse_content js (sc_ID s1) (script_path m (sc_ID s1)) (serializeScript s1) =
    s1\<lparr>sc_Meta := fixed_meta (sc_Meta s), sc_LuaCode := stored_code (sc_LuaCode s)\<rparr>" .
  have g: "map_of (mg_files m1) = (map_of (mg_files m))(script_file (sc_ID s1) \<mapsto> File (serializeScript s1))" "script_path m1 = script_path m"
    by (subst f(3), simp add: bucket_put_map)+
  show ?thesis using f(1) p assms(5) unfolding Manager_Get_def parseFile_def g by simp
qed

text \<open>
  a new script gets a name of its own. A script without an identifier is saved under one that is safe as a file name,
  with no path separator and no dots, derived from its name; and the file did not exist before, unless a thousand
  files with the same base name are there: then the last name is taken without a look, and what it holds is
  overwritten.
\<close>

theorem new_script_fresh:
  assumes "sc_ID s = []" "Manager_Save os s m = (Inr s1, m1)" "os_stat os = (\<lambda>_. True)"
    "base = (if slugify (sm_Name (sc_Meta s)) = [] then ''script'' else slugify (sm_Name (sc_Meta s)))"
  shows "validScriptID (sc_ID s1) \<and> list_all id_char (sc_ID s1) \<and> HasPrefix base (sc_ID s1) \<and>
     (map_of (mg_files m) (script_file (sc_ID s1)) = None \<or>
      (sc_ID s1 = base @ ''_1000'' \<and> map_of (mg_files m) (script_file base) \<noteq> None \<and>
       (\<forall>k \<in> {1..999}. map_of (mg_files m) (script_file (base @ ''_'' @ dec_nat k)) \<noteq> None)))"
proof -
  have i: "sc_ID s1 = unique_id os m base base [1..<1001]" using save_fields(4)[OF assms(2)] assms(1,4) by (simp add: new_id_def Let_def)
  have p: "HasPrefix base j \<Longrightarrow> HasPrefix base (unique_id os m base j ks)" for j ks
    by (induction ks arbitrary: j) (auto simp: HasPrefix_iff)
  have "list_all id_char ''script''" by (simp add: id_char_def slug_char_def topic_safe_def)
  then have b: "list_all id_char base" using slugify_chars assms(4) by simp
  have u: "[1..<1001 :: nat] = [1..<1000] @ [1000]" using upt_Suc_append[of 1 1000] by (simp only: Suc_numeral) simp
  have bl: "butlast [1..<1001 :: nat] = [1..<1000]" "last [1..<1001 :: nat] = 1000" "[1..<1001 :: nat] \<noteq> []"
    unfolding u by (simp_all only: butlast_snoc last_snoc) simp
  have d: "dec_nat 1000 = ''1000''" by (simp add: dec_nat.simps char_of_def bit_iff_odd)
  have "not_exist os m (sc_ID s1) \<or> (sc_ID s1 = base @ ''_1000'' \<and> \<not> not_exist os m base \<and> (\<forall>k \<in> {1..999}. \<not> not_exist os m (base @ ''_'' @ dec_nat k)))"
    using unique_id_free[of os m base base "[1..<1001]"] unfolding i[symmetric] bl d by auto
  then show ?thesis using save_fields(1)[OF assms(2)] unique_id_chars[OF b b, of os m "[1..<1001]"] p[of base "[1..<1001]"]
    unfolding i[symmetric] by (auto simp: not_exist_def assms(3) HasPrefix_def)
qed

section \<open>Instances\<close>

definition demo_script :: Script where
  "demo_script = \<lparr>sc_ID = [], sc_Meta = \<lparr>sm_Name = ''Hall Light'', sm_Description = [], sm_Enabled = True\<rparr>,
     sc_LuaCode = ''x = 1'', sc_BlocklyXML = ''<b/>'', sc_FilePath = []\<rparr>"

definition demo_os :: os_env where
  "demo_os = \<lparr>os_readdir = True, os_read = (\<lambda>_. True), os_stat = (\<lambda>_. True), os_remove = (\<lambda>_. True), os_write = (\<lambda>_ _. None)\<rparr>"

definition demo_json :: "string \<Rightarrow> jval option" where
  "demo_json t = (if t = meta_text (sc_Meta demo_script) then Some (meta_value (sc_Meta demo_script)) else None)"

lemma demo_slug: "slugify ''Hall Light'' = ''hall_light''"
  by code_simp

lemma save_succeeds:
  assumes "sc_ID s = []" "os_write os = (\<lambda>_ _. None)" "Directory \<notin> snd ` set (mg_files m)"
  shows "\<exists>s1 m1. Manager_Save os s m = (Inr s1, m1)"
proof -
  have "map_of (mg_files m) n \<noteq> Some Directory" for n
  proof
    assume "map_of (mg_files m) n = Some Directory"
    then have "snd (n, Directory) \<in> snd ` set (mg_files m)" by (intro imageI map_of_SomeD)
    then show False using assms(3) by simp
  qed
  then show ?thesis using assms(1,2) by (simp add: Manager_Save_def write_file_def Let_def)
qed

lemma demo_save:
  obtains s1 m1 where "Manager_Save demo_os demo_script \<lparr>mg_dir = ''scripts'', mg_files = []\<rparr> = (Inr s1, m1)" "sc_ID s1 = ''hall_light''"
proof -
  let ?m = "\<lparr>mg_dir = ''scripts'', mg_files = []\<rparr>"
  have e: "sc_ID demo_script = []" "os_write demo_os = (\<lambda>_ _. None)" "sm_Name (sc_Meta demo_script) = ''Hall Light''"
    by (simp_all add: demo_script_def demo_os_def)
  obtain s1 m1 where s: "Manager_Save demo_os demo_script ?m = (Inr s1, m1)" using save_succeeds[OF e(1,2), of ?m] by auto
  have u: "[1..<1001 :: nat] \<noteq> []" by (simp only: upt_eq_Nil_conv) simp
  have f: "not_exist demo_os ?m ''hall_light''" by (simp add: not_exist_def demo_os_def)
  have "sc_ID s1 = new_id demo_os ?m ''Hall Light''" using save_fields(4)[OF s] e(1,3) by simp
  also have "\<dots> = unique_id demo_os ?m ''hall_light'' ''hall_light'' [1..<1001]" unfolding new_id_def demo_slug Let_def by (simp only: list.distinct if_False)
  also have "\<dots> = ''hall_light''" by (rule unique_id_first[OF u f])
  finally show thesis using that s by blast
qed

theorem script_roundtrip_witness:
  "\<exists>s1 m1. Manager_Save demo_os demo_script \<lparr>mg_dir = ''scripts'', mg_files = []\<rparr> = (Inr s1, m1)
     \<and> map_option sc_BlocklyXML (case Manager_Get demo_json demo_os ''hall_light'' m1 of Inr s \<Rightarrow> Some s | Inl _ \<Rightarrow> None) = Some ''<b/>''"
proof -
  obtain s1 m1 where s: "Manager_Save demo_os demo_script \<lparr>mg_dir = ''scripts'', mg_files = []\<rparr> = (Inr s1, m1)" "sc_ID s1 = ''hall_light''"
    by (rule demo_save)
  have x: "sc_BlocklyXML s1 = ''<b/>''" by (subst save_fields(2)[OF s(1)]) (simp add: demo_script_def)
  have "demo_json (meta_text (sc_Meta demo_script)) = Some (meta_value (sc_Meta demo_script))" by (simp add: demo_json_def)
  moreover have "list_all (\<lambda>l. \<not> HasPrefix blockly_close l) (split_lines (sc_BlocklyXML demo_script))"
    by (simp add: demo_script_def HasPrefix_def blockly_close_def)
  moreover have "\<not> contains blockly_open (sc_LuaCode demo_script)"
    by (simp add: demo_script_def contains_def HasPrefix_def blockly_open_def)
  moreover have "os_read demo_os (script_file (sc_ID s1))" by (simp add: demo_os_def)
  ultimately show ?thesis using script_roundtrip[OF s(1), of demo_json] s x by (intro exI[of _ s1] exI[of _ m1]) simp
qed

theorem new_script_fresh_witness:
  "\<exists>s1 m1. Manager_Save demo_os demo_script \<lparr>mg_dir = ''scripts'', mg_files = [(''hall_light.lua'', File [])]\<rparr> = (Inr s1, m1)
     \<and> sc_ID s1 \<noteq> ''hall_light'' \<and> validScriptID (sc_ID s1)"
proof -
  let ?m = "\<lparr>mg_dir = ''scripts'', mg_files = [(''hall_light.lua'', File [])]\<rparr>"
  have e: "sc_ID demo_script = []" "os_stat demo_os = (\<lambda>_. True)" "sm_Name (sc_Meta demo_script) = ''Hall Light''" "os_write demo_os = (\<lambda>_ _. None)"
    by (simp_all add: demo_script_def demo_os_def)
  obtain s1 m1 where s: "Manager_Save demo_os demo_script ?m = (Inr s1, m1)" using save_succeeds[OF e(1,4), of ?m] by auto
  have d: "dec_nat 1 = ''1''" by (simp add: dec_nat.simps char_of_def bit_iff_odd)
  have "map_of (mg_files ?m) (script_file (''hall_light'' @ ''_'' @ dec_nat 1)) = None" by (simp add: d script_file_def)
  moreover have "(1 :: nat) \<in> {1..999}" by simp
  ultimately have "map_of (mg_files ?m) (script_file (sc_ID s1)) = None"
    using new_script_fresh[OF e(1) s e(2) refl] unfolding e(3) demo_slug if_not_P[OF list.distinct(2)] by blast
  then have "sc_ID s1 \<noteq> ''hall_light''" by (auto simp: script_file_def)
  then show ?thesis using s new_script_fresh[OF e(1) s e(2) refl] by blast
qed

end
