(* ===== verification/Web_View.thy ===== *)
theory Web_View
  imports Device_Manager Automation_Scripts
begin

text \<open>
  What the pages show: the view of a device, the endpoints and their metadata, in
  \<^verbatim>\<open>internal/web/server.go\<close>. Whether an image file exists is an argument.
\<close>

section \<open>Values\<close>

fun toInt :: "go_fp \<Rightarrow> gval \<Rightarrow> int option" where
  "toInt fp (GInt w) = Some (sint w)"
| "toInt fp (GI64 w) = Some (sint w)"
| "toInt fp (GF64 w) = Some (sint (f64_to_i64 fp w))"
| "toInt fp (GU8 w) = Some (uint w)"
| "toInt fp (GU16 w) = Some (uint w)"
| "toInt fp (GU32 w) = Some (uint w)"
| "toInt fp (GU64 w) = Some (sint w)"
| "toInt fp v = None"

section \<open>The view of a device\<close>

record DeviceView =
  dv_IEEEAddress :: string
  dv_ShortAddress :: u16
  dv_Manufacturer :: string
  dv_Model :: string
  dv_FriendlyName :: string
  dv_Interviewed :: bool
  dv_JoinedAt :: int
  dv_LastSeen :: int
  dv_DeviceType :: string
  dv_TypeIcon :: string
  dv_HasOnOff :: bool
  dv_HasLevel :: bool
  dv_OnOffState :: string
  dv_EndpointCount :: nat
  dv_PrimaryEndpoint :: byte
  dv_IsKnown :: bool
  dv_HasPhoto :: bool
  dv_PhotoURL :: string
  dv_LQI :: byte
  dv_RSSI :: byte
  dv_BatteryPercent :: int
  dv_BatteryVoltage :: int
  dv_Temperature :: int
  dv_HasTemperature :: bool
  dv_Contact :: string
  dv_Occupancy :: string
  dv_Illuminance :: int
  dv_HasIlluminance :: bool
  dv_Humidity :: int
  dv_HasHumidity :: bool
  dv_LQIQuality :: string
  dv_Properties :: "(string \<times> gval) list"

definition lqi_quality :: "byte \<Rightarrow> string" where
  "lqi_quality q = (if q = 0 then [] else if 171 \<le> q then ''good'' else if 85 \<le> q then ''fair'' else ''poor'')"

definition blank_view :: "Device \<Rightarrow> DeviceView" where
  "blank_view dev = \<lparr>dv_IEEEAddress = dev_IEEEAddress dev, dv_ShortAddress = dev_ShortAddress dev, dv_Manufacturer = dev_Manufacturer dev,
     dv_Model = dev_Model dev, dv_FriendlyName = dev_FriendlyName dev, dv_Interviewed = dev_Interviewed dev,
     dv_JoinedAt = dev_JoinedAt dev, dv_LastSeen = dev_LastSeen dev, dv_DeviceType = ''unknown'', dv_TypeIcon = ''device'',
     dv_HasOnOff = False, dv_HasLevel = False, dv_OnOffState = [], dv_EndpointCount = length (dev_Endpoints dev), dv_PrimaryEndpoint = 1,
     dv_IsKnown = False, dv_HasPhoto = False, dv_PhotoURL = [], dv_LQI = dev_LQI dev, dv_RSSI = dev_RSSI dev,
     dv_BatteryPercent = -1, dv_BatteryVoltage = 0, dv_Temperature = 0, dv_HasTemperature = False, dv_Contact = [], dv_Occupancy = [],
     dv_Illuminance = 0, dv_HasIlluminance = False, dv_Humidity = 0, dv_HasHumidity = False, dv_LQIQuality = lqi_quality (dev_LQI dev),
     dv_Properties = dev_Properties dev\<rparr>"

text \<open>The image of a model, under a name that is safe as a path component; the answers are cached.\<close>

definition sanitize_model :: "string \<Rightarrow> string" where
  "sanitize_model m = map (\<lambda>c. if c = CHR '' '' then CHR ''_'' else if c = CHR ''*'' then CHR ''x'' else c) m"

definition photo_url :: "(string \<Rightarrow> bool) \<Rightarrow> string \<Rightarrow> string" where
  "photo_url exists model =
     (let s = sanitize_model model in
      if \<not> contains ''..'' s \<and> CHR ''/'' \<notin> set s \<and> CHR 0x5C \<notin> set s
      then (case List.find (\<lambda>ext. exists (s @ ext)) [''.jpg'', ''.png'', ''.webp''] of
              None \<Rightarrow> []
            | Some ext \<Rightarrow> ''/devices/img/'' @ s @ ext)
      else [])"

definition cache_photo :: "string \<Rightarrow> string \<Rightarrow> (string \<times> string) list \<Rightarrow> (string \<times> string) list" where
  "cache_photo model url cache = AList.update model url (if 500 \<le> length cache then [] else cache)"

definition device_photo :: "string \<Rightarrow> (string \<Rightarrow> bool) \<Rightarrow> string \<Rightarrow> (string \<times> string) list \<Rightarrow> string \<times> (string \<times> string) list" where
  "device_photo dir exists model cache =
     (if dir = [] \<or> model = [] then ([], cache)
      else case map_of cache model of
             Some url \<Rightarrow> (url, cache)
           | None \<Rightarrow> (let url = photo_url exists model in (url, cache_photo model url cache)))"

definition int_of :: "go_fp \<Rightarrow> Device \<Rightarrow> string \<Rightarrow> int option" where
  "int_of fp dev k = Option.bind (map_of (dev_Properties dev) k) (toInt fp)"

definition view_numbers :: "go_fp \<Rightarrow> Device \<Rightarrow> DeviceView \<Rightarrow> DeviceView" where
  "view_numbers fp dev v =
     (let temp = (case int_of fp dev ''temperature'' of Some n \<Rightarrow> Some n | None \<Rightarrow> int_of fp dev ''device_temperature'') in
      v\<lparr>dv_BatteryPercent := (case int_of fp dev ''battery'' of Some n \<Rightarrow> n | None \<Rightarrow> dv_BatteryPercent v),
        dv_BatteryVoltage := (case int_of fp dev ''battery_voltage'' of Some n \<Rightarrow> n | None \<Rightarrow> dv_BatteryVoltage v),
        dv_Temperature := (case temp of Some n \<Rightarrow> n | None \<Rightarrow> dv_Temperature v), dv_HasTemperature := (temp \<noteq> None),
        dv_Illuminance := (case int_of fp dev ''illuminance'' of Some n \<Rightarrow> n | None \<Rightarrow> dv_Illuminance v), dv_HasIlluminance := (int_of fp dev ''illuminance'' \<noteq> None),
        dv_Humidity := (case int_of fp dev ''humidity'' of Some n \<Rightarrow> n | None \<Rightarrow> dv_Humidity v), dv_HasHumidity := (int_of fp dev ''humidity'' \<noteq> None)\<rparr>)"

definition view_states :: "go_fp \<Rightarrow> Device \<Rightarrow> DeviceView \<Rightarrow> DeviceView" where
  "view_states fp dev v =
     v\<lparr>dv_Contact := (case map_of (dev_Properties dev) ''contact'' of Some (GBool b) \<Rightarrow> if b then ''open'' else ''closed'' | _ \<Rightarrow> dv_Contact v),
       dv_Occupancy := (case int_of fp dev ''occupancy'' of Some n \<Rightarrow> if n \<noteq> 0 then ''detected'' else ''clear'' | None \<Rightarrow> dv_Occupancy v),
       dv_OnOffState := (case map_of (dev_Properties dev) ''on_off'' of
           Some (GBool b) \<Rightarrow> if b then ''on'' else ''off''
         | Some (GF64 f) \<Rightarrow> if \<not> f64_is_zero f then ''on'' else ''off''
         | _ \<Rightarrow> dv_OnOffState v)\<rparr>"

text \<open>One cluster of the loop that finds the device's type.\<close>

definition set_type :: "string \<Rightarrow> string \<Rightarrow> DeviceView \<Rightarrow> DeviceView" where
  "set_type t icon v = v\<lparr>dv_DeviceType := t, dv_TypeIcon := icon\<rparr>"

definition view_cluster :: "u16 \<Rightarrow> DeviceView \<Rightarrow> DeviceView" where
  "view_cluster cid v =
     (let unknown = (dv_DeviceType v = ''unknown'') in
      if cid = 0x0006 then (let v1 = v\<lparr>dv_HasOnOff := True\<rparr> in if unknown then set_type ''switch'' ''plug'' v1 else v1)
      else if cid = 0x0008 then
        (let v1 = v\<lparr>dv_HasLevel := True\<rparr> in if dv_DeviceType v = ''switch'' \<or> unknown then set_type ''light'' ''bulb'' v1 else v1)
      else if cid = 0x0300 then set_type ''light'' ''bulb'' v
      else if cid = 0x0402 then set_type ''sensor'' ''thermometer'' v
      else if cid = 0x0405 then if unknown then set_type ''sensor'' ''humidity'' v else v
      else if cid = 0x0400 then if unknown then set_type ''sensor'' ''illuminance'' v else v
      else if cid = 0x0201 then set_type ''thermostat'' ''thermostat'' v
      else if cid = 0x0500 then if unknown then set_type ''sensor'' ''security'' v else v
      else v)"

definition view_types :: "Device \<Rightarrow> DeviceView \<Rightarrow> DeviceView" where
  "view_types dev v = fold view_cluster (concat (map ep_InClusters (dev_Endpoints dev))) v"

definition enrichDevice ::
  "go_fp \<Rightarrow> DeviceDB option \<Rightarrow> string \<Rightarrow> (string \<Rightarrow> bool) \<Rightarrow> Device \<Rightarrow> (string \<times> string) list \<Rightarrow> DeviceView \<times> (string \<times> string) list" where
  "enrichDevice fp db dir exists dev cache =
     (let known = (case db of None \<Rightarrow> False
                   | Some d \<Rightarrow> dev_Manufacturer dev \<noteq> [] \<and> dev_Model dev \<noteq> [] \<and> Lookup d (dev_Manufacturer dev) (dev_Model dev) \<noteq> None);
          (url, cache1) = device_photo dir exists (dev_Model dev) cache;
          v1 = (blank_view dev)\<lparr>dv_IsKnown := known, dv_HasPhoto := (url \<noteq> []), dv_PhotoURL := url\<rparr>;
          v2 = view_states fp dev (view_numbers fp dev v1);
          v3 = (case dev_Endpoints dev of [] \<Rightarrow> v2 | ep # _ \<Rightarrow> v2\<lparr>dv_PrimaryEndpoint := ep_ID ep\<rparr>)
      in (view_types dev v3, cache1))"

fun enrich_all ::
  "go_fp \<Rightarrow> DeviceDB option \<Rightarrow> string \<Rightarrow> (string \<Rightarrow> bool) \<Rightarrow> Device list \<Rightarrow> (string \<times> string) list \<Rightarrow> DeviceView list \<times> (string \<times> string) list" where
  "enrich_all fp db dir exists [] cache = ([], cache)"
| "enrich_all fp db dir exists (d # ds) cache =
     (let (v, cache1) = enrichDevice fp db dir exists d cache; (vs, cache2) = enrich_all fp db dir exists ds cache1 in (v # vs, cache2))"

section \<open>Endpoints\<close>

record ClusterInfo =
  ci_ID :: u16
  ci_Name :: string

record EndpointInfo =
  ei_ID :: byte
  ei_ProfileID :: u16
  ei_DeviceID :: u16
  ei_InClusters :: "ClusterInfo list"
  ei_OutClusters :: "ClusterInfo list"
  ei_HasOnOff :: bool
  ei_HasLevel :: bool

definition cluster_info :: "registry \<Rightarrow> u16 \<Rightarrow> ClusterInfo" where
  "cluster_info reg cid = \<lparr>ci_ID = cid, ci_Name = (case Registry_Get reg cid of None \<Rightarrow> [] | Some c \<Rightarrow> cl_Name c)\<rparr>"

definition endpoint_info :: "registry \<Rightarrow> Endpoint \<Rightarrow> EndpointInfo" where
  "endpoint_info reg ep = \<lparr>ei_ID = ep_ID ep, ei_ProfileID = ep_ProfileID ep, ei_DeviceID = ep_DeviceID ep,
     ei_InClusters = map (cluster_info reg) (ep_InClusters ep), ei_OutClusters = map (cluster_info reg) (ep_OutClusters ep),
     ei_HasOnOff = (0x0006 \<in> set (ep_InClusters ep)), ei_HasLevel = (0x0008 \<in> set (ep_InClusters ep))\<rparr>"

text \<open>The metadata for the forms: attributes, and the commands that a server takes.\<close>

record clMeta =
  cm_ID :: u16
  cm_Name :: string
  cm_Attributes :: "(u16 \<times> string \<times> byte) list"
  cm_Commands :: "(byte \<times> string) list"

record epMeta =
  em_ID :: byte
  em_Clusters :: "clMeta list"

definition cluster_meta :: "registry \<Rightarrow> u16 \<Rightarrow> clMeta" where
  "cluster_meta reg cid =
     (case Registry_Get reg cid of
        None \<Rightarrow> \<lparr>cm_ID = cid, cm_Name = [], cm_Attributes = [], cm_Commands = []\<rparr>
      | Some c \<Rightarrow> \<lparr>cm_ID = cid, cm_Name = cl_Name c,
          cm_Attributes = map (\<lambda>a. (ad_ID a, ad_Name a, ad_Type a)) (cl_Attributes c),
          cm_Commands = map (\<lambda>d. (cd_ID d, cd_Name d)) (filter (\<lambda>d. cd_Direction d = ToServer) (cl_Commands c))\<rparr>)"

definition endpoint_meta :: "registry \<Rightarrow> Endpoint \<Rightarrow> epMeta" where
  "endpoint_meta reg ep = \<lparr>em_ID = ep_ID ep, em_Clusters = map (cluster_meta reg) (ep_InClusters ep)\<rparr>"

definition page_title :: "Device \<Rightarrow> string" where
  "page_title dev =
     (if dev_FriendlyName dev \<noteq> [] then dev_FriendlyName dev
      else if dev_Manufacturer dev \<noteq> [] \<and> dev_Model dev \<noteq> [] then dev_Manufacturer dev @ '' '' @ dev_Model dev
      else dev_IEEEAddress dev)"

section \<open>Facts\<close>

lemma find_in: "List.find P xs = Some x \<Longrightarrow> x \<in> set xs \<and> P x"
  by (auto simp: find_Some_iff)

text \<open>An image URL stays below its directory, whatever the model is called: no separator and no parent directory.\<close>

lemma photo_url_safe:
  assumes "photo_url exists model \<noteq> []"
  shows "\<exists>n. photo_url exists model = ''/devices/img/'' @ n \<and> CHR ''/'' \<notin> set n \<and> CHR 0x5C \<notin> set n \<and> exists n"
  using assms by (auto simp: photo_url_def Let_def dest!: find_in split: if_splits option.splits)

lemma update_length: "length (AList.update k v al) \<le> Suc (length al)"
  by (induction al) auto

text \<open>The cache of images stays at most 500 entries.\<close>

lemma device_photo_bound: "length cache \<le> 500 \<Longrightarrow> length (snd (device_photo dir exists model cache)) \<le> 500"
  using update_length[of model "photo_url exists model" cache]
  by (auto simp: device_photo_def cache_photo_def Let_def split: option.split)

end
