(* ===== verification/Automation_Lua.thy ===== *)
theory Automation_Lua
  imports Automation_Scripts MQTT_Bridge
begin

text \<open>
  What a Lua script can call: \<^verbatim>\<open>internal/automation/lua_zigbee.go\<close> and \<^verbatim>\<open>lua_system.go\<close>, and the conversion of values in
  \<^verbatim>\<open>engine.go\<close>. The Lua interpreter is a third-party package: a call arrives here with its arguments checked and converted
  to the Go types that the code asks for; the number of a Lua function stands for the function.
\<close>

section \<open>Lua values\<close>

datatype lval = LNil | LBool bool | LNum u64 | LStr string | LFun nat | LTable "(lval \<times> lval) list"

datatype lua_call =
    ZOn string "(string \<times> lval) list" nat
  | ZOnOff byte string
  | ZBrightness string int
  | ZColor string int int
  | ZCommand string int int int "lval option"
  | ZGetProperty string string
  | ZAfter u64 nat
  | ZLog string
  | ZDevices
  | SDatetime string
  | STimeBetween int int
  | SLog string string
  | SExec string
  | TSend string

record clock =
  ck_hour :: nat  ck_minute :: nat  ck_second :: nat
  ck_weekday :: nat  ck_day :: nat  ck_month :: nat  ck_year :: nat
  ck_unix :: int
  ck_time_str :: string  ck_date_str :: string

record SystemConfig =
  sy_ExecAllowlist :: "string list"

record TelegramConfig =
  tg_BotToken :: string
  tg_ChatIDs :: "string list"

text \<open>
  The surroundings of a call: the configuration, the time at the \<open>n\<close>-th call, what a command prints (\<open>None\<close> if it fails or
  takes too long), and the parts of Go and of the interpreter that are tables of their own: lower case in
  Unicode, \<^verbatim>\<open>%v\<close> of other values, the text of a Lua value, and floats that do not fit a byte.
\<close>

record lua_ext =
  le_system :: SystemConfig
  le_telegram :: TelegramConfig
  le_now :: "nat \<Rightarrow> clock"
  le_exec :: "string \<Rightarrow> string list \<Rightarrow> string option"
  le_lower :: "string \<Rightarrow> string"
  le_fmt :: "gval \<Rightarrow> string"
  le_tostr :: "lval \<Rightarrow> string"
  le_byte :: "u64 \<Rightarrow> byte"
  le_fp :: go_fp

record luaEventHandler =
  lh_eventType :: string
  lh_ieee :: string
  lh_property :: string
  lh_fn :: nat

text \<open>What calls change: the coordinator, the handlers and timers of the script's VM, and what leaves the program.\<close>

record lua_world =
  lw_coord :: coord
  lw_handlers :: "luaEventHandler list"
  lw_timers :: "(u64 \<times> nat) list"
  lw_logs :: "string list"
  lw_execs :: "(string \<times> string list) list"
  lw_posts :: "(string \<times> string) list"
  lw_calls :: nat

section \<open>Values\<close>

fun goToLua :: "lua_ext \<Rightarrow> gval \<Rightarrow> lval" where
  "goToLua x GNil = LNil"
| "goToLua x (GBool b) = LBool b"
| "goToLua x (GStr s) = LStr s"
| "goToLua x (GInt w) = LNum (f64_of_int (sint w))"
| "goToLua x (GI64 w) = LNum (f64_of_int (sint w))"
| "goToLua x (GF64 w) = LNum w"
| "goToLua x (GU8 w) = LNum (f64_of_int (uint w))"
| "goToLua x (GU16 w) = LNum (f64_of_int (uint w))"
| "goToLua x (GU32 w) = LNum (f64_of_int (uint w))"
| "goToLua x (GU64 w) = LNum (f64_of_int (uint w))"
| "goToLua x (GI8 w) = LNum (f64_of_int (sint w))"
| "goToLua x (GI16 w) = LNum (f64_of_int (sint w))"
| "goToLua x (GI32 w) = LNum (f64_of_int (sint w))"
| "goToLua x (GF32 w) = LNum (f32_to_f64 (le_fp x) w)"
| "goToLua x (GMap kvs) = LTable (map (\<lambda>kv. (LStr (fst kv), goToLua x (snd kv))) kvs)"
| "goToLua x (GList vs) = LTable (zip (map (\<lambda>i. LNum (f64_of_int (int i))) [1..<length vs + 1]) (map (goToLua x) vs))"
| "goToLua x v = LStr (le_fmt x v)"

definition lua_string :: "lua_ext \<Rightarrow> lval \<Rightarrow> string" where
  "lua_string x v = (case v of LStr s \<Rightarrow> s | _ \<Rightarrow> le_tostr x v)"

text \<open>\<^verbatim>\<open>byte(n)\<close> of a Lua number.\<close>

definition lua_byte :: "lua_ext \<Rightarrow> u64 \<Rightarrow> byte" where
  "lua_byte x f =
     (if \<not> f64_is_nan f \<and> \<not> f64_is_inf f \<and> 0 \<le> f64_trunc f \<and> f64_trunc f < 256 then word_of_int (f64_trunc f) else le_byte x f)"

section \<open>Devices\<close>

definition isHexString :: "string \<Rightarrow> bool" where
  "isHexString s \<longleftrightarrow> list_all (\<lambda>c. let n = (of_char c :: nat) in (48 \<le> n \<and> n \<le> 57) \<or> (97 \<le> n \<and> n \<le> 102) \<or> (65 \<le> n \<and> n \<le> 70)) s"

text \<open>The two loops over the list of devices.\<close>

definition resolve_in :: "lua_ext \<Rightarrow> string \<Rightarrow> Device list \<Rightarrow> Device option" where
  "resolve_in x target devs =
     (let t = le_lower x target in
      case List.find (\<lambda>d. le_lower x (dev_FriendlyName d) = t) devs of
        Some d \<Rightarrow> Some d
      | None \<Rightarrow> List.find (\<lambda>d. fold_key (bytes_of (dev_IEEEAddress d)) = fold_key (bytes_of t)) devs)"

definition resolveDevice :: "lua_ext \<Rightarrow> bolt \<Rightarrow> string \<Rightarrow> Device option" where
  "resolveDevice x st target =
     (let rest = (case ListDevices st of Inl e \<Rightarrow> None | Inr devs \<Rightarrow> resolve_in x target devs) in
      if length target = 16 \<and> isHexString target
      then (case GetDevice (ascii_upper target) st of Inr d \<Rightarrow> Some d | Inl e \<Rightarrow> rest)
      else rest)"

definition lua_findEndpoint :: "Device \<Rightarrow> u16 \<Rightarrow> byte" where
  "lua_findEndpoint dev cid =
     (case List.find (\<lambda>ep. cid \<in> set (ep_InClusters ep)) (dev_Endpoints dev) of
        Some ep \<Rightarrow> ep_ID ep
      | None \<Rightarrow> (case dev_Endpoints dev of ep # _ \<Rightarrow> ep_ID ep | [] \<Rightarrow> 1))"

definition clamp :: "int \<Rightarrow> int" where
  "clamp n = (let m = (if n < 0 then 0 else n) in if m > 254 then 254 else m)"

text \<open>A command for a device, if the target names one; its failure is only logged.\<close>

definition send_to :: "lua_ext \<Rightarrow> string \<Rightarrow> (Device \<Rightarrow> byte) \<Rightarrow> u16 \<Rightarrow> byte \<Rightarrow> bytes \<Rightarrow> lua_world \<Rightarrow> lua_world" where
  "send_to x target ep cid k pl w =
     (case resolveDevice x (dm_store (co_dm (lw_coord w))) target of
        None \<Rightarrow> w
      | Some d \<Rightarrow> w\<lparr>lw_coord := snd (SendClusterCommand (dev_ShortAddress d) (ep d) cid k pl (lw_coord w))\<rparr>)"

section \<open>The zigbee module\<close>

type_synonym reply = "string + lval list"

definition maxHandlersPerScript :: nat where
  "maxHandlersPerScript = 100"

definition zigbeeOn :: "lua_ext \<Rightarrow> string \<Rightarrow> (string \<times> lval) list \<Rightarrow> nat \<Rightarrow> lua_world \<Rightarrow> reply \<times> lua_world" where
  "zigbeeOn x t flt f w =
     (let get = (\<lambda>k. case map_of flt k of None \<Rightarrow> [] | Some LNil \<Rightarrow> [] | Some v \<Rightarrow> lua_string x v);
          h = \<lparr>lh_eventType = t, lh_ieee = get ''ieee'', lh_property = get ''property'', lh_fn = f\<rparr>
      in if maxHandlersPerScript \<le> length (lw_handlers w) then (Inl ''too many handlers (max 100)'', w)
         else (Inr [], w\<lparr>lw_handlers := lw_handlers w @ [h]\<rparr>))"

definition zigbeeSendOnOff :: "lua_ext \<Rightarrow> byte \<Rightarrow> string \<Rightarrow> lua_world \<Rightarrow> reply \<times> lua_world" where
  "zigbeeSendOnOff x k target w = (Inr [], send_to x target (\<lambda>d. lua_findEndpoint d 0x0006) 0x0006 k [] w)"

definition zigbeeSetBrightness :: "lua_ext \<Rightarrow> string \<Rightarrow> int \<Rightarrow> lua_world \<Rightarrow> reply \<times> lua_world" where
  "zigbeeSetBrightness x target level w =
     (Inr [], send_to x target (\<lambda>d. lua_findEndpoint d 0x0008) 0x0008 0x04 [word_of_int (clamp level), 10, 0] w)"

definition zigbeeSetColor :: "lua_ext \<Rightarrow> string \<Rightarrow> int \<Rightarrow> int \<Rightarrow> lua_world \<Rightarrow> reply \<times> lua_world" where
  "zigbeeSetColor x target hue sat w =
     (Inr [], send_to x target (\<lambda>d. lua_findEndpoint d 0x0300) 0x0300 0x06 [word_of_int (clamp hue), word_of_int (clamp sat), 10, 0] w)"

definition lua_payload :: "lua_ext \<Rightarrow> lval option \<Rightarrow> bytes" where
  "lua_payload x arg =
     (case arg of
        Some (LTable kvs) \<Rightarrow> List.map_filter (\<lambda>(k, v). case v of LNum n \<Rightarrow> Some (lua_byte x n) | _ \<Rightarrow> None) kvs
      | _ \<Rightarrow> [])"

definition zigbeeSendCommand :: "lua_ext \<Rightarrow> string \<Rightarrow> int \<Rightarrow> int \<Rightarrow> int \<Rightarrow> lval option \<Rightarrow> lua_world \<Rightarrow> reply \<times> lua_world" where
  "zigbeeSendCommand x target ep cid k arg w =
     (if ep < 0 \<or> ep > 255 then (Inl ''endpoint must be 0-255'', w)
      else if cid < 0 \<or> cid > 65535 then (Inl ''cluster must be 0-65535'', w)
      else if k < 0 \<or> k > 255 then (Inl ''command must be 0-255'', w)
      else (Inr [], send_to x target (\<lambda>_. word_of_int ep) (word_of_int cid) (word_of_int k) (lua_payload x arg) w))"

definition zigbeeGetProperty :: "lua_ext \<Rightarrow> string \<Rightarrow> string \<Rightarrow> lua_world \<Rightarrow> reply \<times> lua_world" where
  "zigbeeGetProperty x target pn w =
     (case resolveDevice x (dm_store (co_dm (lw_coord w))) target of
        None \<Rightarrow> (Inr [LNil], w)
      | Some d \<Rightarrow> (case map_of (dev_Properties d) pn of Some v \<Rightarrow> (Inr [goToLua x v], w) | None \<Rightarrow> (Inr [LNil], w)))"

definition zigbeeAfter :: "u64 \<Rightarrow> nat \<Rightarrow> lua_world \<Rightarrow> reply \<times> lua_world" where
  "zigbeeAfter seconds f w = (Inr [], w\<lparr>lw_timers := lw_timers w @ [(seconds, f)]\<rparr>)"

definition zigbeeLog :: "string \<Rightarrow> lua_world \<Rightarrow> reply \<times> lua_world" where
  "zigbeeLog msg w = (Inr [], w\<lparr>lw_logs := lw_logs w @ [msg]\<rparr>)"

definition lua_device_name :: "Device \<Rightarrow> string" where
  "lua_device_name d =
     (if dev_FriendlyName d \<noteq> [] then dev_FriendlyName d
      else if dev_Model d = [] then dev_Manufacturer d
      else (if dev_Manufacturer d \<noteq> [] then dev_Manufacturer d @ '' '' else []) @ dev_Model d)"

definition device_entry :: "Device \<Rightarrow> lval" where
  "device_entry d = LTable [(LStr ''ieee'', LStr (dev_IEEEAddress d)), (LStr ''name'', LStr (lua_device_name d)),
     (LStr ''model'', LStr (dev_Model d)), (LStr ''manufacturer'', LStr (dev_Manufacturer d))]"

definition zigbeeDevices :: "lua_world \<Rightarrow> reply \<times> lua_world" where
  "zigbeeDevices w =
     (case ListDevices (dm_store (co_dm (lw_coord w))) of
        Inl e \<Rightarrow> (Inr [LTable []], w)
      | Inr devs \<Rightarrow> (Inr [LTable (zip (map (\<lambda>i. LNum (f64_of_int (int i))) [1..<length devs + 1]) (map device_entry devs))], w))"

section \<open>The system and telegram modules\<close>

definition lua_nat :: "nat \<Rightarrow> lval" where
  "lua_nat n = LNum (f64_of_int (int n))"

definition systemDatetime :: "clock \<Rightarrow> string \<Rightarrow> reply" where
  "systemDatetime ck c =
     (if c = ''hour'' then Inr [lua_nat (ck_hour ck)]
      else if c = ''minute'' then Inr [lua_nat (ck_minute ck)]
      else if c = ''second'' then Inr [lua_nat (ck_second ck)]
      else if c = ''weekday'' then Inr [lua_nat (ck_weekday ck)]
      else if c = ''day'' then Inr [lua_nat (ck_day ck)]
      else if c = ''month'' then Inr [lua_nat (ck_month ck)]
      else if c = ''year'' then Inr [lua_nat (ck_year ck)]
      else if c = ''timestamp'' then Inr [LNum (f64_of_int (ck_unix ck))]
      else if c = ''time_str'' then Inr [LStr (ck_time_str ck)]
      else if c = ''date_str'' then Inr [LStr (ck_date_str ck)]
      else Inl (''unknown component: '' @ c))"

definition systemTimeBetween :: "clock \<Rightarrow> int \<Rightarrow> int \<Rightarrow> reply" where
  "systemTimeBetween ck a b =
     (let h = int (ck_hour ck) in Inr [LBool (if a \<le> b then a \<le> h \<and> h < b else a \<le> h \<or> h < b)])"

definition systemLog :: "string \<Rightarrow> string \<Rightarrow> lua_world \<Rightarrow> reply \<times> lua_world" where
  "systemLog level msg w = (Inr [], w\<lparr>lw_logs := lw_logs w @ [''['' @ level @ ''] '' @ msg]\<rparr>)"

text \<open>\<^verbatim>\<open>strings.Fields\<close>.\<close>

function field_loop :: "bytes \<Rightarrow> bytes \<Rightarrow> string list" where
  "field_loop cur [] = (if cur = [] then [] else [string_of cur])"
| "field_loop cur (a # r) =
     (let n = utf8_len (a # r) in
      if n = 0 then field_loop (cur @ [a]) r
      else if white_rune (take n (a # r)) then (if cur = [] then [] else [string_of cur]) @ field_loop [] (drop n (a # r))
      else field_loop (cur @ take n (a # r)) (drop n (a # r)))"
  by pat_completeness auto
termination
  by (relation "measure (\<lambda>(cur, bs). length bs)") (auto simp: Let_def)

definition Fields :: "string \<Rightarrow> string list" where
  "Fields s = field_loop [] (bytes_of s)"

definition systemExec :: "lua_ext \<Rightarrow> string \<Rightarrow> lua_world \<Rightarrow> reply \<times> lua_world" where
  "systemExec x s w =
     (case Fields s of
        [] \<Rightarrow> (Inl ''empty command'', w)
      | binary # args \<Rightarrow>
          if \<not> HasPrefix ''/'' binary then (Inr [LStr []], w)
          else if binary \<notin> set (sy_ExecAllowlist (le_system x)) then (Inr [LStr []], w)
          else let w1 = w\<lparr>lw_execs := lw_execs w @ [(binary, args)]\<rparr> in
               (case le_exec x binary args of
                  None \<Rightarrow> (Inr [LStr []], w1)
                | Some out \<Rightarrow> (Inr [LStr (if 65536 < length out then take 65536 out else out)], w1)))"

definition telegramSend :: "lua_ext \<Rightarrow> string \<Rightarrow> lua_world \<Rightarrow> reply \<times> lua_world" where
  "telegramSend x msg w =
     (if tg_BotToken (le_telegram x) = [] then (Inr [], w)
      else if tg_ChatIDs (le_telegram x) = [] then (Inr [], w)
      else (Inr [], w\<lparr>lw_posts := lw_posts w @ map (\<lambda>cid. (cid, msg)) (tg_ChatIDs (le_telegram x))\<rparr>))"

text \<open>The tables that are registered under \<^verbatim>\<open>zigbee\<close>, \<^verbatim>\<open>system\<close> and \<^verbatim>\<open>telegram\<close>.\<close>

definition call_module :: "lua_ext \<Rightarrow> lua_call \<Rightarrow> lua_world \<Rightarrow> reply \<times> lua_world" where
  "call_module x a w =
     (case a of
        ZOn t flt f \<Rightarrow> zigbeeOn x t flt f w
      | ZOnOff k t \<Rightarrow> zigbeeSendOnOff x k t w
      | ZBrightness t l \<Rightarrow> zigbeeSetBrightness x t l w
      | ZColor t h s \<Rightarrow> zigbeeSetColor x t h s w
      | ZCommand t ep cid k p \<Rightarrow> zigbeeSendCommand x t ep cid k p w
      | ZGetProperty t p \<Rightarrow> zigbeeGetProperty x t p w
      | ZAfter s f \<Rightarrow> zigbeeAfter s f w
      | ZLog m \<Rightarrow> zigbeeLog m w
      | ZDevices \<Rightarrow> zigbeeDevices w
      | SDatetime c \<Rightarrow> (systemDatetime (le_now x (lw_calls w)) c, w)
      | STimeBetween i j \<Rightarrow> (systemTimeBetween (le_now x (lw_calls w)) i j, w)
      | SLog l m \<Rightarrow> systemLog l m w
      | SExec s \<Rightarrow> systemExec x s w
      | TSend m \<Rightarrow> telegramSend x m w)"

definition lua_api :: "lua_ext \<Rightarrow> lua_call \<Rightarrow> lua_world \<Rightarrow> reply \<times> lua_world" where
  "lua_api x a w = (let (r, w1) = call_module x a w in (r, w1\<lparr>lw_calls := lw_calls w1 + 1\<rparr>))"

end
