(* ===== verification/Automation_Calls.thy ===== *)
theory Automation_Calls
  imports Automation_Lua MQTT_Theorems
begin

text \<open>
  What scripts can do through the calls of \<^verbatim>\<open>Automation_Lua\<close>: which commands run, what reaches the radio, and which
  device a target names.
\<close>

section \<open>Targets\<close>

lemma lua_findEndpoint_same: "lua_findEndpoint = findEndpointWithCluster"
  by (simp add: fun_eq_iff lua_findEndpoint_def findEndpointWithCluster_def split: option.split list.split)

text \<open>
  What it means that a target names a stored device, in the order of precedence: the target is the hex form of eight bytes, in any case of
  letters, and the device is stored under it; the device is stored and its friendly name is the target but for the case of letters; it is stored and its
  address is the target but for the case of letters. \<open>addressed x st t i d\<close>: \<open>d\<close> is what \<open>t\<close> names in the way \<open>i\<close>, the first one in
  the order of the store, and no device is named in an earlier way.
\<close>

definition naming :: "lua_ext \<Rightarrow> bolt \<Rightarrow> string \<Rightarrow> (Device \<Rightarrow> bool) list" where
  "naming x st t =
     [\<lambda>d. \<exists>a. length a = 8 \<and> spelled t (hexstr a) \<and> GetDevice (hexstr a) st = Inr d,
      \<lambda>d. (\<exists>ds. ListDevices st = Inr ds \<and> d \<in> set ds) \<and> le_lower x (dev_FriendlyName d) = le_lower x t,
      \<lambda>d. (\<exists>ds. ListDevices st = Inr ds \<and> d \<in> set ds) \<and> fold_key (bytes_of (dev_IEEEAddress d)) = fold_key (bytes_of (le_lower x t))]"

definition addressed :: "lua_ext \<Rightarrow> bolt \<Rightarrow> string \<Rightarrow> nat \<Rightarrow> Device \<Rightarrow> bool" where
  "addressed x st t i d \<longleftrightarrow> i < 3 \<and> (naming x st t ! i) d \<and> (\<forall>j < i. \<forall>e. \<not> (naming x st t ! j) e)
     \<and> (0 < i \<longrightarrow> (\<exists>bs as. ListDevices st = Inr (bs @ d # as) \<and> (\<forall>e \<in> set bs. \<not> (naming x st t ! i) e)))"

definition unaddressed :: "lua_ext \<Rightarrow> bolt \<Rightarrow> string \<Rightarrow> bool" where
  "unaddressed x st t \<longleftrightarrow> (\<forall>i < 3. \<forall>e. \<not> (naming x st t ! i) e)"

text \<open>The hex digits that \<^verbatim>\<open>isHexString\<close> accepts.\<close>

abbreviation up :: "char \<Rightarrow> char" where
  "up c \<equiv> if 97 \<le> (of_char c :: nat) \<and> (of_char c :: nat) \<le> 122 then char_of ((of_char c :: nat) - 32) else c"

lemma hex_char: "isHexString [c] \<Longrightarrow> \<exists>n. n < 16 \<and> hex_val c = Some n \<and> hex_digit n = up c"
  by (auto simp: isHexString_def hex_val_def hex_digit_def Let_def char_of_eq_iff take_bit_nat_eq_self)

lemma hex_digit_range: "n < 16 \<Longrightarrow> (48 \<le> (of_char (hex_digit n) :: nat) \<and> (of_char (hex_digit n) :: nat) \<le> 57)
    \<or> (65 \<le> (of_char (hex_digit n) :: nat) \<and> (of_char (hex_digit n) :: nat) \<le> 70)"
  by (auto simp: hex_digit_def)

lemma up_code: "(of_char (up c) :: nat) = (if 97 \<le> (of_char c :: nat) \<and> (of_char c :: nat) \<le> 122 then of_char c - 32 else of_char c)"
  by (auto intro!: mod_less)

lemma isHex_Cons: "isHexString (c # s) \<longleftrightarrow> isHexString [c] \<and> isHexString s"
  by (simp add: isHexString_def)

lemma hex_upper: "isHexString s \<Longrightarrow> even (length s) \<Longrightarrow> \<exists>a. 2 * length a = length s \<and> hexstr a = ascii_upper s"
proof (induction s rule: hex_decode.induct)
  case (3 c d r)
  have h: "isHexString [c]" "isHexString [d]" "isHexString r" using 3(2) isHex_Cons by blast+
  obtain m n where m: "m < 16" "hex_val c = Some m" "hex_digit m = up c" and n: "n < 16" "hex_val d = Some n" "hex_digit n = up d"
    using hex_char[OF h(1)] hex_char[OF h(2)] by blast
  obtain a where a: "2 * length a = length r" "hexstr a = ascii_upper r" using 3(1)[OF refl m(2) n(2) h(3)] 3(3) by auto
  have "unat (word_of_nat (16 * m + n) :: byte) = 16 * m + n" using m(1) n(1) unfolding unat_of_nat by simp
  then have "hex2 (word_of_nat (16 * m + n)) = [up c, up d]" using m n by (simp add: hex2_def)
  then show ?case using a by (intro exI[of _ "word_of_nat (16 * m + n) # a"]) (simp add: hexstr_def ascii_upper_def)
qed (simp_all add: ascii_upper_def hexstr_def)

lemma hexstr_chars: "c \<in> set (hexstr a) \<Longrightarrow> \<exists>n < 16. c = hex_digit n"
  by (auto simp: hexstr_def hex2_def) (use hex2_bytes in blast)+

lemma spelled_hex: "spelled t (hexstr a) \<longleftrightarrow> ascii_upper t = hexstr a"
  by (rule spelled_upper[symmetric]) (fastforce simp: list_all_iff dest: hexstr_chars hex_digit_range)

lemma upper_hex: "ascii_upper t = hexstr a \<Longrightarrow> isHexString t \<and> length t = 2 * length a"
proof -
  assume u: "ascii_upper t = hexstr a"
  have "let n = (of_char c :: nat) in (48 \<le> n \<and> n \<le> 57) \<or> (97 \<le> n \<and> n \<le> 102) \<or> (65 \<le> n \<and> n \<le> 70)" if "c \<in> set t" for c
  proof -
    have "up c \<in> set (hexstr a)" using that unfolding u[symmetric] ascii_upper_def by auto
    then obtain n where n: "n < 16" "up c = hex_digit n" using hexstr_chars by blast
    note r = hex_digit_range[OF n(1), folded n(2), unfolded up_code]
    show ?thesis using r unfolding Let_def by (cases "97 \<le> (of_char c :: nat) \<and> (of_char c :: nat) \<le> 122") (simp_all only: if_True if_False, arith+)
  qed
  moreover have "length t = 2 * length a" using arg_cong[OF u, of length] by (simp add: ascii_upper_def)
  ultimately show ?thesis by (simp add: isHexString_def list_all_iff)
qed

lemma naming_key: "(naming x st t ! 0) d \<longleftrightarrow> length t = 16 \<and> isHexString t \<and> GetDevice (ascii_upper t) st = Inr d"
proof -
  have "(naming x st t ! 0) d \<longleftrightarrow> (\<exists>a. length a = 8 \<and> ascii_upper t = hexstr a \<and> GetDevice (ascii_upper t) st = Inr d)"
    by (auto simp: naming_def spelled_hex)
  also have "\<dots> \<longleftrightarrow> length t = 16 \<and> isHexString t \<and> GetDevice (ascii_upper t) st = Inr d"
    using upper_hex[of t] hex_upper[of t] by fastforce
  finally show ?thesis .
qed

lemma find_split: "List.find P xs = Some d \<Longrightarrow> \<exists>bs as. xs = bs @ d # as \<and> P d \<and> (\<forall>e \<in> set bs. \<not> P e)"
proof (induction xs)
  case (Cons y ys)
  show ?case
  proof (cases "P y")
    case True
    then show ?thesis using Cons.prems by (intro exI[of _ "[]"] exI[of _ ys]) simp
  next
    case False
    then obtain bs as where "ys = bs @ d # as" "P d" "\<forall>e \<in> set bs. \<not> P e" using Cons by auto
    then show ?thesis using False by (intro exI[of _ "y # bs"] exI[of _ as]) simp
  qed
qed simp

lemma addressedI:
  "(naming x st t ! 0) d \<Longrightarrow> addressed x st t 0 d"
  "ListDevices st = Inr (bs @ d # as) \<Longrightarrow> \<forall>e. \<not> (naming x st t ! 0) e \<Longrightarrow> (naming x st t ! 1) d \<Longrightarrow> \<forall>e \<in> set bs. \<not> (naming x st t ! 1) e
     \<Longrightarrow> addressed x st t 1 d"
  "ListDevices st = Inr (bs @ d # as) \<Longrightarrow> \<forall>e. \<not> (naming x st t ! 0) e \<Longrightarrow> \<forall>e. \<not> (naming x st t ! 1) e \<Longrightarrow> (naming x st t ! 2) d
     \<Longrightarrow> \<forall>e \<in> set bs. \<not> (naming x st t ! 2) e \<Longrightarrow> addressed x st t 2 d"
  unfolding addressed_def by (auto simp: less_2_cases_iff)

lemma unaddressed_iff: "unaddressed x st t \<longleftrightarrow> (\<forall>e. \<not> (naming x st t ! 0) e \<and> \<not> (naming x st t ! 1) e \<and> \<not> (naming x st t ! 2) e)"
  unfolding unaddressed_def numeral_3_eq_3 by (auto simp: less_Suc_eq numeral_2_eq_2)

lemma naming_list:
  assumes "ListDevices st = Inr devs"
  shows "(naming x st t ! 1) d \<longleftrightarrow> d \<in> set devs \<and> le_lower x (dev_FriendlyName d) = le_lower x t"
    "(naming x st t ! 2) d \<longleftrightarrow> d \<in> set devs \<and> fold_key (bytes_of (dev_IEEEAddress d)) = fold_key (bytes_of (le_lower x t))"
  using assms by (simp_all add: naming_def)

lemma resolve_in_spec:
  assumes "ListDevices st = Inr devs" "\<forall>e. \<not> (naming x st t ! 0) e"
  shows "case resolve_in x t devs of None \<Rightarrow> unaddressed x st t | Some d \<Rightarrow> \<exists>i. addressed x st t i d"
proof -
  note N = naming_list[OF assms(1), of x t]
  let ?P = "\<lambda>d. le_lower x (dev_FriendlyName d) = le_lower x t"
  let ?Q = "\<lambda>d. fold_key (bytes_of (dev_IEEEAddress d)) = fold_key (bytes_of (le_lower x t))"
  show ?thesis
  proof (cases "List.find ?P devs")
    case (Some d)
    obtain bs as where s: "devs = bs @ d # as" "?P d" "\<forall>e \<in> set bs. \<not> ?P e" using find_split[OF Some] by blast
    have "addressed x st t 1 d" by (rule addressedI(2)[where bs = bs and as = as]) (use assms s N in simp_all)
    then show ?thesis using Some by (auto simp: resolve_in_def Let_def)
  next
    case None
    then have n1: "\<forall>e. \<not> (naming x st t ! 1) e" unfolding N by (auto simp: find_None_iff)
    show ?thesis
    proof (cases "List.find ?Q devs")
      case (Some d)
      obtain bs as where s: "devs = bs @ d # as" "?Q d" "\<forall>e \<in> set bs. \<not> ?Q e" using find_split[OF Some] by blast
      have "addressed x st t 2 d" by (rule addressedI(3)[where bs = bs and as = as]) (use assms s N n1 in simp_all)
      then show ?thesis using None Some by (auto simp: resolve_in_def Let_def)
    next
      case none: None
      then have "\<forall>e. \<not> (naming x st t ! 2) e" unfolding N by (auto simp: find_None_iff)
      then have "unaddressed x st t" unfolding unaddressed_iff using n1 assms(2) by blast
      then show ?thesis using None none by (simp add: resolve_in_def)
    qed
  qed
qed

lemma resolveDevice_spec: "case resolveDevice x st t of None \<Rightarrow> unaddressed x st t | Some d \<Rightarrow> \<exists>i. addressed x st t i d"
proof (cases "\<exists>d. (naming x st t ! 0) d")
  case True
  then obtain d where d: "(naming x st t ! 0) d" by blast
  then have "addressed x st t 0 d" by (rule addressedI)
  moreover have "resolveDevice x st t = Some d" using d unfolding naming_key by (simp add: resolveDevice_def)
  ultimately show ?thesis by auto
next
  case False
  then have "resolveDevice x st t = (case ListDevices st of Inl e \<Rightarrow> None | Inr devs \<Rightarrow> resolve_in x t devs)"
    unfolding naming_key by (auto simp: resolveDevice_def Let_def split: sum.split)
  then show ?thesis
  proof (cases "ListDevices st")
    case (Inl e)
    then have "\<not> (naming x st t ! 1) e" "\<not> (naming x st t ! 2) e" for e by (simp_all add: naming_def)
    then have "unaddressed x st t" using False unfolding unaddressed_iff by blast
    then show ?thesis using \<open>resolveDevice x st t = _\<close> Inl by simp
  next
    case (Inr devs)
    then show ?thesis using resolve_in_spec[OF Inr] False \<open>resolveDevice x st t = _\<close> by simp
  qed
qed

lemma resolveDevice_name:
  assumes "\<not> (length target = 16 \<and> isHexString target)" "ListDevices st = Inr devs"
    "List.find (\<lambda>d. le_lower x (dev_FriendlyName d) = le_lower x target) devs = Some d"
  shows "resolveDevice x st target = Some d"
  using assms by (auto simp: resolveDevice_def resolve_in_def Let_def)

section \<open>What calls send\<close>

text \<open>The request of a call: cluster, command and payload for the device of its target.\<close>

definition call_request :: "lua_call \<Rightarrow> (string \<times> u16 \<times> byte \<times> bytes) option" where
  "call_request a = (case a of
       ZOnOff k t \<Rightarrow> Some (t, 0x0006, k, [])
     | ZBrightness t l \<Rightarrow> Some (t, 0x0008, 0x04, [word_of_int (max 0 (min 254 l)), 10, 0])
     | ZColor t h s \<Rightarrow> Some (t, 0x0300, 0x06, [word_of_int (max 0 (min 254 h)), word_of_int (max 0 (min 254 s)), 10, 0])
     | _ \<Rightarrow> None)"

lemma clamp_eq: "clamp n = max 0 (min 254 n)"
  by (simp add: clamp_def Let_def)

lemma send_to_spec:
  assumes "w' = send_to x target ep cid k pl w"
  shows "co_dm (lw_coord w') = co_dm (lw_coord w)
    \<and> (\<exists>sq. l_sent (co_link (lw_coord w')) = l_sent (co_link (lw_coord w)) @
        (case resolveDevice x (dm_store (co_dm (lw_coord w))) target of
           None \<Rightarrow> []
         | Some d \<Rightarrow> [(zbossCmdAPSDEDataReq, buildAPSDEDataReq (dev_ShortAddress d) (ep d) 1 cid zclProfileHA 30 (zclBuildClusterCommand sq k pl))]))
    \<and> lw_execs w' = lw_execs w \<and> lw_handlers w' = lw_handlers w"
proof (cases "resolveDevice x (dm_store (co_dm (lw_coord w))) target")
  case None
  then show ?thesis using assms by (simp add: send_to_def)
next
  case (Some d)
  obtain r c where r: "SendClusterCommand (dev_ShortAddress d) (ep d) cid k pl (lw_coord w) = (r, c)" by (metis prod.collapse)
  then have "w' = w\<lparr>lw_coord := c\<rparr>" using assms Some by (simp add: send_to_def)
  then show ?thesis using send_spec[OF r] Some by simp
qed

section \<open>What calls run\<close>

definition runnable :: "lua_ext \<Rightarrow> string \<Rightarrow> (string \<times> string list) list" where
  "runnable x s = (case Fields s of
       [] \<Rightarrow> []
     | b # args \<Rightarrow> if HasPrefix ''/'' b \<and> b \<in> set (sy_ExecAllowlist (le_system x)) then [(b, args)] else [])"

definition confined :: "lua_ext \<Rightarrow> lua_call \<Rightarrow> lua_world \<Rightarrow> lua_world \<Rightarrow> bool" where
  "confined x a w w' \<longleftrightarrow> co_dm (lw_coord w') = co_dm (lw_coord w)
     \<and> (\<exists>rs. l_sent (co_link (lw_coord w')) = l_sent (co_link (lw_coord w)) @ rs \<and> length rs \<le> 1)
     \<and> lw_execs w' = lw_execs w @ (case a of SExec s \<Rightarrow> runnable x s | _ \<Rightarrow> [])
     \<and> (length (lw_handlers w) \<le> maxHandlersPerScript \<longrightarrow> length (lw_handlers w') \<le> maxHandlersPerScript)"

lemma confined_same: "(\<forall>s. a \<noteq> SExec s) \<Longrightarrow> lw_coord w' = lw_coord w \<Longrightarrow> lw_execs w' = lw_execs w \<Longrightarrow> lw_handlers w' = lw_handlers w
    \<Longrightarrow> confined x a w w'"
  by (cases a) (simp_all add: confined_def)

lemma confined_send:
  assumes "\<forall>s. a \<noteq> SExec s"
  shows "confined x a w (send_to x target ep cid k pl w)"
proof -
  define w' where "w' = send_to x target ep cid k pl w"
  have "(case a of SExec s \<Rightarrow> runnable x s | _ \<Rightarrow> []) = []" using assms by (cases a) auto
  then show ?thesis using send_to_spec[OF w'_def] unfolding confined_def w'_def[symmetric]
    by (auto split: option.splits)
qed

lemma confined_exec: "confined x (SExec s) w (snd (systemExec x s w))"
  by (cases "Fields s") (auto simp: confined_def systemExec_def runnable_def Let_def split: option.split)

lemma call_confined: "confined x a w (snd (call_module x a w))"
proof (cases a)
  case (ZOn t flt f)
  then show ?thesis by (simp add: call_module_def confined_def zigbeeOn_def Let_def)
next
  case (ZOnOff k t)
  then show ?thesis by (simp add: call_module_def zigbeeSendOnOff_def confined_send)
next
  case (ZBrightness t l)
  then show ?thesis by (simp add: call_module_def zigbeeSetBrightness_def confined_send)
next
  case (ZColor t h s)
  then show ?thesis by (simp add: call_module_def zigbeeSetColor_def confined_send)
next
  case (ZCommand t ep cid k p)
  then show ?thesis by (simp add: call_module_def zigbeeSendCommand_def confined_send confined_same)
next
  case (SExec s)
  then show ?thesis using confined_exec by (simp add: call_module_def)
qed (auto simp: call_module_def zigbeeGetProperty_def zigbeeAfter_def zigbeeLog_def zigbeeDevices_def systemLog_def telegramSend_def
    intro!: confined_same split: option.split sum.split)

lemma api_confined: "confined x a w (snd (lua_api x a w))"
  using call_confined[of x a w] by (cases "call_module x a w") (simp add: lua_api_def confined_def)

definition lua_calls :: "lua_ext \<Rightarrow> lua_call list \<Rightarrow> lua_world \<Rightarrow> lua_world" where
  "lua_calls x as w = fold (\<lambda>a w. snd (lua_api x a w)) as w"

lemma lua_calls_Cons: "lua_calls x (a # as) w = lua_calls x as (snd (lua_api x a w))"
  by (simp add: lua_calls_def)

text \<open>
  C21: what a script can do outside its interpreter, by any sequence of calls: the store and the table of interviews
  stay as they are; at most one radio request goes out per call; the programs that run are those its
  \<^verbatim>\<open>system.exec\<close> calls name, in this order, and each has an absolute path that the configuration lists; the
  handlers stay at most 100.
\<close>

theorem script_confined:
  assumes "length (lw_handlers w) \<le> 100"
  shows "co_dm (lw_coord (lua_calls x as w)) = co_dm (lw_coord w)
    \<and> (\<exists>rs. l_sent (co_link (lw_coord (lua_calls x as w))) = l_sent (co_link (lw_coord w)) @ rs \<and> length rs \<le> length as)
    \<and> lw_execs (lua_calls x as w) = lw_execs w @ concat (map (\<lambda>a. case a of SExec s \<Rightarrow> runnable x s | _ \<Rightarrow> []) as)
    \<and> (p \<in> set (concat (map (\<lambda>a. case a of SExec s \<Rightarrow> runnable x s | _ \<Rightarrow> []) as)) \<longrightarrow>
         HasPrefix ''/'' (fst p) \<and> fst p \<in> set (sy_ExecAllowlist (le_system x)))
    \<and> length (lw_handlers (lua_calls x as w)) \<le> 100"
  using assms
proof (induction as arbitrary: w)
  case Nil
  then show ?case by (simp add: lua_calls_def)
next
  case (Cons a as)
  define w1 where "w1 = snd (lua_api x a w)"
  have c: "confined x a w w1" unfolding w1_def by (rule api_confined)
  then have h: "length (lw_handlers w1) \<le> 100" using Cons.prems by (simp add: confined_def maxHandlersPerScript_def)
  obtain r1 where r1: "l_sent (co_link (lw_coord w1)) = l_sent (co_link (lw_coord w)) @ r1" "length r1 \<le> 1"
    using c by (auto simp: confined_def)
  obtain rs where rs: "l_sent (co_link (lw_coord (lua_calls x as w1))) = l_sent (co_link (lw_coord w1)) @ rs" "length rs \<le> length as"
    using Cons.IH[OF h] by blast
  have "\<exists>rs. l_sent (co_link (lw_coord (lua_calls x as w1))) = l_sent (co_link (lw_coord w)) @ rs \<and> length rs \<le> length (a # as)"
    using r1 rs by (intro exI[of _ "r1 @ rs"]) simp
  moreover have "HasPrefix ''/'' (fst p) \<and> fst p \<in> set (sy_ExecAllowlist (le_system x))"
    if "p \<in> set (case a of SExec s \<Rightarrow> runnable x s | _ \<Rightarrow> [])"
    using that by (auto simp: runnable_def split: lua_call.splits list.splits if_splits)
  moreover have "co_dm (lw_coord w1) = co_dm (lw_coord w)"
    "lw_execs w1 = lw_execs w @ (case a of SExec s \<Rightarrow> runnable x s | _ \<Rightarrow> [])" using c by (simp_all add: confined_def)
  ultimately show ?case using Cons.IH[OF h] unfolding lua_calls_Cons w1_def[symmetric] by auto
qed

text \<open>
  C22: the switching, brightness and colour calls. A target that names stored devices (by its hex address, else by a friendly name,
  else by an address, in any case of letters) gets exactly one request, to the first device that it names in the first of these ways: for the cluster of the call, with levels
  limited to 0 and 254, and on an endpoint that serves the cluster if the device has one. A target that names none in any way sends nothing.
  Either way the call returns no error to the script. (A device without a friendly name has the empty one, so the empty target names it.)
\<close>

theorem lua_command:
  assumes "call_request a = Some (target, cid, k, pl)" "lua_api x a w = (r, w')" "st = dm_store (co_dm (lw_coord w))"
  shows "r = Inr []
    \<and> (if unaddressed x st target then l_sent (co_link (lw_coord w')) = l_sent (co_link (lw_coord w))
       else \<exists>i d sq. addressed x st target i d
          \<and> l_sent (co_link (lw_coord w')) = l_sent (co_link (lw_coord w)) @ [cluster_request d cid k pl sq]
          \<and> ((\<exists>ep \<in> set (dev_Endpoints d). cid \<in> set (ep_InClusters ep)) \<longrightarrow>
               (\<exists>ep \<in> set (dev_Endpoints d). ep_ID ep = findEndpointWithCluster d cid \<and> cid \<in> set (ep_InClusters ep))))"
proof -
  define w1 where "w1 = send_to x target (\<lambda>d. lua_findEndpoint d cid) cid k pl w"
  have m: "call_module x a w = (Inr [], w1)"
    using assms(1) by (auto simp: call_request_def call_module_def zigbeeSendOnOff_def zigbeeSetBrightness_def
        zigbeeSetColor_def clamp_eq w1_def split: lua_call.splits)
  then have r: "r = Inr []" "lw_coord w' = lw_coord w1" using assms(2) by (auto simp: lua_api_def)
  obtain sq where sq: "l_sent (co_link (lw_coord w1)) = l_sent (co_link (lw_coord w)) @
        (case resolveDevice x st target of None \<Rightarrow> [] | Some d \<Rightarrow> [cluster_request d cid k pl sq])"
    using send_to_spec[OF w1_def] unfolding cluster_request_def lua_findEndpoint_same assms(3) by blast
  have s: "\<exists>ep \<in> set (dev_Endpoints d). ep_ID ep = findEndpointWithCluster d cid \<and> cid \<in> set (ep_InClusters ep)"
    if "\<exists>ep \<in> set (dev_Endpoints d). cid \<in> set (ep_InClusters ep)" for d using that by (elim bexE) (rule find_serves)
  show ?thesis
  proof (cases "resolveDevice x st target")
    case None
    then show ?thesis using resolveDevice_spec[of x st target] sq unfolding r by simp
  next
    case (Some d)
    then obtain i where i: "addressed x st target i d" using resolveDevice_spec[of x st target] by auto
    then have "\<not> unaddressed x st target" by (auto simp: addressed_def unaddressed_def)
    then show ?thesis using i s[of d] sq Some unfolding r by auto
  qed
qed

text \<open>
  the name of a device that has none is empty, so the empty target names the first such device: a script that
  switches the device \<^verbatim>\<open>""\<close> (a variable that was never set, say) sends the request to a device that nobody named.
\<close>

theorem empty_target_command:
  assumes "b_ok (dm_store (co_dm (lw_coord w)))" "le_lower x [] = []"
    "b_devices (dm_store (co_dm (lw_coord w))) = before @ (i, d) # rest" "\<forall>e \<in> snd ` set before. le_lower x (dev_FriendlyName e) \<noteq> []"
    "dev_FriendlyName d = []"
  shows "\<exists>sq. l_sent (co_link (lw_coord (snd (lua_api x (ZOnOff k []) w)))) = l_sent (co_link (lw_coord w)) @ [cluster_request d 0x0006 k [] sq]"
proof -
  have "List.find (\<lambda>e. le_lower x (dev_FriendlyName e) = le_lower x []) (map snd before @ d # map snd rest) = Some d"
    using assms(2,4,5) by (induction before) auto
  then have d: "resolveDevice x (dm_store (co_dm (lw_coord w))) [] = Some d"
    using assms(1,3) by (intro resolveDevice_name[where devs = "map snd (b_devices (dm_store (co_dm (lw_coord w))))"]) (simp_all add: ListDevices_def)
  have "lw_coord (snd (lua_api x (ZOnOff k []) w)) = lw_coord (send_to x [] (\<lambda>d. lua_findEndpoint d 0x0006) 0x0006 k [] w)"
    by (simp add: lua_api_def call_module_def zigbeeSendOnOff_def)
  then show ?thesis using send_to_spec[OF refl, of x "[]" "\<lambda>d. lua_findEndpoint d 0x0006" "0x0006" k "[]" w] d
    by (simp add: cluster_request_def lua_findEndpoint_same)
qed

text \<open>An hour window wraps around midnight; an empty one holds no hour.\<close>

lemma systemTimeBetween_cyclic:
  assumes "0 \<le> a" "a < 24" "0 \<le> b" "b < 24" "ck_hour ck < 24"
  shows "systemTimeBetween ck a b = Inr [LBool ((int (ck_hour ck) - a) mod 24 < (b - a) mod 24)]"
proof -
  have m: "(y - a) mod 24 = (if a \<le> y then y - a else y - a + 24)" if "0 \<le> y" "y < 24" for y
  proof (cases "a \<le> y")
    case True
    then show ?thesis using assms(1) that by simp
  next
    case False
    then have "(y - a) mod 24 = (y - a + 24) mod 24" by simp
    also have "\<dots> = y - a + 24" using False assms(1,2) that by (intro mod_pos_pos_trivial) linarith+
    finally show ?thesis using False by simp
  qed
  have h: "int (ck_hour ck) < 24" using assms(5) by simp
  show ?thesis unfolding m[OF assms(3,4)] m[OF of_nat_0_le_iff h] using assms h
    by (simp add: systemTimeBetween_def Let_def)
qed

section \<open>Instances\<close>

definition demo_lua :: lua_ext where
  "demo_lua = \<lparr>le_system = \<lparr>sy_ExecAllowlist = [''/bin/date'']\<rparr>, le_telegram = \<lparr>tg_BotToken = [], tg_ChatIDs = []\<rparr>,
     le_now = (\<lambda>n. \<lparr>ck_hour = 23, ck_minute = 0, ck_second = 0, ck_weekday = 1, ck_day = 1, ck_month = 1, ck_year = 2024,
       ck_unix = 0, ck_time_str = ''23:00'', ck_date_str = ''2024-01-01''\<rparr>),
     le_exec = (\<lambda>_ _. Some ''now''), le_lower = (\<lambda>s. map (\<lambda>b. char_of (unat (ascii_lower b))) (bytes_of s)), le_fmt = (\<lambda>_. []), le_tostr = (\<lambda>_. []),
     le_byte = (\<lambda>_. 0), le_fp = zero_fp\<rparr>"

definition demo_lua_world :: "Device \<Rightarrow> lua_world" where
  "demo_lua_world d = \<lparr>lw_coord = New (new_ncp all_handlers) (demo_link [Some (demo_frame 0 0 [])]) \<lparr>b_ok = True, b_devices = [(''0A'', d)], b_network = None\<rparr>,
     lw_handlers = [], lw_timers = [], lw_logs = [], lw_execs = [], lw_posts = [], lw_calls = 0\<rparr>"

lemma demo_world_simps:
  "dm_store (co_dm (lw_coord (demo_lua_world d))) = \<lparr>b_ok = True, b_devices = [(''0A'', d)], b_network = None\<rparr>"
  "l_sent (co_link (lw_coord (demo_lua_world d))) = []"
  "length (lw_handlers (demo_lua_world d)) \<le> 100" "lw_execs (demo_lua_world d) = []"
  by (simp_all add: demo_lua_world_def New_def demo_link_def RebuildAddrIndex_def NewDeviceManager_def split: sum.split)

theorem script_confined_witness:
  "lw_execs (lua_calls demo_lua [SExec ''/bin/date -u'', SExec ''/bin/rm x'', TSend ''hi''] (demo_lua_world demo_lamp)) = [(''/bin/date'', [''-u''])]"
proof -
  have r: "runnable demo_lua ''/bin/date -u'' = [(''/bin/date'', [''-u''])]" "runnable demo_lua ''/bin/rm x'' = []" by code_simp+
  show ?thesis
    using script_confined[OF demo_world_simps(3)[of demo_lamp], of demo_lua "[SExec ''/bin/date -u'', SExec ''/bin/rm x'', TSend ''hi'']"]
    by (simp add: demo_world_simps r)
qed

theorem lua_command_witness:
  "\<exists>sq. l_sent (co_link (lw_coord (snd (lua_api demo_lua (ZBrightness ''LAMP'' 999) (demo_lua_world demo_lamp))))) =
     [cluster_request demo_lamp 8 4 [254, 10, 0] sq]"
proof -
  let ?st = "\<lparr>b_ok = True, b_devices = [(''0A'', demo_lamp)], b_network = None\<rparr> :: bolt"
  have a: "call_request (ZBrightness ''LAMP'' 999) = Some (''LAMP'', 0x0008, 0x04, [254, 10, 0])" by (simp add: call_request_def)
  have "le_lower demo_lua (dev_FriendlyName demo_lamp) = le_lower demo_lua ''LAMP''" by code_simp
  then have n: "(naming demo_lua ?st ''LAMP'' ! 1) demo_lamp" by (simp add: naming_def ListDevices_def)
  then have u: "\<not> unaddressed demo_lua ?st ''LAMP''" unfolding unaddressed_def by force
  have one: "d = demo_lamp" if "addressed demo_lua ?st ''LAMP'' i d" for i d
    using that by (cases "i = 0") (auto simp: addressed_def naming_key ListDevices_def Cons_eq_append_conv)
  show ?thesis
    using lua_command[OF a prod.collapse[symmetric], of ?st "demo_lua_world demo_lamp" demo_lua] u one
    by (auto simp: demo_world_simps)
qed

theorem empty_target_command_witness:
  "\<exists>sq. l_sent (co_link (lw_coord (snd (lua_api demo_lua (ZOnOff 1 []) (demo_lua_world (new_device ''0A'')))))) =
     [cluster_request (new_device ''0A'') 6 1 [] sq]"
proof -
  have l: "le_lower demo_lua [] = []" by (simp add: demo_lua_def bytes_of_def)
  have n: "dev_FriendlyName (new_device ''0A'') = []" by (simp add: new_device_def)
  show ?thesis
    using empty_target_command[OF _ l _ _ n, of "demo_lua_world (new_device ''0A'')" "[]" "''0A''" "[]" 1] by (simp add: demo_world_simps)
qed

end
