(* ===== verification/Automation_Sandbox.thy ===== *)
theory Automation_Sandbox
  imports Automation_Lua Go_Float
begin

text \<open>
  The restricted interpreter state of a script, \<^verbatim>\<open>newSandboxedLuaState\<close> and \<^verbatim>\<open>sandboxStringRep\<close> of
  \<^verbatim>\<open>internal/automation/engine.go\<close>: which libraries it has, what is taken out, and the wrapper that keeps
  \<^verbatim>\<open>string.rep\<close> from filling the memory. The wrapper compares a product of two 64-bit integers that may wrap
  around.
\<close>

section \<open>Integers as floats\<close>

text \<open>A script's numbers are floats: an integer below \<open>2 ^ 53\<close> keeps its value, a larger one most of it.\<close>

lemma f64_units_pattern:
  assumes "2 ^ 52 \<le> n" "n \<le> 2 ^ 53" "e \<le> 1100"
  shows "f64_units (word_of_nat (e * 2 ^ 52 + n)) = n * 2 ^ e \<and> \<not> f64_neg (word_of_nat (e * 2 ^ 52 + n))"
proof -
  define b where "b = e * 2 ^ 52 + n"
  have small: "b < 2 ^ 63" using assms by (simp add: b_def)
  then have u: "unat (word_of_nat b :: u64) = b" by (simp add: unat_of_nat)
  have "bit (unat (word_of_nat b :: u64)) 63 \<longleftrightarrow> bit (word_of_nat b :: u64) 63" by (simp add: bit_simps)
  then have neg: "\<not> f64_neg (word_of_nat b)" using small by (simp add: f64_neg_def u bit_iff_odd)
  define d where "d = n - 2 ^ 52"
  have n: "n = 2 ^ 52 + d" "d \<le> 2 ^ 52" using assms by (auto simp: d_def)
  have w: "f64_exp (word_of_nat b) = b div 2 ^ 52 mod 2048" "f64_frac (word_of_nat b) = b mod 2 ^ 52"
    unfolding f64_exp_nat f64_frac_nat u by (rule refl)+
  show ?thesis
  proof (cases "d = 2 ^ 52")
    case True
    then have "b = (e + 2) * 2 ^ 52" using n by (simp add: b_def)
    then have "b div 2 ^ 52 = e + 2" "b mod 2 ^ 52 = 0" by simp_all
    with w have "f64_exp (word_of_nat b) = e + 2" "f64_frac (word_of_nat b) = 0" using assms(3) by simp_all
    then show ?thesis using neg True n(1) unfolding b_def[symmetric] by (simp add: f64_units_def f64_mant_def)
  next
    case False
    then have "b = d + (e + 1) * 2 ^ 52" "d < 2 ^ 52" using n by (simp_all add: b_def)
    then have "b div 2 ^ 52 = e + 1" "b mod 2 ^ 52 = d" by (simp_all only: div_mult_self1 mod_mult_self1) simp_all
    with w have "f64_exp (word_of_nat b) = e + 1" "f64_frac (word_of_nat b) = d" using assms(3) by simp_all
    then show ?thesis using neg n(1) unfolding b_def[symmetric] by (simp add: f64_units_def f64_mant_def)
  qed
qed

lemma bitlen_ge: "m \<noteq> 0 \<Longrightarrow> 2 ^ (bitlen m - 1) \<le> m"
proof (induction m rule: less_induct)
  case (less m)
  then show ?case
  proof (cases "m = 1")
    case False
    then have k: "m div 2 < m" "m div 2 \<noteq> 0" using less.prems by auto
    then have "2 ^ (bitlen (m div 2) - 1) \<le> m div 2" by (rule less.IH)
    moreover have "bitlen (m div 2) \<noteq> 0" using k(2) by (simp add: bitlen.simps[of "m div 2"])
    ultimately show ?thesis using less.prems
      by (cases "bitlen (m div 2)") (simp_all add: bitlen.simps[of m])
  qed (simp add: bitlen.simps)
qed

lemma f64_of_nat_trunc:
  assumes "0 < m" "m < 2 ^ 63"
  shows "\<not> f64_neg (f64_of_int (int m))" (is ?neg)
    and "m < 2 ^ 53 \<Longrightarrow> f64_trunc (f64_of_int (int m)) = int m" (is "_ \<Longrightarrow> ?exact")
    and "int m \<le> 2 * f64_trunc (f64_of_int (int m))" (is ?half)
proof -
  define b where "b = bitlen m"
  have b: "2 ^ (b - 1) \<le> m" "m < 2 ^ b" "b \<le> 63" "1 \<le> b"
    using assms bitlen_ge[of m] bitlen_bound[of m] bitlen_le[of m 63]
    by (auto simp: b_def bitlen.simps[of m])
  have w: "f64_of_int (int m) = word_of_nat (fp_round 53 (- 1074) (2047 * 2 ^ 52) m 0)"
    by (simp add: f64_of_int_def)
  have lt: "fp_round 53 (- 1074) (2047 * 2 ^ 52) m 0 < 2047 * 2 ^ 52"
    using assms by (intro fp_round_int_bound) simp
  have "?neg \<and> (m < 2 ^ 53 \<longrightarrow> ?exact) \<and> ?half"
  proof (cases "b \<le> 53")
    case True
    define n where "n = m * 2 ^ (53 - b)"
    have "2 ^ (b - 1) * 2 ^ (53 - b) \<le> n" "n < 2 ^ b * 2 ^ (53 - b)" using b by (simp_all add: n_def)
    then have n: "2 ^ 52 \<le> n" "n \<le> 2 ^ 53" using True b(4) by (simp_all add: power_add[symmetric])
    have "max (0 + int (bitlen m) - int 53) (- 1074) = int b - 53" using b(4) by (simp add: b_def)
    then have "fp_round 53 (- 1074) (2047 * 2 ^ 52) m 0 = (b + 1021) * 2 ^ 52 + n"
      using lt assms(1) True by (simp add: fp_round_def n_def Let_def nat_diff_distrib)
    then have p: "f64_units (f64_of_int (int m)) = n * 2 ^ (b + 1021)" ?neg
      unfolding w using f64_units_pattern[OF n, of "b + 1021"] b(3) by simp_all
    have "n * 2 ^ (b + 1021) = m * 2 ^ 1074"
      using True by (simp only: n_def mult.assoc power_add[symmetric]) simp
    then have "scale_trunc (f64_mant (f64_of_int (int m))) (f64_e2 (f64_of_int (int m))) = m"
      using scale_trunc_units[OF refl, of "f64_of_int (int m)"] p(1) by simp
    then show ?thesis using p(2) by (simp add: f64_trunc_def)
  next
    case False
    define s a n where "s = b - 53" and "a = m div 2 ^ s"
      and "n = (if 2 ^ (s - 1) < m mod 2 ^ s \<or> (m mod 2 ^ s = 2 ^ (s - 1) \<and> odd a) then a + 1 else a)"
    have s: "b = 53 + s" "1 \<le> s" using False by (simp_all add: s_def)
    have bb: "(2 :: nat) ^ b = 2 ^ 53 * 2 ^ s" "(2 :: nat) ^ (b - 1) = 2 ^ 52 * 2 ^ s"
      unfolding s(1) by (simp_all add: power_add)
    then have a: "2 ^ 52 \<le> a" "a < 2 ^ 53" using b(1,2)
      by (simp_all add: a_def less_eq_div_iff_mult_less_eq div_less_iff_less_mult)
    then have n: "2 ^ 52 \<le> n" "n \<le> 2 ^ 53" "a \<le> n" by (auto simp: n_def)
    have "max (0 + int (bitlen m) - int 53) (- 1074) = int s" using s by (simp add: b_def)
    then have "fp_round 53 (- 1074) (2047 * 2 ^ 52) m 0 = (s + 1074) * 2 ^ 52 + n"
      using lt assms(1) s(2) by (simp add: fp_round_def n_def a_def Let_def nat_add_distrib)
    then have p: "f64_units (f64_of_int (int m)) = n * 2 ^ (s + 1074)" ?neg
      unfolding w using f64_units_pattern[OF n(1,2), of "s + 1074"] b(3) s by simp_all
    have "scale_trunc (f64_mant (f64_of_int (int m))) (f64_e2 (f64_of_int (int m))) = n * 2 ^ s"
      by (simp only: scale_trunc_units[OF refl] p(1) shift_div(1))
    then have t: "f64_trunc (f64_of_int (int m)) = int (n * 2 ^ s)" using p(2) by (simp add: f64_trunc_def)
    have "a * 2 ^ s + m mod 2 ^ s = m" unfolding a_def by (rule div_mult_mod_eq)
    moreover have "m mod 2 ^ s < 2 ^ s" by simp
    moreover have "1 * 2 ^ s \<le> a * 2 ^ s" "a * 2 ^ s \<le> n * 2 ^ s" using a n(3) by (intro mult_right_mono; simp)+
    ultimately have "m \<le> 2 * (n * 2 ^ s)" by linarith
    then have ?half unfolding t by linarith
    moreover have "2 ^ 53 \<le> m"
    proof -
      have "(2 :: nat) ^ 53 \<le> 2 ^ (b - 1)" using s by (intro power_increasing) simp_all
      then show ?thesis using b(1) by linarith
    qed
    ultimately show ?thesis using p(2) by simp
  qed
  then show ?neg "m < 2 ^ 53 \<Longrightarrow> ?exact" ?half by simp_all
qed

section \<open>The libraries of a script\<close>

text \<open>
  A function of the interpreter takes the arguments of a call and gives its results, or the text of the error it
  raises (a panic in it is such an error, as it is called protected). The interpreter's own libraries, its checks of
  arguments and its error texts are a parameter.
\<close>

datatype lua_libname = BaseLib | TabLib | StringLib | MathLib

type_synonym lua_fn = "lval list \<Rightarrow> reply"

datatype lua_member = MFun lua_fn | MValue lval

datatype lua_global = GFun lua_fn | GLib "string \<Rightarrow> lua_member option" | GValue lval

type_synonym lua_globals = "string \<Rightarrow> lua_global option"

record lua_lib =
  ll_open :: "lua_libname \<Rightarrow> lua_globals \<Rightarrow> lua_globals"
  ll_CheckString :: "lval list \<Rightarrow> nat \<Rightarrow> string + string"
  ll_CheckInt :: "lval list \<Rightarrow> nat \<Rightarrow> string + u64"
  ll_ArgError :: "nat \<Rightarrow> string \<Rightarrow> string"
  ll_RaiseError :: "string \<Rightarrow> string"

definition maxStringRepLen :: u64 where
  "maxStringRepLen = push_bit 20 1"

text \<open>The wrapper: the product is one of signed 64-bit integers.\<close>

definition capped_rep :: "lua_lib \<Rightarrow> lua_fn \<Rightarrow> lua_fn" where
  "capped_rep lb origRep args =
     (case ll_CheckString lb args 1 of
        Inl e \<Rightarrow> Inl e
      | Inr s \<Rightarrow> (case ll_CheckInt lb args 2 of
          Inl e \<Rightarrow> Inl e
        | Inr n \<Rightarrow>
            if maxStringRepLen <s word_of_nat (length s) * n
            then Inl (ll_ArgError lb 2 ''resulting string exceeds 1MB limit'')
            else case origRep [LStr s, LNum (f64_of_int (sint n))] of
                Inl e \<Rightarrow> Inl (ll_RaiseError lb e)
              | Inr rs \<Rightarrow> Inr [case rs of [] \<Rightarrow> LNil | r # _ \<Rightarrow> r]))"

text \<open>
  The wrapper replaces the function of the library, if there is one; \<open>None\<close> where there is no library whose field could
  be read, which raises an error.
\<close>

definition sandboxStringRep :: "lua_lib \<Rightarrow> lua_globals \<Rightarrow> lua_globals option" where
  "sandboxStringRep lb g =
     (case g ''string'' of
        Some (GLib ms) \<Rightarrow> (case ms ''rep'' of
            Some (MFun f) \<Rightarrow> Some (g(''string'' \<mapsto> GLib (ms(''rep'' \<mapsto> MFun (capped_rep lb f)))))
          | _ \<Rightarrow> Some g)
      | _ \<Rightarrow> None)"

definition opened_libs :: "lua_lib \<Rightarrow> lua_globals" where
  "opened_libs lb = fold (ll_open lb) [BaseLib, TabLib, StringLib, MathLib] (\<lambda>_. None)"

definition sandboxed_globals :: "lua_lib \<Rightarrow> lua_globals option" where
  "sandboxed_globals lb =
     sandboxStringRep lb ((opened_libs lb)(''loadfile'' := None, ''dofile'' := None, ''load'' := None))"

section \<open>No string of a script's repetition exceeds the limit\<close>

text \<open>
  What the wrapper relies on: \<^verbatim>\<open>string.rep\<close> repeats its string by the integer of its second argument, none for a
  negative one, and fails when the result would not fit the memory (an address has 48 bits). A conversion of a
  float that is out of range gives the least integer, zero, or the greatest one.
\<close>

definition copies :: "int \<Rightarrow> string \<Rightarrow> string" where
  "copies k s = concat (replicate (nat k) s)"

definition rep_spec :: "go_fp \<Rightarrow> lua_fn \<Rightarrow> bool" where
  "rep_spec fp f \<longleftrightarrow>
     (\<forall>s w. case f [LStr s, LNum w] of
        Inl _ \<Rightarrow> True
      | Inr rs \<Rightarrow> rs = [LStr (copies (sint (f64_to_i64 fp w)) s)] \<and> length (copies (sint (f64_to_i64 fp w)) s) < 2 ^ 48)"

definition fp_extreme :: "go_fp \<Rightarrow> bool" where
  "fp_extreme fp \<longleftrightarrow> (\<forall>w. sint (fp_i64 fp w) \<le> 0 \<or> sint (fp_i64 fp w) = 2 ^ 63 - 1)"

lemma length_copies: "length (copies k s) = nat k * length s"
proof -
  have "length (concat (replicate n s)) = n * length s" for n by (induction n) simp_all
  then show ?thesis by (simp add: copies_def)
qed

lemma copies_none: "k \<le> 0 \<Longrightarrow> copies k s = []"
  by (simp add: copies_def)

text \<open>The number of copies that the original makes for an integer that went through a float.\<close>

lemma repetition_count:
  fixes n :: u64
  assumes "fp_extreme fp" "sint (f64_to_i64 fp (f64_of_int (sint n))) < 2 ^ 48"
  shows "sint (f64_to_i64 fp (f64_of_int (sint n))) = sint n
    \<or> sint (f64_to_i64 fp (f64_of_int (sint n))) \<le> 0 \<and> (sint n \<le> 0 \<or> 2 ^ 53 \<le> sint n)"
proof -
  define w t where "w = f64_of_int (sint n)" and "t = f64_trunc w"
  have lim: "- (2 ^ 63) \<le> sint n" "sint n < 2 ^ 63"
    using sint_ge[of n] sint_lt[of n] by simp_all
  have fin: "f64_exp w \<noteq> 2047" unfolding w_def using lim by (intro f64_of_int_finite) simp
  show ?thesis
  proof (cases "t < - (2 ^ 63) \<or> 2 ^ 63 \<le> t")
    case True
    then have "f64_to_i64 fp w = fp_i64 fp w" by (simp add: f64_to_i64_def t_def)
    then have k: "sint (f64_to_i64 fp w) \<le> 0" using assms by (auto simp: fp_extreme_def w_def)
    have "sint n \<le> 0 \<or> 2 ^ 53 \<le> sint n"
    proof (rule ccontr)
      assume "\<not> ?thesis"
      then have "0 < nat (sint n)" "nat (sint n) < 2 ^ 53" "int (nat (sint n)) = sint n" by (simp_all add: nat_less_iff)
      then have "t = sint n" using f64_of_nat_trunc(2)[of "nat (sint n)"] by (simp add: t_def w_def)
      then show False using True lim by linarith
    qed
    then show ?thesis using k by (simp add: w_def)
  next
    case False
    then have "f64_to_i64 fp w = word_of_int t" using fin by (simp add: f64_to_i64_def t_def)
    moreover have "sint (word_of_int t :: u64) = t" using False 
      by (subst sint_sbintrunc') (rule signed_take_bit_int_eq_self, simp_all)
    ultimately have k: "sint (f64_to_i64 fp w) = t" by simp
    show ?thesis
    proof (cases "0 < sint n")
      case True
      define m where "m = nat (sint n)"
      have m: "0 < m" "m < 2 ^ 63" "int m = sint n" using True lim by (simp_all add: m_def nat_less_iff)
      have "int m \<le> 2 * t" using f64_of_nat_trunc(3)[OF m(1,2)] by (simp add: t_def w_def m(3))
      moreover have "t < 2 ^ 48" using assms(2) k by (simp add: w_def)
      ultimately have "int m < 2 ^ 53" by simp
      then have "m < 2 ^ 53" by simp
      then have "t = sint n" using f64_of_nat_trunc(2)[OF m(1,2)] m(3) by (simp add: t_def w_def)
      then show ?thesis using k by (simp add: w_def)
    next
      case False
      have "t \<le> 0"
      proof (cases "sint n = 0")
        case True
        then show ?thesis by (simp add: t_def w_def f64_of_int_def fp_round_def f64_trunc_def f64_mant_def f64_exp_def f64_frac_def scale_trunc_def)
      next
        case zero: False
        then have "f64_neg w" using False by (simp add: w_def f64_of_int_def f64_neg_def Let_def bit_simps)
        then show ?thesis by (simp add: t_def f64_trunc_def)
      qed
      then show ?thesis using k False by (simp add: w_def)
    qed
  qed
qed

lemma product_not_wrapped:
  fixes n :: u64
  assumes "0 \<le> sint n" "nat (sint n) * len < 2 ^ 48" "\<not> maxStringRepLen <s word_of_nat len * n"
  shows "nat (sint n) * len \<le> 2 ^ 20"
proof -
  define p where "p = int len * sint n"
  have p: "p = int (nat (sint n) * len)" using assms(1) by (simp add: p_def)
  have "word_of_nat len * n = word_of_int p"
    by (simp add: p_def)
  moreover have "0 \<le> p" "p < int (2 ^ 48)" unfolding p using assms(2) by (simp_all only: of_nat_less_iff of_nat_0_le_iff)
  then have "sint (word_of_int p :: u64) = p"
    by (subst sint_sbintrunc') (rule signed_take_bit_int_eq_self, simp_all)
  ultimately have "p \<le> sint maxStringRepLen" using assms(3) by (simp add: word_sless_alt)
  then have "int (nat (sint n) * len) \<le> int (2 ^ 20)" unfolding p by (simp add: maxStringRepLen_def)
  then show ?thesis by (simp only: of_nat_le_iff)
qed

lemma capped_rep_bound:
  assumes "rep_spec fp f" "fp_extreme fp" "capped_rep lb f args = Inr rs"
  shows "\<exists>s n t. ll_CheckString lb args 1 = Inr s \<and> ll_CheckInt lb args 2 = Inr n \<and> rs = [LStr t]
    \<and> length t \<le> 2 ^ 20 \<and> (sint n < 2 ^ 53 \<longrightarrow> t = copies (sint n) s)"
proof -
  obtain s n rs1 where c: "ll_CheckString lb args 1 = Inr s" "ll_CheckInt lb args 2 = Inr n"
      "\<not> maxStringRepLen <s word_of_nat (length s) * n" "f [LStr s, LNum (f64_of_int (sint n))] = Inr rs1"
      "rs = [case rs1 of [] \<Rightarrow> LNil | r # _ \<Rightarrow> r]"
    using assms(3) by (auto simp: capped_rep_def split: sum.splits if_splits)
  define k where "k = sint (f64_to_i64 fp (f64_of_int (sint n)))"
  have "rs1 = [LStr (copies k s)] \<and> length (copies k s) < 2 ^ 48"
    using assms(1) unfolding rep_spec_def k_def
    by (elim allE[of _ s] allE[of _ "f64_of_int (sint n)"]) (simp add: c(4))
  then have r: "rs = [LStr (copies k s)]" and len: "nat k * length s < 2 ^ 48"
    using c(5) by (simp_all add: length_copies)
  have "length (copies k s) \<le> 2 ^ 20 \<and> (sint n < 2 ^ 53 \<longrightarrow> copies k s = copies (sint n) s)"
  proof (cases "s = []")
    case True
    then show ?thesis by (simp add: copies_def)
  next
    case False
    then have "nat k * 1 \<le> nat k * length s" by (intro mult_left_mono) (cases s, simp_all)
    then have "nat k < 2 ^ 48" using len by linarith
    then have "k < 2 ^ 48" by simp
    note count = repetition_count[OF assms(2) this[unfolded k_def], folded k_def]
    show ?thesis
    proof (cases "k \<le> 0")
      case True
      then show ?thesis using count by (auto simp: copies_none)
    next
      case pos: False
      then have "k = sint n" using count by auto
      then show ?thesis using product_not_wrapped[of n "length s"] pos len c(3) by (simp add: length_copies)
    qed
  qed
  then show ?thesis using c(1,2) r by blast
qed

text \<open>
  C26: The interpreter of a script has no \<open>loadfile\<close>, \<open>dofile\<close> and \<open>load\<close>, and its \<open>string.rep\<close> gives a string of at
  most a megabyte, the repetition that was asked for, whatever its arguments are, also where the product that is compared with
  the limit wraps around.
\<close>

theorem sandbox_rep_bound:
  assumes "opened_libs lb ''string'' = Some (GLib ms)" "ms ''rep'' = Some (MFun f)" "rep_spec fp f" "fp_extreme fp"
  shows "\<exists>g ms' f'. sandboxed_globals lb = Some g
    \<and> g ''loadfile'' = None \<and> g ''dofile'' = None \<and> g ''load'' = None
    \<and> g ''string'' = Some (GLib ms') \<and> ms' ''rep'' = Some (MFun f')
    \<and> (\<forall>args rs. f' args = Inr rs \<longrightarrow>
         (\<exists>s n t. ll_CheckString lb args 1 = Inr s \<and> ll_CheckInt lb args 2 = Inr n \<and> rs = [LStr t]
            \<and> length t \<le> 2 ^ 20 \<and> (sint n < 2 ^ 53 \<longrightarrow> t = copies (sint n) s)))"
  using assms(1,2) capped_rep_bound[OF assms(3,4)]
  by (simp add: sandboxed_globals_def sandboxStringRep_def)

text \<open>A library with a repetition as Go's: four times \<open>2 ^ 62\<close> characters pass the wrapped comparison and fail in the original.\<close>

definition go_rep :: lua_fn where
  "go_rep args =
     (case args of
        [LStr s, LNum w] \<Rightarrow>
          let k = sint (f64_to_i64 zero_fp w)
          in if 2 ^ 48 \<le> nat k * length s then Inl ''strings: Repeat output length overflow'' else Inr [LStr (copies k s)]
      | _ \<Rightarrow> Inl ''bad argument'')"

definition go_lib :: lua_lib where
  "go_lib = \<lparr>ll_open = (\<lambda>l g. if l = StringLib then g(''string'' \<mapsto> GLib [''rep'' \<mapsto> MFun go_rep]) else g),
     ll_CheckString = (\<lambda>args i. case args of LStr s # _ \<Rightarrow> Inr s | _ \<Rightarrow> Inl ''string expected''),
     ll_CheckInt = (\<lambda>args i. case args of [_, LNum w] \<Rightarrow> Inr (f64_to_i64 zero_fp w) | _ \<Rightarrow> Inl ''number expected''),
     ll_ArgError = (\<lambda>i e. e), ll_RaiseError = (\<lambda>e. e)\<rparr>"

theorem sandbox_rep_bound_witness:
  "\<exists>g. sandboxed_globals go_lib = Some g \<and> g ''dofile'' = None \<and>
     \<not> maxStringRepLen <s word_of_nat (length ''abcd'') * (2 ^ 62 :: u64)"
proof -
  have "rep_spec zero_fp go_rep"
    by (auto simp: rep_spec_def go_rep_def length_copies Let_def)
  moreover have "fp_extreme zero_fp" by (simp add: fp_extreme_def zero_fp_def)
  moreover have "opened_libs go_lib ''string'' = Some (GLib [''rep'' \<mapsto> MFun go_rep])"
    by (simp add: opened_libs_def go_lib_def)
  ultimately have "\<exists>g. sandboxed_globals go_lib = Some g \<and> g ''dofile'' = None"
    using sandbox_rep_bound[of go_lib "[''rep'' \<mapsto> MFun go_rep]" go_rep zero_fp] by auto
  moreover have "\<not> maxStringRepLen <s word_of_nat (length ''abcd'') * (2 ^ 62 :: u64)"
    by (simp add: maxStringRepLen_def word_sless_alt)
  ultimately show ?thesis by blast
qed

end
