(* ===== verification/Automation_Engine.thy ===== *)
theory Automation_Engine
  imports Automation_Calls Automation_Sandbox "HOL-Library.AList"
begin

text \<open>
  The automation engine: \<^verbatim>\<open>internal/automation/engine.go\<close>. The Lua interpreter is a parameter, a machine whose steps end, raise
  an error, go on, or call into the program. VMs are numbered as they are made and stay in a table, as other goroutines hold
  them after they left the engine's map.
\<close>

section \<open>The interpreter\<close>

datatype 'l lstep = LDone 'l | LRaise string 'l | LGo 'l | LCall lua_call "reply \<Rightarrow> 'l"

record 'l lua_machine =
  lm_lib :: lua_lib
  lm_new :: "lua_globals option \<Rightarrow> 'l"    \<comment> \<open>\<open>None\<close>: the interpreter raised an error while its libraries were set up\<close>
  lm_load :: "string \<Rightarrow> 'l \<Rightarrow> string + 'l"
  lm_enter :: "nat \<Rightarrow> lval list \<Rightarrow> 'l \<Rightarrow> 'l"
  lm_step :: "'l \<Rightarrow> 'l lstep"

definition deadline_exceeded :: string where
  "deadline_exceeded = ''context deadline exceeded''"

text \<open>
  Running to the end, with the number of steps after which the context of the state ends (\<open>None\<close> when it has no context).
  \<open>None\<close> stands for a run that does not end.
\<close>

partial_function (option) run_lua ::
  "'l lua_machine \<Rightarrow> (lua_call \<Rightarrow> 'w \<Rightarrow> reply \<times> 'w) \<Rightarrow> nat option \<Rightarrow> 'l \<Rightarrow> 'w \<Rightarrow> ((string option) \<times> 'l \<times> 'w) option" where
  "run_lua m api lim l w =
     (if lim = Some 0 then Some (Some deadline_exceeded, l, w)
      else case lm_step m l of
        LDone l1 \<Rightarrow> Some (None, l1, w)
      | LRaise e l1 \<Rightarrow> Some (Some e, l1, w)
      | LGo l1 \<Rightarrow> run_lua m api (map_option (\<lambda>n. n - 1) lim) l1 w
      | LCall a k \<Rightarrow> (case api a w of (r, w1) \<Rightarrow> run_lua m api (map_option (\<lambda>n. n - 1) lim) (k r) w1))"

definition DoString ::
  "'l lua_machine \<Rightarrow> (lua_call \<Rightarrow> 'w \<Rightarrow> reply \<times> 'w) \<Rightarrow> nat option \<Rightarrow> string \<Rightarrow> 'l \<Rightarrow> 'w \<Rightarrow> (string option \<times> 'l \<times> 'w) option" where
  "DoString m api lim code l w =
     (case lm_load m code l of Inl e \<Rightarrow> Some (Some e, l, w) | Inr l1 \<Rightarrow> run_lua m api lim l1 w)"

section \<open>State\<close>

datatype command = Handle nat Event | After nat

record 'l scriptVM =
  vm_state :: 'l
  vm_commands :: "command list"
  vm_handlers :: "luaEventHandler list"
  vm_timers :: "(u64 \<times> nat) list"
  vm_cancelled :: bool
  vm_loop :: bool    \<comment> \<open>its command loop has started and has not returned\<close>
  vm_stuck :: bool   \<comment> \<open>its command loop is in a command that does not end\<close>

abbreviation commandChanBuffer :: nat where "commandChanBuffer \<equiv> 64"

record 'l engine =
  en_world :: lua_world
  en_manager :: Manager
  en_vms :: "(string \<times> nat) list"
  en_pool :: "'l scriptVM list"
  en_subscribed :: bool

record RunResult =
  rr_OK :: bool
  rr_Error :: string
  rr_Logs :: "string list"

record 'l auto_env =
  ae_lua :: "'l lua_machine"
  ae_ext :: lua_ext
  ae_js :: "string \<Rightarrow> jval option"
  ae_os :: os_env
  ae_err :: "script_error \<Rightarrow> string"

definition NewEngine :: "coord \<Rightarrow> Manager \<Rightarrow> 'l engine" where
  "NewEngine c m = \<lparr>en_world = \<lparr>lw_coord = c, lw_handlers = [], lw_timers = [], lw_logs = [], lw_execs = [], lw_posts = [], lw_calls = 0\<rparr>,
     en_manager = m, en_vms = [], en_pool = [], en_subscribed = False\<rparr>"

definition newSandboxedLuaState :: "'l auto_env \<Rightarrow> 'l" where
  "newSandboxedLuaState env = lm_new (ae_lua env) (sandboxed_globals (lm_lib (ae_lua env)))"

definition new_vm :: "'l auto_env \<Rightarrow> 'l scriptVM" where
  "new_vm env = \<lparr>vm_state = newSandboxedLuaState env, vm_commands = [], vm_handlers = [], vm_timers = [], vm_cancelled = False,
     vm_loop = False, vm_stuck = False\<rparr>"

text \<open>The handlers and timers that calls change are those of the VM that runs.\<close>

definition vm_world :: "'l scriptVM \<Rightarrow> lua_world \<Rightarrow> lua_world" where
  "vm_world vm w = w\<lparr>lw_handlers := vm_handlers vm, lw_timers := vm_timers vm\<rparr>"

definition vm_after :: "'l \<Rightarrow> lua_world \<Rightarrow> 'l scriptVM \<Rightarrow> 'l scriptVM" where
  "vm_after l w vm = vm\<lparr>vm_state := l, vm_handlers := lw_handlers w, vm_timers := lw_timers w\<rparr>"

section \<open>Scripts\<close>

definition execute_script :: "Script \<Rightarrow> string \<Rightarrow> string" where
  "execute_script s e = ''execute script '' @ sc_ID s @ '': '' @ e"

text \<open>The parts of \<^verbatim>\<open>startScript\<close>: up to the end of the script's code, without a lock, and the entry in the map.\<close>

definition load_script :: "'l auto_env \<Rightarrow> Script \<Rightarrow> 'l engine \<Rightarrow> ((string + nat) \<times> 'l engine) option" where
  "load_script env s e =
     (let vm = new_vm env; n = length (en_pool e) in
      case DoString (ae_lua env) (lua_api (ae_ext env)) None (sc_LuaCode s) (vm_state vm) (vm_world vm (en_world e)) of
        None \<Rightarrow> None
      | Some (Some err, l, w) \<Rightarrow>
          Some (Inl (execute_script s err), e\<lparr>en_world := w, en_pool := en_pool e @ [(vm_after l w vm)\<lparr>vm_cancelled := True\<rparr>]\<rparr>)
      | Some (None, l, w) \<Rightarrow> Some (Inr n, e\<lparr>en_world := w, en_pool := en_pool e @ [vm_after l w vm]\<rparr>))"

definition put_vm :: "string \<Rightarrow> nat \<Rightarrow> (string \<times> nat) list \<Rightarrow> (string \<times> nat) list" where
  "put_vm i n vms = filter (\<lambda>v. fst v \<noteq> i) vms @ [(i, n)]"

definition set_vm :: "nat \<Rightarrow> ('l scriptVM \<Rightarrow> 'l scriptVM) \<Rightarrow> 'l engine \<Rightarrow> 'l engine" where
  "set_vm n f e = (if n < length (en_pool e) then e\<lparr>en_pool := (en_pool e)[n := f (en_pool e ! n)]\<rparr> else e)"

definition install :: "string \<Rightarrow> nat \<Rightarrow> 'l engine \<Rightarrow> 'l engine" where
  "install i n e = set_vm n (vm_loop_update (\<lambda>_. True)) (e\<lparr>en_vms := put_vm i n (en_vms e)\<rparr>)"

definition startScript :: "'l auto_env \<Rightarrow> Script \<Rightarrow> 'l engine \<Rightarrow> (string option \<times> 'l engine) option" where
  "startScript env s e =
     (case load_script env s e of
        None \<Rightarrow> None
      | Some (Inl err, e1) \<Rightarrow> Some (Some err, e1)
      | Some (Inr n, e1) \<Rightarrow> Some (None, install (sc_ID s) n e1))"

definition stopScript :: "string \<Rightarrow> 'l engine \<Rightarrow> 'l engine" where
  "stopScript i e =
     (case map_of (en_vms e) i of
        None \<Rightarrow> e
      | Some n \<Rightarrow> (set_vm n (vm_cancelled_update (\<lambda>_. True)) e)\<lparr>en_vms := filter (\<lambda>v. fst v \<noteq> i) (en_vms e)\<rparr>)"

definition StopScript :: "string \<Rightarrow> 'l engine \<Rightarrow> 'l engine" where
  "StopScript i e = stopScript i e"

text \<open>\<^verbatim>\<open>ReloadScript\<close>: the first part stops the old VM and reads the script, the second starts it.\<close>

definition reload_begin :: "'l auto_env \<Rightarrow> string \<Rightarrow> 'l engine \<Rightarrow> (script_error + Script) \<times> 'l engine" where
  "reload_begin env i e = (let e1 = stopScript i e in (Manager_Get (ae_js env) (ae_os env) i (en_manager e1), e1))"

datatype reload_error = GetScript script_error | StartScript string

definition ReloadScript :: "'l auto_env \<Rightarrow> string \<Rightarrow> 'l engine \<Rightarrow> (reload_error option \<times> 'l engine) option" where
  "ReloadScript env i e =
     (case reload_begin env i e of
        (Inl err, e1) \<Rightarrow> Some (Some (GetScript err), e1)
      | (Inr s, e1) \<Rightarrow>
          if \<not> sm_Enabled (sc_Meta s) then Some (None, e1)
          else map_option (\<lambda>(err, e2). (map_option StartScript err, e2)) (startScript env s e1))"

text \<open>The loop of \<^verbatim>\<open>Start\<close>: a script that cannot be started is left out.\<close>

fun start_all :: "'l auto_env \<Rightarrow> Script list \<Rightarrow> 'l engine \<Rightarrow> 'l engine option" where
  "start_all env [] e = Some e"
| "start_all env (s # ss) e =
     (if \<not> sm_Enabled (sc_Meta s) then start_all env ss e
      else case startScript env s e of None \<Rightarrow> None | Some (err, e1) \<Rightarrow> start_all env ss e1)"

definition Engine_Start :: "'l auto_env \<Rightarrow> 'l engine \<Rightarrow> 'l engine option" where
  "Engine_Start env e =
     (let e1 = e\<lparr>en_subscribed := True\<rparr> in
      case Manager_List (ae_js env) (ae_os env) (en_manager e1) of
        Inl err \<Rightarrow> Some e1
      | Inr ss \<Rightarrow> start_all env ss e1)"

text \<open>\<^verbatim>\<open>Stop\<close> up to \<^verbatim>\<open>vmWg.Wait()\<close>, and what it waits for: the command loops and the goroutines of the timers.\<close>

definition stop_all :: "'l engine \<Rightarrow> 'l engine" where
  "stop_all e =
     (fold (\<lambda>v e. set_vm (snd v) (vm_cancelled_update (\<lambda>_. True)) e) (en_vms e) (e\<lparr>en_subscribed := False\<rparr>))\<lparr>en_vms := []\<rparr>"

definition vmWg :: "'l engine \<Rightarrow> nat" where
  "vmWg e = sum_list (map (\<lambda>vm. (if vm_loop vm then 1 else 0) + length (vm_timers vm)) (en_pool e))"

section \<open>Running code once\<close>

text \<open>\<^verbatim>\<open>zigbee.log\<close> and \<^verbatim>\<open>system.log\<close> are replaced by functions that collect their messages.\<close>

definition run_api :: "lua_ext \<Rightarrow> lua_call \<Rightarrow> lua_world \<times> string list \<Rightarrow> reply \<times> lua_world \<times> string list" where
  "run_api x a wl =
     (case a of
        ZLog msg \<Rightarrow> (Inr [], snd (zigbeeLog msg (fst wl)), snd wl @ [msg])
      | SLog level msg \<Rightarrow> (Inr [], fst wl, snd wl @ [''['' @ level @ ''] '' @ msg])
      | _ \<Rightarrow> (let (r, w) = lua_api x a (fst wl) in (r, w, snd wl)))"

text \<open>\<open>steps\<close>: what the interpreter does in the five seconds of the context. The VM is cancelled at the end.\<close>

definition RunLuaCode :: "'l auto_env \<Rightarrow> nat \<Rightarrow> string \<Rightarrow> 'l engine \<Rightarrow> (RunResult \<times> 'l engine) option" where
  "RunLuaCode env steps code e =
     (let vm = new_vm env in
      case DoString (ae_lua env) (run_api (ae_ext env)) (Some steps) code (vm_state vm) (vm_world vm (en_world e), []) of
        None \<Rightarrow> None
      | Some (err, l, w, logs) \<Rightarrow>
          Some (case err of
                  None \<Rightarrow> \<lparr>rr_OK = True, rr_Error = [], rr_Logs = logs\<rparr>
                | Some t \<Rightarrow> \<lparr>rr_OK = False, rr_Error = (if contains deadline_exceeded t then ''timeout (5s)'' else t), rr_Logs = logs\<rparr>,
                e\<lparr>en_world := w, en_pool := en_pool e @ [(vm_after l w vm)\<lparr>vm_cancelled := True\<rparr>]\<rparr>))"

definition RunScript :: "'l auto_env \<Rightarrow> nat \<Rightarrow> string \<Rightarrow> 'l engine \<Rightarrow> (RunResult \<times> 'l engine) option" where
  "RunScript env steps i e =
     (case Manager_Get (ae_js env) (ae_os env) i (en_manager e) of
        Inl err \<Rightarrow> Some (\<lparr>rr_OK = False, rr_Error = ''script not found: '' @ ae_err env err, rr_Logs = []\<rparr>, e)
      | Inr s \<Rightarrow> RunLuaCode env steps (sc_LuaCode s) e)"

section \<open>Events\<close>

definition matchesHandler :: "luaEventHandler \<Rightarrow> Event \<Rightarrow> bool" where
  "matchesHandler h ev \<longleftrightarrow>
     (if lh_eventType h \<noteq> ev_Type ev then False
      else case ev_Data ev of
        GMap data \<Rightarrow>
          if lh_ieee h \<noteq> [] \<and> str_of data ''ieee'' \<noteq> lh_ieee h then False
          else if lh_property h \<noteq> [] \<and> str_of data ''property'' \<noteq> lh_property h then False
          else True
      | _ \<Rightarrow> lh_ieee h = [] \<and> lh_property h = [])"

text \<open>
  The commands for one VM. A \<^verbatim>\<open>select\<close> whose two channels are ready takes either; \<open>p\<close> says when it takes \<^verbatim>\<open>ctx.Done()\<close>.
\<close>

fun offer_all :: "(nat \<Rightarrow> bool) \<Rightarrow> Event \<Rightarrow> luaEventHandler list \<Rightarrow> 'l scriptVM \<Rightarrow> 'l scriptVM" where
  "offer_all p ev [] vm = vm"
| "offer_all p ev (h # hs) vm =
     (if \<not> matchesHandler h ev then offer_all (\<lambda>k. p (Suc k)) ev hs vm
      else if vm_cancelled vm \<and> (commandChanBuffer \<le> length (vm_commands vm) \<or> p 0) then vm
      else offer_all (\<lambda>k. p (Suc k)) ev hs
             (if length (vm_commands vm) < commandChanBuffer then vm\<lparr>vm_commands := vm_commands vm @ [Handle (lh_fn h) ev]\<rparr> else vm))"

definition dispatchEvent :: "(string \<Rightarrow> nat \<Rightarrow> bool) \<Rightarrow> Event \<Rightarrow> 'l engine \<Rightarrow> 'l engine" where
  "dispatchEvent p ev e = fold (\<lambda>(i, n) e. set_vm n (\<lambda>vm. offer_all (p i) ev (vm_handlers vm) vm) e) (en_vms e) e"

definition event_table :: "lua_ext \<Rightarrow> Event \<Rightarrow> lval" where
  "event_table x ev =
     LTable (fold (\<lambda>(k, v). AList.update (LStr k) (goToLua x v)) (case ev_Data ev of GMap data \<Rightarrow> data | _ \<Rightarrow> [])
       [(LStr ''type'', LStr (ev_Type ev))])"

section \<open>Command loops and timers\<close>

text \<open>A command of the loop; \<^verbatim>\<open>callHandler\<close> only logs the error of a handler.\<close>

definition callHandler :: "'l auto_env \<Rightarrow> nat \<Rightarrow> Event \<Rightarrow> 'l \<Rightarrow> lua_world \<Rightarrow> (string option \<times> 'l \<times> lua_world) option" where
  "callHandler env f ev l w =
     run_lua (ae_lua env) (lua_api (ae_ext env)) None (lm_enter (ae_lua env) f [event_table (ae_ext env) ev] l) w"

definition callAfter :: "'l auto_env \<Rightarrow> nat \<Rightarrow> 'l \<Rightarrow> lua_world \<Rightarrow> (string option \<times> 'l \<times> lua_world) option" where
  "callAfter env f l w = run_lua (ae_lua env) (lua_api (ae_ext env)) None (lm_enter (ae_lua env) f [] l) w"

definition run_command :: "'l auto_env \<Rightarrow> command \<Rightarrow> 'l \<Rightarrow> lua_world \<Rightarrow> (string option \<times> 'l \<times> lua_world) option" where
  "run_command env c l w = (case c of Handle f ev \<Rightarrow> callHandler env f ev l w | After f \<Rightarrow> callAfter env f l w)"

definition loop_turn :: "'l auto_env \<Rightarrow> nat \<Rightarrow> 'l engine \<Rightarrow> 'l engine" where
  "loop_turn env n e =
     (let vm = en_pool e ! n in
      case vm_commands vm of
        [] \<Rightarrow> e
      | c # cs \<Rightarrow>
          let vm1 = vm\<lparr>vm_commands := cs\<rparr> in
          (case run_command env c (vm_state vm1) (vm_world vm1 (en_world e)) of
             None \<Rightarrow> e\<lparr>en_pool := (en_pool e)[n := vm1\<lparr>vm_stuck := True\<rparr>]\<rparr>
           | Some (err, l, w) \<Rightarrow> e\<lparr>en_world := w, en_pool := (en_pool e)[n := vm_after l w vm1]\<rparr>))"

definition drop_nth :: "nat \<Rightarrow> 'a list \<Rightarrow> 'a list" where
  "drop_nth k xs = take k xs @ drop (Suc k) xs"

text \<open>The goroutine of a timer ends when the context does, or offers its callback once.\<close>

definition timer_ends :: "nat \<Rightarrow> 'l scriptVM \<Rightarrow> 'l scriptVM" where
  "timer_ends k vm = vm\<lparr>vm_timers := drop_nth k (vm_timers vm)\<rparr>"

definition timer_fires :: "nat \<Rightarrow> 'l scriptVM \<Rightarrow> 'l scriptVM" where
  "timer_fires k vm =
     (let vm1 = timer_ends k vm in
      if length (vm_commands vm) < commandChanBuffer then vm1\<lparr>vm_commands := vm_commands vm @ [After (snd (vm_timers vm ! k))]\<rparr> else vm1)"

section \<open>Steps\<close>

text \<open>The engine between its goroutines: reloads that run a script's code, and reloads that are about to enter the VM.\<close>

record 'l auto_sys =
  as_en :: "'l engine"
  as_loading :: "Script list"
  as_loaded :: "(string \<times> nat) list"

definition reload_first :: "'l auto_env \<Rightarrow> string \<Rightarrow> 'l auto_sys \<Rightarrow> 'l auto_sys" where
  "reload_first env i s =
     (let (r, e1) = reload_begin env i (as_en s) in
      s\<lparr>as_en := e1, as_loading := (case r of Inr sc \<Rightarrow> if sm_Enabled (sc_Meta sc) then sc # as_loading s else as_loading s | Inl e \<Rightarrow> as_loading s)\<rparr>)"

definition load_done :: "Script \<Rightarrow> (string + nat) \<Rightarrow> 'l engine \<Rightarrow> 'l auto_sys \<Rightarrow> 'l auto_sys" where
  "load_done sc r e1 s =
     s\<lparr>as_en := e1, as_loading := remove1 sc (as_loading s),
       as_loaded := (case r of Inl err \<Rightarrow> as_loaded s | Inr n \<Rightarrow> (sc_ID sc, n) # as_loaded s)\<rparr>"

inductive auto_step :: "'l auto_env \<Rightarrow> 'l auto_sys \<Rightarrow> 'l auto_sys \<Rightarrow> bool" for env where
  event: "en_subscribed (as_en s) \<Longrightarrow> auto_step env s (s\<lparr>as_en := dispatchEvent p ev (as_en s)\<rparr>)"
| stop_script: "auto_step env s (s\<lparr>as_en := StopScript i (as_en s)\<rparr>)"
| reload: "auto_step env s (reload_first env i s)"
| load: "sc \<in> set (as_loading s) \<Longrightarrow> load_script env sc (as_en s) = Some (r, e1) \<Longrightarrow> auto_step env s (load_done sc r e1 s)"
| enter: "(i, n) \<in> set (as_loaded s) \<Longrightarrow>
    auto_step env s (s\<lparr>as_en := install i n (as_en s), as_loaded := remove1 (i, n) (as_loaded s)\<rparr>)"
| run_code: "RunLuaCode env steps code (as_en s) = Some (r, e1) \<Longrightarrow> auto_step env s (s\<lparr>as_en := e1\<rparr>)"
| files: "auto_step env s (s\<lparr>as_en := (as_en s)\<lparr>en_manager := m\<rparr>\<rparr>)"
| turn: "n < length (en_pool (as_en s)) \<Longrightarrow> vm_loop (en_pool (as_en s) ! n) \<Longrightarrow> \<not> vm_stuck (en_pool (as_en s) ! n) \<Longrightarrow>
    auto_step env s (s\<lparr>as_en := loop_turn env n (as_en s)\<rparr>)"
| loop_exit: "n < length (en_pool (as_en s)) \<Longrightarrow> vm_loop (en_pool (as_en s) ! n) \<Longrightarrow> \<not> vm_stuck (en_pool (as_en s) ! n) \<Longrightarrow>
    vm_cancelled (en_pool (as_en s) ! n) \<Longrightarrow> auto_step env s (s\<lparr>as_en := set_vm n (vm_loop_update (\<lambda>_. False)) (as_en s)\<rparr>)"
| timer: "n < length (en_pool (as_en s)) \<Longrightarrow> k < length (vm_timers (en_pool (as_en s) ! n)) \<Longrightarrow>
    auto_step env s (s\<lparr>as_en := set_vm n (timer_fires k) (as_en s)\<rparr>)"
| timer_exit: "n < length (en_pool (as_en s)) \<Longrightarrow> k < length (vm_timers (en_pool (as_en s) ! n)) \<Longrightarrow>
    vm_cancelled (en_pool (as_en s) ! n) \<Longrightarrow> auto_step env s (s\<lparr>as_en := set_vm n (timer_ends k) (as_en s)\<rparr>)"
| stop: "auto_step env s (s\<lparr>as_en := stop_all (as_en s)\<rparr>)"
| coordinator: "auto_step env s (s\<lparr>as_en := (as_en s)\<lparr>en_world := (en_world (as_en s))\<lparr>lw_coord := c\<rparr>\<rparr>\<rparr>)"

inductive auto_reach :: "'l auto_env \<Rightarrow> coord \<Rightarrow> Manager \<Rightarrow> 'l auto_sys \<Rightarrow> bool" for env c m where
  start: "Engine_Start env (NewEngine c m) = Some e \<Longrightarrow> auto_reach env c m \<lparr>as_en = e, as_loading = [], as_loaded = []\<rparr>"
| step: "auto_reach env c m s \<Longrightarrow> auto_step env s s' \<Longrightarrow> auto_reach env c m s'"

end
