(* ===== verification/Automation_Engine_Theorems.thy ===== *)
theory Automation_Engine_Theorems
  imports Automation_Engine
begin

text \<open>
  The life of the VMs of \<^verbatim>\<open>Automation_Engine\<close>. \<open>table_step\<close> is a specification of it that forgets Lua, events and
  files: which script has which VM, and which VMs run or are cancelled. The engine refines it; the invariants are proved on the
  specification.
\<close>

section \<open>The specification\<close>

record table =
  tb_vms :: "(string \<times> nat) list"
  tb_flags :: "(bool \<times> bool) list"   \<comment> \<open>per VM: its loop runs; it is cancelled\<close>
  tb_loading :: "string multiset"
  tb_loaded :: "(string \<times> nat) list"

definition cancel :: "nat \<Rightarrow> (bool \<times> bool) list \<Rightarrow> (bool \<times> bool) list" where
  "cancel n fl = (if n < length fl then fl[n := (fst (fl ! n), True)] else fl)"

definition tb_stop :: "string \<Rightarrow> table \<Rightarrow> table" where
  "tb_stop i t = (case map_of (tb_vms t) i of
       None \<Rightarrow> t
     | Some n \<Rightarrow> t\<lparr>tb_vms := filter (\<lambda>v. fst v \<noteq> i) (tb_vms t), tb_flags := cancel n (tb_flags t)\<rparr>)"

definition tb_loading_add :: "string \<Rightarrow> table \<Rightarrow> table" where
  "tb_loading_add i t = t\<lparr>tb_loading := add_mset i (tb_loading t)\<rparr>"

inductive table_step :: "table \<Rightarrow> table \<Rightarrow> bool" where
  same: "table_step t t"
| drop: "table_step t (tb_stop i t)"
| request: "table_step t (tb_loading_add i (tb_stop i t))"
| loaded: "i \<in># tb_loading t \<Longrightarrow> table_step t
    (t\<lparr>tb_flags := tb_flags t @ [(False, False)], tb_loading := tb_loading t - {#i#}, tb_loaded := (i, length (tb_flags t)) # tb_loaded t\<rparr>)"
| rejected: "i \<in># tb_loading t \<Longrightarrow> table_step t
    (t\<lparr>tb_flags := tb_flags t @ [(False, True)], tb_loading := tb_loading t - {#i#}\<rparr>)"
| enter: "(i, n) \<in> set (tb_loaded t) \<Longrightarrow> table_step t
    (t\<lparr>tb_vms := put_vm i n (tb_vms t), tb_flags := (tb_flags t)[n := (True, snd (tb_flags t ! n))], tb_loaded := remove1 (i, n) (tb_loaded t)\<rparr>)"
| scratch: "table_step t (t\<lparr>tb_flags := tb_flags t @ [(False, True)]\<rparr>)"
| ended: "n < length (tb_flags t) \<Longrightarrow> tb_flags t ! n = (True, True) \<Longrightarrow> table_step t (t\<lparr>tb_flags := (tb_flags t)[n := (False, True)]\<rparr>)"
| stopped: "table_step t (t\<lparr>tb_vms := [], tb_flags := fold cancel (map snd (tb_vms t)) (tb_flags t)\<rparr>)"

inductive_cases table_stepE: "table_step t t'"

definition in_flight :: "table \<Rightarrow> string multiset" where
  "in_flight t = tb_loading t + mset (map fst (tb_loaded t))"

section \<open>Refinement\<close>

definition flag :: "'l scriptVM \<Rightarrow> bool \<times> bool" where
  "flag vm = (vm_loop vm, vm_cancelled vm)"

definition table_of :: "'l auto_sys \<Rightarrow> table" where
  "table_of s = \<lparr>tb_vms = en_vms (as_en s), tb_flags = map flag (en_pool (as_en s)),
     tb_loading = mset (map sc_ID (as_loading s)), tb_loaded = as_loaded s\<rparr>"

lemma table_of_simps [simp]:
  "tb_vms (table_of s) = en_vms (as_en s)" "tb_flags (table_of s) = map flag (en_pool (as_en s))"
  "tb_loading (table_of s) = mset (map sc_ID (as_loading s))" "tb_loaded (table_of s) = as_loaded s"
  by (simp_all add: table_of_def)

lemma table_eq: "tb_vms t = tb_vms t' \<Longrightarrow> tb_flags t = tb_flags t' \<Longrightarrow> tb_loading t = tb_loading t' \<Longrightarrow> tb_loaded t = tb_loaded t' \<Longrightarrow> t = (t' :: table)"
  by (rule table.equality) simp_all

lemma table_step_eq: "table_step t t' \<Longrightarrow> t' = t'' \<Longrightarrow> table_step t t''"
  by simp

lemma set_vm_vms [simp]: "en_vms (set_vm n f e) = en_vms e" "length (en_pool (set_vm n f e)) = length (en_pool e)"
  "en_subscribed (set_vm n f e) = en_subscribed e" "en_manager (set_vm n f e) = en_manager e"
  by (simp_all add: set_vm_def)

lemma set_vm_pool: "en_pool (set_vm n f e) = (if n < length (en_pool e) then (en_pool e)[n := f (en_pool e ! n)] else en_pool e)"
  by (simp add: set_vm_def)

lemma flags_set_vm: "map flag (en_pool (set_vm n f e)) =
   (if n < length (en_pool e) then (map flag (en_pool e))[n := flag (f (en_pool e ! n))] else map flag (en_pool e))"
  by (simp add: set_vm_pool map_update)

lemma flags_keep: "(\<And>vm. flag (f vm) = flag vm) \<Longrightarrow> map flag (en_pool (set_vm n f e)) = map flag (en_pool e)"
  unfolding flags_set_vm by (simp add: list_update_same_conv)

lemma flags_cancel: "map flag (en_pool (set_vm n (vm_cancelled_update (\<lambda>_. True)) e)) = cancel n (map flag (en_pool e))"
  unfolding flags_set_vm by (simp add: cancel_def flag_def)

lemma flag_offer: "flag (offer_all p ev hs vm) = flag vm"
  by (induction p ev hs vm rule: offer_all.induct) (simp_all add: flag_def)

lemma flag_simps [simp]:
  "flag (vm_after l w vm) = flag vm" "flag (timer_ends k vm) = flag vm" "flag (timer_fires k vm) = flag vm"
  "flag (vm\<lparr>vm_commands := cs\<rparr>) = flag vm" "flag (vm\<lparr>vm_stuck := b\<rparr>) = flag vm" "flag (vm\<lparr>vm_cancelled := b\<rparr>) = (fst (flag vm), b)"
  "flag (new_vm env) = (False, False)"
  by (simp_all add: flag_def vm_after_def timer_ends_def timer_fires_def new_vm_def Let_def)

lemma dispatch_shape: "en_vms (dispatchEvent p ev e) = en_vms e \<and> map flag (en_pool (dispatchEvent p ev e)) = map flag (en_pool e)"
proof -
  have "en_vms (fold (\<lambda>(i, n) e. set_vm n (\<lambda>vm. offer_all (p i) ev (vm_handlers vm) vm) e) vs e) = en_vms e
     \<and> map flag (en_pool (fold (\<lambda>(i, n) e. set_vm n (\<lambda>vm. offer_all (p i) ev (vm_handlers vm) vm) e) vs e)) = map flag (en_pool e)" for vs
    by (induction vs arbitrary: e) (simp_all add: flags_keep flag_offer split: prod.split)
  then show ?thesis by (simp add: dispatchEvent_def)
qed

lemma stopScript_shape: "table_of (s\<lparr>as_en := stopScript i (as_en s)\<rparr>) = tb_stop i (table_of s)"
  by (rule table_eq) (simp_all add: stopScript_def tb_stop_def flags_cancel split: option.split)

lemma load_shape:
  assumes "load_script env sc e = Some (r, e1)"
  shows "en_vms e1 = en_vms e"
    "map flag (en_pool e1) = map flag (en_pool e) @ [(False, case r of Inl err \<Rightarrow> True | Inr n \<Rightarrow> False)]"
    "(case r of Inl err \<Rightarrow> True | Inr n \<Rightarrow> n = length (en_pool e))"
  using assms by (auto simp: load_script_def Let_def split: option.splits)

lemma run_code_shape:
  assumes "RunLuaCode env steps code e = Some (r, e1)"
  shows "en_vms e1 = en_vms e" "map flag (en_pool e1) = map flag (en_pool e) @ [(False, True)]"
  using assms by (auto simp: RunLuaCode_def Let_def split: option.splits)

lemma turn_shape: "en_vms (loop_turn env n e) = en_vms e \<and> map flag (en_pool (loop_turn env n e)) = map flag (en_pool e)"
proof (cases "n < length (en_pool e)")
  case True
  then have "(map flag (en_pool e))[n := flag (en_pool e ! n)] = map flag (en_pool e)" by (simp add: list_update_same_conv)
  then show ?thesis by (auto simp: loop_turn_def Let_def map_update split: list.split option.split prod.split)
next
  case False
  then show ?thesis by (auto simp: loop_turn_def Let_def list_update_beyond split: list.split option.split prod.split)
qed

lemma flags_cancel_all: "map flag (en_pool (fold (\<lambda>v e. set_vm (snd v) (vm_cancelled_update (\<lambda>_. True)) e) vs e)) =
    fold cancel (map snd vs) (map flag (en_pool e))"
  by (induction vs arbitrary: e) (simp_all add: flags_cancel)

lemma stop_all_shape: "en_vms (stop_all e) = []" "map flag (en_pool (stop_all e)) = fold cancel (map snd (en_vms e)) (map flag (en_pool e))"
  using flags_cancel_all[of "en_vms e" "e\<lparr>en_subscribed := False\<rparr>"] by (simp_all add: stop_all_def)

lemma enter_shape: "n < length (en_pool e) \<Longrightarrow>
   map flag (en_pool (install i n e)) = (map flag (en_pool e))[n := (True, snd (map flag (en_pool e) ! n))] \<and> en_vms (install i n e) = put_vm i n (en_vms e)"
  unfolding install_def by (simp add: flags_set_vm) (simp add: flag_def)

lemma reload_shape: "table_of (reload_first env i s) = tb_stop i (table_of s)
    \<or> table_of (reload_first env i s) = tb_loading_add i (tb_stop i (table_of s))"
proof -
  obtain r where r: "reload_begin env i (as_en s) = (r, stopScript i (as_en s))" unfolding reload_begin_def Let_def by blast
  have i: "sc_ID sc = i" if "r = Inr sc" for sc
    using r that by (auto simp: reload_begin_def Let_def Manager_Get_def parseFile_def parse_content_def split: if_splits option.splits entry.splits)
  have t: "table_of (s\<lparr>as_en := stopScript i (as_en s), as_loading := l\<rparr>) =
     (tb_stop i (table_of s))\<lparr>tb_loading := mset (map sc_ID l)\<rparr>" for l
    by (rule table_eq) (simp_all add: stopScript_def tb_stop_def flags_cancel split: option.split)
  have l: "tb_loading (tb_stop i (table_of s)) = mset (map sc_ID (as_loading s))" by (simp add: tb_stop_def split: option.split)
  show ?thesis using i l by (auto simp: reload_first_def r t tb_loading_add_def split: sum.split intro!: table_eq)
qed

lemma remove1_mset: "x \<in> set xs \<Longrightarrow> mset (map f (remove1 x xs)) = mset (map f xs) - {#f x#}"
  by (simp add: image_mset_Diff)

lemma engine_refines_table_step:
  assumes "auto_step env s s'" "\<forall>v \<in> set (as_loaded s). snd v < length (en_pool (as_en s))"
  shows "table_step (table_of s) (table_of s')"
  using assms(1)
proof cases
  case (event p ev)
  then have "table_of s' = table_of s" using dispatch_shape[of p ev "as_en s"] by (intro table_eq) simp_all
  then show ?thesis by (simp add: table_step.same)
next
  case (stop_script i)
  show ?thesis by (rule table_step_eq[OF table_step.drop[of _ i]]) (simp add: stop_script StopScript_def stopScript_shape)
next
  case (reload i)
  then show ?thesis using reload_shape[of env i s] table_step.drop table_step.request by metis
next
  case (load sc r e1)
  have m: "sc_ID sc \<in># tb_loading (table_of s)" using load(2) by simp
  show ?thesis
  proof (cases r)
    case (Inl err)
    then show ?thesis using load load_shape[OF load(3)]
      by (intro table_step_eq[OF table_step.rejected[OF m]] table_eq) (simp_all add: load_done_def image_mset_Diff)
  next
    case (Inr n)
    then show ?thesis using load load_shape[OF load(3)]
      by (intro table_step_eq[OF table_step.loaded[OF m]] table_eq) (simp_all add: load_done_def image_mset_Diff)
  qed
next
  case (enter i n)
  have "n < length (en_pool (as_en s))" using enter(2) assms(2) by auto
  then show ?thesis using enter enter_shape[of n "as_en s" i]
    by (intro table_step_eq[OF table_step.enter[of i n]] table_eq) simp_all
next
  case (run_code steps code r e1)
  then show ?thesis using run_code_shape[OF run_code(2)]
    by (intro table_step_eq[OF table_step.scratch] table_eq) simp_all
next
  case (files m)
  then have "table_of s' = table_of s" by (intro table_eq) simp_all
  then show ?thesis by (simp add: table_step.same)
next
  case (turn n)
  then have "table_of s' = table_of s" using turn_shape[of env n "as_en s"] by (intro table_eq) simp_all
  then show ?thesis by (simp add: table_step.same)
next
  case (loop_exit n)
  then show ?thesis
    by (intro table_step_eq[OF table_step.ended[of n]] table_eq) (simp_all add: flags_set_vm, simp_all add: flag_def)
next
  case (timer n k)
  then have "table_of s' = table_of s" by (intro table_eq) (simp_all add: flags_keep)
  then show ?thesis by (simp add: table_step.same)
next
  case (timer_exit n k)
  then have "table_of s' = table_of s" by (intro table_eq) (simp_all add: flags_keep)
  then show ?thesis by (simp add: table_step.same)
next
  case stop
  then show ?thesis by (intro table_step_eq[OF table_step.stopped] table_eq) (simp_all add: stop_all_shape)
next
  case (coordinator c)
  then have "table_of s' = table_of s" by (intro table_eq) simp_all
  then show ?thesis by (simp add: table_step.same)
qed

section \<open>Invariants of the specification\<close>

text \<open>The VMs in the map run, those that are about to enter it do not yet, and no other VM waits to run.\<close>

definition slots :: "nat set \<Rightarrow> nat set \<Rightarrow> (bool \<times> bool) list \<Rightarrow> bool" where
  "slots V L fl \<longleftrightarrow> (\<forall>n \<in> V. n < length fl \<and> fl ! n = (True, False)) \<and> (\<forall>n \<in> L. n < length fl \<and> fl ! n = (False, False))
     \<and> (\<forall>n < length fl. fl ! n = (False, False) \<longrightarrow> n \<in> L)"

lemma slotsI:
  assumes "\<And>n. n \<in> V \<Longrightarrow> n < length fl \<and> fl ! n = (True, False)" "\<And>n. n \<in> L \<Longrightarrow> n < length fl \<and> fl ! n = (False, False)"
    "\<And>n. n < length fl \<Longrightarrow> fl ! n = (False, False) \<Longrightarrow> n \<in> L"
  shows "slots V L fl"
  using assms by (simp add: slots_def)

lemma slotsD:
  assumes "slots V L fl"
  shows "n \<in> V \<Longrightarrow> n < length fl \<and> fl ! n = (True, False)" "n \<in> L \<Longrightarrow> n < length fl \<and> fl ! n = (False, False)"
    "n < length fl \<Longrightarrow> fl ! n = (False, False) \<Longrightarrow> n \<in> L"
  using assms by (simp_all add: slots_def)

lemma length_cancel [simp]: "length (cancel n fl) = length fl"
  by (simp add: cancel_def)

lemma length_fold_cancel [simp]: "length (fold cancel ns fl) = length fl"
  by (induction ns arbitrary: fl) simp_all

lemma nth_cancel: "m < length fl \<Longrightarrow> cancel n fl ! m = (if m = n then (fst (fl ! n), True) else fl ! m)"
  by (simp add: cancel_def)

lemma nth_fold_cancel: "m < length fl \<Longrightarrow> fold cancel ns fl ! m = (if m \<in> set ns then (fst (fl ! m), True) else fl ! m)"
  by (induction ns arbitrary: fl) (auto simp: nth_cancel)

lemma slots_loaded: "slots V L fl \<Longrightarrow> slots V (insert (length fl) L) (fl @ [(False, False)])"
  by (rule slotsI) (auto dest: slotsD simp: nth_append less_Suc_eq)

lemma slots_cancelled: "slots V L fl \<Longrightarrow> slots V L (fl @ [(False, True)])"
  by (rule slotsI) (auto dest: slotsD simp: nth_append less_Suc_eq)

lemma slots_enter:
  assumes "slots V L fl" "n \<in> L" "V' \<subseteq> insert n V"
  shows "slots V' (L - {n}) (fl[n := (True, snd (fl ! n))])"
proof (rule slotsI)
  fix k
  note n = slotsD(2)[OF assms(1,2)]
  show "k < length (fl[n := (True, snd (fl ! n))]) \<and> fl[n := (True, snd (fl ! n))] ! k = (True, False)" if "k \<in> V'"
    using that assms(3) n slotsD(1)[OF assms(1), of k] by (cases "k = n") auto
  show "k < length (fl[n := (True, snd (fl ! n))]) \<and> fl[n := (True, snd (fl ! n))] ! k = (False, False)" if "k \<in> L - {n}"
    using that slotsD(2)[OF assms(1), of k] by simp
  show "k \<in> L - {n}" if "k < length (fl[n := (True, snd (fl ! n))])" "fl[n := (True, snd (fl ! n))] ! k = (False, False)"
    using that n slotsD(3)[OF assms(1), of k] by (cases "k = n") auto
qed

lemma slots_ended:
  assumes "slots V L fl" "fl ! n = (True, True)"
  shows "slots V L (fl[n := (False, True)])"
proof (rule slotsI)
  fix k
  show "k < length (fl[n := (False, True)]) \<and> fl[n := (False, True)] ! k = (True, False)" if "k \<in> V"
    using slotsD(1)[OF assms(1) that] assms(2) by (cases "k = n") simp_all
  show "k < length (fl[n := (False, True)]) \<and> fl[n := (False, True)] ! k = (False, False)" if "k \<in> L"
    using slotsD(2)[OF assms(1) that] assms(2) by (cases "k = n") simp_all
  show "k \<in> L" if "k < length (fl[n := (False, True)])" "fl[n := (False, True)] ! k = (False, False)"
    using that slotsD(3)[OF assms(1), of k] by (cases "k = n") simp_all
qed

lemma slots_cancel:
  assumes "slots V L fl" "set ns \<subseteq> V" "V' \<subseteq> V - set ns"
  shows "slots V' L (fold cancel ns fl)"
proof (rule slotsI)
  fix k
  have d: "k \<notin> set ns" if "k \<in> L" using that assms(2) slotsD(1)[OF assms(1), of k] slotsD(2)[OF assms(1), of k] by auto
  show "k < length (fold cancel ns fl) \<and> fold cancel ns fl ! k = (True, False)" if "k \<in> V'"
    using that assms(3) slotsD(1)[OF assms(1), of k] by (auto simp: nth_fold_cancel)
  show "k < length (fold cancel ns fl) \<and> fold cancel ns fl ! k = (False, False)" if "k \<in> L"
    using slotsD(2)[OF assms(1) that] d[OF that] by (simp add: nth_fold_cancel)
  show "k \<in> L" if "k < length (fold cancel ns fl)" "fold cancel ns fl ! k = (False, False)"
    using that slotsD(3)[OF assms(1), of k] by (simp add: nth_fold_cancel split: if_splits)
qed

abbreviation in_map :: "table \<Rightarrow> nat set" where "in_map t \<equiv> snd ` set (tb_vms t)"
abbreviation waiting :: "table \<Rightarrow> nat set" where "waiting t \<equiv> snd ` set (tb_loaded t)"

definition tb_inv :: "table \<Rightarrow> bool" where
  "tb_inv t \<longleftrightarrow> distinct (map fst (tb_vms t)) \<and> distinct (map snd (tb_vms t)) \<and> distinct (map snd (tb_loaded t))
     \<and> slots (in_map t) (waiting t) (tb_flags t)"

lemma put_vm_props:
  "distinct (map fst vms) \<Longrightarrow> distinct (map fst (put_vm i n vms))"
  "snd ` set (put_vm i n vms) \<subseteq> insert n (snd ` set vms)" "n \<in> snd ` set (put_vm i n vms)"
  "distinct (map snd vms) \<Longrightarrow> n \<notin> snd ` set vms \<Longrightarrow> distinct (map snd (put_vm i n vms))"
  "fst ` set (put_vm i n vms) = insert i (fst ` set vms)"
  by (auto simp: put_vm_def distinct_map_filter)

text \<open>Stopping a script takes its VM, if it has one, out of the map and cancels it.\<close>

lemma tb_stop_cases:
  obtains (none) "map_of (tb_vms t) i = None" "tb_stop i t = t" "i \<notin> fst ` set (tb_vms t)"
  | (some) n where "(i, n) \<in> set (tb_vms t)" "map_of (tb_vms t) i = Some n"
      "tb_stop i t = t\<lparr>tb_vms := filter (\<lambda>v. fst v \<noteq> i) (tb_vms t), tb_flags := cancel n (tb_flags t)\<rparr>"
  by (cases "map_of (tb_vms t) i") (auto simp: tb_stop_def map_of_eq_None_iff dest: map_of_SomeD)

lemma stop_same [simp]: "tb_loaded (tb_stop i t) = tb_loaded t" "tb_loading (tb_stop i t) = tb_loading t"
  by (simp_all add: tb_stop_def split: option.split)

lemma loading_add_same [simp]: "tb_vms (tb_loading_add i t) = tb_vms t" "tb_flags (tb_loading_add i t) = tb_flags t"
  "tb_loaded (tb_loading_add i t) = tb_loaded t" "tb_loading (tb_loading_add i t) = add_mset i (tb_loading t)"
  by (simp_all add: tb_loading_add_def)

lemma snd_unique: "distinct (map snd vms) \<Longrightarrow> (i, n) \<in> set vms \<Longrightarrow> (j, n) \<in> set vms \<Longrightarrow> i = j"
  by (induction vms) (auto simp: image_iff)

lemma filter_in_map:
  assumes "distinct (map snd vms)" "distinct (map fst vms)" "(i, n) \<in> set vms"
  shows "snd ` set (filter (\<lambda>v. fst v \<noteq> i) vms) = snd ` set vms - {n}"
proof -
  have "m \<noteq> n" if "(j, m) \<in> set vms" "j \<noteq> i" for j m using that snd_unique[OF assms(1,3)] by auto
  moreover have "j \<noteq> i" if "(j, m) \<in> set vms" "m \<noteq> n" for j m using that assms(2,3) eq_key_imp_eq_value by metis
  ultimately show ?thesis by force
qed

lemma tb_inv_stop:
  assumes "tb_inv t"
  shows "tb_inv (tb_stop i t)"
proof (cases rule: tb_stop_cases[of t i])
  case (some n)
  have d: "distinct (map snd (tb_vms t))" "distinct (map fst (tb_vms t))" "slots (in_map t) (waiting t) (tb_flags t)"
    using assms by (simp_all add: tb_inv_def)
  have "n \<in> in_map t" using some(1) by force
  then have "slots (in_map t - {n}) (waiting t) (cancel n (tb_flags t))" using slots_cancel[OF d(3), of "[n]" "in_map t - {n}"] by simp
  then show ?thesis using assms some(3) filter_in_map[OF d(1,2) some(1)] by (simp add: tb_inv_def distinct_map_filter)
qed (use assms in simp)

lemma tb_inv_loading: "tb_inv (tb_loading_add i t) = tb_inv t" "tb_inv (t\<lparr>tb_loading := l\<rparr>) = tb_inv t"
  by (simp_all add: tb_inv_def)

lemma remove_waiting:
  assumes "distinct (map snd xs)" "(i, n) \<in> set xs"
  shows "snd ` set (remove1 (i, n) xs) = snd ` set xs - {n}" "distinct (map snd (remove1 (i, n) xs))"
proof -
  have d: "distinct xs" using assms(1) by (simp add: distinct_map)
  then have s: "set (remove1 (i, n) xs) = set xs - {(i, n)}" by (rule set_remove1_eq)
  have "m \<noteq> n" if "(j, m) \<in> set xs" "(j, m) \<noteq> (i, n)" for j m using that snd_unique[OF assms] by auto
  then show "snd ` set (remove1 (i, n) xs) = snd ` set xs - {n}" unfolding s by force
  show "distinct (map snd (remove1 (i, n) xs))" unfolding distinct_map s
    using assms(1) d by (auto simp: distinct_map intro: inj_on_diff)
qed

lemma tb_inv_step:
  assumes "table_step t t'" "tb_inv t"
  shows "tb_inv t'"
proof -
  have d: "distinct (map snd (tb_vms t))" "distinct (map fst (tb_vms t))" "distinct (map snd (tb_loaded t))" "slots (in_map t) (waiting t) (tb_flags t)"
    using assms(2) by (simp_all add: tb_inv_def)
  have len: "length (tb_flags t) \<notin> waiting t" using slotsD(2)[OF d(4), of "length (tb_flags t)"] by auto
  from assms(1) show ?thesis
  proof cases
    case (loaded i)
    then show ?thesis using d(1-3) slots_loaded[OF d(4)] len by (simp add: tb_inv_def)
  next
    case (rejected i)
    then show ?thesis using d(1-3) slots_cancelled[OF d(4)] by (simp add: tb_inv_def)
  next
    case (enter i n)
    have n: "n \<in> waiting t" using enter(2) by force
    then have "n \<notin> in_map t" using slotsD(1,2)[OF d(4), of n] by auto
    then show ?thesis using enter d(1,2) remove_waiting[OF d(3) enter(2)] slots_enter[OF d(4) n put_vm_props(2)]
      by (simp add: tb_inv_def put_vm_props)
  next
    case scratch
    then show ?thesis using d(1-3) slots_cancelled[OF d(4)] by (simp add: tb_inv_def)
  next
    case (ended n)
    then show ?thesis using d(1-3) slots_ended[OF d(4)] by (simp add: tb_inv_def)
  next
    case stopped
    then show ?thesis using d(1-3) slots_cancel[OF d(4), of "map snd (tb_vms t)" "{}"] by (simp add: tb_inv_def)
  qed (simp_all add: tb_inv_stop tb_inv_loading assms)
qed

text \<open>A VM that runs, is not cancelled and is in no map: nothing can reach it any more.\<close>

definition leaked :: "nat \<Rightarrow> table \<Rightarrow> bool" where
  "leaked n t \<longleftrightarrow> n < length (tb_flags t) \<and> tb_flags t ! n = (True, False) \<and> n \<notin> in_map t \<and> n \<notin> waiting t"

lemma leaked_stop:
  assumes "leaked n t"
  shows "leaked n (tb_stop i t)"
proof (cases rule: tb_stop_cases[of t i])
  case (some m)
  then have "m \<noteq> n" using assms by (force simp: leaked_def)
  then show ?thesis using assms some(3) by (auto simp: leaked_def nth_cancel)
qed (use assms in simp)

lemma leaked_step:
  assumes "table_step t t'" "leaked n t"
  shows "leaked n t'"
proof -
  have l: "n < length (tb_flags t)" "tb_flags t ! n = (True, False)" "n \<notin> in_map t" "n \<notin> waiting t" using assms(2) by (simp_all add: leaked_def)
  from assms(1) show ?thesis
  proof cases
    case (request i)
    then show ?thesis using leaked_stop[OF assms(2)] by (simp add: leaked_def)
  next
    case (loaded i)
    then show ?thesis using l by (simp add: leaked_def nth_append)
  next
    case (rejected i)
    then show ?thesis using l by (simp add: leaked_def nth_append)
  next
    case (enter i m)
    then have "m \<noteq> n" using l(4) by force
    moreover have "n \<notin> snd ` set (remove1 (i, m) (tb_loaded t))" using l(4) set_remove1_subset[of "(i, m)" "tb_loaded t"] by blast
    moreover have "n \<notin> snd ` set (put_vm i m (tb_vms t))" using l(3) \<open>m \<noteq> n\<close> put_vm_props(2)[of i m "tb_vms t"] by blast
    ultimately show ?thesis using enter l by (simp add: leaked_def)
  next
    case scratch
    then show ?thesis using l by (simp add: leaked_def nth_append)
  next
    case (ended m)
    then show ?thesis using l by (cases "m = n") (simp_all add: leaked_def)
  next
    case stopped
    then show ?thesis using l by (simp add: leaked_def nth_fold_cancel)
  qed (use assms(2) leaked_stop in simp_all)
qed

text \<open>When no script has two reloads at a time, each VM that runs uncancelled is in the map.\<close>

definition all_known :: "table \<Rightarrow> bool" where
  "all_known t \<longleftrightarrow> (\<forall>n < length (tb_flags t). tb_flags t ! n = (True, False) \<longrightarrow> n \<in> in_map t)
     \<and> (\<forall>i. i \<in># in_flight t \<longrightarrow> i \<notin> fst ` set (tb_vms t))"

definition serial :: "table \<Rightarrow> bool" where
  "serial t \<longleftrightarrow> (\<forall>i. count (in_flight t) i \<le> 1)"

lemma all_knownI:
  assumes "\<And>n. n < length (tb_flags t) \<Longrightarrow> tb_flags t ! n = (True, False) \<Longrightarrow> n \<in> in_map t"
    "\<And>i. i \<in># in_flight t \<Longrightarrow> i \<notin> fst ` set (tb_vms t)"
  shows "all_known t"
  using assms by (simp add: all_known_def)

lemma all_known_stop:
  assumes "all_known t" "tb_inv t"
  shows "all_known (tb_stop i t) \<and> i \<notin> fst ` set (tb_vms (tb_stop i t)) \<and> in_flight (tb_stop i t) = in_flight t"
proof (cases rule: tb_stop_cases[of t i])
  case (some n)
  have m: "snd ` set (filter (\<lambda>v. fst v \<noteq> i) (tb_vms t)) = in_map t - {n}"
    using assms(2) some(1) by (intro filter_in_map) (simp_all add: tb_inv_def)
  have f: "in_flight (tb_stop i t) = in_flight t" by (simp add: in_flight_def)
  have "all_known (tb_stop i t)"
  proof (rule all_knownI)
    fix k
    assume "k < length (tb_flags (tb_stop i t))" "tb_flags (tb_stop i t) ! k = (True, False)"
    then have "k < length (tb_flags t)" "tb_flags t ! k = (True, False)" "k \<noteq> n" using some(3) by (auto simp: nth_cancel split: if_splits)
    then show "k \<in> in_map (tb_stop i t)" using assms(1) some(3) m by (simp add: all_known_def)
  next
    fix j assume "j \<in># in_flight (tb_stop i t)"
    then show "j \<notin> fst ` set (tb_vms (tb_stop i t))" using assms(1) some(3) unfolding f by (auto simp: all_known_def)
  qed
  then show ?thesis using f some(3) by auto
qed (use assms in simp)

lemma in_flight_remove: "(i, n) \<in> set l \<Longrightarrow> mset (map fst (remove1 (i, n) l)) = mset (map fst l) - {#i#}"
  by (simp add: image_mset_Diff)

lemma all_known_grow:
  assumes "all_known t" "tb_flags t' = tb_flags t @ [(False, b)]" "tb_vms t' = tb_vms t" "set_mset (in_flight t') \<subseteq> set_mset (in_flight t)"
  shows "all_known t'"
  using assms by (intro all_knownI) (auto simp: all_known_def nth_append split: if_splits)

lemma all_known_enter:
  assumes "all_known t" "tb_inv t" "serial t" "(i, n) \<in> set (tb_loaded t)"
    "tb_vms t' = put_vm i n (tb_vms t)" "tb_flags t' = (tb_flags t)[n := (True, snd (tb_flags t ! n))]" "in_flight t' = in_flight t - {#i#}"
  shows "all_known t'"
proof -
  have n: "n < length (tb_flags t)" using assms(2,4) slotsD(2)[of "in_map t" "waiting t" "tb_flags t" n] by (force simp: tb_inv_def)
  have i: "i \<in># in_flight t" using assms(4) by (force simp: in_flight_def)
  have "count (in_flight t) i \<le> 1" using assms(3) by (simp add: serial_def)
  then have x: "i \<notin># in_flight t'" unfolding assms(7) by (simp add: not_in_iff)
  have y: "j \<in># in_flight t" if "j \<in># in_flight t'" for j using that unfolding assms(7) by (rule in_diffD)
  have "i \<notin> fst ` set (tb_vms t)" using assms(1) i by (simp add: all_known_def)
  then have "filter (\<lambda>v. fst v \<noteq> i) (tb_vms t) = tb_vms t" by (intro filter_True) auto
  then have v: "tb_vms t' = tb_vms t @ [(i, n)]" by (simp add: assms(5) put_vm_def)
  show ?thesis
  proof (rule all_knownI)
    fix k assume "k < length (tb_flags t')" "tb_flags t' ! k = (True, False)"
    then show "k \<in> in_map t'" using assms(1) n unfolding v assms(6) by (cases "k = n") (simp_all add: all_known_def)
  next
    fix j assume "j \<in># in_flight t'"
    then show "j \<notin> fst ` set (tb_vms t')" using assms(1) x y[of j] unfolding v by (auto simp: all_known_def)
  qed
qed

lemma all_known_step:
  assumes "table_step t t'" "all_known t" "tb_inv t" "serial t"
  shows "all_known t'"
  using assms(1)
proof cases
  case (drop i)
  then show ?thesis using all_known_stop[OF assms(2,3), of i] by simp
next
  case (request i)
  have f: "in_flight t' = add_mset i (in_flight (tb_stop i t))" using request by (simp add: in_flight_def)
  show ?thesis
  proof (rule all_knownI)
    fix k assume "k < length (tb_flags t')" "tb_flags t' ! k = (True, False)"
    then show "k \<in> in_map t'" using request all_known_stop[OF assms(2,3), of i] by (simp add: all_known_def)
  next
    fix j assume "j \<in># in_flight t'"
    then show "j \<notin> fst ` set (tb_vms t')" using f request all_known_stop[OF assms(2,3), of i] by (auto simp: all_known_def)
  qed
next
  case (loaded i)
  then have "in_flight t' = in_flight t" by (simp add: in_flight_def)
  then show ?thesis using loaded(1) by (intro all_known_grow[OF assms(2), of _ False]) simp_all
next
  case (rejected i)
  then have "set_mset (in_flight t') \<subseteq> set_mset (in_flight t)" by (auto simp: in_flight_def dest: in_diffD)
  then show ?thesis using rejected all_known_grow[OF assms(2)] by simp
next
  case (enter i n)
  have "i \<in># mset (map fst (tb_loaded t))" using enter(2) by force
  then have m: "tb_loading t + (mset (map fst (tb_loaded t)) - {#i#}) = in_flight t - {#i#}"
    unfolding in_flight_def by (rule diff_union_single_conv[symmetric])
  have "in_flight t' = tb_loading t + mset (map fst (remove1 (i, n) (tb_loaded t)))" by (simp add: enter(1) in_flight_def)
  also have "\<dots> = in_flight t - {#i#}" by (simp only: in_flight_remove[OF enter(2)] m)
  finally have f: "in_flight t' = in_flight t - {#i#}" .
  show ?thesis by (rule all_known_enter[OF assms(2-4) enter(2) _ _ f]) (simp_all add: enter(1))
next
  case scratch
  then show ?thesis using all_known_grow[OF assms(2)] by (simp add: in_flight_def)
next
  case (ended n)
  have f: "in_flight t' = in_flight t" using ended(1) by (simp add: in_flight_def)
  show ?thesis
  proof (rule all_knownI)
    fix k assume "k < length (tb_flags t')" "tb_flags t' ! k = (True, False)"
    then show "k \<in> in_map t'" using ended assms(2) by (cases "k = n") (simp_all add: all_known_def)
  qed (use assms(2) f ended(1) in \<open>simp add: all_known_def\<close>)
next
  case stopped
  show ?thesis
  proof (rule all_knownI)
    fix k assume "k < length (tb_flags t')" "tb_flags t' ! k = (True, False)"
    then show "k \<in> in_map t'" using stopped assms(2) by (auto simp: all_known_def nth_fold_cancel split: if_splits)
  qed (use stopped in simp)
qed (use assms(2) in simp)

section \<open>Runs of Lua code\<close>

lemma run_lua_inv:
  assumes "run_lua m api lim l w = Some y" "\<And>a w. P w \<Longrightarrow> P (snd (api a w))" "P w"
  shows "P (snd (snd y))"
proof -
  have "(\<forall>a w. P w \<longrightarrow> P (snd (api a w))) \<longrightarrow> P w \<longrightarrow> P (snd (snd y))"
  proof (rule run_lua.raw_induct[of "\<lambda>m api lim l w y. (\<forall>a w. P w \<longrightarrow> P (snd (api a w))) \<longrightarrow> P w \<longrightarrow> P (snd (snd y))", OF _ assms(1)], goal_cases)
    case (1 run m api lim l w y)
    show ?case
    proof (intro impI)
      assume k: "\<forall>a w. P w \<longrightarrow> P (snd (api a w))" "P w"
      show "P (snd (snd y))"
      proof (cases "lm_step m l")
        case (LCall a c)
        obtain r w1 where a: "api a w = (r, w1)" by (metis prod.collapse)
        then have "P w1" using k by (metis snd_conv)
        then show ?thesis using 1 k LCall a by (auto split: if_splits)
      qed (use 1 k in \<open>auto split: if_splits\<close>)
    qed
  qed
  then show ?thesis using assms(2,3) by blast
qed

lemma DoString_inv:
  assumes "DoString m api lim code l w = Some y" "\<And>a w. P w \<Longrightarrow> P (snd (api a w))" "P w"
  shows "P (snd (snd y))"
  using assms run_lua_inv[of m api lim _ w y P] by (auto simp: DoString_def split: sum.splits)

lemma run_lua_bounded: "\<exists>y. run_lua m api (Some k) l w = Some y"
proof (induction k arbitrary: l w)
  case 0
  show ?case by (subst run_lua.simps) simp
next
  case (Suc k)
  then show ?case by (subst run_lua.simps) (simp split: lstep.split prod.split)
qed

lemma run_lua_timeout:
  assumes "l \<in> D" "\<And>l. l \<in> D \<Longrightarrow> \<exists>l' \<in> D. lm_step m l = LGo l'"
  shows "\<exists>l'. run_lua m api (Some k) l w = Some (Some deadline_exceeded, l', w)"
  using assms(1)
proof (induction k arbitrary: l)
  case 0
  show ?case by (subst run_lua.simps) simp
next
  case (Suc k)
  obtain l' where "l' \<in> D" "lm_step m l = LGo l'" using assms(2) Suc.prems by blast
  then show ?case using Suc.IH by (subst run_lua.simps) simp
qed

lemma run_lua_endless:
  assumes "l \<in> D" "\<And>l. l \<in> D \<Longrightarrow> \<exists>l' \<in> D. lm_step m l = LGo l'"
  shows "run_lua m api None l w = None"
proof (rule ccontr)
  assume "run_lua m api None l w \<noteq> None"
  then obtain y where y: "run_lua m api None l w = Some y" by blast
  have "(\<forall>l \<in> D. \<exists>l' \<in> D. lm_step m l = LGo l') \<longrightarrow> l \<in> D \<longrightarrow> (None :: nat option) = None \<longrightarrow> False"
  proof (rule run_lua.raw_induct[of "\<lambda>m api lim l w y. (\<forall>l \<in> D. \<exists>l' \<in> D. lm_step m l = LGo l') \<longrightarrow> l \<in> D \<longrightarrow> lim = None \<longrightarrow> False", OF _ y], goal_cases)
    case (1 run m api lim l w y)
    show ?case
    proof (intro impI)
      assume k: "\<forall>l \<in> D. \<exists>l' \<in> D. lm_step m l = LGo l'" "l \<in> D" "lim = None"
      then obtain l' where l: "l' \<in> D" "lm_step m l = LGo l'" by blast
      then have "run m api None l' w = Some y" using 1(2) k(3) by simp
      then show False using 1(1) k(1) l(1) by blast
    qed
  qed
  then show False using assms by blast
qed

text \<open>
  C38: trying code out ends: \<^verbatim>\<open>RunLuaCode\<close> returns a result for every code, as the context of its Lua state
  ends after five seconds, and reports an endless loop as a timeout.
\<close>

theorem run_code_returns:
  "\<exists>r e1. RunLuaCode env steps code e = Some (r, e1)
     \<and> ((\<exists>l D. lm_load (ae_lua env) code (newSandboxedLuaState env) = Inr l \<and> l \<in> D \<and> (\<forall>l \<in> D. \<exists>l' \<in> D. lm_step (ae_lua env) l = LGo l')) \<longrightarrow>
          \<not> rr_OK r \<and> rr_Error r = ''timeout (5s)'')"
proof -
  let ?w = "(vm_world (new_vm env) (en_world e), []) :: lua_world \<times> string list"
  let ?do = "DoString (ae_lua env) (run_api (ae_ext env)) (Some steps) code (newSandboxedLuaState env) ?w"
  have "\<exists>y. ?do = Some y"
    using run_lua_bounded[of "ae_lua env" "run_api (ae_ext env)" steps _ ?w] by (simp add: DoString_def split: sum.split)
  then obtain err l w logs where y: "?do = Some (err, l, w, logs)" by (metis prod.collapse)
  define r where "r = (case err of None \<Rightarrow> \<lparr>rr_OK = True, rr_Error = [], rr_Logs = logs\<rparr>
      | Some t \<Rightarrow> \<lparr>rr_OK = False, rr_Error = (if contains deadline_exceeded t then ''timeout (5s)'' else t), rr_Logs = logs\<rparr>)"
  have v: "vm_state (new_vm env) = newSandboxedLuaState env" by (simp add: new_vm_def)
  have "\<exists>e1. RunLuaCode env steps code e = Some (r, e1)" by (simp add: RunLuaCode_def Let_def v y r_def)
  moreover have "err = Some deadline_exceeded"
    if "lm_load (ae_lua env) code (newSandboxedLuaState env) = Inr k" "k \<in> D" "\<forall>l \<in> D. \<exists>l' \<in> D. lm_step (ae_lua env) l = LGo l'" for k D
  proof -
    note h = that
    obtain l' where "run_lua (ae_lua env) (run_api (ae_ext env)) (Some steps) k ?w = Some (Some deadline_exceeded, l', ?w)"
      using run_lua_timeout[OF h(2), of "ae_lua env" "run_api (ae_ext env)" steps ?w] h(3) by blast
    then show ?thesis using y h(1) by (simp add: DoString_def)
  qed
  moreover have "contains deadline_exceeded deadline_exceeded" by (simp add: contains_def deadline_exceeded_def HasPrefix_def)
  ultimately show ?thesis by (intro exI[of _ r]) (auto simp: r_def)
qed

text \<open>
  starting a script does not: \<^verbatim>\<open>startScript\<close> makes a context for the VM and does not give it to the Lua state, so
  that nothing ends an endless loop in the script's code. The engine's start does not return when an enabled script has one, nor
  does the request that enables it.
\<close>

theorem endless_script_hangs:
  assumes "lm_load (ae_lua env) (sc_LuaCode sc) (newSandboxedLuaState env) = Inr l" "l \<in> D"
    "\<And>l. l \<in> D \<Longrightarrow> \<exists>l' \<in> D. lm_step (ae_lua env) l = LGo l'"
  shows "startScript env sc e = None
    \<and> (\<forall>ss. Manager_List (ae_js env) (ae_os env) (en_manager e) = Inr ss \<longrightarrow> sc \<in> set ss \<longrightarrow> sm_Enabled (sc_Meta sc) \<longrightarrow> Engine_Start env e = None)"
proof -
  have s: "startScript env sc e = None" for e
    by (simp add: startScript_def load_script_def Let_def DoString_def new_vm_def assms(1) run_lua_endless[OF assms(2,3)])
  have "start_all env ss e = None" if "sc \<in> set ss" "sm_Enabled (sc_Meta sc)" for ss e
    using that s by (induction env ss e rule: start_all.induct) (auto split: option.split)
  then show ?thesis using s by (simp add: Engine_Start_def)
qed

section \<open>Invariants of the engine\<close>

definition vm_ok :: "'l scriptVM \<Rightarrow> bool" where
  "vm_ok vm \<longleftrightarrow> length (vm_commands vm) \<le> commandChanBuffer \<and> length (vm_handlers vm) \<le> maxHandlersPerScript"

definition execs_ok :: "lua_ext \<Rightarrow> lua_world \<Rightarrow> bool" where
  "execs_ok x w \<longleftrightarrow> (\<forall>p \<in> set (lw_execs w). HasPrefix ''/'' (fst p) \<and> fst p \<in> set (sy_ExecAllowlist (le_system x)))"

definition world_ok :: "lua_ext \<Rightarrow> lua_world \<Rightarrow> bool" where
  "world_ok x w \<longleftrightarrow> execs_ok x w \<and> length (lw_handlers w) \<le> maxHandlersPerScript"

definition engine_ok :: "lua_ext \<Rightarrow> 'l engine \<Rightarrow> bool" where
  "engine_ok x e \<longleftrightarrow> execs_ok x (en_world e) \<and> (\<forall>vm \<in> set (en_pool e). vm_ok vm)"

lemma world_ok_call: "world_ok x w \<Longrightarrow> world_ok x (snd (lua_api x a w))"
  using api_confined[of x a w]
  by (auto simp: world_ok_def execs_ok_def confined_def runnable_def split: lua_call.splits list.splits if_splits)

lemma world_ok_run: "run_lua m (lua_api x) lim l w = Some y \<Longrightarrow> world_ok x w \<Longrightarrow> world_ok x (snd (snd y))"
  by (erule run_lua_inv) (rule world_ok_call)

lemma world_ok_run_call: "world_ok x (fst wl) \<Longrightarrow> world_ok x (fst (snd (run_api x a wl)))"
  using world_ok_call[of x "fst wl" a]
  by (cases a) (simp_all add: run_api_def zigbeeLog_def split: prod.split, auto simp: world_ok_def execs_ok_def)

lemma world_ok_vm: "execs_ok x w \<Longrightarrow> vm_ok vm \<Longrightarrow> world_ok x (vm_world vm w)"
  by (simp add: world_ok_def vm_ok_def vm_world_def execs_ok_def)

lemma vm_ok_after: "world_ok x w \<Longrightarrow> vm_ok vm \<Longrightarrow> vm_ok (vm_after l w vm) \<and> execs_ok x w"
  by (simp add: world_ok_def vm_ok_def vm_after_def)

lemma vm_ok_simps: "vm_ok (new_vm env)" "vm_ok (vm\<lparr>vm_cancelled := b\<rparr>) = vm_ok vm" "vm_ok (vm\<lparr>vm_loop := b\<rparr>) = vm_ok vm"
  "vm_ok (vm\<lparr>vm_stuck := b\<rparr>) = vm_ok vm" "vm_ok vm \<Longrightarrow> vm_ok (timer_ends k vm)" "vm_ok vm \<Longrightarrow> vm_ok (timer_fires k vm)"
  "vm_ok vm \<Longrightarrow> vm_commands vm = c # cs \<Longrightarrow> vm_ok (vm\<lparr>vm_commands := cs\<rparr>)"
  by (simp_all add: vm_ok_def new_vm_def timer_ends_def timer_fires_def Let_def)

lemma vm_ok_offer: "vm_ok vm \<Longrightarrow> vm_ok (offer_all p ev hs vm)"
  by (induction p ev hs vm rule: offer_all.induct) (simp_all add: vm_ok_def)

lemma engine_ok_set: "engine_ok x e \<Longrightarrow> (\<And>vm. vm_ok vm \<Longrightarrow> vm_ok (f vm)) \<Longrightarrow> engine_ok x (set_vm n f e)"
  by (auto simp: engine_ok_def set_vm_def dest!: set_update_subset_insert[THEN subsetD])

lemma engine_ok_simps: "engine_ok x (e\<lparr>en_vms := v\<rparr>) = engine_ok x e" "engine_ok x (e\<lparr>en_subscribed := b\<rparr>) = engine_ok x e"
  "engine_ok x (e\<lparr>en_manager := m\<rparr>) = engine_ok x e"
  by (simp_all add: engine_ok_def)

lemma engine_ok_stop: "engine_ok x e \<Longrightarrow> engine_ok x (stopScript i e)"
  by (auto simp: stopScript_def engine_ok_simps vm_ok_simps intro!: engine_ok_set split: option.split)

lemma engine_ok_install: "engine_ok x e \<Longrightarrow> engine_ok x (install i n e)"
  unfolding install_def by (rule engine_ok_set) (simp_all add: engine_ok_simps vm_ok_simps)

lemma engine_ok_fold: "(\<And>v e. engine_ok x e \<Longrightarrow> engine_ok x (f v e)) \<Longrightarrow> engine_ok x e \<Longrightarrow> engine_ok x (fold f vs e)"
  by (induction vs arbitrary: e) simp_all

lemma engine_ok_load:
  assumes "load_script env sc e = Some (r, e1)" "engine_ok (ae_ext env) e"
  shows "engine_ok (ae_ext env) e1"
proof -
  let ?w = "vm_world (new_vm env) (en_world e)"
  have w: "world_ok (ae_ext env) ?w" using assms(2) by (intro world_ok_vm vm_ok_simps) (simp add: engine_ok_def)
  obtain a l w' where y: "DoString (ae_lua env) (lua_api (ae_ext env)) None (sc_LuaCode sc) (vm_state (new_vm env)) ?w = Some (a, l, w')"
    using assms(1) by (auto simp: load_script_def Let_def split: option.splits)
  then have "world_ok (ae_ext env) (snd (snd (a, l, w')))" using world_ok_call w by (rule DoString_inv)
  then show ?thesis using y assms vm_ok_after[of "ae_ext env" _ "new_vm env"]
    by (auto simp: load_script_def Let_def engine_ok_def vm_ok_simps split: option.splits)
qed

lemma engine_ok_run:
  assumes "RunLuaCode env steps code e = Some (r, e1)" "engine_ok (ae_ext env) e"
  shows "engine_ok (ae_ext env) e1"
proof -
  let ?w = "(vm_world (new_vm env) (en_world e), [])"
  have w: "world_ok (ae_ext env) (fst ?w)" using assms(2) by (simp, intro world_ok_vm vm_ok_simps) (simp add: engine_ok_def)
  obtain a l w' logs where y: "DoString (ae_lua env) (run_api (ae_ext env)) (Some steps) code (vm_state (new_vm env)) ?w = Some (a, l, w', logs)"
    using assms(1) by (auto simp: RunLuaCode_def Let_def split: option.splits)
  have "world_ok (ae_ext env) (fst (snd (snd (a, l, w', logs))))"
    by (rule DoString_inv[OF y, where P = "\<lambda>wl. world_ok (ae_ext env) (fst wl)"]) (use world_ok_run_call w in auto)
  then show ?thesis using y assms vm_ok_after[of "ae_ext env" _ "new_vm env"]
    by (auto simp: RunLuaCode_def Let_def engine_ok_def vm_ok_simps split: option.splits)
qed

lemma engine_ok_turn:
  assumes "engine_ok (ae_ext env) e" "n < length (en_pool e)"
  shows "engine_ok (ae_ext env) (loop_turn env n e)"
proof (cases "vm_commands (en_pool e ! n)")
  case (Cons c cs)
  let ?v = "(en_pool e ! n)\<lparr>vm_commands := cs\<rparr>"
  have p: "vm_ok ?v" using assms Cons by (intro vm_ok_simps(7)[of _ c]) (simp_all add: engine_ok_def)
  have up: "engine_ok (ae_ext env) (e'\<lparr>en_pool := (en_pool e)[n := v]\<rparr>)" if "vm_ok v" "execs_ok (ae_ext env) (en_world e')" for v and e' :: "'a engine"
    using that assms(1) by (auto simp: engine_ok_def dest!: set_update_subset_insert[THEN subsetD])
  show ?thesis
  proof (cases "run_command env c (vm_state ?v) (vm_world ?v (en_world e))")
    case None
    then show ?thesis using Cons p up[of "?v\<lparr>vm_stuck := True\<rparr>" e] assms(1) by (simp add: loop_turn_def Let_def vm_ok_simps engine_ok_def)
  next
    case (Some y)
    have "world_ok (ae_ext env) (vm_world ?v (en_world e))" using assms(1) p by (intro world_ok_vm) (simp_all add: engine_ok_def)
    then have "world_ok (ae_ext env) (snd (snd y))" using Some
      by (auto intro: world_ok_run simp: run_command_def callHandler_def callAfter_def split: command.splits)
    then show ?thesis using Cons Some p vm_ok_after[of "ae_ext env" "snd (snd y)" ?v]
        up[of "vm_after (fst (snd y)) (snd (snd y)) ?v" "e\<lparr>en_world := snd (snd y)\<rparr>"]
      by (cases y) (simp add: loop_turn_def Let_def)
  qed
qed (use assms in \<open>simp add: loop_turn_def\<close>)

text \<open>The engine's part and the table's part together.\<close>

definition auto_inv :: "'l auto_env \<Rightarrow> 'l auto_sys \<Rightarrow> bool" where
  "auto_inv env s \<longleftrightarrow> engine_ok (ae_ext env) (as_en s) \<and> tb_inv (table_of s)"

lemma auto_inv_table: "auto_inv env s \<Longrightarrow> auto_step env s s' \<Longrightarrow> table_step (table_of s) (table_of s')"
  by (rule engine_refines_table_step) (auto simp: auto_inv_def tb_inv_def slots_def)

lemma engine_ok_step:
  assumes "auto_step env s s'" "engine_ok (ae_ext env) (as_en s)"
  shows "engine_ok (ae_ext env) (as_en s')"
  using assms(1)
proof cases
  case (event p ev)
  have "engine_ok (ae_ext env) ((\<lambda>(i, n) e. set_vm n (\<lambda>vm. offer_all (p i) ev (vm_handlers vm) vm) e) v e)" if "engine_ok (ae_ext env) e" for v and e :: "'a engine"
    using that by (cases v) (simp, rule engine_ok_set, auto intro: vm_ok_offer)
  then show ?thesis using event(1) assms(2) unfolding dispatchEvent_def by (simp add: engine_ok_fold)
next
  case (reload i)
  then show ?thesis using assms(2) by (simp add: reload_first_def reload_begin_def Let_def engine_ok_stop)
next
  case (load sc r e1)
  then show ?thesis using assms(2) engine_ok_load by (simp add: load_done_def)
next
  case (run_code steps code r e1)
  then show ?thesis using assms(2) engine_ok_run by simp
next
  case (loop_exit n)
  have "engine_ok (ae_ext env) (set_vm n (vm_loop_update (\<lambda>_. False)) (as_en s))" using assms(2) by (rule engine_ok_set) (simp add: vm_ok_simps)
  then show ?thesis using loop_exit(1) by simp
next
  case stop
  have "engine_ok (ae_ext env) (set_vm (snd v) (vm_cancelled_update (\<lambda>_. True)) e)" if "engine_ok (ae_ext env) e" for v :: "string \<times> nat" and e :: "'a engine"
    using that by (rule engine_ok_set) (simp add: vm_ok_simps)
  then show ?thesis using stop assms(2) by (simp add: stop_all_def engine_ok_simps engine_ok_fold)
next
  case (timer n k)
  have "engine_ok (ae_ext env) (set_vm n (timer_fires k) (as_en s))" using assms(2) by (rule engine_ok_set) (rule vm_ok_simps)
  then show ?thesis using timer(1) by simp
next
  case (timer_exit n k)
  have "engine_ok (ae_ext env) (set_vm n (timer_ends k) (as_en s))" using assms(2) by (rule engine_ok_set) (rule vm_ok_simps)
  then show ?thesis using timer_exit(1) by simp
next
  case (coordinator c)
  then show ?thesis using assms(2) by (simp add: engine_ok_def execs_ok_def)
qed (use assms(2) in \<open>simp_all add: StopScript_def engine_ok_stop engine_ok_simps engine_ok_install engine_ok_turn\<close>)

lemma auto_inv_step: "auto_step env s s' \<Longrightarrow> auto_inv env s \<Longrightarrow> auto_inv env s'"
  using auto_inv_table[of env s s'] tb_inv_step[of "table_of s" "table_of s'"] engine_ok_step[of env s s'] by (simp add: auto_inv_def)

text \<open>Starting a script is two steps of a reload.\<close>

lemma startScript_steps:
  assumes "startScript env sc e = Some (err, e1)"
  shows "\<exists>s1. auto_step env \<lparr>as_en = e, as_loading = [sc], as_loaded = []\<rparr> s1
     \<and> (s1 = \<lparr>as_en = e1, as_loading = [], as_loaded = []\<rparr> \<or> auto_step env s1 \<lparr>as_en = e1, as_loading = [], as_loaded = []\<rparr>)
     \<and> set_mset (in_flight (table_of s1)) \<subseteq> {sc_ID sc} \<and> fst ` set (en_vms e1) \<subseteq> insert (sc_ID sc) (fst ` set (en_vms e))
     \<and> serial (table_of s1)"
proof -
  let ?s = "\<lparr>as_en = e, as_loading = [sc], as_loaded = []\<rparr>"
  obtain r e2 where r: "load_script env sc e = Some (r, e2)" using assms by (auto simp: startScript_def split: option.splits)
  have a: "auto_step env ?s (load_done sc r e2 ?s)" using r by (intro auto_step.load) simp_all
  have v: "en_vms e2 = en_vms e" using load_shape(1)[OF r] .
  show ?thesis
  proof (cases r)
    case (Inl er)
    then have "load_done sc r e2 ?s = \<lparr>as_en = e1, as_loading = [], as_loaded = []\<rparr>" using assms r by (simp add: startScript_def load_done_def)
    then show ?thesis using a v assms r Inl by (intro exI[of _ "load_done sc r e2 ?s"]) (auto simp: in_flight_def serial_def startScript_def)
  next
    case (Inr n)
    then have d: "load_done sc r e2 ?s = \<lparr>as_en = e2, as_loading = [], as_loaded = [(sc_ID sc, n)]\<rparr>" by (simp add: load_done_def)
    have "auto_step env (load_done sc r e2 ?s) \<lparr>as_en = install (sc_ID sc) n e2, as_loading = [], as_loaded = []\<rparr>"
      using auto_step.enter[of "sc_ID sc" n "load_done sc r e2 ?s" env] unfolding d by simp
    moreover have "e1 = install (sc_ID sc) n e2" using assms r Inr by (simp add: startScript_def)
    ultimately show ?thesis using a v by (intro exI[of _ "load_done sc r e2 ?s"]) (auto simp: d in_flight_def serial_def install_def put_vm_def)
  qed
qed

lemma all_known_auto:
  assumes "auto_step env s s'" "auto_inv env s" "all_known (table_of s)" "serial (table_of s)"
  shows "all_known (table_of s')"
  using all_known_step[OF auto_inv_table[OF assms(2,1)] assms(3) _ assms(4)] assms(2) by (simp add: auto_inv_def)

abbreviation still :: "'l engine \<Rightarrow> 'l auto_sys" where
  "still e \<equiv> \<lparr>as_en = e, as_loading = [], as_loaded = []\<rparr>"

lemma table_of_loading: "table_of \<lparr>as_en = e, as_loading = [sc], as_loaded = []\<rparr> = tb_loading_add (sc_ID sc) (table_of (still e))"
  by (rule table_eq) simp_all

lemma startScript_inv:
  assumes "startScript env sc e = Some (err, e1)" "auto_inv env (still e)"
  shows "auto_inv env (still e1)"
    "all_known (table_of (still e)) \<Longrightarrow> sc_ID sc \<notin> fst ` set (en_vms e) \<Longrightarrow> all_known (table_of (still e1))"
    "fst ` set (en_vms e1) \<subseteq> insert (sc_ID sc) (fst ` set (en_vms e))"
proof -
  let ?s = "\<lparr>as_en = e, as_loading = [sc], as_loaded = []\<rparr>"
  obtain s1 where s: "auto_step env ?s s1" "s1 = still e1 \<or> auto_step env s1 (still e1)" "serial (table_of s1)"
    "fst ` set (en_vms e1) \<subseteq> insert (sc_ID sc) (fst ` set (en_vms e))"
    using startScript_steps[OF assms(1)] by blast
  have 0: "auto_inv env ?s" using assms(2) by (simp add: auto_inv_def table_of_loading tb_inv_loading)
  then have 1: "auto_inv env s1" using s(1) auto_inv_step by blast
  then show "auto_inv env (still e1)" using s(2) auto_inv_step by blast
  show "fst ` set (en_vms e1) \<subseteq> insert (sc_ID sc) (fst ` set (en_vms e))" by fact
  show "all_known (table_of (still e1))" if k: "all_known (table_of (still e))" "sc_ID sc \<notin> fst ` set (en_vms e)"
  proof -
    have "all_known (table_of ?s)" using k by (simp add: all_known_def table_of_loading in_flight_def)
    moreover have "serial (table_of ?s)" by (simp add: serial_def in_flight_def)
    ultimately have "all_known (table_of s1)" using s(1) 0 all_known_auto by blast
    then show ?thesis using s(2,3) 1 all_known_auto by blast
  qed
qed

lemma disjoint_insert_le: "A \<subseteq> insert x B \<Longrightarrow> x \<notin> C \<Longrightarrow> B \<inter> C = {} \<Longrightarrow> A \<inter> C = {}"
  by blast

lemma start_all_inv:
  "start_all env ss e = Some e' \<Longrightarrow> auto_inv env (still e) \<Longrightarrow> auto_inv env (still e')
     \<and> (all_known (table_of (still e)) \<and> distinct (map sc_ID ss) \<and> fst ` set (en_vms e) \<inter> sc_ID ` set ss = {} \<longrightarrow> all_known (table_of (still e')))"
proof (induction env ss e rule: start_all.induct)
  case (2 env sc ss e)
  show ?case
  proof (cases "sm_Enabled (sc_Meta sc)")
    case True
    then obtain err e1 where e1: "startScript env sc e = Some (err, e1)" "start_all env ss e1 = Some e'"
      using 2(3) by (auto split: option.splits)
    note i = startScript_inv[OF e1(1) 2(4)]
    have "\<not> \<not> sm_Enabled (sc_Meta sc)" using True by simp
    note ih = 2(2)[OF this e1(1) refl e1(2) i(1)]
    have all: "all_known (table_of (still e)) \<and> distinct (map sc_ID (sc # ss)) \<and> fst ` set (en_vms e) \<inter> sc_ID ` set (sc # ss) = {}
        \<longrightarrow> all_known (table_of (still e'))"
    proof
      assume k: "all_known (table_of (still e)) \<and> distinct (map sc_ID (sc # ss)) \<and> fst ` set (en_vms e) \<inter> sc_ID ` set (sc # ss) = {}"
      have j: "sc_ID sc \<notin> sc_ID ` set ss" "sc_ID sc \<notin> fst ` set (en_vms e)" "fst ` set (en_vms e) \<inter> sc_ID ` set ss = {}" "distinct (map sc_ID ss)"
        using k by simp_all
      have "fst ` set (en_vms e1) \<inter> sc_ID ` set ss = {}" using i(3) j(1,3) by (rule disjoint_insert_le)
      then show "all_known (table_of (still e'))" using i(2)[OF conjunct1[OF k] j(2)] j(4) by (intro mp[OF conjunct2[OF ih]] conjI)
    qed
    show ?thesis by (rule conjI[OF conjunct1[OF ih] all])
  next
    case False
    have "auto_inv env (still e') \<and> (all_known (table_of (still e)) \<and> distinct (map sc_ID ss) \<and> fst ` set (en_vms e) \<inter> sc_ID ` set ss = {}
        \<longrightarrow> all_known (table_of (still e')))"
      using 2(1)[OF False _ 2(4)] 2(3) False unfolding start_all.simps if_P[OF False] by blast
    then show ?thesis by (simp only: list.map distinct.simps list.set image_insert) blast
  qed
qed simp

lemma list_ids:
  assumes "Manager_List js os m = Inr ss" "distinct (map fst (mg_files m))"
  shows "distinct (map sc_ID ss)"
proof -
  define f where "f = (\<lambda>(n, e). if e = Directory \<or> \<not> HasSuffix ''.lua'' n then None
      else (case parseFile js os (take (length n - 4) n) m of Inr s \<Rightarrow> Some s | Inl _ \<Rightarrow> None))"
  have f: "script_file (sc_ID s) = fst x" if fx: "f x = Some s" for x s
  proof -
    obtain n e where x: "x = (n, e)" by (cases x)
    then have n: "HasSuffix ''.lua'' n" "parseFile js os (take (length n - 4) n) m = Inr s" using fx by (auto simp: f_def split: if_splits sum.splits)
    then have "sc_ID s = take (length n - 4) n" by (auto simp: parseFile_def parse_content_def Let_def split: option.splits entry.splits if_splits)
    moreover have "drop (length n - 4) n = ''.lua''" using n(1) by (simp add: HasSuffix_def eval_nat_numeral)
    then have "take (length n - 4) n @ ''.lua'' = n" by (metis append_take_drop_id)
    ultimately show ?thesis using x by (simp add: script_file_def)
  qed
  have "map (script_file \<circ> sc_ID) (List.map_filter f xs) = map fst (filter (\<lambda>x. f x \<noteq> None) xs)" for xs
    by (induction xs) (auto simp: List.map_filter_simps f split: option.split)
  moreover have "ss = List.map_filter f (mg_files m)" using assms(1) by (simp add: Manager_List_def f_def split: if_splits)
  ultimately have "distinct (map (script_file \<circ> sc_ID) ss)" using assms(2) by (simp add: distinct_map_filter)
  then show ?thesis by (metis distinct_map map_map)
qed

lemma engine_start_inv:
  assumes "Engine_Start env (NewEngine c m) = Some e"
  shows "auto_inv env (still e)" "distinct (map fst (mg_files m)) \<Longrightarrow> all_known (table_of (still e))"
proof -
  let ?e = "(NewEngine c m :: 'a engine)\<lparr>en_subscribed := True\<rparr>"
  have n: "auto_inv env (still ?e)" "all_known (table_of (still ?e))" "en_vms ?e = []" "en_manager ?e = m"
    by (simp_all add: auto_inv_def engine_ok_def execs_ok_def NewEngine_def tb_inv_def slots_def all_known_def in_flight_def)
  show "auto_inv env (still e)"
    using assms n start_all_inv[of env _ ?e e] by (auto simp: Engine_Start_def Let_def split: sum.splits)
  show "all_known (table_of (still e))" if "distinct (map fst (mg_files m))"
    using assms n start_all_inv[of env _ ?e e] list_ids[OF _ that] by (auto simp: Engine_Start_def Let_def split: sum.splits)
qed

lemma auto_reach_inv: "auto_reach env c m s \<Longrightarrow> auto_inv env s"
  by (induction rule: auto_reach.induct) (auto intro: engine_start_inv auto_inv_step)

section \<open>Properties\<close>

text \<open>
  C4: the engine implements the table of VMs: whatever a step of the engine does to Lua states, queues, files and the
  radio, to the table it is one step of the specification. Reloads are two steps with other steps in between.
\<close>

theorem engine_refines_table:
  "auto_reach env c m s \<Longrightarrow> auto_step env s s' \<Longrightarrow> table_step (table_of s) (table_of s')"
  using auto_inv_table auto_reach_inv by blast

text \<open>
  C14: at all times the engine's map holds each script once and each VM once, and the VMs in it run and are not
  cancelled; a command queue never holds more than 64 commands nor a script more than 100 handlers; and whatever scripts,
  handlers, timers and test runs did so far, each program that was run is one that the configuration lists by an absolute path.
\<close>

theorem engine_invariant:
  assumes "auto_reach env c m s"
  shows "distinct (map fst (en_vms (as_en s))) \<and> distinct (map snd (en_vms (as_en s)))
    \<and> (\<forall>n \<in> snd ` set (en_vms (as_en s)). n < length (en_pool (as_en s)) \<and> vm_loop (en_pool (as_en s) ! n) \<and> \<not> vm_cancelled (en_pool (as_en s) ! n))
    \<and> (\<forall>vm \<in> set (en_pool (as_en s)). length (vm_commands vm) \<le> 64 \<and> length (vm_handlers vm) \<le> 100)
    \<and> (\<forall>p \<in> set (lw_execs (en_world (as_en s))). HasPrefix ''/'' (fst p) \<and> fst p \<in> set (sy_ExecAllowlist (le_system (ae_ext env))))"
proof -
  have i: "engine_ok (ae_ext env) (as_en s)" "tb_inv (table_of s)" using auto_reach_inv[OF assms] by (simp_all add: auto_inv_def)
  have "n < length (en_pool (as_en s)) \<and> vm_loop (en_pool (as_en s) ! n) \<and> \<not> vm_cancelled (en_pool (as_en s) ! n)"
    if "n \<in> snd ` set (en_vms (as_en s))" for n
    using that i(2) slotsD(1)[of "in_map (table_of s)" "waiting (table_of s)" "tb_flags (table_of s)" n] by (auto simp: tb_inv_def flag_def)
  then show ?thesis using i by (simp add: tb_inv_def engine_ok_def vm_ok_def execs_ok_def maxHandlersPerScript_def)
qed

lemma offer_running:
  assumes "\<not> vm_cancelled vm" "length (vm_commands vm) \<le> 64"
  shows "offer_all p ev hs vm = vm\<lparr>vm_commands := take 64 (vm_commands vm @ map (\<lambda>h. Handle (lh_fn h) ev) (filter (\<lambda>h. matchesHandler h ev) hs))\<rparr>"
  using assms
proof (induction p ev hs vm rule: offer_all.induct)
  case (2 p ev h hs vm)
  show ?case
  proof (cases "matchesHandler h ev")
    case True
    then show ?thesis using 2 by (cases "length (vm_commands vm) < 64") simp_all
  qed (use 2 in simp)
qed simp

lemma fold_set_vm_pool:
  assumes "distinct (map snd vs)" "\<forall>n \<in> snd ` set vs. n < length (en_pool e)"
  shows "length (en_pool (fold (\<lambda>(i, n) e. set_vm n (f i) e) vs e)) = length (en_pool e)
    \<and> en_world (fold (\<lambda>(i, n) e. set_vm n (f i) e) vs e) = en_world e
    \<and> (\<forall>k < length (en_pool e). en_pool (fold (\<lambda>(i, n) e. set_vm n (f i) e) vs e) ! k =
        (case map_of (map prod.swap vs) k of Some i \<Rightarrow> f i (en_pool e ! k) | None \<Rightarrow> en_pool e ! k))"
  using assms
proof (induction vs arbitrary: e)
  case (Cons v vs)
  obtain i n where v: "v = (i, n)" by (cases v)
  have n: "n < length (en_pool e)" "map_of (map prod.swap vs) n = None" using Cons.prems v by (force simp: map_of_eq_None_iff)+
  show ?case using Cons.IH[of "set_vm n (f i) e"] Cons.prems n v by (auto simp: set_vm_def nth_list_update split: option.split)
qed simp

text \<open>
  C15: an event reaches exactly the scripts that run and the handlers that match it. Each VM in the map gets one command for
  each of its handlers of the event's type whose filters (if set) equal the event's address and property, in the order of their
  registration, behind the commands that wait; what exceeds 64 commands is dropped. Other VMs and the rest of the
  program are not touched.
\<close>

theorem event_routing:
  assumes "auto_reach env c m s" "e' = dispatchEvent p ev (as_en s)"
  shows "(\<forall>n \<in> snd ` set (en_vms (as_en s)). en_pool e' ! n = (let vm = en_pool (as_en s) ! n in
      vm\<lparr>vm_commands := take 64 (vm_commands vm @ map (\<lambda>h. Handle (lh_fn h) ev) (filter (\<lambda>h. matchesHandler h ev) (vm_handlers vm)))\<rparr>))
    \<and> (\<forall>k < length (en_pool (as_en s)). k \<notin> snd ` set (en_vms (as_en s)) \<longrightarrow> en_pool e' ! k = en_pool (as_en s) ! k)
    \<and> en_world e' = en_world (as_en s) \<and> length (en_pool e') = length (en_pool (as_en s))"
proof -
  have i: "engine_ok (ae_ext env) (as_en s)" "tb_inv (table_of s)" using auto_reach_inv[OF assms(1)] by (simp_all add: auto_inv_def)
  have d: "distinct (map snd (en_vms (as_en s)))" using i(2) by (simp add: tb_inv_def)
  have v: "n < length (en_pool (as_en s)) \<and> \<not> vm_cancelled (en_pool (as_en s) ! n)" if "n \<in> snd ` set (en_vms (as_en s))" for n
    using that i(2) slotsD(1)[of "in_map (table_of s)" "waiting (table_of s)" "tb_flags (table_of s)" n] by (auto simp: tb_inv_def flag_def)
  note f = fold_set_vm_pool[of "en_vms (as_en s)" "as_en s" "\<lambda>i vm. offer_all (p i) ev (vm_handlers vm) vm", OF d, folded dispatchEvent_def]
  have g: "length (en_pool e') = length (en_pool (as_en s))" "en_world e' = en_world (as_en s)"
    "\<And>k. k < length (en_pool (as_en s)) \<Longrightarrow> en_pool e' ! k = (case map_of (map prod.swap (en_vms (as_en s))) k of
        Some i \<Rightarrow> offer_all (p i) ev (vm_handlers (en_pool (as_en s) ! k)) (en_pool (as_en s) ! k) | None \<Rightarrow> en_pool (as_en s) ! k)"
    using f v unfolding assms(2) by auto
  have other: "en_pool e' ! k = en_pool (as_en s) ! k" if "k < length (en_pool (as_en s))" "k \<notin> snd ` set (en_vms (as_en s))" for k
  proof -
    have "map_of (map prod.swap (en_vms (as_en s))) k = None" using that(2) by (force simp: map_of_eq_None_iff)
    then show ?thesis using g(3)[OF that(1)] by simp
  qed
  have "en_pool e' ! n = (let vm = en_pool (as_en s) ! n in
      vm\<lparr>vm_commands := take 64 (vm_commands vm @ map (\<lambda>h. Handle (lh_fn h) ev) (filter (\<lambda>h. matchesHandler h ev) (vm_handlers vm)))\<rparr>)"
    if a: "(i, n) \<in> set (en_vms (as_en s))" for i n
  proof -
    have n: "n < length (en_pool (as_en s))" "\<not> vm_cancelled (en_pool (as_en s) ! n)" using v[of n] a by force+
    have "(n, i) \<in> set (map prod.swap (en_vms (as_en s)))" using a by force
    moreover have "distinct (map fst (map prod.swap (en_vms (as_en s))))" using d by (simp add: comp_def)
    ultimately have "map_of (map prod.swap (en_vms (as_en s))) n = Some i" by simp
    moreover have "length (vm_commands (en_pool (as_en s) ! n)) \<le> 64" using i(1) n(1) by (simp add: engine_ok_def vm_ok_def)
    ultimately show ?thesis using g(3)[OF n(1)] offer_running[OF n(2)] by (simp add: Let_def)
  qed
  then show ?thesis using other g(1,2) by (auto simp del: take_append)
qed

lemma leaked_alive:
  assumes "leaked n (table_of s)"
  shows "n < length (en_pool (as_en s)) \<and> vm_loop (en_pool (as_en s) ! n) \<and> \<not> vm_cancelled (en_pool (as_en s) ! n)
    \<and> n \<notin> snd ` set (en_vms (as_en s)) \<and> 0 < vmWg (as_en s)"
proof -
  have n: "n < length (en_pool (as_en s))" "vm_loop (en_pool (as_en s) ! n)" "\<not> vm_cancelled (en_pool (as_en s) ! n)" "n \<notin> snd ` set (en_vms (as_en s))"
    using assms by (auto simp: leaked_def flag_def)
  define g where "g = (\<lambda>vm :: 'a scriptVM. (if vm_loop vm then 1 else 0) + length (vm_timers vm))"
  have "g (en_pool (as_en s) ! n) \<in> set (map g (en_pool (as_en s)))" using n(1) by simp
  then have "g (en_pool (as_en s) ! n) \<le> sum_list (map g (en_pool (as_en s)))" by (rule member_le_sum_list) simp
  moreover have "0 < g (en_pool (as_en s) ! n)" using n(2) by (simp add: g_def)
  moreover have "vmWg (as_en s) = sum_list (map g (en_pool (as_en s)))" by (simp add: vmWg_def g_def)
  ultimately have "0 < vmWg (as_en s)" by linarith
  then show ?thesis using n by blast
qed

text \<open>
  C17: two reloads of a script at the same time lose a VM. When one has put its VM \<open>n'\<close> into the map while another has run
  the script and is about to enter its own, the entry replaces \<open>n'\<close> without cancelling it. From then on, whatever happens
  (stopping the script, further reloads, the engine's stop), \<open>n'\<close> runs, is in no map, gets no event, and its timers go on; \<^verbatim>\<open>Stop\<close> waits
  for it forever.
\<close>

theorem reload_race:
  assumes "auto_reach env c m s" "(i, n) \<in> set (as_loaded s)" "(i, n') \<in> set (en_vms (as_en s))"
    "(auto_step env)\<^sup>*\<^sup>* (s\<lparr>as_en := install i n (as_en s), as_loaded := remove1 (i, n) (as_loaded s)\<rparr>) s'"
  shows "vm_loop (en_pool (as_en s') ! n') \<and> \<not> vm_cancelled (en_pool (as_en s') ! n') \<and> n' \<notin> snd ` set (en_vms (as_en s')) \<and> 0 < vmWg (as_en s')"
proof -
  let ?s1 = "s\<lparr>as_en := install i n (as_en s), as_loaded := remove1 (i, n) (as_loaded s)\<rparr>"
  have inv: "auto_inv env s" using assms(1) by (rule auto_reach_inv)
  then have t: "tb_inv (table_of s)" by (simp add: auto_inv_def)
  have st: "auto_step env s ?s1" using assms(2) by (rule auto_step.enter)
  have n: "n < length (en_pool (as_en s))" "n \<in> waiting (table_of s)"
    using t assms(2) slotsD(2)[of "in_map (table_of s)" "waiting (table_of s)" "tb_flags (table_of s)" n] by (force simp: tb_inv_def)+
  have n': "n' \<in> in_map (table_of s)" using assms(3) by force
  then have f: "n' < length (en_pool (as_en s))" "map flag (en_pool (as_en s)) ! n' = (True, False)" "n' \<notin> waiting (table_of s)"
    using t slotsD(1,2)[of "in_map (table_of s)" "waiting (table_of s)" "tb_flags (table_of s)" n'] by (auto simp: tb_inv_def)
  then have ne: "n' \<noteq> n" using n(2) by blast
  have "snd ` set (filter (\<lambda>v. fst v \<noteq> i) (en_vms (as_en s))) = in_map (table_of s) - {n'}"
    using t assms(3) filter_in_map[of "en_vms (as_en s)" i n'] by (simp add: tb_inv_def)
  then have "n' \<notin> snd ` set (put_vm i n (en_vms (as_en s)))" using ne by (simp add: put_vm_def)
  moreover have "n' \<notin> snd ` set (remove1 (i, n) (as_loaded s))" using f(3) set_remove1_subset[of "(i, n)" "as_loaded s"] by auto
  ultimately have l: "leaked n' (table_of ?s1)" using f n(1) ne enter_shape[OF n(1), of i] by (simp add: leaked_def)
  have "auto_inv env s' \<and> leaked n' (table_of s')"
    using assms(4)
  proof (induction rule: rtranclp_induct)
    case base
    show ?case using l auto_inv_step[OF st inv] by blast
  next
    case (step x y)
    then show ?case using auto_inv_step auto_inv_table leaked_step by blast
  qed
  then show ?thesis using leaked_alive by blast
qed

text \<open>Runs in which no script has two reloads in flight at a time.\<close>

inductive serial_reach :: "'l auto_env \<Rightarrow> coord \<Rightarrow> Manager \<Rightarrow> 'l auto_sys \<Rightarrow> bool" for env c m where
  start: "Engine_Start env (NewEngine c m) = Some e \<Longrightarrow> serial_reach env c m (still e)"
| step: "serial_reach env c m s \<Longrightarrow> auto_step env s s' \<Longrightarrow> serial (table_of s') \<Longrightarrow> serial_reach env c m s'"

lemma serial_reach_inv:
  "serial_reach env c m s \<Longrightarrow> distinct (map fst (mg_files m)) \<Longrightarrow> auto_inv env s \<and> all_known (table_of s) \<and> serial (table_of s)"
proof (induction rule: serial_reach.induct)
  case (start e)
  then show ?case using engine_start_inv[OF start(1)] by (simp add: serial_def in_flight_def)
next
  case (step s s')
  then show ?case using auto_inv_step all_known_auto by blast
qed

definition draining :: "'l auto_sys \<Rightarrow> bool" where
  "draining s \<longleftrightarrow> (\<forall>vm \<in> set (en_pool (as_en s)). vm_cancelled vm \<and> \<not> vm_stuck vm)"

lemma sum_list_update_lt: "n < length (xs :: nat list) \<Longrightarrow> x < xs ! n \<Longrightarrow> sum_list (xs[n := x]) < sum_list xs"
  by (induction xs arbitrary: n) (auto simp: nth_Cons split: nat.splits)

lemma drains: "draining s \<Longrightarrow> \<exists>s'. (auto_step env)\<^sup>*\<^sup>* s s' \<and> vmWg (as_en s') = 0"
proof (induction "vmWg (as_en s)" arbitrary: s rule: less_induct)
  case less
  define g where "g = (\<lambda>vm :: 'a scriptVM. (if vm_loop vm then 1 else 0) + length (vm_timers vm))"
  have w: "vmWg e = sum_list (map g (en_pool e))" for e :: "'a engine" by (simp add: vmWg_def g_def)
  show ?case
  proof (cases "vmWg (as_en s) = 0")
    case False
    then obtain n where n: "n < length (en_pool (as_en s))" "g (en_pool (as_en s) ! n) \<noteq> 0"
      unfolding w sum_list_eq_0_iff by (auto simp: in_set_conv_nth)
    have c: "vm_cancelled (en_pool (as_en s) ! n)" "\<not> vm_stuck (en_pool (as_en s) ! n)" using less.prems n(1) by (simp_all add: draining_def)
    have next_state: "\<exists>s'. (auto_step env)\<^sup>*\<^sup>* s s' \<and> vmWg (as_en s') = 0"
      if st: "auto_step env s (s\<lparr>as_en := set_vm n f (as_en s)\<rparr>)" and lt: "g (f (en_pool (as_en s) ! n)) < g (en_pool (as_en s) ! n)"
        and k: "vm_cancelled (f (en_pool (as_en s) ! n))" "\<not> vm_stuck (f (en_pool (as_en s) ! n))" for f
    proof -
      let ?s = "s\<lparr>as_en := set_vm n f (as_en s)\<rparr>"
      have "draining ?s" using less.prems n(1) k by (auto simp: draining_def set_vm_pool dest!: set_update_subset_insert[THEN subsetD])
      moreover have "vmWg (as_en ?s) < vmWg (as_en s)" using n(1) lt by (simp add: w set_vm_pool map_update sum_list_update_lt)
      ultimately obtain s' where "(auto_step env)\<^sup>*\<^sup>* ?s s'" "vmWg (as_en s') = 0" using less.hyps by blast
      then show ?thesis using st converse_rtranclp_into_rtranclp by metis
    qed
    show ?thesis
    proof (cases "vm_loop (en_pool (as_en s) ! n)")
      case True
      then show ?thesis using c n(1) by (intro next_state[OF auto_step.loop_exit]) (simp_all add: g_def)
    next
      case False
      then have "0 < length (vm_timers (en_pool (as_en s) ! n))" using n(2) by (simp add: g_def)
      then show ?thesis using c n(1) False
        by (intro next_state[OF auto_step.timer_exit[where k = 0]]) (simp_all add: g_def timer_ends_def drop_nth_def)
    qed
  qed blast
qed

text \<open>
  C18: without such a race the engine's stop ends. When no reload is in flight, every VM that runs is in the map, so that after the first
  part of \<^verbatim>\<open>Stop\<close> each VM is cancelled; if no script hangs, the command loops and timers can all end, and then what
  \<^verbatim>\<open>Stop\<close> waits for is over.
\<close>

theorem stop_ends:
  assumes "serial_reach env c m s" "distinct (map fst (mg_files m))" "as_loading s = []" "as_loaded s = []"
    "\<forall>vm \<in> set (en_pool (as_en s)). \<not> vm_stuck vm"
  shows "(\<forall>vm \<in> set (en_pool (stop_all (as_en s))). vm_cancelled vm) \<and> en_vms (stop_all (as_en s)) = []
    \<and> (\<exists>s'. (auto_step env)\<^sup>*\<^sup>* (s\<lparr>as_en := stop_all (as_en s)\<rparr>) s' \<and> vmWg (as_en s') = 0)"
proof -
  have i: "tb_inv (table_of s)" "all_known (table_of s)" using serial_reach_inv[OF assms(1,2)] by (simp_all add: auto_inv_def)
  let ?e = "stop_all (as_en s)"
  have len: "length (en_pool ?e) = length (en_pool (as_en s))" using arg_cong[OF stop_all_shape(2), of length "as_en s"] by simp
  have "vm_cancelled (en_pool ?e ! n)" if n: "n < length (en_pool ?e)" for n
  proof -
    have f: "flag (en_pool ?e ! n) = fold cancel (map snd (en_vms (as_en s))) (map flag (en_pool (as_en s))) ! n"
      using n stop_all_shape(2)[of "as_en s"] by (metis nth_map)
    have "map flag (en_pool (as_en s)) ! n \<noteq> (False, False)"
      using i(1) n len assms(4) slotsD(3)[of "in_map (table_of s)" "waiting (table_of s)" "tb_flags (table_of s)" n] by (auto simp: tb_inv_def)
    moreover have "n \<in> snd ` set (en_vms (as_en s))" if "map flag (en_pool (as_en s)) ! n = (True, False)"
      using i(2) n len that by (simp add: all_known_def)
    ultimately have "snd (flag (en_pool ?e ! n))" unfolding f using n len
      by (cases "map flag (en_pool (as_en s)) ! n") (auto simp: nth_fold_cancel)
    then show ?thesis by (simp add: flag_def)
  qed
  then have c: "\<forall>vm \<in> set (en_pool ?e). vm_cancelled vm" by (metis in_set_conv_nth)
  have stuck: "\<forall>vm \<in> set (en_pool (fold (\<lambda>v e. set_vm (snd v) (vm_cancelled_update (\<lambda>_. True)) e) vs e)). \<not> vm_stuck vm"
    if "\<forall>vm \<in> set (en_pool e). \<not> vm_stuck vm" for vs :: "(string \<times> nat) list" and e :: "'a engine"
    using that
  proof (induction vs arbitrary: e)
    case (Cons v vs)
    have "\<forall>vm \<in> set (en_pool (set_vm (snd v) (vm_cancelled_update (\<lambda>_. True)) e)). \<not> vm_stuck vm"
      using Cons.prems by (auto simp: set_vm_pool dest!: set_update_subset_insert[THEN subsetD])
    then show ?case using Cons.IH by simp
  qed simp
  have "\<forall>vm \<in> set (en_pool ?e). \<not> vm_stuck vm"
  proof -
    have "\<forall>vm \<in> set (en_pool ((as_en s)\<lparr>en_subscribed := False\<rparr>)). \<not> vm_stuck vm" using assms(5) by simp
    note stuck[OF this, of "en_vms (as_en s)"]
    moreover have "en_pool (e\<lparr>en_vms := []\<rparr>) = en_pool e" for e :: "'a engine" by simp
    ultimately show ?thesis unfolding stop_all_def by (simp only:)
  qed
  then have "draining (s\<lparr>as_en := ?e\<rparr>)" using c by (simp add: draining_def)
  then show ?thesis using c drains[of "s\<lparr>as_en := ?e\<rparr>" env] by (simp add: stop_all_shape)
qed

section \<open>Instances\<close>

text \<open>A machine with three programs: one that ends, one that loops and one that registers a handler.\<close>

definition demo_machine :: "nat lua_machine" where
  "demo_machine = \<lparr>lm_lib = go_lib, lm_new = (\<lambda>_. 0), lm_load = (\<lambda>code l. Inr (if contains ''loop'' code then 1 else if contains ''on'' code then 2 else 0)),
     lm_enter = (\<lambda>f args l. 0),
     lm_step = (\<lambda>l. if l = 1 then LGo 1 else if l = 2 then LCall (ZOn ''property_update'' [] 7) (\<lambda>r. 0) else LDone 0)\<rparr>"

definition demo_auto :: "nat auto_env" where
  "demo_auto = \<lparr>ae_lua = demo_machine, ae_ext = demo_lua, ae_js = (\<lambda>_. Some (JObj [(''enabled'', JBool True)])), ae_os = demo_os,
     ae_err = (\<lambda>_. [])\<rparr>"

definition demo_files :: "string \<Rightarrow> Manager" where
  "demo_files code = \<lparr>mg_dir = ''scripts'', mg_files = [(''a.lua'', File (''-- {'' @ [newline] @ code))]\<rparr>"

definition demo_on :: "string \<Rightarrow> Script" where
  "demo_on code = \<lparr>sc_ID = ''a'', sc_Meta = \<lparr>sm_Name = [], sm_Description = [], sm_Enabled = True\<rparr>, sc_LuaCode = code, sc_BlocklyXML = [], sc_FilePath = ''scripts/a.lua''\<rparr>"

lemma demo_read: "Manager_Get (ae_js demo_auto) (ae_os demo_auto) ''a'' (demo_files ''on'') = Inr (demo_on ''on'')"
  by code_simp

lemma demo_listing: "Manager_List (ae_js demo_auto) (ae_os demo_auto) (demo_files ''loop'') = Inr [demo_on ''loop'']"
  by code_simp

lemma demo_programs: "contains ''loop'' ''loop''" "\<not> contains ''loop'' ''on''" "contains ''on'' ''on''"
  by code_simp+

definition demo_auto_coord :: coord where
  "demo_auto_coord = lw_coord (demo_lua_world demo_lamp)"

theorem run_code_returns_witness:
  "\<exists>r e1. RunLuaCode demo_auto 1000 ''loop'' (NewEngine demo_auto_coord (demo_files ''loop'')) = Some (r, e1) \<and> rr_Error r = ''timeout (5s)''"
proof -
  have "lm_load (ae_lua demo_auto) ''loop'' (newSandboxedLuaState demo_auto) = Inr 1" by (simp add: demo_auto_def demo_machine_def demo_programs)
  moreover have "\<forall>l \<in> {1}. \<exists>l' \<in> {1}. lm_step (ae_lua demo_auto) l = LGo l'" by (simp add: demo_auto_def demo_machine_def)
  ultimately show ?thesis using run_code_returns[of demo_auto 1000 "''loop''" "NewEngine demo_auto_coord (demo_files ''loop'')"] by (metis insertI1)
qed

theorem endless_script_hangs_witness:
  "Engine_Start demo_auto (NewEngine demo_auto_coord (demo_files ''loop'')) = None"
proof -
  have l: "lm_load (ae_lua demo_auto) (sc_LuaCode (demo_on ''loop'')) (newSandboxedLuaState demo_auto) = Inr 1"
    by (simp add: demo_auto_def demo_machine_def demo_programs demo_on_def)
  have st: "\<exists>l' \<in> {1}. lm_step (ae_lua demo_auto) l = LGo l'" if "l \<in> {1}" for l using that by (simp add: demo_auto_def demo_machine_def)
  have m: "Manager_List (ae_js demo_auto) (ae_os demo_auto) (en_manager (NewEngine demo_auto_coord (demo_files ''loop''))) = Inr [demo_on ''loop'']"
    by (simp add: NewEngine_def demo_listing)
  have "sm_Enabled (sc_Meta (demo_on ''loop''))" "demo_on ''loop'' \<in> set [demo_on ''loop'']" by (simp_all add: demo_on_def)
  then show ?thesis using endless_script_hangs[OF l insertI1 st, of "NewEngine demo_auto_coord (demo_files ''loop'')"] m by blast
qed

definition demo_vm :: "nat scriptVM" where
  "demo_vm = (new_vm demo_auto)\<lparr>vm_handlers := [\<lparr>lh_eventType = ''property_update'', lh_ieee = [], lh_property = [], lh_fn = 7\<rparr>]\<rparr>"

lemma demo_load: "\<exists>w. load_script demo_auto (demo_on ''on'') e = Some (Inr (length (en_pool e)), e\<lparr>en_world := w, en_pool := en_pool e @ [demo_vm]\<rparr>)"
proof -
  let ?w = "vm_world (new_vm demo_auto) (en_world e)"
  obtain r w where a: "lua_api demo_lua (ZOn ''property_update'' [] 7) ?w = (r, w)" by (metis prod.collapse)
  have w: "lw_handlers w = [\<lparr>lh_eventType = ''property_update'', lh_ieee = [], lh_property = [], lh_fn = 7\<rparr>] \<and> lw_timers w = []"
    using a by (auto simp: lua_api_def call_module_def zigbeeOn_def vm_world_def new_vm_def maxHandlersPerScript_def)
  have "run_lua demo_machine (lua_api demo_lua) None 2 ?w = run_lua demo_machine (lua_api demo_lua) None 0 w"
    by (subst run_lua.simps) (simp add: demo_machine_def a)
  also have "\<dots> = Some (None, 0, w)" by (subst run_lua.simps) (simp add: demo_machine_def)
  finally have "run_lua demo_machine (lua_api demo_lua) None 2 ?w = Some (None, 0, w)" .
  moreover have "vm_after 0 w (new_vm demo_auto) = demo_vm" using w by (simp add: vm_after_def demo_vm_def new_vm_def newSandboxedLuaState_def demo_auto_def demo_machine_def)
  moreover have "ae_lua demo_auto = demo_machine" "ae_ext demo_auto = demo_lua" "sc_LuaCode (demo_on ''on'') = ''on''"
    "\<And>l. lm_load demo_machine ''on'' l = Inr 2"
    by (simp_all add: demo_auto_def demo_on_def demo_machine_def demo_programs)
  ultimately show ?thesis by (intro exI[of _ w]) (simp add: load_script_def Let_def DoString_def)
qed

text \<open>A reload of the script, up to the entry into the map.\<close>

lemma demo_cycle:
  assumes "en_manager (as_en s) = demo_files ''on''" "en_vms (as_en s) = []" "as_loading s = []"
  shows "\<exists>s1 s2. auto_step demo_auto s s1 \<and> auto_step demo_auto s1 s2 \<and> en_manager (as_en s2) = demo_files ''on'' \<and> en_vms (as_en s2) = []
    \<and> as_loading s1 = [demo_on ''on''] \<and> as_loaded s1 = as_loaded s
    \<and> as_loading s2 = [] \<and> as_loaded s2 = (''a'', length (en_pool (as_en s))) # as_loaded s \<and> en_pool (as_en s2) = en_pool (as_en s) @ [demo_vm]"
proof -
  let ?s1 = "reload_first demo_auto ''a'' s"
  have 1: "?s1 = s\<lparr>as_loading := [demo_on ''on'']\<rparr>"
    using assms demo_read by (simp add: reload_first_def reload_begin_def stopScript_def Let_def demo_on_def)
  obtain w where w: "load_script demo_auto (demo_on ''on'') (as_en ?s1) = Some (Inr (length (en_pool (as_en s))), (as_en s)\<lparr>en_world := w, en_pool := en_pool (as_en s) @ [demo_vm]\<rparr>)"
    using demo_load[of "as_en s"] 1 by auto
  define s2 where "s2 = load_done (demo_on ''on'') (Inr (length (en_pool (as_en s)))) ((as_en s)\<lparr>en_world := w, en_pool := en_pool (as_en s) @ [demo_vm]\<rparr>) ?s1"
  have l: "auto_step demo_auto ?s1 s2" unfolding s2_def by (rule auto_step.load[OF _ w]) (simp add: 1)
  have i: "sc_ID (demo_on ''on'') = ''a''" by (simp add: demo_on_def)
  have "en_manager (as_en s2) = demo_files ''on''" "en_vms (as_en s2) = []" "as_loading s2 = []"
    "as_loaded s2 = (''a'', length (en_pool (as_en s))) # as_loaded s" "en_pool (as_en s2) = en_pool (as_en s) @ [demo_vm]"
    using assms by (simp_all add: s2_def load_done_def 1 i)
  moreover have "as_loading ?s1 = [demo_on ''on'']" "as_loaded ?s1 = as_loaded s" by (simp_all add: 1)
  ultimately show ?thesis using auto_step.reload[of demo_auto s "''a''"] l by blast
qed

lemma demo_start:
  "\<exists>s. serial_reach demo_auto c \<lparr>mg_dir = ''scripts'', mg_files = []\<rparr> s \<and> en_manager (as_en s) = demo_files ''on'' \<and> en_vms (as_en s) = []
     \<and> as_loading s = [] \<and> as_loaded s = [] \<and> en_pool (as_en s) = []"
proof -
  let ?m = "\<lparr>mg_dir = ''scripts'', mg_files = []\<rparr>"
  have "Engine_Start demo_auto (NewEngine c ?m) = Some ((NewEngine c ?m)\<lparr>en_subscribed := True\<rparr>)"
    by (simp add: Engine_Start_def Manager_List_def NewEngine_def List.map_filter_def demo_auto_def demo_os_def)
  note s = serial_reach.start[OF this]
  note t = serial_reach.step[OF s auto_step.files[of demo_auto _ "demo_files ''on''"]]
  show ?thesis by (intro exI conjI, rule t) (simp_all add: NewEngine_def serial_def in_flight_def)
qed

lemma serial_auto: "serial_reach env c m s \<Longrightarrow> auto_reach env c m s"
  by (induction rule: serial_reach.induct) (auto intro: auto_reach.intros)

lemma demo_running:
  "\<exists>s. serial_reach demo_auto c \<lparr>mg_dir = ''scripts'', mg_files = []\<rparr> s \<and> en_vms (as_en s) = [(''a'', 0)] \<and> as_loading s = [] \<and> as_loaded s = []
     \<and> en_pool (as_en s) = [demo_vm\<lparr>vm_loop := True\<rparr>]"
proof -
  obtain s where s: "serial_reach demo_auto c \<lparr>mg_dir = ''scripts'', mg_files = []\<rparr> s" "en_manager (as_en s) = demo_files ''on''" "en_vms (as_en s) = []"
     "as_loading s = []" "as_loaded s = []" "en_pool (as_en s) = []" using demo_start by blast
  obtain s1 s2 where c: "auto_step demo_auto s s1" "auto_step demo_auto s1 s2" "en_vms (as_en s2) = []" "as_loading s1 = [demo_on ''on'']" "as_loaded s1 = []"
     "as_loading s2 = []" "as_loaded s2 = [(''a'', 0)]" "en_pool (as_en s2) = [demo_vm]" using demo_cycle[OF s(2-4)] s(5,6) by auto
  have z: "serial (table_of s1)" "serial (table_of s2)" using c by (simp_all add: serial_def in_flight_def)
  note r = serial_reach.step[OF serial_reach.step[OF s(1) c(1) z(1)] c(2) z(2)]
  have e: "auto_step demo_auto s2 (s2\<lparr>as_en := install ''a'' 0 (as_en s2), as_loaded := remove1 (''a'', 0) (as_loaded s2)\<rparr>)"
    by (rule auto_step.enter) (simp add: c)
  let ?s3 = "s2\<lparr>as_en := install ''a'' 0 (as_en s2), as_loaded := remove1 (''a'', 0) (as_loaded s2)\<rparr>"
  have d: "as_loading ?s3 = []" "as_loaded ?s3 = []" "en_vms (as_en ?s3) = [(''a'', 0)]" "en_pool (as_en ?s3) = [demo_vm\<lparr>vm_loop := True\<rparr>]"
    by (simp_all add: c install_def put_vm_def set_vm_def)
  then have "serial (table_of ?s3)" by (simp add: serial_def in_flight_def)
  then show ?thesis using serial_reach.step[OF r e] d by blast
qed

theorem engine_refines_table_witness:
  "\<exists>(s :: nat auto_sys) s'. auto_step demo_auto s s' \<and> table_step (table_of s) (table_of s') \<and> tb_vms (table_of s) = [(''a'', 0)] \<and> tb_vms (table_of s') = []"
proof -
  fix c
  obtain s where s: "serial_reach demo_auto c \<lparr>mg_dir = ''scripts'', mg_files = []\<rparr> s" "en_vms (as_en s) = [(''a'', 0)]" using demo_running by blast
  note t = auto_step.stop_script[of demo_auto s "''a''"]
  show ?thesis using engine_refines_table[OF serial_auto[OF s(1)] t] t s(2)
    by (intro exI[of _ s] exI[of _ "s\<lparr>as_en := StopScript ''a'' (as_en s)\<rparr>"]) (simp add: StopScript_def stopScript_def)
qed

theorem engine_invariant_witness:
  "\<exists>s :: nat auto_sys. en_vms (as_en s) = [(''a'', 0)] \<and> vm_loop (en_pool (as_en s) ! 0) \<and> \<not> vm_cancelled (en_pool (as_en s) ! 0) \<and> en_pool (as_en s) = [demo_vm\<lparr>vm_loop := True\<rparr>]"
proof -
  fix c
  obtain s where s: "serial_reach demo_auto c \<lparr>mg_dir = ''scripts'', mg_files = []\<rparr> s" "en_vms (as_en s) = [(''a'', 0)]"
    "en_pool (as_en s) = [demo_vm\<lparr>vm_loop := True\<rparr>]" using demo_running by blast
  then show ?thesis using engine_invariant[OF serial_auto[OF s(1)]] by (intro exI[of _ s]) simp
qed

definition demo_update :: Event where
  "demo_update = \<lparr>ev_Type = ''property_update'', ev_Data = GMap [(''ieee'', GStr ''0A''), (''property'', GStr ''state'')]\<rparr>"

theorem event_routing_witness:
  "\<exists>e :: nat engine. map vm_commands (en_pool (dispatchEvent (\<lambda>_ _. False) demo_update e)) = [[Handle 7 demo_update]]"
proof -
  fix c
  obtain s where s: "serial_reach demo_auto c \<lparr>mg_dir = ''scripts'', mg_files = []\<rparr> s" "en_vms (as_en s) = [(''a'', 0)]"
    "en_pool (as_en s) = [demo_vm\<lparr>vm_loop := True\<rparr>]" using demo_running by blast
  let ?e = "dispatchEvent (\<lambda>_ _. False) demo_update (as_en s)"
  have l: "length (en_pool ?e) = 1" "vm_commands (en_pool ?e ! 0) = [Handle 7 demo_update]"
    using event_routing[OF serial_auto[OF s(1)] refl, of "\<lambda>_ _. False" demo_update] s(2,3)
    by (simp_all add: demo_vm_def new_vm_def demo_update_def matchesHandler_def Let_def)
  then obtain vm where "en_pool ?e = [vm]" by (auto simp: length_Suc_conv)
  then show ?thesis using l(2) by (intro exI[of _ "as_en s"]) simp
qed

theorem reload_race_witness:
  "\<exists>s :: nat auto_sys. en_vms (as_en s) = [(''a'', 1)] \<and> vm_loop (en_pool (as_en s) ! 0) \<and> \<not> vm_cancelled (en_pool (as_en s) ! 0)"
proof -
  fix c
  let ?m = "\<lparr>mg_dir = ''scripts'', mg_files = []\<rparr>"
  obtain s where s: "serial_reach demo_auto c ?m s" "en_manager (as_en s) = demo_files ''on''" "en_vms (as_en s) = []"
     "as_loading s = []" "as_loaded s = []" "en_pool (as_en s) = []" using demo_start by blast
  obtain s1 s2 where c: "auto_step demo_auto s s1" "auto_step demo_auto s1 s2" "en_manager (as_en s2) = demo_files ''on''" "en_vms (as_en s2) = []"
     "as_loading s2 = []" "as_loaded s2 = [(''a'', 0)]" "en_pool (as_en s2) = [demo_vm]" using demo_cycle[OF s(2-4)] s(5,6) by auto
  obtain s3 s4 where d: "auto_step demo_auto s2 s3" "auto_step demo_auto s3 s4" "en_vms (as_en s4) = []"
     "as_loaded s4 = [(''a'', 1), (''a'', 0)]" "en_pool (as_en s4) = [demo_vm, demo_vm]" using demo_cycle[OF c(3-5)] c(6,7) by auto
  note r4 = auto_reach.step[OF auto_reach.step[OF auto_reach.step[OF auto_reach.step[OF serial_auto[OF s(1)] c(1)] c(2)] d(1)] d(2)]
  let ?s5 = "s4\<lparr>as_en := install ''a'' 0 (as_en s4), as_loaded := remove1 (''a'', 0) (as_loaded s4)\<rparr>"
  have e: "auto_step demo_auto s4 ?s5" by (rule auto_step.enter) (simp add: d)
  note r5 = auto_reach.step[OF r4 e]
  have f: "(''a'', 1) \<in> set (as_loaded ?s5)" "(''a'', 0) \<in> set (en_vms (as_en ?s5))" by (simp_all add: d install_def put_vm_def)
  show ?thesis using reload_race[OF r5 f rtranclp.rtrancl_refl]
    by (intro exI[of _ "?s5\<lparr>as_en := install ''a'' 1 (as_en ?s5), as_loaded := remove1 (''a'', 1) (as_loaded ?s5)\<rparr>"]) (simp add: d install_def put_vm_def)
qed

theorem stop_ends_witness:
  "\<exists>(e :: nat engine) s'. en_vms e = [(''a'', 0)] \<and> (auto_step demo_auto)\<^sup>*\<^sup>* (still (stop_all e)) s' \<and> vmWg (as_en s') = 0"
proof -
  fix c
  let ?m = "\<lparr>mg_dir = ''scripts'', mg_files = []\<rparr>"
  obtain s where s: "serial_reach demo_auto c ?m s" "en_vms (as_en s) = [(''a'', 0)]" "as_loading s = []" "as_loaded s = []"
    "en_pool (as_en s) = [demo_vm\<lparr>vm_loop := True\<rparr>]" using demo_running by blast
  have "distinct (map fst (mg_files ?m))" "\<forall>vm \<in> set (en_pool (as_en s)). \<not> vm_stuck vm" by (simp_all add: s(5) demo_vm_def new_vm_def)
  then obtain s' where "(auto_step demo_auto)\<^sup>*\<^sup>* (s\<lparr>as_en := stop_all (as_en s)\<rparr>) s'" "vmWg (as_en s') = 0"
    using stop_ends[OF s(1) _ s(3,4)] by blast
  moreover have "s\<lparr>as_en := stop_all (as_en s)\<rparr> = still (stop_all (as_en s))" using s(3,4) by simp
  ultimately show ?thesis using s(2) by metis
qed

end
