(* ===== verification/Web_Server.thy ===== *)
theory Web_Server
  imports Web_View Automation_Engine_Theorems
begin

text \<open>
  The HTTP server: \<^verbatim>\<open>internal/web/server.go\<close>, \<^verbatim>\<open>handlers_api.go\<close> and \<^verbatim>\<open>handlers_automation.go\<close>. A request is a step of the
  program: the handler's answer and the state that it leaves. The patterns of \<^verbatim>\<open>net/http\<close>'s mux are matched as that package
  documents it; file serving, the rendering of a page and the clock are arguments.
\<close>

section \<open>Requests and responses\<close>

text \<open>The path is the one of the request line, with its escapes. A header that is not set is empty. The body is the JSON
  value that it starts with, if it has one and is not larger than a megabyte.\<close>

record Request =
  rq_Method :: string
  rq_Path :: string
  rq_Origin :: string
  rq_Key :: string
  rq_Body :: "jval option"

datatype page =
    IndexPage "DeviceView list" | DevicesPage "DeviceView list"
  | DetailPage string DeviceView Device "EndpointInfo list" "epMeta list"
  | NetworkPage gval nat | AutomationsPage "Script list"

text \<open>A page is rendered with the version and, if there is one, the API key in its data.\<close>

datatype wbody =
    NoBody | PlainText string | FileContent string | WebSocket
  | JMap "(string \<times> string) list" | JGval gval | JDevices "Device list" | JDevice Device | JResults "AttributeResult list"
  | JClusters "ClusterDef list" | JScripts "Script list" | JScript Script | JRun RunResult
  | Html page string "string option"

record Response =
  rs_Status :: nat
  rs_Headers :: "(string \<times> string) list"
  rs_Body :: wbody

record Server =
  sv_apiKey :: string
  sv_allowedOrigins :: "string list"
  sv_devicesDir :: string
  sv_auto :: bool        \<comment> \<open>\<^verbatim>\<open>scriptMgr\<close> and \<^verbatim>\<open>autoEngine\<close> are set\<close>
  sv_version :: string

type_synonym ServerOption = "Server \<Rightarrow> Server"

definition WithAPIKey :: "string \<Rightarrow> ServerOption" where "WithAPIKey key s = s\<lparr>sv_apiKey := key\<rparr>"
definition WithAllowedOrigins :: "string list \<Rightarrow> ServerOption" where "WithAllowedOrigins os s = s\<lparr>sv_allowedOrigins := os\<rparr>"
definition WithDevicesDir :: "string \<Rightarrow> ServerOption" where "WithDevicesDir d s = s\<lparr>sv_devicesDir := d\<rparr>"
definition WithAutomation :: ServerOption where "WithAutomation s = s\<lparr>sv_auto := True\<rparr>"
definition WithVersion :: "string \<Rightarrow> ServerOption" where "WithVersion v s = s\<lparr>sv_version := v\<rparr>"

definition NewServer :: "ServerOption list \<Rightarrow> Server" where
  "NewServer opts = fold (\<lambda>opt s. opt s) opts
     \<lparr>sv_apiKey = [], sv_allowedOrigins = [], sv_devicesDir = [], sv_auto = False, sv_version = []\<rparr>"

text \<open>The rest of the program: the coordinator and the scripts are in the engine.\<close>

record 'l web =
  wb_engine :: "'l engine"
  wb_photos :: "(string \<times> string) list"

record 'l web_env =
  we_auto :: "'l auto_env"
  we_dm :: dm_env
  we_cfg :: Config
  we_ncp :: NCPConfig
  we_file :: "string \<Rightarrow> nat \<times> string"       \<comment> \<open>the file server's answer for a path\<close>
  we_image :: "string \<Rightarrow> bool"               \<comment> \<open>an image file exists\<close>
  we_accept :: "string list \<Rightarrow> Request \<Rightarrow> (nat \<times> string) option"   \<comment> \<open>the refusal of a WebSocket upgrade, by the allowed origins\<close>
  we_attrs :: "bytes option"                 \<comment> \<open>the answer to a read of attributes\<close>
  we_order :: "u16 list"                     \<comment> \<open>the order in which the runtime visits the address index\<close>
  we_steps :: nat                            \<comment> \<open>interpreter steps before the end of a context\<close>
  we_renders :: "wbody \<Rightarrow> bool"              \<comment> \<open>the page's template is there and executes on these data without an error\<close>

definition wb_coord :: "'l web \<Rightarrow> coord" where
  "wb_coord w = lw_coord (en_world (wb_engine w))"

definition set_coord :: "coord \<Rightarrow> 'l web \<Rightarrow> 'l web" where
  "set_coord c w = w\<lparr>wb_engine := (wb_engine w)\<lparr>en_world := (en_world (wb_engine w))\<lparr>lw_coord := c\<rparr>\<rparr>\<rparr>"

abbreviation wb_store :: "'l web \<Rightarrow> bolt" where
  "wb_store w \<equiv> dm_store (co_dm (wb_coord w))"

section \<open>Paths\<close>

definition hex_value :: "char \<Rightarrow> nat option" where
  "hex_value c =
     (let n = (of_char c :: nat) in
      if 48 \<le> n \<and> n \<le> 57 then Some (n - 48) else if 97 \<le> n \<and> n \<le> 102 then Some (n - 87)
      else if 65 \<le> n \<and> n \<le> 70 then Some (n - 55) else None)"

text \<open>\<^verbatim>\<open>url.PathUnescape\<close>; the path of a parsed request has no bad escape.\<close>

fun unescape :: "string \<Rightarrow> string option" where
  "unescape [] = Some []"
| "unescape (c # cs) =
     (if c = CHR ''%''
      then (case cs of
              a # b # r \<Rightarrow> (case (hex_value a, hex_value b) of (Some x, Some y) \<Rightarrow> map_option ((#) (char_of (16 * x + y))) (unescape r) | _ \<Rightarrow> None)
            | _ \<Rightarrow> None)
      else map_option ((#) c) (unescape cs))"

definition path_unescape :: "string \<Rightarrow> string" where
  "path_unescape s = (case unescape s of Some u \<Rightarrow> u | None \<Rightarrow> s)"

text \<open>\<^verbatim>\<open>r.URL.Path\<close>.\<close>

definition url_path :: "Request \<Rightarrow> string" where
  "url_path rq = path_unescape (rq_Path rq)"

fun split_path :: "string \<Rightarrow> string list" where
  "split_path [] = [[]]"
| "split_path (c # cs) =
     (if c = CHR ''/'' then [] # split_path cs
      else (case split_path cs of [] \<Rightarrow> [[c]] | l # ls \<Rightarrow> (c # l) # ls))"

text \<open>The segments after the first slash; a path that ends in a slash has an empty last segment.\<close>

definition path_segments :: "string \<Rightarrow> string list" where
  "path_segments p = tl (split_path p)"

text \<open>A clean path is what \<^verbatim>\<open>cleanPath\<close> leaves as it is; for others the mux answers with a redirect.\<close>

definition clean_path :: "string \<Rightarrow> bool" where
  "clean_path p \<longleftrightarrow> HasPrefix ''/'' p \<and> list_all (\<lambda>s. s \<noteq> ''.'' \<and> s \<noteq> ''..'') (path_segments p)
     \<and> list_all (\<lambda>s. s \<noteq> []) (butlast (path_segments p))"

section \<open>Routes\<close>

text \<open>A literal, \<^verbatim>\<open>{x}\<close>, a slash at the end, \<^verbatim>\<open>{$}\<close>. A segment that is an escaped slash counts as the end of the path.\<close>

datatype seg = Lit string | Wild | Rest | End

fun match_segs :: "seg list \<Rightarrow> string list \<Rightarrow> string list option" where
  "match_segs [] [] = Some []"
| "match_segs [Rest] (s # ss) = Some []"
| "match_segs [End] [s] = (if s = [] \<or> path_unescape s = ''/'' then Some [] else None)"
| "match_segs (Lit l # ps) (s # ss) = (if path_unescape s = l then match_segs ps ss else None)"
| "match_segs (Wild # ps) (s # ss) = (if s \<noteq> [] \<and> path_unescape s \<noteq> ''/'' then map_option ((#) (path_unescape s)) (match_segs ps ss) else None)"
| "match_segs _ _ = None"

datatype route =
    StaticFiles | DeviceImages
  | Index | DevicesHtml | DeviceHtml | NetworkHtml | AutomationsHtml
  | ListDevicesApi | GetDeviceApi | RenameDeviceApi | DeleteDeviceApi | ReadAttributesApi | WriteAttributeApi | SendCommandApi
  | NetworkInfoApi | PermitJoinApi | ListClustersApi | VersionApi
  | ListAutomationsApi | GetAutomationApi | CreateAutomationApi | UpdateAutomationApi | DeleteAutomationApi
  | ToggleAutomationApi | RunAutomationApi | WsUpgrade

definition routes :: "Server \<Rightarrow> (string \<times> seg list \<times> route) list" where
  "routes s =
     [(''GET'', [Lit ''static'', Rest], StaticFiles)]
     @ (if sv_devicesDir s \<noteq> [] then [(''GET'', [Lit ''devices'', Lit ''img'', Rest], DeviceImages)] else [])
     @ [(''GET'', [End], Index),
        (''GET'', [Lit ''devices''], DevicesHtml),
        (''GET'', [Lit ''devices'', Wild], DeviceHtml),
        (''GET'', [Lit ''network''], NetworkHtml),
        (''GET'', [Lit ''api'', Lit ''devices''], ListDevicesApi),
        (''GET'', [Lit ''api'', Lit ''devices'', Wild], GetDeviceApi),
        (''PATCH'', [Lit ''api'', Lit ''devices'', Wild], RenameDeviceApi),
        (''DELETE'', [Lit ''api'', Lit ''devices'', Wild], DeleteDeviceApi),
        (''POST'', [Lit ''api'', Lit ''devices'', Wild, Lit ''read''], ReadAttributesApi),
        (''POST'', [Lit ''api'', Lit ''devices'', Wild, Lit ''write''], WriteAttributeApi),
        (''POST'', [Lit ''api'', Lit ''devices'', Wild, Lit ''command''], SendCommandApi),
        (''GET'', [Lit ''api'', Lit ''network''], NetworkInfoApi),
        (''POST'', [Lit ''api'', Lit ''network'', Lit ''permit-join''], PermitJoinApi),
        (''GET'', [Lit ''api'', Lit ''clusters''], ListClustersApi),
        (''GET'', [Lit ''api'', Lit ''version''], VersionApi),
        (''GET'', [Lit ''automations''], AutomationsHtml),
        (''GET'', [Lit ''api'', Lit ''automations''], ListAutomationsApi),
        (''GET'', [Lit ''api'', Lit ''automations'', Wild], GetAutomationApi),
        (''POST'', [Lit ''api'', Lit ''automations''], CreateAutomationApi),
        (''PUT'', [Lit ''api'', Lit ''automations'', Wild], UpdateAutomationApi),
        (''DELETE'', [Lit ''api'', Lit ''automations'', Wild], DeleteAutomationApi),
        (''POST'', [Lit ''api'', Lit ''automations'', Wild, Lit ''toggle''], ToggleAutomationApi),
        (''POST'', [Lit ''api'', Lit ''automations'', Wild, Lit ''run''], RunAutomationApi),
        (''GET'', [Lit ''ws''], WsUpgrade)]"

text \<open>A \<^verbatim>\<open>GET\<close> pattern takes \<^verbatim>\<open>HEAD\<close> too.\<close>

definition method_matches :: "string \<Rightarrow> string \<Rightarrow> bool" where
  "method_matches pm m \<longleftrightarrow> m = pm \<or> (pm = ''GET'' \<and> m = ''HEAD'')"

definition match_route :: "Server \<Rightarrow> string \<Rightarrow> string list \<Rightarrow> (route \<times> string list) option" where
  "match_route s m segs =
     (case List.find (\<lambda>(pm, ps, h). method_matches pm m \<and> match_segs ps segs \<noteq> None) (routes s) of
        None \<Rightarrow> None
      | Some (pm, ps, h) \<Rightarrow> map_option (Pair h) (match_segs ps segs))"

datatype mux_outcome = Found route "string list" | Redirect string | NotAllowed | NotFound

text \<open>\<^verbatim>\<open>findHandler\<close>: a path that is not clean is redirected, and so is one that a pattern has with a slash at its end.\<close>

definition find_handler :: "Server \<Rightarrow> string \<Rightarrow> string \<Rightarrow> mux_outcome" where
  "find_handler s m p =
     (if m \<noteq> ''CONNECT'' \<and> \<not> clean_path p then Redirect p
      else case match_route s m (path_segments p) of
        Some (h, vals) \<Rightarrow> Found h vals
      | None \<Rightarrow>
          if m \<noteq> ''CONNECT'' \<and> \<not> HasSuffix ''/'' p \<and> match_route s m (path_segments (p @ ''/'')) \<noteq> None then Redirect (p @ ''/'')
          else if List.find (\<lambda>(pm, ps, h). match_segs ps (path_segments p) \<noteq> None) (routes s) \<noteq> None then NotAllowed
          else NotFound)"

section \<open>Answers\<close>

text \<open>\<^verbatim>\<open>writeJSON\<close> sends the status before it encodes: nothing follows when the value does not fit into JSON.\<close>

definition encodable :: "js32 \<Rightarrow> wbody \<Rightarrow> bool" where
  "encodable js b = (case b of
       JResults rs \<Rightarrow> list_all (\<lambda>r. case res_Outcome r of AttrValue v \<Rightarrow> json_value js v \<noteq> None | _ \<Rightarrow> True) rs
     | JGval v \<Rightarrow> json_value js v \<noteq> None
     | JDevices ds \<Rightarrow> list_all (\<lambda>d. json_device js d \<noteq> None) ds
     | JDevice d \<Rightarrow> json_device js d \<noteq> None
     | _ \<Rightarrow> True)"

definition writeJSON :: "js32 \<Rightarrow> nat \<Rightarrow> wbody \<Rightarrow> Response" where
  "writeJSON js status v =
     \<lparr>rs_Status = status, rs_Headers = [(''Content-Type'', ''application/json'')], rs_Body = (if encodable js v then v else NoBody)\<rparr>"

definition http_Error :: "string \<Rightarrow> nat \<Rightarrow> Response" where
  "http_Error msg status = \<lparr>rs_Status = status, rs_Headers = [(''Content-Type'', ''text/plain; charset=utf-8'')], rs_Body = PlainText msg\<rparr>"

definition json_error :: "nat \<Rightarrow> string \<Rightarrow> Response" where
  "json_error status msg = writeJSON (\<lambda>_. 0) status (JMap [(''error'', msg)])"

definition internal_error :: Response where
  "internal_error = json_error 500 ''internal server error''"

definition bad_body :: Response where
  "bad_body = json_error 400 ''invalid request body''"

definition status_ok :: "wbody" where
  "status_ok = JMap [(''status'', ''ok'')]"

text \<open>A page's data are a map, so the version and the API key go into it. The page is rendered into a buffer, so nothing of it is
  sent when its template fails.\<close>

definition renderTemplate :: "'l web_env \<Rightarrow> Server \<Rightarrow> page \<Rightarrow> Response" where
  "renderTemplate env s p =
     (let body = Html p (sv_version s) (if sv_apiKey s \<noteq> [] then Some (sv_apiKey s) else None) in
      if we_renders env body
      then \<lparr>rs_Status = 200, rs_Headers = [(''Content-Type'', ''text/html; charset=utf-8'')], rs_Body = body\<rparr>
      else http_Error ''Internal Server Error'' 500)"

definition store_failed :: "store_error \<Rightarrow> Response" where
  "store_failed e = (if e = ErrNotFound then json_error 404 ''device not found'' else internal_error)"

text \<open>A handler's answer and state; \<open>None\<close> when it does not return.\<close>

type_synonym 'l handler = "'l web_env \<Rightarrow> Server \<Rightarrow> string list \<Rightarrow> Request \<Rightarrow> 'l web \<Rightarrow> (Response \<times> 'l web) option"

abbreviation path_value :: "string list \<Rightarrow> string" where "path_value vals \<equiv> (case vals of v # _ \<Rightarrow> v | [] \<Rightarrow> [])"

section \<open>Pages\<close>

definition views_of :: "'l web_env \<Rightarrow> Server \<Rightarrow> Device list \<Rightarrow> 'l web \<Rightarrow> DeviceView list \<times> 'l web" where
  "views_of env s ds w =
     (let (vs, cache) = enrich_all (e_fp (we_dm env)) (e_db (we_dm env)) (sv_devicesDir s) (we_image env) ds (wb_photos w) in (vs, w\<lparr>wb_photos := cache\<rparr>))"

definition handleIndex :: "'l handler" where
  "handleIndex env s vals rq w =
     (case ListDevices (wb_store w) of
        Inl e \<Rightarrow> Some (http_Error ''Internal Server Error'' 500, w)
      | Inr ds \<Rightarrow> (let (vs, w1) = views_of env s ds w in Some (renderTemplate env s (IndexPage vs), w1)))"

definition handleDevicesPage :: "'l handler" where
  "handleDevicesPage env s vals rq w =
     (case ListDevices (wb_store w) of
        Inl e \<Rightarrow> Some (http_Error ''Internal Server Error'' 500, w)
      | Inr ds \<Rightarrow> (let (vs, w1) = views_of env s ds w in Some (renderTemplate env s (DevicesPage vs), w1)))"

definition handleDeviceDetailPage :: "'l handler" where
  "handleDeviceDetailPage env s vals rq w =
     (case GetDevice (path_value vals) (wb_store w) of
        Inl e \<Rightarrow> Some (http_Error ''Device not found'' 404, w)
      | Inr dev \<Rightarrow>
          let reg = e_registry (we_dm env); (vs, w1) = views_of env s [dev] w in
          Some (renderTemplate env s (DetailPage (page_title dev) (vs ! 0) dev (map (endpoint_info reg) (dev_Endpoints dev)) (map (endpoint_meta reg) (dev_Endpoints dev))), w1))"

definition handleNetworkPage :: "'l handler" where
  "handleNetworkPage env s vals rq w =
     Some (renderTemplate env s (NetworkPage (Coord_NetworkInfo (we_cfg env) (we_ncp env) (wb_coord w))
       (case ListDevices (wb_store w) of Inl e \<Rightarrow> 0 | Inr ds \<Rightarrow> length ds)), w)"

definition handleAutomationsPage :: "'l handler" where
  "handleAutomationsPage env s vals rq w =
     Some (renderTemplate env s (AutomationsPage
       (if sv_auto s then (case Manager_List (ae_js (we_auto env)) (ae_os (we_auto env)) (en_manager (wb_engine w)) of Inl e \<Rightarrow> [] | Inr ss \<Rightarrow> ss) else [])), w)"

section \<open>The API for devices\<close>

definition handleAPIListDevices :: "'l handler" where
  "handleAPIListDevices env s vals rq w =
     (case ListDevices (wb_store w) of
        Inl e \<Rightarrow> Some (internal_error, w)
      | Inr ds \<Rightarrow> Some (writeJSON (e_js (we_dm env)) 200 (JDevices ds), w))"

definition handleAPIGetDevice :: "'l handler" where
  "handleAPIGetDevice env s vals rq w =
     (case GetDevice (path_value vals) (wb_store w) of
        Inl e \<Rightarrow> Some (store_failed e, w)
      | Inr dev \<Rightarrow> Some (writeJSON (e_js (we_dm env)) 200 (JDevice dev), w))"

record renameDeviceRequest =
  rn_FriendlyName :: string

definition rename_fields :: "(string \<times> renameDeviceRequest decoder) list" where
  "rename_fields = [(''friendly_name'', dec_at rn_FriendlyName rn_FriendlyName_update dec_str)]"

definition with_store :: "bolt \<Rightarrow> 'l web \<Rightarrow> 'l web" where
  "with_store st w = set_coord ((wb_coord w)\<lparr>co_dm := (co_dm (wb_coord w))\<lparr>dm_store := st\<rparr>\<rparr>) w"

definition handleAPIRenameDevice :: "'l handler" where
  "handleAPIRenameDevice env s vals rq w =
     (case Decode rename_fields (rq_Body rq) \<lparr>rn_FriendlyName = []\<rparr> of
        None \<Rightarrow> Some (bad_body, w)
      | Some req \<Rightarrow>
          (case UpdateDevice (e_js (we_dm env)) (path_value vals) (\<lambda>d. Some (d\<lparr>dev_FriendlyName := rn_FriendlyName req\<rparr>)) (wb_store w) of
             (Inl e, st) \<Rightarrow> Some (store_failed e, with_store st w)
           | (Inr u, st) \<Rightarrow> Some (writeJSON (e_js (we_dm env)) 200 (JMap [(''status'', ''ok''), (''friendly_name'', rn_FriendlyName req)]), with_store st w)))"

definition handleAPIDeleteDevice :: "'l handler" where
  "handleAPIDeleteDevice env s vals rq w =
     (let c = wb_coord w; (r, d, l) = RemoveDevice (we_order env) (path_value vals) (co_dm c) (co_link c);
          w1 = set_coord (c\<lparr>co_dm := d, co_link := l\<rparr>) w
      in case r of
           Inl e \<Rightarrow> Some (store_failed e, w1)
         | Inr u \<Rightarrow> Some (writeJSON (e_js (we_dm env)) 200 status_ok, w1))"

record readAttributesRequest =
  ra_Endpoint :: byte
  ra_ClusterID :: u16
  ra_AttrIDs :: "u16 list"

definition read_fields :: "(string \<times> readAttributesRequest decoder) list" where
  "read_fields = [(''endpoint'', dec_at ra_Endpoint ra_Endpoint_update dec_uint), (''cluster_id'', dec_at ra_ClusterID ra_ClusterID_update dec_uint),
     (''attr_ids'', dec_at ra_AttrIDs ra_AttrIDs_update (dec_list dec_uint 0))]"

definition handleAPIReadAttributes :: "'l handler" where
  "handleAPIReadAttributes env s vals rq w =
     (case GetDevice (path_value vals) (wb_store w) of
        Inl e \<Rightarrow> Some (store_failed e, w)
      | Inr dev \<Rightarrow>
          (case Decode read_fields (rq_Body rq) \<lparr>ra_Endpoint = 0, ra_ClusterID = 0, ra_AttrIDs = []\<rparr> of
             None \<Rightarrow> Some (bad_body, w)
           | Some req \<Rightarrow>
               if ra_AttrIDs req = [] then Some (json_error 400 ''attr_ids must not be empty'', w)
               else if 50 < length (ra_AttrIDs req) then Some (json_error 400 ''attr_ids limited to 50'', w)
               else (case Coord_ReadAttributes (e_registry (we_dm env)) (we_attrs env) (dev_ShortAddress dev) (ra_Endpoint req)
                            (ra_ClusterID req) (ra_AttrIDs req) (wb_coord w) of
                       (Inl e, c) \<Rightarrow> Some (internal_error, set_coord c w)
                     | (Inr rs, c) \<Rightarrow> Some (writeJSON (e_js (we_dm env)) 200 (JResults rs), set_coord c w))))"

record writeAttributeRequest =
  wa_Endpoint :: byte
  wa_ClusterID :: u16
  wa_AttrID :: u16
  wa_DataType :: byte
  wa_Value :: gval

definition write_fields :: "(string \<times> writeAttributeRequest decoder) list" where
  "write_fields = [(''endpoint'', dec_at wa_Endpoint wa_Endpoint_update dec_uint), (''cluster_id'', dec_at wa_ClusterID wa_ClusterID_update dec_uint),
     (''attr_id'', dec_at wa_AttrID wa_AttrID_update dec_uint), (''data_type'', dec_at wa_DataType wa_DataType_update dec_uint),
     (''value'', dec_at wa_Value wa_Value_update dec_any)]"

definition handleAPIWriteAttribute :: "'l handler" where
  "handleAPIWriteAttribute env s vals rq w =
     (case GetDevice (path_value vals) (wb_store w) of
        Inl e \<Rightarrow> Some (store_failed e, w)
      | Inr dev \<Rightarrow>
          (case Decode write_fields (rq_Body rq) \<lparr>wa_Endpoint = 0, wa_ClusterID = 0, wa_AttrID = 0, wa_DataType = 0, wa_Value = GNil\<rparr> of
             None \<Rightarrow> Some (bad_body, w)
           | Some req \<Rightarrow>
               (case WriteAttribute (e_fp (we_dm env)) (dev_ShortAddress dev) (wa_Endpoint req) (wa_ClusterID req) (wa_AttrID req)
                       (wa_DataType req) (wa_Value req) (wb_coord w) of
                  (Inl e, c) \<Rightarrow> Some (internal_error, set_coord c w)
                | (Inr u, c) \<Rightarrow> Some (writeJSON (e_js (we_dm env)) 200 status_ok, set_coord c w))))"

record sendCommandRequest =
  sr_Endpoint :: byte
  sr_ClusterID :: u16
  sr_CommandID :: byte
  sr_Payload :: bytes

definition command_fields :: "(string \<times> sendCommandRequest decoder) list" where
  "command_fields = [(''endpoint'', dec_at sr_Endpoint sr_Endpoint_update dec_uint), (''cluster_id'', dec_at sr_ClusterID sr_ClusterID_update dec_uint),
     (''command_id'', dec_at sr_CommandID sr_CommandID_update dec_uint), (''payload'', dec_at sr_Payload sr_Payload_update dec_bytes)]"

definition handleAPISendCommand :: "'l handler" where
  "handleAPISendCommand env s vals rq w =
     (case GetDevice (path_value vals) (wb_store w) of
        Inl e \<Rightarrow> Some (store_failed e, w)
      | Inr dev \<Rightarrow>
          (case Decode command_fields (rq_Body rq) \<lparr>sr_Endpoint = 0, sr_ClusterID = 0, sr_CommandID = 0, sr_Payload = []\<rparr> of
             None \<Rightarrow> Some (bad_body, w)
           | Some req \<Rightarrow>
               if 128 < length (sr_Payload req) then Some (json_error 400 ''payload limited to 128 bytes'', w)
               else (case SendClusterCommand (dev_ShortAddress dev) (sr_Endpoint req) (sr_ClusterID req) (sr_CommandID req) (sr_Payload req) (wb_coord w) of
                       (Inl e, c) \<Rightarrow> Some (internal_error, set_coord c w)
                     | (Inr f, c) \<Rightarrow> Some (writeJSON (e_js (we_dm env)) 200 status_ok, set_coord c w))))"

definition handleAPINetworkInfo :: "'l handler" where
  "handleAPINetworkInfo env s vals rq w =
     Some (writeJSON (e_js (we_dm env)) 200 (JGval (Coord_NetworkInfo (we_cfg env) (we_ncp env) (wb_coord w))), w)"

record permitJoinRequest =
  pj_Duration :: byte

definition permit_fields :: "(string \<times> permitJoinRequest decoder) list" where
  "permit_fields = [(''duration'', dec_at pj_Duration pj_Duration_update dec_uint)]"

definition handleAPIPermitJoin :: "'l handler" where
  "handleAPIPermitJoin env s vals rq w =
     (case Decode permit_fields (rq_Body rq) \<lparr>pj_Duration = 0\<rparr> of
        None \<Rightarrow> Some (bad_body, w)
      | Some req \<Rightarrow>
          (case Coord_PermitJoin (pj_Duration req) (wb_coord w) of
             (Inl e, c) \<Rightarrow> Some (internal_error, set_coord c w)
           | (Inr u, c) \<Rightarrow> Some (writeJSON (e_js (we_dm env)) 200 (JMap [(''status'', ''ok''), (''duration'', dec_nat (unat (pj_Duration req)))]), set_coord c w)))"

text \<open>\<^verbatim>\<open>All\<close> of the registry: Go visits a map in any order, here it is that of the ids.\<close>

definition Registry_All :: "registry \<Rightarrow> u16 list \<Rightarrow> ClusterDef list" where
  "Registry_All reg ids = List.map_filter (Registry_Get reg) ids"

definition handleAPIListClusters :: "'l handler" where
  "handleAPIListClusters env s vals rq w =
     Some (writeJSON (e_js (we_dm env)) 200 (JClusters (Registry_All (e_registry (we_dm env)) (map word_of_nat [0..<65536]))), w)"

definition handleAPIVersion :: "'l handler" where
  "handleAPIVersion env s vals rq w = Some (writeJSON (e_js (we_dm env)) 200 (JMap [(''version'', sv_version s)]), w)"

section \<open>The API for automations\<close>

record saveAutomationRequest =
  sa_Name :: string
  sa_Description :: string
  sa_LuaCode :: string
  sa_BlocklyXML :: string
  sa_Enabled :: bool

definition save_fields :: "(string \<times> saveAutomationRequest decoder) list" where
  "save_fields = [(''name'', dec_at sa_Name sa_Name_update dec_str), (''description'', dec_at sa_Description sa_Description_update dec_str),
     (''lua_code'', dec_at sa_LuaCode sa_LuaCode_update dec_str), (''blockly_xml'', dec_at sa_BlocklyXML sa_BlocklyXML_update dec_str),
     (''enabled'', dec_at sa_Enabled sa_Enabled_update dec_bool)]"

definition no_save :: saveAutomationRequest where
  "no_save = \<lparr>sa_Name = [], sa_Description = [], sa_LuaCode = [], sa_BlocklyXML = [], sa_Enabled = False\<rparr>"

definition wb_manager :: "'l web \<Rightarrow> Manager" where
  "wb_manager w = en_manager (wb_engine w)"

definition set_manager :: "Manager \<Rightarrow> 'l web \<Rightarrow> 'l web" where
  "set_manager m w = w\<lparr>wb_engine := (wb_engine w)\<lparr>en_manager := m\<rparr>\<rparr>"

abbreviation get_script :: "'l web_env \<Rightarrow> string \<Rightarrow> 'l web \<Rightarrow> script_error + Script" where
  "get_script env i w \<equiv> Manager_Get (ae_js (we_auto env)) (ae_os (we_auto env)) i (wb_manager w)"

definition no_automations :: Response where
  "no_automations = json_error 500 ''automations not available''"

definition script_not_found :: Response where
  "script_not_found = json_error 404 ''script not found''"

definition handleAPIListAutomations :: "'l handler" where
  "handleAPIListAutomations env s vals rq w =
     Some (if \<not> sv_auto s then writeJSON (e_js (we_dm env)) 200 (JScripts [])
       else (case Manager_List (ae_js (we_auto env)) (ae_os (we_auto env)) (wb_manager w) of
          Inl e \<Rightarrow> internal_error
        | Inr ss \<Rightarrow> writeJSON (e_js (we_dm env)) 200 (JScripts ss)), w)"

definition handleAPIGetAutomation :: "'l handler" where
  "handleAPIGetAutomation env s vals rq w =
     Some (if \<not> sv_auto s then json_error 404 ''not found''
       else (case get_script env (path_value vals) w of
          Inl e \<Rightarrow> script_not_found
        | Inr sc \<Rightarrow> writeJSON (e_js (we_dm env)) 200 (JScript sc)), w)"

text \<open>A reload's error is only logged.\<close>

definition reload_web :: "'l web_env \<Rightarrow> string \<Rightarrow> 'l web \<Rightarrow> 'l web option" where
  "reload_web env i w = map_option (\<lambda>(err, e). w\<lparr>wb_engine := e\<rparr>) (ReloadScript (we_auto env) i (wb_engine w))"

definition handleAPICreateAutomation :: "'l handler" where
  "handleAPICreateAutomation env s vals rq w =
     (if \<not> sv_auto s then Some (no_automations, w)
      else case Decode save_fields (rq_Body rq) no_save of
        None \<Rightarrow> Some (bad_body, w)
      | Some req \<Rightarrow>
          if sa_Name req = [] then Some (json_error 400 ''name is required'', w)
          else
            let script = \<lparr>sc_ID = [], sc_Meta = \<lparr>sm_Name = sa_Name req, sm_Description = sa_Description req, sm_Enabled = sa_Enabled req\<rparr>,
                          sc_LuaCode = sa_LuaCode req, sc_BlocklyXML = sa_BlocklyXML req, sc_FilePath = []\<rparr>;
                (r, m) = Manager_Save (ae_os (we_auto env)) script (wb_manager w); w1 = set_manager m w
            in (case r of
                  Inl e \<Rightarrow> Some (internal_error, w1)
                | Inr saved \<Rightarrow>
                    map_option (\<lambda>w2. (writeJSON (e_js (we_dm env)) 201 (JScript saved), w2))
                      (if sm_Enabled (sc_Meta saved) then reload_web env (sc_ID saved) w1 else Some w1)))"

definition handleAPIUpdateAutomation :: "'l handler" where
  "handleAPIUpdateAutomation env s vals rq w =
     (if \<not> sv_auto s then Some (no_automations, w)
      else case get_script env (path_value vals) w of
        Inl e \<Rightarrow> Some (script_not_found, w)
      | Inr existing \<Rightarrow>
          (case Decode save_fields (rq_Body rq) no_save of
             None \<Rightarrow> Some (bad_body, w)
           | Some req \<Rightarrow>
               let script = existing\<lparr>sc_Meta := \<lparr>sm_Name = sa_Name req, sm_Description = sa_Description req, sm_Enabled = sa_Enabled req\<rparr>,
                              sc_LuaCode := sa_LuaCode req, sc_BlocklyXML := sa_BlocklyXML req\<rparr>;
                   (r, m) = Manager_Save (ae_os (we_auto env)) script (wb_manager w); w1 = set_manager m w
               in (case r of
                     Inl e \<Rightarrow> Some (internal_error, w1)
                   | Inr saved \<Rightarrow>
                       map_option (\<lambda>w2. (writeJSON (e_js (we_dm env)) 200 (JScript saved), w2)) (reload_web env (sc_ID saved) w1))))"

definition stop_web :: "string \<Rightarrow> 'l web \<Rightarrow> 'l web" where
  "stop_web i w = w\<lparr>wb_engine := StopScript i (wb_engine w)\<rparr>"

definition handleAPIDeleteAutomation :: "'l handler" where
  "handleAPIDeleteAutomation env s vals rq w =
     (if \<not> sv_auto s then Some (no_automations, w)
      else let w1 = stop_web (path_value vals) w;
               (r, m) = Manager_Delete (ae_os (we_auto env)) (path_value vals) (wb_manager w1); w2 = set_manager m w1
           in (case r of
                 Inl e \<Rightarrow> Some (internal_error, w2)
               | Inr u \<Rightarrow> Some (writeJSON (e_js (we_dm env)) 200 status_ok, w2)))"

record runRequest =
  rr_LuaCode :: string

definition run_fields :: "(string \<times> runRequest decoder) list" where
  "run_fields = [(''lua_code'', dec_at rr_LuaCode rr_LuaCode_update dec_str)]"

definition run_web :: "'l web_env \<Rightarrow> (RunResult \<times> 'l engine) option \<Rightarrow> 'l web \<Rightarrow> (Response \<times> 'l web) option" where
  "run_web env r w = map_option (\<lambda>(res, e). (writeJSON (e_js (we_dm env)) 200 (JRun res), w\<lparr>wb_engine := e\<rparr>)) r"

definition handleAPIRunAutomation :: "'l handler" where
  "handleAPIRunAutomation env s vals rq w =
     (if \<not> sv_auto s then Some (json_error 500 ''automation engine not available'', w)
      else if path_value vals = ''_inline'' then
        (case Decode run_fields (rq_Body rq) \<lparr>rr_LuaCode = []\<rparr> of
           None \<Rightarrow> Some (bad_body, w)
         | Some req \<Rightarrow> run_web env (RunLuaCode (we_auto env) (we_steps env) (rr_LuaCode req) (wb_engine w)) w)
      else run_web env (RunScript (we_auto env) (we_steps env) (path_value vals) (wb_engine w)) w)"

definition handleAPIToggleAutomation :: "'l handler" where
  "handleAPIToggleAutomation env s vals rq w =
     (if \<not> sv_auto s then Some (no_automations, w)
      else case get_script env (path_value vals) w of
        Inl e \<Rightarrow> Some (script_not_found, w)
      | Inr sc \<Rightarrow>
          let script = sc\<lparr>sc_Meta := (sc_Meta sc)\<lparr>sm_Enabled := \<not> sm_Enabled (sc_Meta sc)\<rparr>\<rparr>;
              (r, m) = Manager_Save (ae_os (we_auto env)) script (wb_manager w); w1 = set_manager m w
          in (case r of
                Inl e \<Rightarrow> Some (internal_error, w1)
              | Inr saved \<Rightarrow>
                  map_option (\<lambda>w2. (writeJSON (e_js (we_dm env)) 200 (JScript saved), w2))
                    (if sm_Enabled (sc_Meta saved) then reload_web env (sc_ID saved) w1 else Some (stop_web (sc_ID saved) w1))))"

section \<open>Serving\<close>

definition serve_file :: "'l handler" where
  "serve_file env s vals rq w =
     (let (status, content) = we_file env (url_path rq) in Some (\<lparr>rs_Status = status, rs_Headers = [], rs_Body = FileContent content\<rparr>, w))"

text \<open>\<^verbatim>\<open>websocket.Accept\<close> answers a refused upgrade itself. What an accepted connection does is in \<^verbatim>\<open>Web_Hub\<close>.\<close>

definition handleWS :: "'l handler" where
  "handleWS env s vals rq w =
     Some (case we_accept env (sv_allowedOrigins s) rq of
        Some (status, msg) \<Rightarrow> http_Error msg status
      | None \<Rightarrow> \<lparr>rs_Status = 101, rs_Headers = [], rs_Body = WebSocket\<rparr>, w)"

definition handler_of :: "route \<Rightarrow> 'l handler" where
  "handler_of r = (case r of
       StaticFiles \<Rightarrow> serve_file | DeviceImages \<Rightarrow> serve_file
     | Index \<Rightarrow> handleIndex | DevicesHtml \<Rightarrow> handleDevicesPage | DeviceHtml \<Rightarrow> handleDeviceDetailPage
     | NetworkHtml \<Rightarrow> handleNetworkPage | AutomationsHtml \<Rightarrow> handleAutomationsPage
     | ListDevicesApi \<Rightarrow> handleAPIListDevices | GetDeviceApi \<Rightarrow> handleAPIGetDevice | RenameDeviceApi \<Rightarrow> handleAPIRenameDevice
     | DeleteDeviceApi \<Rightarrow> handleAPIDeleteDevice | ReadAttributesApi \<Rightarrow> handleAPIReadAttributes | WriteAttributeApi \<Rightarrow> handleAPIWriteAttribute
     | SendCommandApi \<Rightarrow> handleAPISendCommand | NetworkInfoApi \<Rightarrow> handleAPINetworkInfo | PermitJoinApi \<Rightarrow> handleAPIPermitJoin
     | ListClustersApi \<Rightarrow> handleAPIListClusters | VersionApi \<Rightarrow> handleAPIVersion
     | ListAutomationsApi \<Rightarrow> handleAPIListAutomations | GetAutomationApi \<Rightarrow> handleAPIGetAutomation | CreateAutomationApi \<Rightarrow> handleAPICreateAutomation
     | UpdateAutomationApi \<Rightarrow> handleAPIUpdateAutomation | DeleteAutomationApi \<Rightarrow> handleAPIDeleteAutomation
     | ToggleAutomationApi \<Rightarrow> handleAPIToggleAutomation | RunAutomationApi \<Rightarrow> handleAPIRunAutomation | WsUpgrade \<Rightarrow> handleWS)"

definition mux_serve :: "'l web_env \<Rightarrow> Server \<Rightarrow> Request \<Rightarrow> 'l web \<Rightarrow> (Response \<times> 'l web) option" where
  "mux_serve env s rq w =
     (case find_handler s (rq_Method rq) (rq_Path rq) of
        Found r vals \<Rightarrow> handler_of r env s vals rq w
      | Redirect p \<Rightarrow> Some (\<lparr>rs_Status = 301, rs_Headers = [], rs_Body = NoBody\<rparr>, w)
      | NotAllowed \<Rightarrow> Some (http_Error ''Method Not Allowed'' 405, w)
      | NotFound \<Rightarrow> Some (http_Error ''404 page not found'' 404, w))"

definition isOriginAllowed :: "Server \<Rightarrow> string \<Rightarrow> bool" where
  "isOriginAllowed s origin \<longleftrightarrow> list_ex (\<lambda>a. a = ''*'' \<or> a = origin) (sv_allowedOrigins s)"

definition preflight :: "string \<Rightarrow> Response" where
  "preflight origin = \<lparr>rs_Status = 204,
     rs_Headers = [(''Access-Control-Allow-Origin'', origin), (''Access-Control-Allow-Methods'', ''GET, POST, PATCH, PUT, DELETE, OPTIONS''),
       (''Access-Control-Allow-Headers'', ''Content-Type, X-API-Key''), (''Access-Control-Max-Age'', ''3600'')], rs_Body = NoBody\<rparr>"

definition authorized :: "Server \<Rightarrow> Request \<Rightarrow> bool" where
  "authorized s rq \<longleftrightarrow> sv_apiKey s = [] \<or> \<not> HasPrefix ''/api/'' (url_path rq) \<or> rq_Key rq = sv_apiKey s"

definition after_cors :: "'l web_env \<Rightarrow> Server \<Rightarrow> (string \<times> string) list \<Rightarrow> Request \<Rightarrow> 'l web \<Rightarrow> (Response \<times> 'l web) option" where
  "after_cors env s hs rq w =
     (if \<not> authorized s rq then Some ((http_Error ''Unauthorized'' 401)\<lparr>rs_Headers := hs @ rs_Headers (http_Error ''Unauthorized'' 401)\<rparr>, w)
      else map_option (\<lambda>(r, w1). (r\<lparr>rs_Headers := hs @ rs_Headers r\<rparr>, w1)) (mux_serve env s rq w))"

definition ServeHTTP :: "'l web_env \<Rightarrow> Server \<Rightarrow> Request \<Rightarrow> 'l web \<Rightarrow> (Response \<times> 'l web) option" where
  "ServeHTTP env s rq w =
     (if sv_allowedOrigins s \<noteq> [] \<and> rq_Origin rq \<noteq> [] then
        (if rq_Method rq = ''OPTIONS'' then
           (if isOriginAllowed s (rq_Origin rq) then Some (preflight (rq_Origin rq), w) else Some (http_Error ''Forbidden'' 403, w))
         else if rq_Method rq \<noteq> ''GET'' then
           (if \<not> isOriginAllowed s (rq_Origin rq) then Some (http_Error ''Forbidden'' 403, w)
            else after_cors env s [(''Access-Control-Allow-Origin'', rq_Origin rq)] rq w)
         else after_cors env s [] rq w)
      else after_cors env s [] rq w)"

end
