(* ===== verification/Web_Theorems.thy ===== *)
theory Web_Theorems
  imports Web_Server
begin

text \<open>
  What requests to \<^verbatim>\<open>Web_Server\<close> can do: the API key, the origins, and the effect of the requests that are refused.
\<close>

section \<open>Paths\<close>

lemma unescape_append:
  assumes "CHR ''%'' \<notin> set a \<or> unescape a \<noteq> None"
  shows "unescape (a @ CHR ''/'' # b) = (case unescape a of None \<Rightarrow> None | Some x \<Rightarrow> map_option (\<lambda>y. x @ CHR ''/'' # y) (unescape b))"
  using assms
proof (induction a rule: unescape.induct)
  case (2 c cs)
  show ?case
  proof (cases "c = CHR ''%''")
    case True
    then obtain p q r x y where "cs = p # q # r" "hex_value p = Some x" "hex_value q = Some y" "unescape r \<noteq> None"
      using 2(3) by (auto split: list.splits option.splits)
    then show ?thesis using 2(1) True by (auto split: option.splits simp: option.map_comp comp_def)
  next
    case False
    then show ?thesis using 2 by (auto split: option.splits simp: option.map_comp comp_def)
  qed
qed (auto split: option.splits)

lemma split_path_Cons: "split_path q = s1 # s2 # ss \<Longrightarrow> \<exists>b. q = s1 @ CHR ''/'' # b"
proof (induction q arbitrary: s1)
  case (Cons c cs)
  show ?case
  proof (cases "c = CHR ''/''")
    case False
    then obtain l where "split_path cs = l # s2 # ss" "s1 = c # l" using Cons.prems by (auto split: list.splits)
    then show ?thesis using Cons.IH by auto
  qed (use Cons.prems in auto)
qed simp

text \<open>A path whose first segment means \<^verbatim>\<open>api\<close>, with another one behind it, is one that the middleware sees under
  \<^verbatim>\<open>/api/\<close>: escapes do not get around it.\<close>

lemma api_prefix:
  assumes "HasPrefix ''/'' p" "path_segments p = s1 # s2 # ss" "path_unescape s1 = ''api''" "unescape p \<noteq> None"
  shows "HasPrefix ''/api/'' (path_unescape p)"
proof -
  obtain q where q: "p = CHR ''/'' # q" using assms(1) by (cases p) (simp_all add: HasPrefix_def)
  then have "split_path q = s1 # s2 # ss" using assms(2) by (simp add: path_segments_def)
  then obtain b where b: "q = s1 @ CHR ''/'' # b" using split_path_Cons by blast
  have s1: "unescape s1 = Some ''api''"
    using assms(3) by (cases "unescape s1") (auto simp: path_unescape_def)
  then have "unescape q = map_option (\<lambda>y. ''api'' @ CHR ''/'' # y) (unescape b)" unfolding b by (subst unescape_append) simp_all
  then obtain y where "unescape p = Some (CHR ''/'' # ''api'' @ CHR ''/'' # y)" using assms(4) unfolding q by (cases "unescape b") auto
  then show ?thesis by (simp add: path_unescape_def HasPrefix_def)
qed

section \<open>Routes\<close>

definition is_api :: "route \<Rightarrow> bool" where
  "is_api r \<longleftrightarrow> r \<notin> {StaticFiles, DeviceImages, Index, DevicesHtml, DeviceHtml, NetworkHtml, AutomationsHtml, WsUpgrade}"

definition read_only :: "route \<Rightarrow> bool" where
  "read_only r \<longleftrightarrow> \<not> is_api r \<or> r \<in> {ListDevicesApi, GetDeviceApi, NetworkInfoApi, ListClustersApi, VersionApi, ListAutomationsApi, GetAutomationApi}"

lemma routes_api: "(pm, ps, r) \<in> set (routes s) \<Longrightarrow> is_api r \<Longrightarrow> \<exists>t rest. ps = Lit ''api'' # t # rest"
  by (auto simp: routes_def is_api_def)

lemma routes_get: "(pm, ps, r) \<in> set (routes s) \<Longrightarrow> pm = ''GET'' \<longleftrightarrow> read_only r"
  by (auto simp: routes_def is_api_def read_only_def)

lemma found_route:
  assumes "find_handler s m p = Found r vals"
  shows "clean_path p \<and> (\<exists>pm ps. (pm, ps, r) \<in> set (routes s) \<and> method_matches pm m \<and> match_segs ps (path_segments p) = Some vals)"
proof -
  have m: "match_route s m (path_segments p) = Some (r, vals)" "m = ''CONNECT'' \<or> clean_path p"
    using assms by (auto simp: find_handler_def split: if_splits option.splits)
  obtain pm ps where f: "List.find (\<lambda>(pm, ps, h). method_matches pm m \<and> match_segs ps (path_segments p) \<noteq> None) (routes s) = Some (pm, ps, r)"
    "match_segs ps (path_segments p) = Some vals" using m(1) by (auto simp: match_route_def split: option.splits)
  then have g: "(pm, ps, r) \<in> set (routes s)" "method_matches pm m" using find_in[OF f(1)] by auto
  have "pm \<noteq> ''CONNECT''" using g(1) by (auto simp: routes_def)
  then have "m \<noteq> ''CONNECT''" using g(2) by (auto simp: method_matches_def)
  then show ?thesis using m(2) g f(2) by blast
qed

lemma match_segs_Nil: "match_segs (t # rest) [] = None"
  by (cases t; cases rest) simp_all

lemma match_segs_Lit:
  assumes "match_segs (Lit l # t # rest) segs = Some v"
  shows "\<exists>s1 s2 ss. segs = s1 # s2 # ss \<and> path_unescape s1 = l"
proof (cases segs)
  case Nil
  then show ?thesis using assms match_segs_Nil by simp
next
  case (Cons s1 ss)
  then have "path_unescape s1 = l" "match_segs (t # rest) ss = Some v" using assms by (simp_all split: if_splits)
  then show ?thesis using Cons match_segs_Nil by (cases ss) simp_all
qed

lemma api_route_path:
  assumes "find_handler s m p = Found r vals" "is_api r" "unescape p \<noteq> None"
  shows "HasPrefix ''/api/'' (path_unescape p)"
proof -
  obtain pm ps where r: "clean_path p" "(pm, ps, r) \<in> set (routes s)" "match_segs ps (path_segments p) = Some vals"
    using found_route[OF assms(1)] by blast
  obtain t rest where "ps = Lit ''api'' # t # rest" using routes_api[OF r(2) assms(2)] by blast
  then obtain s1 s2 ss where "path_segments p = s1 # s2 # ss" "path_unescape s1 = ''api''"
    using r(3) match_segs_Lit by blast
  then show ?thesis using api_prefix r(1) assms(3) by (simp add: clean_path_def)
qed

lemma set_coord_same: "set_coord (wb_coord w) w = w"
  by (simp add: set_coord_def wb_coord_def)

lemma views_engine: "wb_engine (snd (views_of env s ds w)) = wb_engine w"
  by (simp add: views_of_def split: prod.split)

text \<open>What a \<^verbatim>\<open>GET\<close> leaves: at most the cache of images changes.\<close>

lemma read_only_handler:
  assumes "read_only r"
  shows "\<exists>resp w'. handler_of r env s vals rq w = Some (resp, w') \<and> wb_engine w' = wb_engine w"
  using assms views_engine[of env s _ w]
  by (cases r) (simp_all add: handler_of_def read_only_def is_api_def serve_file_def handleWS_def handleIndex_def handleDevicesPage_def
      handleDeviceDetailPage_def handleNetworkPage_def handleAutomationsPage_def handleAPIListDevices_def handleAPIGetDevice_def
      handleAPINetworkInfo_def handleAPIListClusters_def handleAPIVersion_def handleAPIListAutomations_def handleAPIGetAutomation_def
      Let_def split: sum.split prod.split, (metis snd_conv)+)

lemma mux_read_only:
  assumes "\<And>r vals. find_handler s (rq_Method rq) (rq_Path rq) = Found r vals \<Longrightarrow> read_only r"
  shows "\<exists>resp w'. mux_serve env s rq w = Some (resp, w') \<and> wb_engine w' = wb_engine w"
  using assms read_only_handler by (auto simp: mux_serve_def split: mux_outcome.split)

section \<open>The API key\<close>

lemma mux_total_read_only:
  assumes "\<And>r vals. find_handler s (rq_Method rq) (rq_Path rq) = Found r vals \<Longrightarrow> read_only r"
  shows "\<exists>resp w'. after_cors env s hs rq w = Some (resp, w') \<and> wb_engine w' = wb_engine w"
proof -
  obtain resp w' where "mux_serve env s rq w = Some (resp, w')" "wb_engine w' = wb_engine w" using mux_read_only[of s rq env w] assms by blast
  then show ?thesis by (simp add: after_cors_def)
qed

lemma ServeHTTP_cases:
  obtains (preflight) st where "ServeHTTP env s rq w = Some (st, w)" "rs_Status st \<in> {204, 403}"
  | (served) hs where "ServeHTTP env s rq w = after_cors env s hs rq w"
      "sv_allowedOrigins s \<noteq> [] \<and> rq_Origin rq \<noteq> [] \<and> rq_Method rq \<noteq> ''GET'' \<longrightarrow> isOriginAllowed s (rq_Origin rq)"
proof (cases "sv_allowedOrigins s \<noteq> [] \<and> rq_Origin rq \<noteq> []")
  case True
  then show ?thesis
    using preflight[of "preflight (rq_Origin rq)"] preflight[of "http_Error ''Forbidden'' 403"]
      served[of "[(''Access-Control-Allow-Origin'', rq_Origin rq)]"] served[of "[]"]
    by (cases "rq_Method rq = ''OPTIONS''"; cases "rq_Method rq = ''GET''"; cases "isOriginAllowed s (rq_Origin rq)")
      (simp_all add: ServeHTTP_def preflight_def http_Error_def)
next
  case False
  then show ?thesis using served[of "[]"] by (auto simp: ServeHTTP_def)
qed

text \<open>
  C6: a request without the API key, where one is set, is always answered and changes nothing but the cache of images: no
  device, script, VM or radio request, on any path and with any method, also when parts of the path are escaped. If its path
  is one of the API's, it does not get to the handler.
\<close>

theorem unauthorized_request:
  assumes "sv_apiKey s \<noteq> []" "rq_Key rq \<noteq> sv_apiKey s" "unescape (rq_Path rq) \<noteq> None"
  shows "\<exists>resp w'. ServeHTTP env s rq w = Some (resp, w') \<and> wb_engine w' = wb_engine w
    \<and> (\<forall>r vals. find_handler s (rq_Method rq) (rq_Path rq) = Found r vals \<and> is_api r \<longrightarrow> w' = w \<and> rs_Status resp \<in> {204, 401, 403})"
proof (cases rule: ServeHTTP_cases[of env s rq w])
  case (preflight st)
  then show ?thesis by auto
next
  case (served hs)
  show ?thesis
  proof (cases "\<exists>r vals. find_handler s (rq_Method rq) (rq_Path rq) = Found r vals \<and> is_api r")
    case True
    then have "HasPrefix ''/api/'' (url_path rq)" using api_route_path assms(3) by (auto simp: url_path_def)
    then have "\<not> authorized s rq" using assms by (simp add: authorized_def)
    then show ?thesis using served(1) by (simp add: after_cors_def http_Error_def)
  next
    case False
    then have r: "read_only r" if "find_handler s (rq_Method rq) (rq_Path rq) = Found r vals" for r vals using that by (auto simp: read_only_def)
    have "\<exists>resp w'. after_cors env s hs rq w = Some (resp, w') \<and> wb_engine w' = wb_engine w" by (rule mux_total_read_only) (rule r)
    then show ?thesis using served(1) False by auto
  qed
qed

text \<open>
  where origins are configured, a page of another origin cannot make a browser change anything: its requests with a
  method other than \<^verbatim>\<open>GET\<close> are refused, and \<^verbatim>\<open>GET\<close> requests change nothing but the cache of images.
\<close>

theorem cross_origin_request:
  assumes "sv_allowedOrigins s \<noteq> []" "rq_Origin rq \<noteq> []" "\<not> isOriginAllowed s (rq_Origin rq)"
  shows "\<exists>resp w'. ServeHTTP env s rq w = Some (resp, w') \<and> wb_engine w' = wb_engine w
    \<and> (rq_Method rq \<noteq> ''GET'' \<longrightarrow> rs_Status resp = 403 \<and> w' = w)"
proof (cases "rq_Method rq = ''GET''")
  case True
  have r: "read_only r" if "find_handler s (rq_Method rq) (rq_Path rq) = Found r vals" for r vals
    using found_route[OF that] routes_get True by (auto simp: method_matches_def)
  have "\<exists>resp w'. after_cors env s [] rq w = Some (resp, w') \<and> wb_engine w' = wb_engine w" by (rule mux_total_read_only) (rule r)
  then show ?thesis using True assms by (simp add: ServeHTTP_def)
next
  case False
  then show ?thesis using assms by (simp add: ServeHTTP_def http_Error_def)
qed

text \<open>
  C35: the key protects nothing from a client that can load a page: the answer to \<^verbatim>\<open>GET /network\<close>, which needs no key, has the
  key in the data of its page (the layout writes it into a \<^verbatim>\<open>meta\<close> tag), and with it every request is authorized. That the
  template of the page executes on its data is the only condition; when it does not, the answer is an error without the page.
\<close>

theorem page_reveals_key:
  assumes "sv_apiKey s \<noteq> []" "rq_Method rq = ''GET''" "rq_Path rq = ''/network''" "rq_Key rq = []"
    "\<And>p v k. we_renders env (Html p v k)"
  shows "\<exists>resp p v k. ServeHTTP env s rq w = Some (resp, w) \<and> rs_Status resp = 200 \<and> rs_Body resp = Html p v (Some k)
    \<and> (\<forall>rq'. authorized s (rq'\<lparr>rq_Key := k\<rparr>))"
proof -
  have p: "path_segments ''/network'' = [''network'']" "clean_path ''/network''" "path_unescape ''network'' = ''network''"
    by (simp_all add: path_segments_def clean_path_def HasPrefix_def path_unescape_def)
  have "find_handler s ''GET'' ''/network'' = Found NetworkHtml []"
    by (simp add: find_handler_def p match_route_def routes_def method_matches_def)
  moreover have "url_path rq = ''/network''" using assms(3) by (simp add: url_path_def path_unescape_def)
  then have "authorized s rq" by (simp add: authorized_def HasPrefix_def)
  ultimately show ?thesis using assms
    by (auto simp: ServeHTTP_def after_cors_def mux_serve_def handler_of_def handleNetworkPage_def renderTemplate_def authorized_def)
qed

section \<open>Requests that are refused\<close>

lemma status_simps [simp]:
  "rs_Status (writeJSON js st b) = st" "rs_Status (json_error st m) = st" "rs_Status internal_error = 500" "rs_Status bad_body = 400"
  "rs_Status no_automations = 500" "rs_Status script_not_found = 404" "rs_Status (renderTemplate env s p) = 200 \<or> rs_Status (renderTemplate env s p) = 500"
  by (simp_all add: writeJSON_def json_error_def internal_error_def bad_body_def no_automations_def script_not_found_def renderTemplate_def
      http_Error_def Let_def)

lemma store_failed_status: "rs_Status (store_failed e) = (if e = ErrNotFound then 404 else 500)"
  by (simp add: store_failed_def)

lemma update_failed: "UpdateDevice js i f st = (Inl e, st') \<Longrightarrow> st' = st"
  by (auto simp: UpdateDevice_def split: if_splits option.splits)

lemma with_store_same: "with_store (wb_store w) w = w"
  by (simp add: with_store_def set_coord_same)

lemma remove_failed:
  assumes "RemoveDevice ord ieee d l = (Inl e, d', l')"
  shows "d' = d \<and> l' = l"
proof (cases "GetDevice ieee (dm_store d)")
  case (Inr dev)
  then have b: "b_ok (dm_store d)" by (auto simp: GetDevice_def split: if_splits)
  have s: "dm_store (remove_one ord ieee (cancel_interview ieee d)) = dm_store d"
    by (simp add: remove_one_def cancel_interview_def removeFromAddrIndex_def split: option.split)
  have "fst (DeleteDevice ieee (dm_store d)) = Inr ()" using b by (simp add: DeleteDevice_def)
  then show ?thesis using assms Inr s by (auto simp: RemoveDevice_def Let_def split: prod.splits sum.splits)
qed (use assms in \<open>simp add: RemoveDevice_def\<close>)

lemma refused_device_api:
  assumes "r \<in> {RenameDeviceApi, DeleteDeviceApi, ReadAttributesApi, WriteAttributeApi, SendCommandApi, PermitJoinApi}"
    "handler_of r env s vals rq w = Some (resp, w')" "400 \<le> rs_Status resp" "rs_Status resp < 500"
  shows "w' = w"
  using assms
proof (elim insertE emptyE)
  assume r: "r = RenameDeviceApi"
  show ?thesis using assms(2-4) unfolding r
    by (auto simp: handler_of_def handleAPIRenameDevice_def with_store_same dest!: update_failed split: option.splits prod.splits sum.splits)
next
  assume r: "r = DeleteDeviceApi"
  show ?thesis using assms(2-4) unfolding r
    by (auto simp: handler_of_def handleAPIDeleteDevice_def Let_def set_coord_same dest!: remove_failed split: prod.splits sum.splits)
next
  assume r: "r = ReadAttributesApi"
  show ?thesis using assms(2-4) unfolding r
    by (auto simp: handler_of_def handleAPIReadAttributes_def split: option.splits prod.splits sum.splits if_splits)
next
  assume r: "r = WriteAttributeApi"
  show ?thesis using assms(2-4) unfolding r
    by (auto simp: handler_of_def handleAPIWriteAttribute_def split: option.splits prod.splits sum.splits if_splits)
next
  assume r: "r = SendCommandApi"
  show ?thesis using assms(2-4) unfolding r
    by (auto simp: handler_of_def handleAPISendCommand_def split: option.splits prod.splits sum.splits if_splits)
next
  assume r: "r = PermitJoinApi"
  show ?thesis using assms(2-4) unfolding r
    by (auto simp: handler_of_def handleAPIPermitJoin_def split: option.splits prod.splits sum.splits if_splits)
qed

lemma refused_automation_api:
  assumes "r \<in> {CreateAutomationApi, UpdateAutomationApi, DeleteAutomationApi, ToggleAutomationApi, RunAutomationApi}"
    "handler_of r env s vals rq w = Some (resp, w')" "400 \<le> rs_Status resp" "rs_Status resp < 500"
  shows "w' = w"
  using assms
proof (elim insertE emptyE)
  assume r: "r = CreateAutomationApi"
  show ?thesis using assms(2-4) unfolding r
    by (auto simp: handler_of_def handleAPICreateAutomation_def Let_def split: option.splits prod.splits sum.splits if_splits)
next
  assume r: "r = UpdateAutomationApi"
  show ?thesis using assms(2-4) unfolding r
    by (auto simp: handler_of_def handleAPIUpdateAutomation_def Let_def split: option.splits prod.splits sum.splits if_splits)
next
  assume r: "r = DeleteAutomationApi"
  show ?thesis using assms(2-4) unfolding r
    by (auto simp: handler_of_def handleAPIDeleteAutomation_def Let_def split: option.splits prod.splits sum.splits if_splits)
next
  assume r: "r = ToggleAutomationApi"
  show ?thesis using assms(2-4) unfolding r
    by (auto simp: handler_of_def handleAPIToggleAutomation_def Let_def split: option.splits prod.splits sum.splits if_splits)
next
  assume r: "r = RunAutomationApi"
  show ?thesis using assms(2-4) unfolding r
    by (auto simp: handler_of_def handleAPIRunAutomation_def run_web_def split: option.splits prod.splits sum.splits if_splits)
qed

text \<open>
  C34: a request that is refused (unknown device or script, a body that is not what the handler needs, no or more than 50
  attributes, a payload over 128 bytes, no key, a wrong method or path) changes nothing but the cache of images: no answer with a status
  from 400 to 499 comes after a change.
\<close>

theorem refused_unchanged:
  assumes "ServeHTTP env s rq w = Some (resp, w')" "400 \<le> rs_Status resp" "rs_Status resp < 500"
  shows "wb_engine w' = wb_engine w"
proof (cases rule: ServeHTTP_cases[of env s rq w])
  case (preflight st)
  then show ?thesis using assms(1) by auto
next
  case (served hs)
  show ?thesis
  proof (cases "authorized s rq")
    case False
    then show ?thesis using served(1) assms(1) by (auto simp: after_cors_def)
  next
    case True
    then have "after_cors env s hs rq w = Some (resp, w')" using served(1) assms(1) by simp
    with True obtain r1 where m: "mux_serve env s rq w = Some (r1, w')" "rs_Status r1 = rs_Status resp"
      by (cases "mux_serve env s rq w") (auto simp: after_cors_def)
    show ?thesis
    proof (cases "find_handler s (rq_Method rq) (rq_Path rq)")
      case (Found r vals)
      then have h: "handler_of r env s vals rq w = Some (r1, w')" using m(1) by (simp add: mux_serve_def)
      show ?thesis
      proof (cases "read_only r")
        case True
        then show ?thesis using read_only_handler[OF True, of env s vals rq w] h by auto
      next
        case False
        then have "r \<in> {RenameDeviceApi, DeleteDeviceApi, ReadAttributesApi, WriteAttributeApi, SendCommandApi, PermitJoinApi}
          \<or> r \<in> {CreateAutomationApi, UpdateAutomationApi, DeleteAutomationApi, ToggleAutomationApi, RunAutomationApi}"
          by (cases r) (simp_all add: read_only_def is_api_def)
        then show ?thesis using refused_device_api[OF _ h] refused_automation_api[OF _ h] m(2) assms(2,3) by auto
      qed
    qed (use m(1) in \<open>simp_all add: mux_serve_def\<close>)
  qed
qed

section \<open>Instances\<close>

definition demo_request :: "string \<Rightarrow> string \<Rightarrow> Request" where
  "demo_request m p = \<lparr>rq_Method = m, rq_Path = p, rq_Origin = [], rq_Key = [], rq_Body = None\<rparr>"

definition demo_server :: Server where
  "demo_server = NewServer [WithAPIKey ''secret'', WithAllowedOrigins [''http://home''], WithAutomation, WithVersion ''1'']"

definition demo_web :: "nat web" where
  "demo_web = \<lparr>wb_engine = NewEngine demo_auto_coord (demo_files ''on''), wb_photos = []\<rparr>"

definition demo_web_env :: "nat web_env" where
  "demo_web_env = \<lparr>we_auto = demo_auto, we_dm = demo_env, we_cfg = \<lparr>cf_Channel = 15, cf_PanID = 0x1234, cf_ExtPanID = replicate 8 1\<rparr>,
     we_ncp = \<lparr>nc_Type = [], nc_Port = ''tty'', nc_Baud = 460800\<rparr>, we_file = (\<lambda>_. (404, [])), we_image = (\<lambda>_. False), we_accept = (\<lambda>_ _. None), we_attrs = None,
     we_order = [], we_steps = 1000, we_renders = (\<lambda>_. True)\<rparr>"

lemma demo_server_simps: "sv_apiKey demo_server = ''secret''" "sv_allowedOrigins demo_server = [''http://home'']"
  by (simp_all add: demo_server_def NewServer_def WithAPIKey_def WithAllowedOrigins_def WithAutomation_def WithVersion_def)

lemma demo_request_simps: "rq_Method (demo_request m p) = m" "rq_Path (demo_request m p) = p" "rq_Origin (demo_request m p) = []"
  "rq_Key (demo_request m p) = []" "rq_Body (demo_request m p) = None"
  by (simp_all add: demo_request_def)

theorem unauthorized_request_witness:
  "\<exists>resp. ServeHTTP demo_web_env demo_server (demo_request ''DELETE'' ''/%61pi/devices/0A'') demo_web = Some (resp, demo_web) \<and> rs_Status resp \<in> {204, 401, 403}"
proof -
  have f: "find_handler demo_server ''DELETE'' ''/%61pi/devices/0A'' = Found DeleteDeviceApi [''0A'']" "is_api DeleteDeviceApi" by code_simp+
  have u: "unescape ''/%61pi/devices/0A'' \<noteq> None" by code_simp
  show ?thesis
    using unauthorized_request[of demo_server "demo_request ''DELETE'' ''/%61pi/devices/0A''" demo_web_env demo_web] f u
    by (auto simp: demo_server_simps demo_request_simps)
qed

theorem cross_origin_request_witness:
  "\<exists>resp. ServeHTTP demo_web_env demo_server ((demo_request ''POST'' ''/api/network/permit-join'')\<lparr>rq_Origin := ''http://evil'', rq_Key := ''secret''\<rparr>) demo_web
     = Some (resp, demo_web) \<and> rs_Status resp = 403"
proof -
  have "\<not> isOriginAllowed demo_server ''http://evil''" by (simp add: isOriginAllowed_def demo_server_simps)
  then show ?thesis
    using cross_origin_request[of demo_server "(demo_request ''POST'' ''/api/network/permit-join'')\<lparr>rq_Origin := ''http://evil'', rq_Key := ''secret''\<rparr>" demo_web_env demo_web]
    by (auto simp: demo_server_simps demo_request_simps)
qed

theorem page_reveals_key_witness:
  "\<exists>resp p v k. ServeHTTP demo_web_env demo_server (demo_request ''GET'' ''/network'') demo_web = Some (resp, demo_web) \<and> rs_Body resp = Html p v (Some k)
     \<and> authorized demo_server ((demo_request ''DELETE'' ''/api/devices/0A'')\<lparr>rq_Key := k\<rparr>)"
  using page_reveals_key[of demo_server "demo_request ''GET'' ''/network''" demo_web_env demo_web]
  by (auto simp: demo_server_simps demo_request_simps demo_web_env_def)

theorem refused_unchanged_witness:
  "\<exists>resp w'. ServeHTTP demo_web_env demo_server ((demo_request ''POST'' ''/api/automations'')\<lparr>rq_Key := ''secret'', rq_Body := Some (JObj [(''lua_code'', JStr ''x'')])\<rparr>) demo_web
     = Some (resp, w') \<and> rs_Status resp = 400 \<and> wb_engine w' = wb_engine demo_web"
proof -
  let ?rq = "(demo_request ''POST'' ''/api/automations'')\<lparr>rq_Key := ''secret'', rq_Body := Some (JObj [(''lua_code'', JStr ''x'')])\<rparr>"
  have f: "find_handler demo_server ''POST'' ''/api/automations'' = Found CreateAutomationApi []" "sv_auto demo_server" by code_simp+
  have d: "Decode save_fields (Some (JObj [(''lua_code'', JStr ''x'')])) no_save = Some (no_save\<lparr>sa_LuaCode := ''x''\<rparr>)" by code_simp
  have "handler_of CreateAutomationApi demo_web_env demo_server [] ?rq demo_web = Some (json_error 400 ''name is required'', demo_web)"
    by (simp add: handler_of_def handleAPICreateAutomation_def f d) (simp add: no_save_def)
  then have "\<exists>resp. ServeHTTP demo_web_env demo_server ?rq demo_web = Some (resp, demo_web) \<and> rs_Status resp = 400"
    using f(1) by (simp add: ServeHTTP_def after_cors_def authorized_def mux_serve_def demo_server_simps demo_request_simps)
  then show ?thesis using refused_unchanged[of demo_web_env demo_server ?rq demo_web] by force
qed

end
