(* ===== verification/Zigbee_Home.thy ===== *)
theory Zigbee_Home
  imports Gateway Web_Hub Web_Theorems
begin

text \<open>
  The program: \<^verbatim>\<open>cmd/zigbee-home/main.go\<close> with \<^verbatim>\<open>feature_automation.go\<close> and \<^verbatim>\<open>feature_mqtt.go\<close>. The configuration, its defaults and
  its checks, the order in which the parts are made and started, and the shutdown. Reading and parsing files, opening
  the store and the port, and the broker's answer are arguments; what is logged is left out.
\<close>

section \<open>Configuration\<close>

record mainConfig =
  mc_NCPType :: string
  mc_NCPPort :: string
  mc_NCPBaud :: u64
  mc_Channel :: byte
  mc_PanID :: u16
  mc_ExtPanID :: string
  mc_Listen :: string
  mc_APIKey :: string
  mc_AllowedOrigins :: "string list"
  mc_StorePath :: string
  mc_MQTT :: bool
  mc_Broker :: string
  mc_Username :: string
  mc_Password :: string
  mc_TopicPrefix :: string
  mc_LogLevel :: string
  mc_LogFormat :: string
  mc_BotToken :: string
  mc_ChatIDs :: "string list"
  mc_Allowlist :: "string list"
  mc_ExecTimeout :: string
  mc_DevicesDir :: string
  mc_ScriptsDir :: string

datatype config_error = PortRequired | BadChannel byte | BadPanID | BrokerRequired

definition validate :: "mainConfig \<Rightarrow> config_error option" where
  "validate c =
     (if mc_NCPPort c = [] then Some PortRequired
      else if mc_Channel c < 11 \<or> 26 < mc_Channel c then Some (BadChannel (mc_Channel c))
      else if mc_PanID c = 0 \<or> mc_PanID c = 0xFFFF then Some BadPanID
      else if mc_MQTT c \<and> mc_Broker c = [] then Some BrokerRequired
      else None)"

definition default :: "string \<Rightarrow> string \<Rightarrow> string" where
  "default d s = (if s = [] then d else s)"

definition with_defaults :: "mainConfig \<Rightarrow> mainConfig" where
  "with_defaults c = c\<lparr>mc_Listen := default ''127.0.0.1:8080'' (mc_Listen c), mc_StorePath := default ''zigbee-home.db'' (mc_StorePath c),
     mc_NCPBaud := (if mc_NCPBaud c = 0 then 460800 else mc_NCPBaud c), mc_DevicesDir := default ''devices'' (mc_DevicesDir c),
     mc_ScriptsDir := default ''scripts'' (mc_ScriptsDir c), mc_TopicPrefix := default ''zigbee2mqtt'' (mc_TopicPrefix c),
     mc_LogLevel := default ''info'' (mc_LogLevel c), mc_LogFormat := default ''text'' (mc_LogFormat c)\<rparr>"

datatype config_read = ReadConfig | ParseConfig

definition loadConfig :: "(string \<Rightarrow> mainConfig option) \<Rightarrow> string option \<Rightarrow> config_read + mainConfig" where
  "loadConfig yaml data =
     (case data of
        None \<Rightarrow> Inl ReadConfig
      | Some d \<Rightarrow> (case yaml d of None \<Rightarrow> Inl ParseConfig | Some c \<Rightarrow> Inr (with_defaults c)))"

section \<open>The logger\<close>

text \<open>What \<^verbatim>\<open>newLogger\<close> chooses. An unknown level or format is that of the default. The names are ASCII, so lower case is that of ASCII.\<close>

datatype log_level = LevelDebug | LevelInfo | LevelWarn | LevelError

datatype log_handler = JSONHandler | TextHandler

definition lower :: "string \<Rightarrow> string" where
  "lower s = map (\<lambda>b. char_of (unat (ascii_lower b))) (bytes_of s)"

definition newLogger :: "mainConfig \<Rightarrow> log_level \<times> log_handler" where
  "newLogger c =
     (let l = lower (mc_LogLevel c); f = lower (mc_LogFormat c)
      in (if l = ''debug'' then LevelDebug else if l = ''warn'' then LevelWarn else if l = ''error'' then LevelError else LevelInfo,
          if f = ''json'' then JSONHandler else TextHandler))"

lemma default_logger:
  assumes "mc_LogLevel c = []" "mc_LogFormat c = []"
  shows "newLogger (with_defaults c) = (LevelInfo, TextHandler)"
proof -
  have "lower ''info'' = ''info''" "lower ''text'' = ''text''" by code_simp+
  then show ?thesis using assms by (simp add: newLogger_def with_defaults_def default_def Let_def)
qed

section \<open>The outside\<close>

record 'l home_env =
  he_file :: "string option"                                         \<comment> \<open>the configuration file\<close>
  he_yaml :: "string \<Rightarrow> mainConfig option"
  he_glob :: "string \<Rightarrow> load_error + (load_error + deviceFile) list"   \<comment> \<open>the definition files of a directory\<close>
  he_store :: "string \<Rightarrow> bolt option"
  he_open :: "string \<Rightarrow> u64 \<Rightarrow> link option"                           \<comment> \<open>the port, and what the NCP will answer\<close>
  he_start :: start_env
  he_mkdir :: "string \<Rightarrow> (string \<times> entry) list option"              \<comment> \<open>the files of the scripts directory\<close>
  he_templates :: bool                                               \<comment> \<open>the embedded templates parse\<close>
  he_mqtt :: connect_outcome
  he_web :: "'l web_env"
  he_version :: string

datatype exit_reason =
    LoadConfig config_read | InvalidConfig config_error | DeviceDefinitions load_error | OpenStore
  | UnknownNCP string | OpenPort | BadExtPanID ieee_error | StartCoordinator start_fail | CreateWebServer

record 'l home =
  hm_web :: "'l web"
  hm_env :: "'l web_env"      \<comment> \<open>the registry, the definitions and the allow-lists of the running program\<close>
  hm_server :: Server
  hm_hub :: WSHub
  hm_engine :: bool           \<comment> \<open>the automation engine is running\<close>
  hm_bridge :: "bridge option"

datatype 'l outcome = Exited exit_reason | Running "'l home"

section \<open>Making the parts\<close>

definition createNCP :: "(string \<Rightarrow> u64 \<Rightarrow> link option) \<Rightarrow> mainConfig \<Rightarrow> exit_reason + ncp \<times> link" where
  "createNCP port c =
     (if mc_NCPType c = ''nrf52840'' \<or> mc_NCPType c = []
      then (case port (mc_NCPPort c) (mc_NCPBaud c) of
              None \<Rightarrow> Inl OpenPort
            | Some l \<Rightarrow> Inr (new_ncp \<lparr>h_onJoined = False, h_onLeft = False, h_onAnnounce = False, h_onReport = False,
                 h_onClusterCmd = False, h_onNwkAddrUpdate = False, h_onReset = False\<rparr>, l))
      else Inl (UnknownNCP (mc_NCPType c)))"

definition coord_config :: "mainConfig \<Rightarrow> bytes \<Rightarrow> Config" where
  "coord_config c ext = \<lparr>cf_Channel = mc_Channel c, cf_PanID = mc_PanID c, cf_ExtPanID = ext\<rparr>"

definition ncp_config :: "mainConfig \<Rightarrow> NCPConfig" where
  "ncp_config c = \<lparr>nc_Type = mc_NCPType c, nc_Port = mc_NCPPort c, nc_Baud = mc_NCPBaud c\<rparr>"

text \<open>The engine gets the allow-list and the bot of the configuration.\<close>

definition auto_config :: "mainConfig \<Rightarrow> 'l auto_env \<Rightarrow> 'l auto_env" where
  "auto_config c a = a\<lparr>ae_ext := (ae_ext a)\<lparr>le_system := \<lparr>sy_ExecAllowlist = mc_Allowlist c\<rparr>,
     le_telegram := \<lparr>tg_BotToken = mc_BotToken c, tg_ChatIDs = mc_ChatIDs c\<rparr>\<rparr>\<rparr>"

text \<open>Without a scripts directory the program goes on without automation; \<open>None\<close> when the start of the engine does not return.\<close>

definition initAutomation :: "'l auto_env \<Rightarrow> (string \<Rightarrow> (string \<times> entry) list option) \<Rightarrow> mainConfig \<Rightarrow> coord \<Rightarrow> (bool \<times> 'l engine \<times> ServerOption list) option" where
  "initAutomation a mkdir c co =
     (case mkdir (mc_ScriptsDir c) of
        None \<Rightarrow> Some (False, NewEngine co \<lparr>mg_dir = mc_ScriptsDir c, mg_files = []\<rparr>, [])
      | Some files \<Rightarrow>
          map_option (\<lambda>e. (True, e, [WithAutomation])) (Engine_Start a (NewEngine co \<lparr>mg_dir = mc_ScriptsDir c, mg_files = files\<rparr>)))"

definition initMQTT :: "connect_outcome \<Rightarrow> mainConfig \<Rightarrow> bridge option" where
  "initMQTT out c =
     (if \<not> mc_MQTT c then None
      else case NewBridge (mc_TopicPrefix c) out of (Inl e, b) \<Rightarrow> None | (Inr u, b) \<Rightarrow> Some b)"

definition web_options :: "mainConfig \<Rightarrow> string \<Rightarrow> ServerOption list \<Rightarrow> ServerOption list" where
  "web_options c version auto =
     (if mc_DevicesDir c \<noteq> [] then [WithDevicesDir (mc_DevicesDir c)] else [])
     @ (if mc_APIKey c \<noteq> [] then [WithAPIKey (mc_APIKey c)] else [])
     @ (if mc_AllowedOrigins c \<noteq> [] then [WithAllowedOrigins (mc_AllowedOrigins c)] else [])
     @ [WithVersion version] @ auto"

section \<open>The start and the shutdown\<close>

text \<open>Up to the coordinator that is not started yet.\<close>

definition prepare :: "'l home_env \<Rightarrow> exit_reason + mainConfig \<times> registry \<times> DeviceDB \<times> bytes \<times> coord" where
  "prepare h =
     (case loadConfig (he_yaml h) (he_file h) of
        Inl e \<Rightarrow> Inl (LoadConfig e)
      | Inr c \<Rightarrow>
      case validate c of
        Some e \<Rightarrow> Inl (InvalidConfig e)
      | None \<Rightarrow>
      case LoadDeviceDir (he_glob h (mc_DevicesDir c)) (registerStandardClusters Map.empty) of
        (Some e, reg, db) \<Rightarrow> Inl (DeviceDefinitions e)
      | (None, reg, db) \<Rightarrow>
      case he_store h (mc_StorePath c) of
        None \<Rightarrow> Inl OpenStore
      | Some st \<Rightarrow>
      case createNCP (he_open h) c of
        Inl e \<Rightarrow> Inl e
      | Inr (n, l) \<Rightarrow>
      case ParseExtPanID (mc_ExtPanID c) of
        Inl e \<Rightarrow> Inl (BadExtPanID e)
      | Inr ext \<Rightarrow> Inr (c, reg, db, ext, New n l st))"

definition running_env :: "mainConfig \<Rightarrow> registry \<Rightarrow> DeviceDB \<Rightarrow> bytes \<Rightarrow> coord \<Rightarrow> 'l web_env \<Rightarrow> 'l web_env" where
  "running_env c reg db ext co w = w\<lparr>we_auto := auto_config c (we_auto w),
     we_dm := (we_dm w)\<lparr>e_registry := reg, e_db := Some db, e_localIEEE := co_localIEEE co\<rparr>,
     we_cfg := coord_config c ext, we_ncp := ncp_config c\<rparr>"

text \<open>The program is built with the files of its features or with empty ones, so they are arguments here.\<close>

type_synonym 'l automation =
  "'l auto_env \<Rightarrow> (string \<Rightarrow> (string \<times> entry) list option) \<Rightarrow> mainConfig \<Rightarrow> coord \<Rightarrow> (bool \<times> 'l engine \<times> ServerOption list) option"

type_synonym mqtt_feature = "connect_outcome \<Rightarrow> mainConfig \<Rightarrow> bridge option"

definition main_with :: "'l automation \<Rightarrow> mqtt_feature \<Rightarrow> 'l home_env \<Rightarrow> 'l outcome option" where
  "main_with auto_init mqtt_init h =
     (case prepare h of
        Inl e \<Rightarrow> Some (Exited e)
      | Inr (c, reg, db, ext, co) \<Rightarrow>
      case Start (coord_config c ext) (he_start h) co of
        (Inl e, co1) \<Rightarrow> Some (Exited (StartCoordinator e))
      | (Inr u, co1) \<Rightarrow>
      let env = running_env c reg db ext co1 (he_web h) in
      map_option (\<lambda>(auto, e, opts).
          if \<not> he_templates h then Exited CreateWebServer
          else Running \<lparr>hm_web = \<lparr>wb_engine = e, wb_photos = []\<rparr>, hm_env = env,
                 hm_server = NewServer (web_options c (he_version h) opts), hm_hub = NewWSHub, hm_engine = auto, hm_bridge = mqtt_init (he_mqtt h) c\<rparr>)
        (auto_init (we_auto env) (he_mkdir h) c co1))"

definition main :: "'l home_env \<Rightarrow> 'l outcome option" where
  "main h = main_with initAutomation initMQTT h"

text \<open>The calls of the shutdown in their order. Each waits for its goroutines: for the hub's loop, for \<open>vmWg\<close>, for the bridge's loops.\<close>

definition shutdown :: "string list \<Rightarrow> 'l home \<Rightarrow> 'l home" where
  "shutdown ieees h =
     (let h1 = h\<lparr>hm_hub := hub_Stop (hm_hub h)\<rparr>;
          h2 = (if hm_engine h1 then h1\<lparr>hm_web := (hm_web h1)\<lparr>wb_engine := stop_all (wb_engine (hm_web h1))\<rparr>\<rparr> else h1);
          h3 = h2\<lparr>hm_bridge := map_option bridge_Stop (hm_bridge h2)\<rparr>
      in h3\<lparr>hm_web := set_coord (Stop ieees (wb_coord (hm_web h3))) (hm_web h3)\<rparr>)"

section \<open>A program that runs\<close>

lemma load_files_registers:
  "load_files fs st = (None, st') \<Longrightarrow> \<exists>cs. fst st' = foldl Register (fst st) cs"
proof (induction fs st rule: load_files.induct)
  case (1 st)
  then show ?case by (auto intro: exI[of _ "[]"])
next
  case (3 df fs st)
  then obtain cs where "fst st' = foldl Register (fst (load_file df st)) cs" by auto
  then show ?case by (simp add: load_file_def flip: foldl_append) blast
qed simp

lemma loaded_standard:
  assumes "LoadDeviceDir g (registerStandardClusters Map.empty) = (None, reg, db)" "e_registry env = reg"
  shows "standard_env env"
  using assms load_files_registers[of _ "(registerStandardClusters Map.empty, NewDeviceDB)" "(reg, db)"]
  by (auto simp: LoadDeviceDir_def standard_env_def split: sum.splits)

text \<open>The scripts of the start change no device and nothing that is stored.\<close>

abbreviation engine_dm :: "'l engine \<Rightarrow> dm" where
  "engine_dm e \<equiv> co_dm (lw_coord (en_world e))"

lemma startScript_dm:
  assumes "startScript env sc e = Some (err, e1)"
  shows "engine_dm e1 = engine_dm e"
proof -
  obtain r e2 where l: "load_script env sc e = Some (r, e2)" "engine_dm e1 = engine_dm e2"
    using assms by (auto simp: startScript_def install_def set_vm_def split: option.splits sum.splits prod.splits if_splits)
  obtain y where y: "DoString (ae_lua env) (lua_api (ae_ext env)) None (sc_LuaCode sc) (vm_state (new_vm env)) (vm_world (new_vm env) (en_world e)) = Some y"
    "en_world e2 = snd (snd y)" using l(1) by (auto simp: load_script_def Let_def split: option.splits)
  have "co_dm (lw_coord (snd (lua_api x a w))) = co_dm (lw_coord w)" for x a w using api_confined[of x a w] by (simp add: confined_def)
  then have "co_dm (lw_coord (snd (snd y))) = engine_dm e"
    by (intro DoString_inv[OF y(1), of "\<lambda>w. co_dm (lw_coord w) = engine_dm e"]) (simp_all add: vm_world_def)
  then show ?thesis using l(2) y(2) by simp
qed

lemma start_all_dm: "start_all env ss e = Some e1 \<Longrightarrow> engine_dm e1 = engine_dm e"
  by (induction env ss e rule: start_all.induct) (auto split: if_splits option.splits dest: startScript_dm)

lemma Engine_Start_dm: "Engine_Start env e = Some e1 \<Longrightarrow> engine_dm e1 = engine_dm e"
  using start_all_dm[of env _ "e\<lparr>en_subscribed := True\<rparr>" e1] by (auto simp: Engine_Start_def Let_def split: sum.splits)

lemma initAutomation_dm:
  assumes "initAutomation a mkdir c co = Some (auto, e, opts)"
  shows "engine_dm e = co_dm co \<and> opts = (if auto then [WithAutomation] else [])"
  using assms Engine_Start_dm by (fastforce simp: initAutomation_def NewEngine_def split: option.splits)

lemma server_fields:
  assumes "opts = (if auto then [WithAutomation] else [])"
  shows "sv_apiKey (NewServer (web_options c v opts)) = mc_APIKey c" "sv_allowedOrigins (NewServer (web_options c v opts)) = mc_AllowedOrigins c"
    "sv_devicesDir (NewServer (web_options c v opts)) = mc_DevicesDir c" "sv_auto (NewServer (web_options c v opts)) = auto"
  unfolding assms by (simp_all add: NewServer_def web_options_def WithDevicesDir_def WithAPIKey_def WithAllowedOrigins_def WithVersion_def WithAutomation_def)

lemma prepared:
  assumes "prepare h = Inr (c, reg, db, ext, co)"
  shows "loadConfig (he_yaml h) (he_file h) = Inr c" "validate c = None" "ParseExtPanID (mc_ExtPanID c) = Inr ext"
    "LoadDeviceDir (he_glob h (mc_DevicesDir c)) (registerStandardClusters Map.empty) = (None, reg, db)"
    "\<exists>st. he_store h (mc_StorePath c) = Some st \<and> dm_store (co_dm co) = st"
  using assms by (auto simp: prepare_def New_def RebuildAddrIndex_def NewDeviceManager_def split: sum.splits option.splits prod.splits)

lemma validated: "validate c = None \<Longrightarrow> 11 \<le> mc_Channel c \<and> mc_Channel c \<le> 26 \<and> mc_PanID c \<notin> {0, 0xFFFF}"
  by (auto simp: validate_def not_less split: if_splits)

text \<open>
  What the rest of the program relies on of the automation feature: it leaves what is stored as it is, and gives the web server the
  automation API exactly when the engine runs.
\<close>

locale automation_feature =
  fixes init :: "'l automation"
  assumes init_dm: "init a mkdir c co = Some (auto, e, opts) \<Longrightarrow> engine_dm e = co_dm co \<and> opts = (if auto then [WithAutomation] else [])"
begin

lemma running:
  assumes "main_with init mqtt h = Some (Running r)"
  shows "\<exists>c st. loadConfig (he_yaml h) (he_file h) = Inr c \<and> he_store h (mc_StorePath c) = Some st
    \<and> 11 \<le> mc_Channel c \<and> mc_Channel c \<le> 26 \<and> mc_PanID c \<notin> {0, 0xFFFF} \<and> length (cf_ExtPanID (we_cfg (hm_env r))) = 8
    \<and> standard_env (we_dm (hm_env r))
    \<and> sv_apiKey (hm_server r) = mc_APIKey c \<and> sv_allowedOrigins (hm_server r) = mc_AllowedOrigins c \<and> sv_auto (hm_server r) = hm_engine r
    \<and> sy_ExecAllowlist (le_system (ae_ext (we_auto (hm_env r)))) = mc_Allowlist c
    \<and> (canResumeNetwork (we_cfg (hm_env r)) (wb_store (hm_web r)) \<longleftrightarrow> b_ok st)"
proof -
  obtain c reg db ext co where p: "prepare h = Inr (c, reg, db, ext, co)" using assms by (auto simp: main_with_def split: sum.splits)
  obtain co1 where s: "Start (coord_config c ext) (he_start h) co = (Inr (), co1)" using assms p by (auto simp: main_with_def split: sum.splits prod.splits)
  let ?env = "running_env c reg db ext co1 (he_web h)"
  obtain auto e opts where i: "init (we_auto ?env) (he_mkdir h) c co1 = Some (auto, e, opts)"
    and r: "wb_engine (hm_web r) = e" "hm_env r = ?env" "hm_server r = NewServer (web_options c (he_version h) opts)" "hm_engine r = auto"
    using assms p s by (auto simp: main_with_def Let_def split: if_splits)
  note c = prepared[OF p]
  have "dm_store (engine_dm e) = dm_store (co_dm co1)" using init_dm[OF i] by simp
  then have "canResumeNetwork (we_cfg ?env) (wb_store (hm_web r)) \<longleftrightarrow> b_ok (dm_store (co_dm co))"
    using start_resumable[OF s] r(1) by (simp add: running_env_def wb_coord_def)
  moreover have "standard_env (we_dm ?env)" by (rule loaded_standard[OF c(4)]) (simp add: running_env_def)
  moreover have "length (cf_ExtPanID (we_cfg ?env)) = 8"
    using c(3) by (auto simp: running_env_def coord_config_def ParseExtPanID_def ParseIEEE_def split: sum.splits if_splits option.splits)
  ultimately show ?thesis
    using c(1,5) validated[OF c(2)] server_fields[OF conjunct2[OF init_dm[OF i]]] r
    by (auto simp: running_env_def auto_config_def)
qed

end

interpretation full: automation_feature initAutomation
  by unfold_locales (rule initAutomation_dm)

text \<open>
  C5: a program that runs has a network with a channel, a PAN id and an extended PAN id that are valid, the standard clusters with those of
  the definition files, a web server that checks the configured key and origins and has the automation API exactly when the engine runs, and
  an engine with the configured allow-list; and it can be restarted: with a store that works, the next start with this configuration will resume
  the network, whatever the scripts that ran at the start did.
\<close>

theorem program_running:
  assumes "main h = Some (Running r)"
  shows "\<exists>c st. loadConfig (he_yaml h) (he_file h) = Inr c \<and> he_store h (mc_StorePath c) = Some st
    \<and> 11 \<le> mc_Channel c \<and> mc_Channel c \<le> 26 \<and> mc_PanID c \<notin> {0, 0xFFFF} \<and> length (cf_ExtPanID (we_cfg (hm_env r))) = 8
    \<and> standard_env (we_dm (hm_env r))
    \<and> sv_apiKey (hm_server r) = mc_APIKey c \<and> sv_allowedOrigins (hm_server r) = mc_AllowedOrigins c \<and> sv_auto (hm_server r) = hm_engine r
    \<and> sy_ExecAllowlist (le_system (ae_ext (we_auto (hm_env r)))) = mc_Allowlist c
    \<and> (canResumeNetwork (we_cfg (hm_env r)) (wb_store (hm_web r)) \<longleftrightarrow> b_ok st)"
  by (rule full.running[OF assms[unfolded main_def]])

text \<open>
  C39: an enabled script that loops forever keeps the whole program from coming up: \<^verbatim>\<open>main\<close> does not return from the start of the engine, so
  that neither the web server, by which the script could be disabled, nor the bridge is started.
\<close>

theorem program_hangs:
  assumes "prepare h = Inr (c, reg, db, ext, co)" "Start (coord_config c ext) (he_start h) co = (Inr (), co1)"
    "he_mkdir h (mc_ScriptsDir c) = Some files"
    "Manager_List (ae_js (we_auto (he_web h))) (ae_os (we_auto (he_web h))) \<lparr>mg_dir = mc_ScriptsDir c, mg_files = files\<rparr> = Inr ss"
    "sc \<in> set ss" "sm_Enabled (sc_Meta sc)"
    "lm_load (ae_lua (we_auto (he_web h))) (sc_LuaCode sc) (newSandboxedLuaState (we_auto (he_web h))) = Inr l"
    "l \<in> D" "\<And>l. l \<in> D \<Longrightarrow> \<exists>l' \<in> D. lm_step (ae_lua (we_auto (he_web h))) l = LGo l'"
  shows "main h = None"
proof -
  let ?a = "auto_config c (we_auto (he_web h))"
  have a: "ae_lua ?a = ae_lua (we_auto (he_web h))" "ae_js ?a = ae_js (we_auto (he_web h))" "ae_os ?a = ae_os (we_auto (he_web h))"
    by (simp_all add: auto_config_def)
  have "newSandboxedLuaState ?a = newSandboxedLuaState (we_auto (he_web h))" by (simp add: newSandboxedLuaState_def a)
  then have "lm_load (ae_lua ?a) (sc_LuaCode sc) (newSandboxedLuaState ?a) = Inr l" using assms(7) a by simp
  note hang = endless_script_hangs[OF this assms(8), of "NewEngine co1 \<lparr>mg_dir = mc_ScriptsDir c, mg_files = files\<rparr>"]
  have "Engine_Start ?a (NewEngine co1 \<lparr>mg_dir = mc_ScriptsDir c, mg_files = files\<rparr>) = None"
    using hang assms(4-6,9) a by (simp add: NewEngine_def)
  then show ?thesis using assms(1-3) by (simp add: main_def main_with_def initAutomation_def running_env_def)
qed

section \<open>Instances\<close>

definition demo_main :: mainConfig where
  "demo_main = \<lparr>mc_NCPType = [], mc_NCPPort = ''/dev/ttyACM0'', mc_NCPBaud = 0, mc_Channel = 15, mc_PanID = 0x1A62,
     mc_ExtPanID = ''DD:DD:DD:DD:DD:DD:DD:DD'', mc_Listen = [], mc_APIKey = ''secret'', mc_AllowedOrigins = [], mc_StorePath = [], mc_MQTT = False,
     mc_Broker = [], mc_Username = [], mc_Password = [], mc_TopicPrefix = [], mc_LogLevel = [], mc_LogFormat = [], mc_BotToken = [], mc_ChatIDs = [],
     mc_Allowlist = [''/bin/date''], mc_ExecTimeout = [], mc_DevicesDir = [], mc_ScriptsDir = []\<rparr>"

definition demo_home :: "(string \<times> entry) list \<Rightarrow> nat home_env" where
  "demo_home files = \<lparr>he_file = Some [], he_yaml = (\<lambda>_. Some demo_main), he_glob = (\<lambda>_. Inr []), he_store = (\<lambda>_. Some NewBoltStore),
     he_open = (\<lambda>_ _. Some (demo_link (replicate 20 (Some (demo_frame 0 0 []))))), he_start = demo_start,
     he_mkdir = (\<lambda>_. Some files), he_templates = True, he_mqtt = ConnOk, he_web = demo_web_env, he_version = ''1''\<rparr>"

definition demo_new :: coord where
  "demo_new = New (new_ncp \<lparr>h_onJoined = False, h_onLeft = False, h_onAnnounce = False, h_onReport = False,
     h_onClusterCmd = False, h_onNwkAddrUpdate = False, h_onReset = False\<rparr>) (demo_link (replicate 20 (Some (demo_frame 0 0 [])))) NewBoltStore"

lemma demo_prepare: "prepare (demo_home files) = Inr (with_defaults demo_main, registerStandardClusters Map.empty, NewDeviceDB, replicate 8 0xDD, demo_new)"
proof -
  have "loadConfig (\<lambda>_. Some demo_main) (Some []) = Inr (with_defaults demo_main)" by (simp add: loadConfig_def)
  moreover have "validate (with_defaults demo_main) = None" "ParseExtPanID (mc_ExtPanID (with_defaults demo_main)) = Inr (replicate 8 0xDD)"
    "mc_NCPType (with_defaults demo_main) = []" by code_simp+
  ultimately show ?thesis by (simp add: prepare_def demo_home_def LoadDeviceDir_def createNCP_def demo_new_def)
qed

lemma demo_main_starts: "\<exists>co. Start (coord_config (with_defaults demo_main) (replicate 8 0xDD)) demo_start demo_new = (Inr (), co)"
proof -
  have "coord_config (with_defaults demo_main) (replicate 8 0xDD) = demo_config"
    by (simp add: coord_config_def with_defaults_def demo_main_def demo_config_def)
  moreover have "l_replies (co_link demo_new) = replicate 20 (Some (demo_frame 0 0 []))" by (simp add: demo_new_def New_def demo_link_def)
  moreover have "\<not> canResumeNetwork demo_config (dm_store (co_dm demo_new))"
    by (simp add: demo_new_def canResumeNetwork_def New_def RebuildAddrIndex_def ListDevices_def NewDeviceManager_def NewBoltStore_def GetNetworkState_def)
  ultimately show ?thesis using demo_starts by simp
qed

theorem program_running_witness:
  "\<exists>r. main (demo_home []) = Some (Running r) \<and> standard_env (we_dm (hm_env r)) \<and> sv_apiKey (hm_server r) = ''secret''
     \<and> canResumeNetwork (we_cfg (hm_env r)) (wb_store (hm_web r))"
proof -
  obtain co where s: "Start (coord_config (with_defaults demo_main) (replicate 8 0xDD)) (he_start (demo_home [])) demo_new = (Inr (), co)"
    using demo_main_starts by (auto simp: demo_home_def)
  have "Manager_List js demo_os \<lparr>mg_dir = d, mg_files = []\<rparr> = Inr []" for js d
    by (simp add: Manager_List_def demo_os_def)
  then have "\<exists>e. initAutomation (auto_config (with_defaults demo_main) (we_auto demo_web_env)) (\<lambda>_. Some []) (with_defaults demo_main) co = Some (True, e, [WithAutomation])"
    by (simp add: initAutomation_def Engine_Start_def NewEngine_def auto_config_def demo_web_env_def demo_auto_def)
  then have "\<exists>r. main (demo_home []) = Some (Running r)"
    using s by (auto simp: main_def main_with_def demo_prepare running_env_def) (auto simp: demo_home_def)
  then obtain r where r: "main (demo_home []) = Some (Running r)" by blast
  have c: "loadConfig (he_yaml (demo_home [])) (he_file (demo_home [])) = Inr (with_defaults demo_main)"
    "he_store (demo_home []) d = Some NewBoltStore" "mc_APIKey (with_defaults demo_main) = ''secret''" for d
    by (simp_all add: demo_home_def loadConfig_def with_defaults_def demo_main_def)
  have "b_ok NewBoltStore" by (simp add: NewBoltStore_def)
  with program_running[OF r] r show ?thesis by (auto simp: c)
qed

theorem program_hangs_witness: "main (demo_home (mg_files (demo_files ''loop''))) = None"
proof -
  let ?h = "demo_home (mg_files (demo_files ''loop''))"
  obtain co where s: "Start (coord_config (with_defaults demo_main) (replicate 8 0xDD)) (he_start ?h) demo_new = (Inr (), co)"
    using demo_main_starts by (auto simp: demo_home_def)
  have a: "we_auto (he_web ?h) = demo_auto" by (simp add: demo_home_def demo_web_env_def)
  have f: "he_mkdir ?h (mc_ScriptsDir (with_defaults demo_main)) = Some (mg_files (demo_files ''loop''))" by (simp add: demo_home_def)
  have "\<lparr>mg_dir = mc_ScriptsDir (with_defaults demo_main), mg_files = mg_files (demo_files ''loop'')\<rparr> = demo_files ''loop''"
    by (simp add: demo_files_def with_defaults_def default_def demo_main_def)
  then have m: "Manager_List (ae_js (we_auto (he_web ?h))) (ae_os (we_auto (he_web ?h))) \<lparr>mg_dir = mc_ScriptsDir (with_defaults demo_main),
      mg_files = mg_files (demo_files ''loop'')\<rparr> = Inr [demo_on ''loop'']" using demo_listing a by simp
  have l: "lm_load (ae_lua (we_auto (he_web ?h))) (sc_LuaCode (demo_on ''loop'')) (newSandboxedLuaState (we_auto (he_web ?h))) = Inr 1"
    unfolding a by (simp add: demo_auto_def demo_machine_def demo_programs demo_on_def)
  have st: "\<exists>l' \<in> {1}. lm_step (ae_lua (we_auto (he_web ?h))) l = LGo l'" if "l \<in> {1}" for l
    using that unfolding a by (simp add: demo_auto_def demo_machine_def)
  have "demo_on ''loop'' \<in> set [demo_on ''loop'']" "sm_Enabled (sc_Meta (demo_on ''loop''))" by (simp_all add: demo_on_def)
  then show ?thesis using program_hangs[OF demo_prepare s f m _ _ l _ st] by simp
qed

end
