(* ===== verification/Builds.thy ===== *)
theory Builds
  imports Zigbee_Home
begin

text \<open>
  The builds without a feature: \<^verbatim>\<open>internal/automation/stub.go\<close> and \<^verbatim>\<open>feature_automation_stub.go\<close> (tag
  \<^verbatim>\<open>no_automation\<close>), \<^verbatim>\<open>feature_mqtt_stub.go\<close> (tag \<^verbatim>\<open>no_mqtt\<close>). A nil pointer is \<open>None\<close>.
\<close>

section \<open>The automation package without an engine\<close>

type_synonym stubManager = unit

type_synonym stubEngine = unit

definition stub_NewManager :: "string \<Rightarrow> script_error + stubManager option" where
  "stub_NewManager d = Inr None"

definition stub_List :: "stubManager \<Rightarrow> script_error + Script list" where
  "stub_List m = Inr []"

definition stub_Get :: "string \<Rightarrow> stubManager \<Rightarrow> script_error + Script option" where
  "stub_Get i m = Inr None"

definition stub_Save :: "Script \<Rightarrow> stubManager \<Rightarrow> script_error + Script" where
  "stub_Save s m = Inr s"

definition stub_Delete :: "string \<Rightarrow> stubManager \<Rightarrow> script_error + unit" where
  "stub_Delete i m = Inr ()"

definition stub_NewEngine :: "coord \<Rightarrow> stubManager option \<Rightarrow> SystemConfig \<Rightarrow> TelegramConfig \<Rightarrow> stubEngine" where
  "stub_NewEngine c m sys tg = ()"

definition stub_Start :: "stubEngine \<Rightarrow> stubEngine" where
  "stub_Start e = e"

definition stub_Stop :: "stubEngine \<Rightarrow> stubEngine" where
  "stub_Stop e = e"

definition stub_ReloadScript :: "string \<Rightarrow> stubEngine \<Rightarrow> (script_error + unit) \<times> stubEngine" where
  "stub_ReloadScript i e = (Inr (), e)"

definition stub_StopScript :: "string \<Rightarrow> stubEngine \<Rightarrow> stubEngine" where
  "stub_StopScript i e = e"

definition stub_RunScript :: "string \<Rightarrow> stubEngine \<Rightarrow> RunResult" where
  "stub_RunScript i e = \<lparr>rr_OK = False, rr_Error = ''automation disabled'', rr_Logs = []\<rparr>"

definition stub_RunLuaCode :: "string \<Rightarrow> stubEngine \<Rightarrow> RunResult" where
  "stub_RunLuaCode code e = \<lparr>rr_OK = False, rr_Error = ''automation disabled'', rr_Logs = []\<rparr>"

section \<open>The features\<close>

text \<open>
  No engine runs and the web server gets no option. The coordinator is kept in a record of the engine's type without
  scripts, as it is where the full feature fails to make its directory.
\<close>

definition stub_initAutomation :: "'l automation" where
  "stub_initAutomation a mkdir c co = Some (False, NewEngine co \<lparr>mg_dir = mc_ScriptsDir c, mg_files = []\<rparr>, [])"

definition stub_initMQTT :: mqtt_feature where
  "stub_initMQTT out c = None"

interpretation plain: automation_feature stub_initAutomation
  by unfold_locales (auto simp: stub_initAutomation_def NewEngine_def)

section \<open>What such builds do\<close>

text \<open>Without automation the start always ends: nothing that could run forever is left.\<close>

lemma plain_main_returns: "main_with stub_initAutomation mqtt h \<noteq> None"
  by (simp add: main_with_def stub_initAutomation_def Let_def split: sum.split prod.split)

text \<open>The build is the full program whose scripts directory cannot be made, and without MQTT the one whose bridge fails to connect.\<close>

lemma prepare_mkdir: "prepare (h\<lparr>he_mkdir := f\<rparr>) = prepare h"
  by (simp add: prepare_def cong: sum.case_cong option.case_cong prod.case_cong)

lemma plain_is_full_without_directory:
  "main_with stub_initAutomation mqtt h = main_with initAutomation mqtt (h\<lparr>he_mkdir := (\<lambda>_. None)\<rparr>)"
  by (auto simp: main_with_def prepare_mkdir stub_initAutomation_def initAutomation_def Let_def
    split: sum.split prod.split)

lemma no_mqtt_is_disabled: "stub_initMQTT out c = initMQTT out (c\<lparr>mc_MQTT := False\<rparr>)"
  by (simp add: stub_initMQTT_def initMQTT_def)

text \<open>What holds of a running full program holds of a running plain one, and it has no automation API.\<close>

lemma plain_running:
  assumes "main_with stub_initAutomation stub_initMQTT h = Some (Running r)"
  shows "\<not> sv_auto (hm_server r) \<and> \<not> hm_engine r \<and> en_vms (wb_engine (hm_web r)) = [] \<and> hm_bridge r = None"
proof -
  have "hm_engine r = sv_auto (hm_server r)" using plain.running[OF assms] by auto
  moreover have "\<not> hm_engine r \<and> en_vms (wb_engine (hm_web r)) = [] \<and> hm_bridge r = None"
    using assms by (auto simp: main_with_def stub_initAutomation_def stub_initMQTT_def NewEngine_def Let_def split: sum.splits prod.splits if_splits)
  ultimately show ?thesis by simp
qed

end
