(* ===== verification/Web_Automation.thy ===== *)
theory Web_Automation
  imports Web_Theorems
begin

text \<open>
  What the automation API does to the VMs: the VM of a script that a request changes or deletes.
\<close>

section \<open>Replaced VMs\<close>

text \<open>
  The VM \<open>n\<close> of the script \<open>i\<close> has been cancelled and is not the script's any more; if the script has a VM it is a new one, which runs. Every other
  VM that there was is the very same value as before, and every other script still has its own.
\<close>

definition gone :: "string \<Rightarrow> nat \<Rightarrow> 'l engine \<Rightarrow> 'l engine \<Rightarrow> bool" where
  "gone i n e0 e \<longleftrightarrow> n < length (en_pool e0) \<and> length (en_pool e0) \<le> length (en_pool e) \<and> vm_cancelled (en_pool e ! n)
     \<and> (\<forall>m < length (en_pool e0). m \<noteq> n \<longrightarrow> en_pool e ! m = en_pool e0 ! m)
     \<and> (\<forall>j. j \<noteq> i \<longrightarrow> map_of (en_vms e) j = map_of (en_vms e0) j)
     \<and> (case map_of (en_vms e) i of None \<Rightarrow> True
          | Some n' \<Rightarrow> length (en_pool e0) \<le> n' \<and> n' < length (en_pool e) \<and> vm_loop (en_pool e ! n') \<and> \<not> vm_cancelled (en_pool e ! n'))"

lemma map_of_filter_key: "map_of (filter (\<lambda>v. fst v \<noteq> i) vs) j = (if j = i then None else map_of vs j)"
  by (induction vs) auto

lemma stop_gone:
  assumes "map_of (en_vms e) i = Some n" "n < length (en_pool e)"
  shows "gone i n e (stopScript i e)" "map_of (en_vms (stopScript i e)) i = None"
  using assms by (simp_all add: gone_def stopScript_def map_of_filter_key set_vm_pool)

lemma load_pool:
  assumes "load_script env sc e = Some (r, e1)"
  obtains v where "en_pool e1 = en_pool e @ [v]" "en_vms e1 = en_vms e" "vm_cancelled v = isl r" "\<forall>k. r = Inr k \<longrightarrow> k = length (en_pool e)"
proof -
  note s = load_shape[OF assms]
  obtain v where v: "en_pool e1 = en_pool e @ [v]" using assms by (auto simp: load_script_def Let_def split: option.splits)
  have "flag v = (False, case r of Inl err \<Rightarrow> True | Inr n \<Rightarrow> False)" using s(2) unfolding v by simp
  then show thesis using that[OF v s(1)] s(3) by (cases r) (simp_all add: flag_def)
qed

lemma load_gone:
  assumes "load_script env sc e = Some (r, e1)" "gone i n e0 e"
  shows "gone i n e0 e1"
proof -
  obtain v where v: "en_pool e1 = en_pool e @ [v]" "en_vms e1 = en_vms e" using load_pool[OF assms(1)] by metis
  show ?thesis using assms(2) unfolding gone_def v by (auto simp: nth_append split: option.split)
qed

lemma put_vm_map: "map_of (put_vm i n vms) j = (if j = i then Some n else map_of vms j)"
  by (auto simp: put_vm_def map_add_def map_of_filter_key split: option.split)

lemma start_gone:
  assumes "startScript env sc e = Some (err, e1)" "gone (sc_ID sc) n e0 e"
  shows "gone (sc_ID sc) n e0 e1"
proof -
  obtain r e2 where l: "load_script env sc e = Some (r, e2)" using assms(1) by (auto simp: startScript_def split: option.splits)
  obtain v where v: "en_pool e2 = en_pool e @ [v]" "vm_cancelled v = isl r" "\<forall>k. r = Inr k \<longrightarrow> k = length (en_pool e)" using load_pool[OF l] by metis
  have g: "gone (sc_ID sc) n e0 e2" by (rule load_gone[OF l assms(2)])
  show ?thesis
  proof (cases r)
    case (Inr k)
    then have k: "k = length (en_pool e)" "\<not> vm_cancelled v" using v by simp_all
    have e1: "en_pool e1 = en_pool e @ [v\<lparr>vm_loop := True\<rparr>]" "en_vms e1 = put_vm (sc_ID sc) k (en_vms e2)"
      using assms(1) l Inr v(1) k(1) by (auto simp: startScript_def install_def set_vm_def)
    show ?thesis using g assms(2) k unfolding gone_def e1 v(1) put_vm_map by (auto simp: nth_append)
  qed (use assms(1) l g in \<open>auto simp: startScript_def\<close>)
qed

lemma get_id: "Manager_Get js os i m = Inr sc \<Longrightarrow> sc_ID sc = i"
  by (auto simp: Manager_Get_def parseFile_def parse_content_def Let_def split: if_splits option.splits entry.splits)

lemma reload_gone:
  assumes "ReloadScript env i e = Some (err, e1)" "map_of (en_vms e) i = Some n" "n < length (en_pool e)"
  shows "gone i n e e1"
proof -
  obtain r where r: "reload_begin env i e = (r, stopScript i e)" unfolding reload_begin_def Let_def by blast
  show ?thesis
  proof (cases r)
    case (Inl f)
    then show ?thesis using assms(1) r stop_gone(1)[OF assms(2,3)] by (auto simp: ReloadScript_def)
  next
    case (Inr sc)
    then have i: "sc_ID sc = i" using r get_id by (auto simp: reload_begin_def Let_def)
    show ?thesis
    proof (cases "sm_Enabled (sc_Meta sc)")
      case True
      then obtain err' where "startScript env sc (stopScript i e) = Some (err', e1)" using assms(1) r Inr by (auto simp: ReloadScript_def)
      then show ?thesis using start_gone[of env sc _ err' e1 n e] stop_gone(1)[OF assms(2,3)] i by simp
    next
      case False
      then show ?thesis using assms(1) r Inr stop_gone(1)[OF assms(2,3)] by (auto simp: ReloadScript_def)
    qed
  qed
qed

lemma set_manager_engine: "en_vms (wb_engine (set_manager m w)) = en_vms (wb_engine w)" "en_pool (wb_engine (set_manager m w)) = en_pool (wb_engine w)"
  by (simp_all add: set_manager_def)

lemma gone_manager: "gone i n (wb_engine (set_manager m w)) e \<longleftrightarrow> gone i n (wb_engine w) e"
  "gone i n e0 (wb_engine (set_manager m w)) \<longleftrightarrow> gone i n e0 (wb_engine w)"
  by (simp_all only: gone_def set_manager_engine)

lemma reload_web_gone:
  assumes "reload_web env i (set_manager m w) = Some w'" "map_of (en_vms (wb_engine w)) i = Some n" "n < length (en_pool (wb_engine w))"
  shows "gone i n (wb_engine w) (wb_engine w')"
proof -
  obtain err e1 where r: "ReloadScript (we_auto env) i (wb_engine (set_manager m w)) = Some (err, e1)" "w' = (set_manager m w)\<lparr>wb_engine := e1\<rparr>"
    using assms(1) by (auto simp: reload_web_def)
  show ?thesis using reload_gone[OF r(1), of n] assms(2,3) unfolding set_manager_engine gone_manager r(2) by simp
qed

lemma stop_web_gone:
  assumes "map_of (en_vms (wb_engine w)) i = Some n" "n < length (en_pool (wb_engine w))"
  shows "gone i n (wb_engine w) (wb_engine (stop_web i (set_manager m w)))" "gone i n (wb_engine w) (wb_engine (stop_web i w))"
  using stop_gone(1)[of "wb_engine (set_manager m w)" i n] stop_gone(1)[of "wb_engine w" i n] assms
  by (simp_all add: set_manager_engine gone_manager stop_web_def StopScript_def)

lemma saved_id:
  assumes "Manager_Save os sc m = (Inr saved, m')" "Manager_Get js os i m = Inr old" "sc_ID sc = sc_ID old"
  shows "sc_ID saved = i"
proof -
  have "sc_ID sc = i" "validScriptID i" using get_id[OF assms(2)] assms(2,3) by (auto simp: Manager_Get_def split: if_splits)
  then have "sc_ID sc \<noteq> []" by (auto simp: validScriptID_def)
  then show ?thesis using save_fields(4)[OF assms(1)] \<open>sc_ID sc = i\<close> by simp
qed

text \<open>
  C16: a request that changes, deletes or toggles a script ends its old code and touches no other. When the answer is 200, the VM that ran the script is cancelled,
  the script has no VM (always so after a deletion) or a new one, which runs, and every other VM is exactly as it was, with its context, its queue, its handlers and its loop.
\<close>

theorem update_replaces_vm:
  assumes "r \<in> {UpdateAutomationApi, DeleteAutomationApi, ToggleAutomationApi}" "handler_of r env s [i] rq w = Some (resp, w')"
    "rs_Status resp = 200" "map_of (en_vms (wb_engine w)) i = Some n" "n < length (en_pool (wb_engine w))"
  shows "gone i n (wb_engine w) (wb_engine w') \<and> (r = DeleteAutomationApi \<longrightarrow> map_of (en_vms (wb_engine w')) i = None)"
  using assms(1)
proof (elim insertE emptyE)
  assume "r = UpdateAutomationApi"
  then show ?thesis using assms(2,3) reload_web_gone[OF _ assms(4,5)] saved_id[of "ae_os (we_auto env)" _ "wb_manager w" _ _ "ae_js (we_auto env)" i]
    by (auto simp: handler_of_def handleAPIUpdateAutomation_def Let_def split: option.splits prod.splits sum.splits if_splits)
next
  assume "r = DeleteAutomationApi"
  then show ?thesis using assms(2,3) stop_web_gone(2)[OF assms(4,5)] stop_gone(2)[OF assms(4,5)]
    by (auto simp: handler_of_def handleAPIDeleteAutomation_def Let_def gone_manager set_manager_engine stop_web_def StopScript_def
        split: prod.splits sum.splits if_splits)
next
  assume "r = ToggleAutomationApi"
  then show ?thesis using assms(2,3) reload_web_gone[OF _ assms(4,5)] stop_web_gone(1)[OF assms(4,5)]
      saved_id[of "ae_os (we_auto env)" _ "wb_manager w" _ _ "ae_js (we_auto env)" i]
    by (auto simp: handler_of_def handleAPIToggleAutomation_def Let_def split: option.splits prod.splits sum.splits if_splits)
qed

section \<open>Instances\<close>

definition demo_running_web :: "nat web" where
  "demo_running_web = \<lparr>wb_engine = (NewEngine demo_auto_coord (demo_files ''on''))\<lparr>en_vms := [(''a'', 0)], en_pool := [demo_vm\<lparr>vm_loop := True\<rparr>]\<rparr>, wb_photos = []\<rparr>"

theorem update_replaces_vm_witness:
  "\<exists>resp w'. handler_of DeleteAutomationApi demo_web_env demo_server [''a''] (demo_request ''DELETE'' ''/api/automations/a'') demo_running_web = Some (resp, w')
     \<and> rs_Status resp = 200 \<and> gone ''a'' 0 (wb_engine demo_running_web) (wb_engine w')"
proof -
  have "Manager_Delete (ae_os demo_auto) ''a'' (demo_files ''on'') = (Inr (), (demo_files ''on'')\<lparr>mg_files := []\<rparr>)"
    by (simp add: Manager_Delete_def validScriptID_def demo_auto_def demo_os_def demo_files_def script_file_def bucket_delete_def contains_def HasPrefix_def)
  moreover have "sv_auto demo_server" by code_simp
  ultimately obtain resp w' where h: "handler_of DeleteAutomationApi demo_web_env demo_server [''a''] (demo_request ''DELETE'' ''/api/automations/a'') demo_running_web = Some (resp, w')"
    "rs_Status resp = 200"
    by (simp add: handler_of_def handleAPIDeleteAutomation_def wb_manager_def stop_web_def StopScript_def stopScript_def demo_running_web_def
        NewEngine_def demo_web_env_def set_vm_def)
  have v: "map_of (en_vms (wb_engine demo_running_web)) ''a'' = Some 0" "0 < length (en_pool (wb_engine demo_running_web))"
    by (simp_all add: demo_running_web_def)
  show ?thesis using update_replaces_vm[OF _ h v] h by simp
qed

end
