(* ===== verification/Stored_Types.thy ===== *)
theory Stored_Types
  imports Web_Server
begin

text \<open>
  The dynamic types in the store. Values come from the radio in many types; whatever the order of the device manager's steps, what the
  store holds has the types of JSON, which is what the pages and the API read.
\<close>

section \<open>JSON types\<close>

fun json_typed :: "gval \<Rightarrow> bool" where
  "json_typed GNil \<longleftrightarrow> True"
| "json_typed (GBool b) \<longleftrightarrow> True"
| "json_typed (GF64 w) \<longleftrightarrow> f64_exp w \<noteq> 2047"
| "json_typed (GStr s) \<longleftrightarrow> json_string s = s"
| "json_typed (GList vs) \<longleftrightarrow> list_all json_typed vs"
| "json_typed (GMap kvs) \<longleftrightarrow> list_all (\<lambda>kv. json_typed (snd kv)) kvs"
| "json_typed _ \<longleftrightarrow> False"

definition device_typed :: "js32 \<Rightarrow> Device \<Rightarrow> bool" where
  "device_typed js d \<longleftrightarrow> list_all (\<lambda>kv. json_typed (snd kv)) (dev_Properties d) \<and> json_device js d = Some d"

definition store_typed :: "js32 \<Rightarrow> bolt \<Rightarrow> bool" where
  "store_typed js st \<longleftrightarrow> (\<forall>kd \<in> set (b_devices st). device_typed js (snd kd))"

text \<open>The decimal of a finite float32 is that of a finite float64.\<close>

definition js_finite :: "js32 \<Rightarrow> bool" where
  "js_finite js \<longleftrightarrow> (\<forall>w. f32_exp w \<noteq> 255 \<longrightarrow> f64_exp (js w) \<noteq> 2047)"

lemma those_map_all:
  assumes "those (map f xs) = Some ys" "\<And>x y. x \<in> set xs \<Longrightarrow> f x = Some y \<Longrightarrow> P y"
  shows "list_all P ys"
  using assms
proof (induction xs arbitrary: ys)
  case (Cons x xs)
  obtain y zs where y: "f x = Some y" "those (map f xs) = Some zs" "ys = y # zs" using Cons.prems(1) by (auto split: option.splits)
  have "list_all P zs" by (rule Cons.IH[OF y(2)]) (rule Cons.prems(2), simp_all)
  then show ?case using Cons.prems(2)[OF _ y(1)] y(3) by simp
qed simp

lemma json_value_typed:
  assumes "js_finite js" "json_value js v = Some v'"
  shows "json_typed v'"
  using assms(2)
proof (induction v arbitrary: v')
  case (GList vs)
  then obtain ws where w: "those (map (json_value js) vs) = Some ws" "v' = GList ws" by auto
  show ?case unfolding w(2) using those_map_all[OF w(1)] GList.IH by simp
next
  case (GMap kvs)
  then obtain ws where w: "those (map (\<lambda>kv. map_option (Pair (fst kv)) (json_value js (snd kv))) kvs) = Some ws" "v' = GMap ws" by auto
  have "list_all (\<lambda>kv. json_typed (snd kv)) ws" by (rule those_map_all[OF w(1)]) (use GMap.IH in \<open>auto simp: prod_set_simps(2)\<close>)
  then show ?case unfolding w(2) by simp
next
  case (GAddr a)
  then show ?case by (auto simp: list_all_iff)
qed (use assms(1) in \<open>auto simp: js_finite_def split: if_splits\<close>)

lemma json_device_typed:
  assumes "js_finite js" "json_device js d = Some d'"
  shows "device_typed js d'"
proof -
  let ?g = "\<lambda>kv. map_option (Pair (fst kv)) (json_value js (snd kv))"
  obtain ps where ps: "those (map ?g (dev_Properties d)) = Some ps" "dev_Properties d' = ps"
    using assms(2) by (auto simp: json_device_def split: option.splits)
  have "list_all (\<lambda>kv. json_typed (snd kv)) ps" by (rule those_map_all[OF ps(1)]) (use json_value_typed[OF assms(1)] in auto)
  moreover have "json_device js d' = Some d'" using assms by (intro json_device_idem[OF _ assms(2)]) (simp add: js_finite_def)
  ultimately show ?thesis using ps(2) by (simp add: device_typed_def)
qed

section \<open>Every step keeps the types\<close>

lemma typed_put: "store_typed js st \<Longrightarrow> device_typed js d \<Longrightarrow> store_typed js (st\<lparr>b_devices := bucket_put k d (b_devices st)\<rparr>)"
  using set_bucket_put[of k d "b_devices st"] by (auto simp: store_typed_def)

lemma typed_Save [simp]: "js_finite js \<Longrightarrow> store_typed js st \<Longrightarrow> store_typed js (snd (SaveDevice js d st))"
  by (auto simp: SaveDevice_def intro!: typed_put json_device_typed split: option.split)

lemma typed_Update [simp]: "js_finite js \<Longrightarrow> store_typed js st \<Longrightarrow> store_typed js (snd (UpdateDevice js i f st))"
  by (auto simp: UpdateDevice_def intro!: typed_put json_device_typed split: option.split)

lemma typed_Delete [simp]: "store_typed js st \<Longrightarrow> store_typed js (snd (DeleteDevice i st))"
  by (auto simp: DeleteDevice_def store_typed_def bucket_delete_def)

lemma typed_update_and_get:
  "js_finite (e_js env) \<Longrightarrow> store_typed (e_js env) (dm_store s) \<Longrightarrow> store_typed (e_js env) (dm_store (snd (update_and_get env i f s)))"
  by (simp add: update_and_get_def Let_def)

lemma typed_save_properties:
  "js_finite (e_js env) \<Longrightarrow> store_typed (e_js env) (dm_store s) \<Longrightarrow> store_typed (e_js env) (dm_store (save_properties env i d pvs s))"
  by (simp add: save_properties_def Let_def)

lemma typed_standard:
  "js_finite (e_js env) \<Longrightarrow> store_typed (e_js env) (dm_store s) \<Longrightarrow> store_typed (e_js env) (dm_store (emitStandardProperty env i dev evt v s))"
  by (simp add: emitStandardProperty_def Let_def split: option.split)

lemma typed_join_read: "join_read now sh a s = (dev, s') \<Longrightarrow> dm_store s' = dm_store s"
  by (auto simp: join_read_def updateAddrIndex_def Let_def)

lemma typed_join_write:
  assumes "js_finite (e_js env)" "store_typed (e_js env) (dm_store s)"
  shows "store_typed (e_js env) (dm_store (join_write env sh a dev s))"
proof (cases dev)
  case (Some d)
  obtain r st where st: "SaveDevice (e_js env) d (dm_store s) = (r, st)" by (metis prod.collapse)
  then have "store_typed (e_js env) st" using typed_Save[OF assms, of d] by simp
  then show ?thesis by (simp add: join_write_def Some st split: sum.split)
qed (use assms in \<open>simp add: join_write_def\<close>)

lemma typed_join:
  assumes "js_finite (e_js env)" "store_typed (e_js env) (dm_store s)"
  shows "store_typed (e_js env) (dm_store (HandleJoin env now sh a s))"
proof -
  obtain dev s1 where r: "join_read now sh a s = (dev, s1)" by (metis prod.collapse)
  then show ?thesis using assms typed_join_read[OF r] by (simp add: HandleJoin_def typed_join_write)
qed

lemma typed_report:
  assumes "js_finite (e_js env)" "store_typed (e_js env) (dm_store s)"
  shows "store_typed (e_js env) (dm_store (HandleAttributeReport env now evt s))"
proof -
  obtain i s1 where l: "lookupOrRebuild (rpt_SrcAddr evt) s = (i, s1)" by (metis prod.collapse)
  obtain dev s2 where u: "update_and_get env i (report_update now evt (decode_report evt)) s1 = (dev, s2)" by (metis prod.collapse)
  have "store_typed (e_js env) (dm_store s1)" using lookup_simps(1)[of "rpt_SrcAddr evt" s] l assms(2) by simp
  from typed_update_and_get[OF assms(1) this, of i "report_update now evt (decode_report evt)"] u
  have "store_typed (e_js env) (dm_store s2)" by simp
  then show ?thesis unfolding HandleAttributeReport_def Let_def l u prod.case
    using assms(1) by (auto simp: processProperties_def intro!: typed_standard typed_save_properties split: option.split prod.split)
qed

lemma typed_command:
  assumes "js_finite (e_js env)" "store_typed (e_js env) (dm_store s)"
  shows "store_typed (e_js env) (dm_store (HandleClusterCommand env now evt s))"
proof -
  let ?f = "\<lambda>d. Some (seen now (cc_LQI evt) (cc_RSSI evt) d)"
  obtain i s1 where l: "lookupOrRebuild (cc_SrcAddr evt) s = (i, s1)" by (metis prod.collapse)
  obtain dev s2 where u: "update_and_get env i ?f s1 = (dev, s2)" by (metis prod.collapse)
  have "store_typed (e_js env) (dm_store s1)" using lookup_simps(1)[of "cc_SrcAddr evt" s] l assms(2) by simp
  from typed_update_and_get[OF assms(1) this, of i ?f] u have "store_typed (e_js env) (dm_store s2)" by simp
  then show ?thesis unfolding HandleClusterCommand_def Let_def l u prod.case
    using assms(1) by (auto simp: processClusterCommandProperties_def intro!: typed_save_properties split: option.split prod.split)
qed

lemma typed_cancel_all: "dm_store (CancelAllInterviews is s) = dm_store s"
  unfolding CancelAllInterviews_def by (induction "is" arbitrary: s) simp_all

lemma typed_removed: "DeleteDevice i st = (r, st') \<Longrightarrow> store_typed js st \<Longrightarrow> store_typed js st'"
  using typed_Delete[of js st i] by simp

lemma typed_remove: "store_typed js (dm_store s) \<Longrightarrow> RemoveDevice order i s l = (r, s', l') \<Longrightarrow> store_typed js (dm_store s')"
  by (auto simp: RemoveDevice_def Let_def split: sum.splits prod.splits dest: typed_removed)

lemma typed_step: "dm_step env s s' \<Longrightarrow> js_finite (e_js env) \<Longrightarrow> store_typed (e_js env) (dm_store s) \<Longrightarrow> store_typed (e_js env) (dm_store s')"
proof (induction rule: dm_step.induct)
  case (index a s sh)
  then show ?case by (simp add: updateAddrIndex_def)
next
  case (start s i now)
  then show ?case by (simp add: debounce_def)
next
  case (join_rd a now sh s dev s')
  then show ?case using typed_join_read by metis
next
  case (leave s order a)
  then show ?case by (simp add: HandleLeave_def Let_def)
next
  case (ann_read a now sh s dev s')
  then show ?case by (auto simp: announce_read_def updateAddrIndex_def Let_def)
next
  case (ann_write a dev s now sh)
  then show ?case by (simp add: announce_write_def start_defs Let_def split: option.split)
next
  case (rebuild s)
  then show ?case by (simp add: RebuildAddrIndex_def split: sum.split)
next
  case (iv_begin i s)
  then show ?case by (simp add: interview_begin_def Let_def split: option.split)
next
  case (iv_save s i d)
  then show ?case by (simp add: interview_save_def)
next
  case (iv_end s i gen)
  then show ?case by (simp add: interview_end_def split: option.split)
next
  case (remove order i s l r s' l')
  then show ?case using typed_remove by blast
qed (simp_all add: typed_join typed_join_write typed_report typed_command typed_cancel_all)

lemma typed_reach: "(dm_step env)\<^sup>*\<^sup>* s s' \<Longrightarrow> js_finite (e_js env) \<Longrightarrow> store_typed (e_js env) (dm_store s) \<Longrightarrow> store_typed (e_js env) (dm_store s')"
  by (induction rule: rtranclp_induct) (auto intro: typed_step)

text \<open>
  C12: in every interleaving the values of a stored device have the types of JSON (nil, booleans, finite float64 numbers, valid strings, and
  lists and maps of them), whatever types the radio, a definition's decoder or the API brought in, and a further save leaves them as they are.
  So the numbers that the pages show are always read from a float64, and the API's answers with stored devices are never
  empty for a value that JSON does not have.
\<close>

theorem stored_types:
  assumes "js_finite (e_js env)" "store_typed (e_js env) st" "(dm_step env)\<^sup>*\<^sup>* (RebuildAddrIndex (NewDeviceManager st)) s"
    "ListDevices (dm_store s) = Inr ds"
  shows "encodable (e_js env) (JDevices ds)
     \<and> (\<forall>d \<in> set ds. json_device (e_js env) d = Some d \<and> list_all (\<lambda>kv. json_typed (snd kv)) (dev_Properties d)
          \<and> (\<forall>p n. int_of fp d p = Some n \<longrightarrow> (\<exists>w. map_of (dev_Properties d) p = Some (GF64 w) \<and> n = sint (f64_to_i64 fp w))))"
proof -
  have "dm_store (RebuildAddrIndex (NewDeviceManager st)) = st"
    by (simp add: RebuildAddrIndex_def NewDeviceManager_def split: sum.split)
  then have "store_typed (e_js env) (dm_store s)" using typed_reach[OF assms(3,1)] assms(2) by simp
  then have t: "device_typed (e_js env) d" if "d \<in> set ds" for d
    using assms(4) that by (auto simp: ListDevices_def store_typed_def split: if_splits)
  have "\<exists>w. map_of (dev_Properties d) p = Some (GF64 w) \<and> n = sint (f64_to_i64 fp w)" if h: "d \<in> set ds" "int_of fp d p = Some n" for d p n
  proof -
    obtain v where v: "map_of (dev_Properties d) p = Some v" "toInt fp v = Some n"
      using h(2) by (auto simp: int_of_def bind_eq_Some_conv)
    then have "json_typed v" using t[OF h(1)] map_of_SomeD[OF v(1)] by (auto simp: device_typed_def list_all_iff)
    then show ?thesis using v by (cases v) auto
  qed
  then show ?thesis using t by (auto simp: device_typed_def encodable_def list_all_iff)
qed

theorem stored_types_witness:
  "\<exists>s d. (dm_step demo_env)\<^sup>*\<^sup>* (RebuildAddrIndex (NewDeviceManager NewBoltStore)) s \<and> ListDevices (dm_store s) = Inr [d]
     \<and> encodable (e_js demo_env) (JDevices [d]) \<and> json_device (e_js demo_env) d = Some d"
proof -
  let ?init = "RebuildAddrIndex (NewDeviceManager NewBoltStore)"
  let ?s = "HandleJoin demo_env 5 0x1234 (replicate 8 1) ?init"
  have "dm_step demo_env ?init ?s" by (rule dm_step.join) simp
  then have r: "(dm_step demo_env)\<^sup>*\<^sup>* ?init ?s" by (rule r_into_rtranclp)
  have f: "js_finite (e_js demo_env)" "store_typed (e_js demo_env) NewBoltStore"
    by (simp_all add: js_finite_def store_typed_def NewBoltStore_def demo_env_def f64_exp_def)
  have "dm_store ?init = NewBoltStore" by (simp add: RebuildAddrIndex_def NewDeviceManager_def split: sum.split)
  then have "\<exists>d. ListDevices (dm_store ?s) = Inr [d]"
    by (auto simp: join_defs updateAddrIndex_def GetDevice_def SaveDevice_def ListDevices_def NewBoltStore_def json_device_def new_device_def
        Let_def split: sum.split)
  then obtain d where d: "ListDevices (dm_store ?s) = Inr [d]" by blast
  from stored_types[OF f r d] r d show ?thesis by auto
qed

end
