(* ===== verification/Script_Table.thy ===== *)
theory Script_Table
  imports Automation_Scripts Keyed_Store
begin

text \<open>
  The directory of scripts as a table: \<^verbatim>\<open>Manager\<close> keeps the contract \<open>keyed_store\<close> when its files can be read and written.
\<close>

definition find_script :: "(string \<Rightarrow> jval option) \<Rightarrow> os_env \<Rightarrow> string \<Rightarrow> Manager \<Rightarrow> Script option" where
  "find_script js os i m = (case Manager_Get js os i m of Inl e \<Rightarrow> None | Inr s \<Rightarrow> Some s)"

text \<open>What a saved script is read back as.\<close>

definition reread :: "(string \<Rightarrow> jval option) \<Rightarrow> Script \<Rightarrow> Script" where
  "reread js s = parse_content js (sc_ID s) (sc_FilePath s) (serializeScript s)"

definition put_script :: "(string \<Rightarrow> jval option) \<Rightarrow> os_env \<Rightarrow> Script \<Rightarrow> Manager \<Rightarrow> (string \<times> Script) option \<times> Manager" where
  "put_script js os s m = (case Manager_Save os s m of (Inl e, m1) \<Rightarrow> (None, m1) | (Inr s1, m1) \<Rightarrow> (Some (sc_ID s1, reread js s1), m1))"

definition remove_script :: "os_env \<Rightarrow> string \<Rightarrow> Manager \<Rightarrow> bool \<times> Manager" where
  "remove_script os i m = (case Manager_Delete os i m of (Inl e, m1) \<Rightarrow> (False, m1) | (Inr u, m1) \<Rightarrow> (True, m1))"

definition working :: "os_env \<Rightarrow> os_env" where
  "working os = os\<lparr>os_read := \<lambda>_. True, os_write := \<lambda>_ _. None\<rparr>"

lemma save_failed:
  assumes "Manager_Save (working os) s m = (Inl e, m1)"
  shows "m1 = m"
  using assms by (auto simp: Manager_Save_def write_file_def working_def Let_def split: if_splits)

lemma put_laws:
  "put_script js (working os) s m = (Some (k, v), m1) \<Longrightarrow> find_script js (working os) j m1 = (if j = k then Some v else find_script js (working os) j m)"
  "put_script js (working os) s m = (None, m1) \<Longrightarrow> m1 = m"
proof -
  assume "put_script js (working os) s m = (Some (k, v), m1)"
  then obtain s1 where s: "Manager_Save (working os) s m = (Inr s1, m1)" "k = sc_ID s1" "v = reread js s1"
    by (auto simp: put_script_def split: prod.splits sum.splits)
  note f = save_fields[OF s(1)]
  have p: "sc_FilePath s1 = script_path m (sc_ID s1)" by (subst f(2)) simp
  have g: "map_of (mg_files m1) = (map_of (mg_files m))(script_file (sc_ID s1) \<mapsto> File (serializeScript s1))" "script_path m1 = script_path m"
    by (subst f(3), simp add: bucket_put_map)+
  show "find_script js (working os) j m1 = (if j = k then Some v else find_script js (working os) j m)"
    using f(1) unfolding find_script_def Manager_Get_def parseFile_def g
    by (simp add: s(2,3) reread_def p working_def)
next
  assume "put_script js (working os) s m = (None, m1)"
  then show "m1 = m" using save_failed[of os s m] by (auto simp: put_script_def split: prod.splits sum.splits)
qed

lemma remove_laws:
  "remove_script os i m = (True, m1) \<Longrightarrow> find_script js os' j m1 = (if j = i then None else find_script js os' j m)"
  "remove_script os i m = (False, m1) \<Longrightarrow> m1 = m"
  by (auto simp: remove_script_def Manager_Delete_def find_script_def Manager_Get_def parseFile_def bucket_delete_map
      split: prod.splits sum.splits if_splits option.splits entry.splits)

interpretation scripts: keyed_store "\<lambda>_. True" "find_script js (working os)" "put_script js (working os)" "remove_script (working os)"
  by unfold_locales (auto simp: put_laws(1) remove_laws(1) dest: put_laws(2) remove_laws(2))

text \<open>A script that the file format can hold is read back as it was saved, up to blank lines at its start and its final line end.\<close>

definition writable :: "(string \<Rightarrow> jval option) \<Rightarrow> Script \<Rightarrow> bool" where
  "writable js s \<longleftrightarrow> js (meta_text (sc_Meta s)) = Some (meta_value (sc_Meta s)) \<and> list_all (\<lambda>l. \<not> HasPrefix blockly_close l) (split_lines (sc_BlocklyXML s))
     \<and> \<not> contains blockly_open (sc_LuaCode s)"

lemma reread_writable:
  assumes "Manager_Save os s m = (Inr s1, m1)" "writable js s"
  shows "reread js s1 = s1\<lparr>sc_Meta := fixed_meta (sc_Meta s), sc_LuaCode := stored_code (sc_LuaCode s)\<rparr>"
proof -
  note f = save_fields[OF assms(1)]
  have e: "sc_Meta s1 = sc_Meta s" "sc_LuaCode s1 = sc_LuaCode s" "sc_BlocklyXML s1 = sc_BlocklyXML s"
    by (subst f(2); simp)+
  have "reread js s1 = \<lparr>sc_ID = sc_ID s1, sc_Meta = fixed_meta (sc_Meta s1), sc_LuaCode = stored_code (sc_LuaCode s1),
     sc_BlocklyXML = sc_BlocklyXML s1, sc_FilePath = sc_FilePath s1\<rparr>"
    unfolding reread_def by (rule parse_serialized) (use assms(2) e in \<open>simp_all add: writable_def\<close>)
  then show ?thesis using e by (cases s1) simp
qed

lemma put_script_stored:
  assumes "put_script js os s m = (Some (k, v), m1)"
  shows "validScriptID k \<and> (sc_ID s \<noteq> [] \<longrightarrow> k = sc_ID s)
    \<and> (writable js s \<longrightarrow> v = s\<lparr>sc_ID := k, sc_Meta := fixed_meta (sc_Meta s), sc_LuaCode := stored_code (sc_LuaCode s), sc_FilePath := script_path m k\<rparr>)"
proof -
  obtain s1 where s: "Manager_Save os s m = (Inr s1, m1)" "k = sc_ID s1" "v = reread js s1"
    using assms by (auto simp: put_script_def split: prod.splits sum.splits)
  note f = save_fields[OF s(1)]
  have "s1\<lparr>sc_Meta := a, sc_LuaCode := b\<rparr> = s\<lparr>sc_ID := k, sc_Meta := a, sc_LuaCode := b, sc_FilePath := script_path m k\<rparr>" for a b
    by (subst f(2)) (simp add: s(2))
  then show ?thesis using f(1,4) reread_writable[OF s(1)] s(2,3) by simp
qed

lemma dir_kept: "put_script js os s m = (r, m1) \<Longrightarrow> mg_dir m1 = mg_dir m" "remove_script os i m = (r', m1) \<Longrightarrow> mg_dir m1 = mg_dir m"
  by (auto simp: put_script_def remove_script_def Manager_Save_def Manager_Delete_def write_file_def Let_def split: prod.splits sum.splits if_splits option.splits)

text \<open>
  C37: the directory of scripts is a table. After any sequence of saves and deletes, some of which are refused, with files that can be read and
  written, a lookup finds what the table of the successful ones has: each saved script under its valid identifier, its own or a new one, with its
  metadata, its Blockly text and its code as they were saved, if the file format can hold them, and all others as before.
\<close>

theorem scripts_refine_table:
  assumes "history (put_script js (working os)) (remove_script (working os)) ops m = (cs, m')"
  shows "(\<lambda>i. find_script js (working os) i m') = fold apply_change cs (\<lambda>i. find_script js (working os) i m)
    \<and> (\<forall>k v. Stored k v \<in> set cs \<longrightarrow> validScriptID k
          \<and> (\<exists>s. Put s \<in> set ops \<and> (sc_ID s \<noteq> [] \<longrightarrow> k = sc_ID s)
                \<and> (writable js s \<longrightarrow> v = s\<lparr>sc_ID := k, sc_Meta := fixed_meta (sc_Meta s), sc_LuaCode := stored_code (sc_LuaCode s),
                      sc_FilePath := script_path m k\<rparr>)))"
proof -
  have "validScriptID k \<and> (\<exists>s. Put s \<in> set ops \<and> (sc_ID s \<noteq> [] \<longrightarrow> k = sc_ID s)
                \<and> (writable js s \<longrightarrow> v = s\<lparr>sc_ID := k, sc_Meta := fixed_meta (sc_Meta s), sc_LuaCode := stored_code (sc_LuaCode s),
                      sc_FilePath := script_path m k\<rparr>))" if "Stored k v \<in> set cs" for k v
  proof -
    from history_stored[OF assms that, of "\<lambda>x. mg_dir x = mg_dir m"] dir_kept
    obtain s m1 m2 where s: "mg_dir m1 = mg_dir m" "Put s \<in> set ops" "put_script js (working os) s m1 = (Some (k, v), m2)"
      by metis
    have "script_path m1 = script_path m" using s(1) by (simp add: script_path_def fun_eq_iff)
    then show ?thesis using put_script_stored[OF s(3)] s(2) by auto
  qed
  then show ?thesis using scripts.history_table[OF TrueI assms] by blast
qed

theorem scripts_refine_table_witness:
  "\<exists>cs m'. history (put_script demo_json (working demo_os)) (remove_script (working demo_os)) [Put demo_script, Remove ''nope''] \<lparr>mg_dir = ''scripts'', mg_files = []\<rparr> = (cs, m')
     \<and> map_option sc_BlocklyXML (find_script demo_json (working demo_os) ''hall_light'' m') = Some ''<b/>''"
proof -
  let ?m = "\<lparr>mg_dir = ''scripts'', mg_files = []\<rparr>"
  have o: "working demo_os = demo_os" by (simp add: working_def demo_os_def)
  obtain s1 m1 where s: "Manager_Save demo_os demo_script ?m = (Inr s1, m1)" "sc_ID s1 = ''hall_light''" by (rule demo_save)
  then have p: "put_script demo_json (working demo_os) demo_script ?m = (Some (''hall_light'', reread demo_json s1), m1)"
    by (simp add: put_script_def o)
  have "remove_script (working demo_os) ''nope'' m1 = (False, m1)"
    using arg_cong[OF save_fields(3)[OF s(1)], of mg_files] by (simp add: s(2) remove_script_def Manager_Delete_def script_file_def)
  then have h: "history (put_script demo_json (working demo_os)) (remove_script (working demo_os)) [Put demo_script, Remove ''nope''] ?m
      = ([Stored ''hall_light'' (reread demo_json s1)], m1)" using p by simp
  have "writable demo_json demo_script"
    by (simp add: writable_def demo_json_def demo_script_def contains_def HasPrefix_def blockly_open_def blockly_close_def)
  then have b: "sc_BlocklyXML (reread demo_json s1) = ''<b/>''" using scripts_refine_table[OF h] by (auto simp: demo_script_def)
  have f: "find_script demo_json (working demo_os) ''hall_light'' m1 = Some (reread demo_json s1)"
    using fun_cong[OF conjunct1[OF scripts_refine_table[OF h]], of "''hall_light''"] by simp
  show ?thesis by (rule exI, rule exI, rule conjI, rule h) (simp add: f b)
qed

end
