(* ===== verification/Spec2Isabelle.thy ===== *)
theory Spec2Isabelle
  imports Builds Web_Automation Stored_Types Script_Table
begin

text \<open>
  A verification library for the Zigbee gateway \<^verbatim>\<open>zigbee-go-home\<close>: the serial protocol of the network co-processor (NCP) and its driver,
  the ZCL codec and clusters, the device store, the device manager and the coordinator, the MQTT bridge, the Lua automations, the web server,
  and the program that puts them together.

  \<^bold>\<open>How the program works.\<close> Bytes arrive on a serial port. \<^verbatim>\<open>internal/ncp\<close> finds frames in them, checks them,
  answers each with an acknowledgement, hands responses to the requests that wait for them and turns
  indications into calls of the coordinator's handlers. \<^verbatim>\<open>internal/coordinator\<close> keeps the devices: joins,
  leaves and announces change the store and the short-address index and start interviews; attribute
  reports and cluster commands update the device's properties; all of it is announced on an event bus.
  \<^verbatim>\<open>internal/zcl\<close> has the types, the codec and the cluster definitions, \<^verbatim>\<open>internal/store\<close> the database. Three parts listen to the bus:
  \<^verbatim>\<open>internal/mqtt\<close> publishes discoveries and states and takes commands, \<^verbatim>\<open>internal/automation\<close> runs the handlers of Lua scripts,
  \<^verbatim>\<open>internal/web\<close> passes events to WebSocket clients, shows pages and has an API for devices and scripts. \<^verbatim>\<open>cmd/zigbee-home\<close> reads the
  configuration, makes the parts and starts them in order.

  \<^bold>\<open>Theories, from the bottom up.\<close>
  \<^item> \<open>Prelude\<close>: words and bytes, slices, little-endian codecs, hex texts, the interface \<open>record_stream\<close> of record streams.
  \<^item> \<open>Go_Values\<close>, \<open>Go_Float\<close>, \<open>Go_Json\<close>: Go's dynamic values (\<^verbatim>\<open>interface{}\<close>), the float64 arithmetic the code uses,
    on bit patterns, and the decoding of parsed JSON into structs.
  \<^item> \<open>NCP_Crc\<close>, \<open>NCP_Hdlc\<close>, \<open>NCP_Zboss\<close>, \<open>NCP_Zcl\<close>: \<^verbatim>\<open>nrf52840_hdlc.go\<close>, \<^verbatim>\<open>nrf52840_zboss.go\<close> and \<^verbatim>\<open>zcl_parse.go\<close>:
    checksums, framing, frame codec, ZCL builders and parsers.
  \<^item> \<open>NCP_Driver\<close>, \<open>NCP_Api\<close>, \<open>NCP_Reset\<close>: \<^verbatim>\<open>nrf52840.go\<close>. The driver's state with its pending tables and
    channels, its atomic sections as a step relation over all interleavings; the operations over a
    link whose replies are arbitrary, with traces of what was sent and accepted (\<open>traced\<close>) to specify them; reset and reconnection.
  \<^item> \<open>ZCL_Types\<close>, \<open>ZCL_Registry\<close>, \<open>ZCL_Clusters\<close>: \<^verbatim>\<open>types.go\<close>, \<^verbatim>\<open>cluster.go\<close>, \<^verbatim>\<open>registry.go\<close> and the tables of \<^verbatim>\<open>internal/zcl/clusters\<close>.
  \<^item> \<open>Store\<close>: \<^verbatim>\<open>bolt.go\<close>, \<^verbatim>\<open>models.go\<close>, with what the JSON round trip of a saved device changes; the interface \<open>device_store\<close>,
    which extends the contract \<open>keyed_store\<close> of \<open>Keyed_Store\<close>.
  \<^item> \<open>Device_DB\<close>, \<open>Properties\<close>, \<open>Event_Bus\<close>, \<open>IEEE_Address\<close>: \<^verbatim>\<open>devicedb.go\<close>, \<^verbatim>\<open>properties.go\<close>, \<^verbatim>\<open>events.go\<close> and the
    address parsing of \<^verbatim>\<open>coordinator.go\<close>.
  \<^item> \<open>Device_Manager\<close>, \<open>Interview\<close>: \<^verbatim>\<open>device_manager.go\<close>; \<open>DM_Correct\<close>, \<open>DM_Theorems\<close>, \<open>Interview_Theorems\<close> have their
    lemmas and properties.
  \<^item> \<open>Coordinator\<close>: \<^verbatim>\<open>coordinator.go\<close>, \<^verbatim>\<open>binding.go\<close>, \<^verbatim>\<open>attribute_reader.go\<close>.
  \<^item> \<open>MQTT_Discovery\<close>, \<open>MQTT_Bridge\<close>, \<open>MQTT_Theorems\<close>: \<^verbatim>\<open>internal/mqtt\<close>: the discovery messages and entities, the bridge's state with its
    caches, delayed discoveries and commands, and what the broker retains.
  \<^item> \<open>Gateway\<close>: the path of a report from the serial bytes to the broker's retained state.
  \<^item> \<open>Automation_Scripts\<close>: \<^verbatim>\<open>manager.go\<close>, \<^verbatim>\<open>script.go\<close>: the file format and the directory; \<open>Script_Table\<close>: the directory
    keeps the contract \<open>keyed_store\<close>. \<open>Automation_Lua\<close>, \<open>Automation_Calls\<close>: the modules
    of \<^verbatim>\<open>lua_zigbee.go\<close> and \<^verbatim>\<open>lua_system.go\<close> and what a script can do with them. \<open>Automation_Sandbox\<close>:
    \<^verbatim>\<open>newSandboxedLuaState\<close>, the limit on \<^verbatim>\<open>string.rep\<close> with its 64-bit product. \<open>Automation_Engine\<close>,
    \<open>Automation_Engine_Theorems\<close>: \<^verbatim>\<open>engine.go\<close>, with the table of VMs that specifies it and the refinement.
  \<^item> \<open>Web_Hub\<close>: \<^verbatim>\<open>handlers_ws.go\<close>. \<open>Web_View\<close>, \<open>Web_Server\<close>: \<^verbatim>\<open>server.go\<close>, \<^verbatim>\<open>handlers_api.go\<close>, \<^verbatim>\<open>handlers_automation.go\<close>; \<open>Web_Theorems\<close>,
    \<open>Web_Automation\<close>: what requests can do. \<open>Stored_Types\<close>: the types of what is stored and shown.
  \<^item> \<open>Zigbee_Home\<close>: \<^verbatim>\<open>cmd/zigbee-home\<close>: configuration, logger, start and shutdown, over the automation feature as an
    interface (\<open>automation_feature\<close>), which the engine and, in \<open>Builds\<close>, the replacements of the builds without features implement.

  \<^bold>\<open>Concurrency.\<close> Goroutines are modelled by the atomic sections between their lock and channel operations, interleaved in every order:
  \<open>NCP_Driver.sys_step\<close> (driver), \<open>DM_Theorems.dm_step\<close> (device manager: each use of a lock and each call of the store, and the handlers that they make up), \<open>MQTT_Theorems.disc_reach\<close> (delayed discoveries),
  \<open>Web_Hub.hub_step\<close> (hub, handlers and pumps) and \<open>Automation_Engine.auto_step\<close> (engine, command loops, timers and reloads), where
  \<open>table_step\<close> is its specification and \<open>serial_reach\<close> the runs in which no script is reloaded twice at the same time. One run of Lua code, one
  API call and one HTTP request are single steps.

  \<^bold>\<open>Termination and bounds.\<close> Lua code is run by an interpreter that is an argument, a step function: \<open>run_lua\<close> is a
  \<^theory_text>\<open>partial_function\<close>, and \<open>None\<close> is a run that does not end; the context of a test run is a number of steps, with which the run
  always ends. \<open>None\<close> as the result of a request or of \<open>Zigbee_Home.main\<close> has this meaning. All other loops are total
  functions. Words have the width of the code's integers; \<^verbatim>\<open>int\<close> has 64 bits. Retries, queue lengths and cache sizes
  are those of the code.

  \<^bold>\<open>Not modelled.\<close> Operating-system I/O, logging, the clock and third-party packages (the serial port, bbolt, paho, gopher-lua, the WebSocket
  library, the YAML parser) are arguments of the definitions: whether a write succeeds, when a context ends, what a request is answered, what a file
  holds. So are the texts of HTTP and JSON, the HTML templates and the static files.
  The scripts, images and definition files that the repository ships are data, and the firmware of the NCP
  is another program.
\<close>

end
